(* ===== verification/Prelude.thy ===== *)
theory Prelude
  imports Complex_Main "HOL-Library.Multiset" "HOL-Library.Sublist" "HOL-Library.AList"
begin

text \<open>
  The vocabulary every component shares: the JavaScript operations on numbers, strings and
  arrays that the frontend sources use, and the lemmas about them.

  Numbers. A JavaScript number that only ever holds whole values (timestamps in milliseconds,
  byte counts, sequence numbers, indices) is an \<open>int\<close> or a \<open>nat\<close>; one that the code divides is
  a \<open>real\<close>, so rounding in the last bit of an IEEE double is not modelled.
  Strings. A string is a list of bytes (\<open>string\<close>); a literal outside ASCII is its UTF-8 bytes.
  Case folding is the ASCII one.
  Arrays and maps. An array is a list; a \<open>Map\<close> is an association list in insertion order, whose
  \<open>set\<close> is \<^const>\<open>AList.update\<close>; \<open>localStorage\<close> is a partial map.
\<close>

named_theorems js_simps \<open>equations of the JavaScript library operations\<close>

section \<open>Numbers\<close>

definition js_round :: "real \<Rightarrow> int" where
  "js_round x = \<lfloor>x + 1/2\<rfloor>"

definition clamp :: "'a::linorder \<Rightarrow> 'a \<Rightarrow> 'a \<Rightarrow> 'a" where
  "clamp lo hi x = max lo (min hi x)"

text \<open>The remainder operator \<open>%\<close>, which truncates towards zero.\<close>

definition js_rem :: "int \<Rightarrow> int \<Rightarrow> int" where
  "js_rem a b = (if 0 \<le> a then a mod b else - ((- a) mod b))"

lemma js_rem_nonneg [simp]: "0 \<le> a \<Longrightarrow> js_rem a b = a mod b"
  by (simp add: js_rem_def)

lemma js_round_int [simp]: "js_round (of_int n) = n"
  unfolding js_round_def by linarith

lemma js_round_mono: "x \<le> y \<Longrightarrow> js_round x \<le> js_round y"
  by (simp add: js_round_def floor_mono)

lemma js_round_nonneg: "0 \<le> x \<Longrightarrow> 0 \<le> js_round x"
  by (simp add: js_round_def)

lemma clamp_bounds: "lo \<le> hi \<Longrightarrow> lo \<le> clamp lo hi x \<and> clamp lo hi x \<le> hi"
  by (simp add: clamp_def)

lemma clamp_id: "lo \<le> x \<Longrightarrow> x \<le> hi \<Longrightarrow> clamp lo hi x = x"
  by (simp add: clamp_def)

section \<open>Strings\<close>

definition digit_char :: "nat \<Rightarrow> char" where
  "digit_char d = char_of (48 + d)"

fun show_nat :: "nat \<Rightarrow> string" where
  "show_nat n = (if n < 10 then [digit_char n] else show_nat (n div 10) @ [digit_char (n mod 10)])"

declare show_nat.simps [simp del]

definition show_int :: "int \<Rightarrow> string" where
  "show_int i = (if i < 0 then CHR ''-'' # show_nat (nat (- i)) else show_nat (nat i))"

definition pad_start :: "nat \<Rightarrow> char \<Rightarrow> string \<Rightarrow> string" where
  "pad_start n c s = replicate (n - length s) c @ s"

text \<open>\<open>toFixed\<close>: the decimal of the nearest multiple of \<open>10\<^sup>-\<^sup>d\<close>, ties upwards, sign apart.\<close>

definition fixed_abs :: "nat \<Rightarrow> real \<Rightarrow> string" where
  "fixed_abs d x = (let k = pad_start (Suc d) (CHR ''0'') (show_nat (nat \<lfloor>x * 10 ^ d + 1/2\<rfloor>))
     in if d = 0 then k else take (length k - d) k @ ''.'' @ drop (length k - d) k)"

definition to_fixed :: "nat \<Rightarrow> real \<Rightarrow> string" where
  "to_fixed d x = (if x < 0 then CHR ''-'' # fixed_abs d (- x) else fixed_abs d x)"

definition is_space :: "char \<Rightarrow> bool" where
  "is_space c \<longleftrightarrow> c \<in> {CHR '' '', CHR 0x09, CHR 0x0A, CHR 0x0B, CHR 0x0C, CHR 0x0D}"

definition js_trim :: "string \<Rightarrow> string" where
  "js_trim s = rev (dropWhile is_space (rev (dropWhile is_space s)))"

definition lower_char :: "char \<Rightarrow> char" where
  "lower_char c = (let n = of_char c :: nat in if 65 \<le> n \<and> n \<le> 90 then char_of (n + 32) else c)"

definition upper_char :: "char \<Rightarrow> char" where
  "upper_char c = (let n = of_char c :: nat in if 97 \<le> n \<and> n \<le> 122 then char_of (n - 32) else c)"

definition js_lower :: "string \<Rightarrow> string" where
  "js_lower s = map lower_char s"

definition js_upper :: "string \<Rightarrow> string" where
  "js_upper s = map upper_char s"

text \<open>\<open>indexOf\<close> of one character from a start position, and \<open>lastIndexOf\<close>.\<close>

fun find_index :: "('a \<Rightarrow> bool) \<Rightarrow> 'a list \<Rightarrow> nat option" where
  "find_index p [] = None"
| "find_index p (x # xs) = (if p x then Some 0 else map_option Suc (find_index p xs))"

definition index_from :: "char \<Rightarrow> string \<Rightarrow> nat \<Rightarrow> nat option" where
  "index_from c s i = map_option ((+) i) (find_index (\<lambda>x. x = c) (drop i s))"

definition last_index :: "char \<Rightarrow> string \<Rightarrow> nat option" where
  "last_index c s = map_option (\<lambda>k. length s - 1 - k) (find_index (\<lambda>x. x = c) (rev s))"

fun join_with :: "string \<Rightarrow> string list \<Rightarrow> string" where
  "join_with sep [] = []"
| "join_with sep [x] = x"
| "join_with sep (x # xs) = x @ sep @ join_with sep xs"

lemma js_trim_pad:
  assumes "list_all is_space p" and "list_all is_space q" and "s \<noteq> []"
    and "\<not> is_space (hd s)" and "\<not> is_space (last s)"
  shows "js_trim (p @ s @ q) = s"
proof -
  have dw: "dropWhile is_space (u @ v) = v"
    if "list_all is_space u" "v \<noteq> []" "\<not> is_space (hd v)" for u v
    using that by (simp add: dropWhile_append list_all_iff) (cases v; simp)
  have "dropWhile is_space (p @ s @ q) = s @ q" using assms by (intro dw) auto
  moreover have "dropWhile is_space (rev q @ rev s) = rev s"
    using assms by (intro dw) (auto simp: hd_rev)
  ultimately show ?thesis by (simp add: js_trim_def)
qed

lemma find_index_Some:
  "find_index p xs = Some i \<longleftrightarrow> i < length xs \<and> p (xs ! i) \<and> (\<forall>j<i. \<not> p (xs ! j))"
proof (induction xs arbitrary: i)
  case (Cons x xs)
  show ?case
    by (cases i) (auto simp: Cons.IH nth_Cons split: nat.splits)
qed simp

lemma find_index_None: "find_index p xs = None \<longleftrightarrow> (\<forall>x\<in>set xs. \<not> p x)"
  by (induction xs) auto

lemma show_nat_not_Nil [simp]: "show_nat n \<noteq> []"
  by (subst show_nat.simps) simp

text \<open>Conditional equations that evaluate \<^const>\<open>show_nat\<close> on numerals.\<close>

lemma show_nat_small [js_simps]: "n < 10 \<Longrightarrow> show_nat n = [digit_char n]"
  by (subst show_nat.simps) simp

lemma show_nat_big [js_simps]:
  "\<not> n < 10 \<Longrightarrow> show_nat n = show_nat (n div 10) @ [digit_char (n mod 10)]"
  by (subst show_nat.simps) simp

lemma digit_char_numeral [js_simps]:
  "digit_char 0 = CHR ''0''" "digit_char 1 = CHR ''1''" "digit_char 2 = CHR ''2''"
  "digit_char 3 = CHR ''3''" "digit_char 4 = CHR ''4''" "digit_char 5 = CHR ''5''"
  "digit_char 6 = CHR ''6''" "digit_char 7 = CHR ''7''" "digit_char 8 = CHR ''8''"
  "digit_char 9 = CHR ''9''" "digit_char (Suc 0) = CHR ''1''"
  by code_simp+

lemmas [js_simps] = show_int_def

lemma of_char_digit: "d < 10 \<Longrightarrow> of_char (digit_char d) = 48 + (d::nat)"
  by (simp add: digit_char_def)

definition digits_value :: "string \<Rightarrow> nat" where
  "digits_value = foldl (\<lambda>a c. 10 * a + (of_char c - 48)) 0"

lemma digits_value_show: "digits_value (show_nat n) = n"
proof (induction n rule: show_nat.induct)
  case (1 n)
  then show ?case
    by (subst show_nat.simps) (auto simp: digits_value_def of_char_digit)
qed

lemma show_nat_inj [simp]: "show_nat m = show_nat n \<longleftrightarrow> m = n"
  by (metis digits_value_show)

lemma show_nat_digits: "c \<in> set (show_nat n) \<Longrightarrow> 48 \<le> (of_char c :: nat) \<and> (of_char c :: nat) \<le> 57"
proof (induction n rule: show_nat.induct)
  case (1 n)
  have d: "48 \<le> (of_char (digit_char k) :: nat) \<and> (of_char (digit_char k) :: nat) \<le> 57"
    if "k < 10" for k
    using that by (simp add: of_char_digit)
  show ?case
  proof (cases "n < 10")
    case True
    with "1.prems" have "c = digit_char n" by (subst (asm) show_nat.simps) simp
    with True d show ?thesis by simp
  next
    case False
    with "1.prems" have "c \<in> set (show_nat (n div 10)) \<or> c = digit_char (n mod 10)"
      by (subst (asm) show_nat.simps) auto
    with False "1.IH" d [of "n mod 10"] show ?thesis by auto
  qed
qed

lemma show_int_chars:
  "c \<in> set (show_int i) \<Longrightarrow> c = CHR ''-'' \<or> (48 \<le> (of_char c :: nat) \<and> (of_char c :: nat) \<le> 57)"
  using show_nat_digits by (fastforce simp: show_int_def split: if_splits)

lemma colon_notin_show_int [simp]: "CHR '':'' \<notin> set (show_int i)"
  using show_int_chars [of "CHR '':''" i] by auto

lemma dash_notin_show_nat: "CHR ''-'' \<notin> set (show_nat n)"
  using show_nat_digits [of "CHR ''-''" n] by auto

lemma show_int_inj [simp]: "show_int i = show_int j \<longleftrightarrow> i = j"
proof
  assume eq: "show_int i = show_int j"
  have hd_show: "CHR ''-'' \<noteq> hd (show_nat n)" for n
    using dash_notin_show_nat [of n] by (metis hd_in_set show_nat_not_Nil)
  show "i = j"
  proof (cases "i < 0"; cases "j < 0")
    assume "i < 0" "\<not> j < 0"
    with eq have "show_nat (nat j) = CHR ''-'' # show_nat (nat (- i))" by (simp add: show_int_def)
    then have "CHR ''-'' = hd (show_nat (nat j))" by simp
    with hd_show show ?thesis by blast
  next
    assume "\<not> i < 0" "j < 0"
    with eq have "show_nat (nat i) = CHR ''-'' # show_nat (nat (- j))" by (simp add: show_int_def)
    then have "CHR ''-'' = hd (show_nat (nat i))" by simp
    with hd_show show ?thesis by blast
  qed (use eq in \<open>auto simp: show_int_def\<close>)
qed simp

text \<open>A key that ends in a colon and a number determines both of its parts.\<close>

lemma colon_key_inj: "s @ '':'' @ show_int i = t @ '':'' @ show_int j \<longleftrightarrow> s = t \<and> i = j"
proof
  assume eq: "s @ '':'' @ show_int i = t @ '':'' @ show_int j"
  let ?last = "\<lambda>xs. takeWhile (\<lambda>c. c \<noteq> CHR '':'') (rev xs)"
  have key: "?last (u @ '':'' @ show_int k) = rev (show_int k)" for u k
    by (simp add: takeWhile_append)
  from eq key have "rev (show_int i) = rev (show_int j)" by metis
  then have "i = j" by simp
  with eq show "s = t \<and> i = j" by simp
qed simp

section \<open>Arrays\<close>

text \<open>\<open>slice(-n)\<close> for a positive \<open>n\<close>.\<close>

definition last_n :: "nat \<Rightarrow> 'a list \<Rightarrow> 'a list" where
  "last_n n xs = drop (length xs - n) xs"

lemma length_last_n [simp]: "length (last_n n xs) = min n (length xs)"
  by (simp add: last_n_def)

lemma suffix_last_n: "suffix (last_n n xs) xs"
  by (simp add: last_n_def suffix_drop)

lemma set_last_n: "set (last_n n xs) \<subseteq> set xs"
  by (simp add: last_n_def set_drop_subset)

lemma last_n_append_last_n: "last_n n (last_n n xs @ ys) = last_n n (xs @ ys)"
proof (cases "length xs \<le> n")
  case True
  then show ?thesis by (simp add: last_n_def)
next
  case False
  then show ?thesis by (cases "length ys \<le> n") (simp_all add: last_n_def add.commute)
qed

lemma last_n_id: "length xs \<le> n \<Longrightarrow> last_n n xs = xs"
  by (simp add: last_n_def)

text \<open>\<open>Map.prototype.set\<close>: the entries afterwards.\<close>

lemma in_update_iff:
  assumes "distinct (map fst m)"
  shows "(k', x) \<in> set (AList.update k v m) \<longleftrightarrow> (if k' = k then x = v else (k', x) \<in> set m)"
proof -
  have d: "distinct (map fst (AList.update k v m))" using assms by (rule distinct_update)
  show ?thesis
    unfolding map_of_eq_Some_iff [OF d, symmetric] map_of_eq_Some_iff [OF assms, symmetric]
    by (auto simp: update_conv')
qed

text \<open>\<open>Array.prototype.sort\<close> with a comparator: stable, so insertion from the right.\<close>

fun js_insert :: "('a \<Rightarrow> 'a \<Rightarrow> int) \<Rightarrow> 'a \<Rightarrow> 'a list \<Rightarrow> 'a list" where
  "js_insert cmp x [] = [x]"
| "js_insert cmp x (y # ys) = (if cmp x y \<le> 0 then x # y # ys else y # js_insert cmp x ys)"

definition js_sort :: "('a \<Rightarrow> 'a \<Rightarrow> int) \<Rightarrow> 'a list \<Rightarrow> 'a list" where
  "js_sort cmp xs = foldr (js_insert cmp) xs []"

lemma js_sort_simps [simp]:
  "js_sort cmp [] = []" "js_sort cmp (x # xs) = js_insert cmp x (js_sort cmp xs)"
  by (simp_all add: js_sort_def)

lemma mset_js_insert [simp]: "mset (js_insert cmp x xs) = add_mset x (mset xs)"
  by (induction xs) auto

lemma mset_js_sort [simp]: "mset (js_sort cmp xs) = mset xs"
  by (induction xs) auto

lemma set_js_insert [simp]: "set (js_insert cmp x xs) = insert x (set xs)"
  by (induction xs) auto

lemma set_js_sort [simp]: "set (js_sort cmp xs) = set xs"
  by (induction xs) auto

lemma length_js_sort [simp]: "length (js_sort cmp xs) = length xs"
  using mset_js_sort [of cmp xs] by (metis size_mset)

lemma distinct_js_sort [simp]: "distinct (js_sort cmp xs) = distinct xs"
  using mset_eq_imp_distinct_iff [OF mset_js_sort] .

text \<open>\<open>Math.max\<close> and \<open>Math.min\<close> over a spread argument list with a first argument.\<close>

definition max_of :: "real \<Rightarrow> real list \<Rightarrow> real" where
  "max_of x xs = foldl max x xs"

definition min_of :: "real \<Rightarrow> real list \<Rightarrow> real" where
  "min_of x xs = foldl min x xs"

lemma max_of_Cons: "max_of x (y # ys) = max_of (max x y) ys"
  by (simp add: max_of_def)

lemma min_of_Cons: "min_of x (y # ys) = min_of (min x y) ys"
  by (simp add: min_of_def)

lemma max_of_ge_all: "x \<le> max_of x xs \<and> (\<forall>y\<in>set xs. y \<le> max_of x xs)"
proof (induction xs arbitrary: x)
  case (Cons z zs)
  from Cons.IH [of "max x z"] show ?case by (auto simp: max_of_Cons)
qed (simp add: max_of_def)

lemma min_of_le_all: "min_of x xs \<le> x \<and> (\<forall>y\<in>set xs. min_of x xs \<le> y)"
proof (induction xs arbitrary: x)
  case (Cons z zs)
  from Cons.IH [of "min x z"] show ?case by (auto simp: min_of_Cons)
qed (simp add: min_of_def)

lemma max_of_ge: "y \<in> insert x (set xs) \<Longrightarrow> y \<le> max_of x xs"
  using max_of_ge_all [of x xs] by auto

lemma min_of_le: "y \<in> insert x (set xs) \<Longrightarrow> min_of x xs \<le> y"
  using min_of_le_all [of x xs] by auto

lemma max_of_in: "max_of x xs \<in> insert x (set xs)"
proof (induction xs arbitrary: x)
  case (Cons z zs)
  then show ?case using Cons.IH [of "max x z"] by (auto simp: max_of_Cons max_def)
qed (simp add: max_of_def)

lemma min_of_in: "min_of x xs \<in> insert x (set xs)"
proof (induction xs arbitrary: x)
  case (Cons z zs)
  then show ?case using Cons.IH [of "min x z"] by (auto simp: min_of_Cons min_def)
qed (simp add: min_of_def)

text \<open>The counting loop \<open>for (t = a; t <= b; t += d)\<close> as the list of its loop values.\<close>

definition loop_values :: "int \<Rightarrow> int \<Rightarrow> int \<Rightarrow> int list" where
  "loop_values a b d = (if b < a \<or> d \<le> 0 then [] else map (\<lambda>k. a + int k * d) [0..<Suc (nat ((b - a) div d))])"

lemma loop_values_step:
  assumes "0 < d" and "a \<le> b"
  shows "loop_values a b d = a # loop_values (a + d) b d"
proof (cases "a + d \<le> b")
  case False
  with assms have "(b - a) div d = 0" by (intro div_pos_pos_trivial) auto
  with assms False show ?thesis by (simp add: loop_values_def)
next
  case True
  have "(b - a) div d = (b - (a + d)) div d + 1"
    using assms by (metis add_diff_cancel_right' diff_add_eq diff_diff_add div_add_self2 less_irrefl)
  moreover have "0 \<le> (b - (a + d)) div d"
    using assms True by (simp add: pos_imp_zdiv_nonneg_iff)
  ultimately have n: "nat ((b - a) div d) = Suc (nat ((b - (a + d)) div d))" by simp
  show ?thesis
    unfolding loop_values_def using assms True n
    by (simp add: upt_conv_Cons map_Suc_upt [symmetric] algebra_simps del: upt_Suc)
qed

lemma set_loop_values: "t \<in> set (loop_values a b d) \<Longrightarrow> 0 < d \<Longrightarrow> a \<le> t \<and> t \<le> b \<and> d dvd (t - a)"
proof -
  assume t: "t \<in> set (loop_values a b d)" and d: "0 < d"
  then have ab: "a \<le> b" by (simp add: loop_values_def split: if_splits)
  with d have q: "0 \<le> (b - a) div d" by (simp add: pos_imp_zdiv_nonneg_iff)
  from t ab d obtain k where k: "t = a + int k * d" "k < Suc (nat ((b - a) div d))"
    by (auto simp: loop_values_def simp del: upt_Suc)
  with q have "int k \<le> (b - a) div d" by linarith
  with d have "int k * d \<le> (b - a) div d * d" by (simp add: mult_right_mono)
  also have "\<dots> \<le> b - a" using d by (simp add: minus_mod_eq_div_mult [symmetric])
  finally show ?thesis using k d by simp
qed

lemma length_loop_values:
  "0 < d \<Longrightarrow> a \<le> b \<Longrightarrow> int (length (loop_values a b d)) = (b - a) div d + 1"
  by (simp add: loop_values_def pos_imp_zdiv_nonneg_iff)

lemma sorted_loop_values: "0 < d \<Longrightarrow> sorted_wrt (<) (loop_values a b d)"
  by (auto simp: loop_values_def sorted_wrt_iff_nth_less simp del: upt_Suc)

end
