(* ===== verification/Band_Physics.thy ===== *)
theory Band_Physics
  imports Prelude
begin

text \<open>
  The physics of the rubber band (\<open>rubberband.ts\<close>): the constants, the rational falloff and its
  inverse, and the propagator of the damped spring. The propagator is shown to be the exact
  solution of the oscillator's differential equation, so that it does not depend on how time is cut
  into frames and never gains energy. Lengths, velocities and times are reals.
\<close>

definition falloff_c :: real where "falloff_c = 55 / 100"
definition max_pull_ratio :: real where "max_pull_ratio = 35 / 100"
definition max_pull_px :: real where "max_pull_px = 160"
definition min_pull_px :: real where "min_pull_px = 32"
definition hold_omega :: real where "hold_omega = 34"
definition track_omega :: real where "track_omega = 80"
definition touch_omega :: real where "touch_omega = 120"
definition release_omega :: real where "release_omega = 14"
definition release_omega_fling :: real where "release_omega_fling = 26"
definition release_zeta :: real where "release_zeta = 55 / 100"
definition idle_ms :: real where "idle_ms = 90"
definition key_impulse :: real where "key_impulse = 900"
definition rest_px :: real where "rest_px = 1 / 2"
definition rest_vel :: real where "rest_vel = 8"
definition line_px :: real where "line_px = 16"
definition leak_tau :: real where "leak_tau = 1 / 10"
definition deflate_rel :: real where "deflate_rel = 9 / 10"
definition fling_min_px :: real where "fling_min_px = 4"
definition notch_px :: real where "notch_px = 30"
definition notch_ms :: real where "notch_ms = 25"

section \<open>The give\<close>

definition falloff :: "real \<Rightarrow> real \<Rightarrow> real" where
  "falloff raw mx = (let r = \<bar>raw\<bar> in (r * mx * falloff_c) / (mx + falloff_c * r))"

definition unfalloff :: "real \<Rightarrow> real \<Rightarrow> real" where
  "unfalloff pull mx = (let p = min pull (mx * (98 / 100)) in (p * mx) / (falloff_c * (mx - p)))"

lemma falloff_bounds: "0 < mx \<Longrightarrow> 0 \<le> falloff raw mx \<and> falloff raw mx < mx"
proof -
  assume mx: "0 < mx"
  have den: "0 < mx + falloff_c * \<bar>raw\<bar>" using mx by (simp add: falloff_c_def add_pos_nonneg)
  have "\<bar>raw\<bar> * mx * falloff_c < mx * (mx + falloff_c * \<bar>raw\<bar>)" using mx by (simp add: algebra_simps)
  with den mx show ?thesis by (simp add: falloff_def falloff_c_def Let_def divide_less_eq)
qed

lemma falloff_mono:
  assumes "0 < mx" and "\<bar>r\<bar> < \<bar>s\<bar>"
  shows "falloff r mx < falloff s mx"
proof -
  have dens: "0 < mx + falloff_c * \<bar>r\<bar>" "0 < mx + falloff_c * \<bar>s\<bar>" using assms(1) by (simp_all add: falloff_c_def add_pos_nonneg)
  have "\<bar>r\<bar> * (mx * mx * falloff_c) < \<bar>s\<bar> * (mx * mx * falloff_c)"
    using assms by (intro mult_strict_right_mono) (simp_all add: falloff_c_def)
  then have "\<bar>r\<bar> * mx * falloff_c * (mx + falloff_c * \<bar>s\<bar>) < \<bar>s\<bar> * mx * falloff_c * (mx + falloff_c * \<bar>r\<bar>)"
    by (simp add: algebra_simps)
  with dens show ?thesis by (simp add: falloff_def Let_def divide_less_eq less_divide_eq mult.commute)
qed

lemma falloff_unfalloff:
  assumes "0 < mx" and "0 \<le> p" and "p \<le> mx * (98 / 100)"
  shows "falloff (unfalloff p mx) mx = p"
proof -
  have lt: "0 < mx - p" using assms by simp
  have u: "unfalloff p mx = (p * mx) / (falloff_c * (mx - p))" "0 \<le> unfalloff p mx"
    using assms lt by (simp_all add: unfalloff_def Let_def min_def falloff_c_def)
  have c: "falloff_c * unfalloff p mx = p * mx / (mx - p)" unfolding u(1) using lt by (simp add: falloff_c_def field_simps)
  have den: "mx + p * mx / (mx - p) = mx * mx / (mx - p)" using lt by (simp add: field_simps)
  have "falloff (unfalloff p mx) mx = (p * mx / (mx - p)) * mx / (mx + p * mx / (mx - p))"
  proof -
    have n: "unfalloff p mx * mx * falloff_c = (falloff_c * unfalloff p mx) * mx" by (simp only: ac_simps)
    show ?thesis unfolding falloff_def Let_def abs_of_nonneg [OF u(2)] n c by (rule refl)
  qed
  also have "\<dots> = p" unfolding den using assms(1) lt by (simp add: field_simps)
  finally show ?thesis .
qed

section \<open>The spring\<close>

text \<open>\<open>propagate\<close> on offset and velocity, for a target that is constant across the frame.\<close>

definition propagate :: "real \<Rightarrow> real \<Rightarrow> real \<Rightarrow> real \<Rightarrow> real \<times> real \<Rightarrow> real \<times> real" where
  "propagate target w zeta dt s = (let (offset, vel) = s; x = offset - target; v = vel; decay = exp (- (zeta * w * dt)) in
     if zeta < 1 then
       let wd = w * sqrt (1 - zeta * zeta); c = cos (wd * dt); sn = sin (wd * dt) in
       (target + decay * (x * c + ((v + zeta * w * x) / wd) * sn),
        decay * (v * c - ((w * w * x + zeta * w * v) / wd) * sn))
     else (target + decay * (x + (v + w * x) * dt), decay * (v - w * dt * (v + w * x))))"

lemma damped_frequency: "0 < zeta \<Longrightarrow> zeta < 1 \<Longrightarrow> 0 < w \<Longrightarrow>
    0 < w * sqrt (1 - zeta * zeta) \<and> (w * sqrt (1 - zeta * zeta))\<^sup>2 = w\<^sup>2 * (1 - zeta\<^sup>2)"
proof -
  assume a: "0 < zeta" "zeta < 1" "0 < w"
  then have "zeta * zeta < 1 * 1" by (intro mult_strict_mono) auto
  with a show ?thesis by (simp add: power_mult_distrib power2_eq_square [of zeta])
qed

lemma propagate_0 [simp]: "propagate target w zeta 0 s = s"
  by (cases s) (simp add: propagate_def Let_def)

lemma propagate_under:
  "zeta < 1 \<Longrightarrow> wd = w * sqrt (1 - zeta * zeta) \<Longrightarrow> propagate target w zeta dt (x + target, v) =
     (target + exp (- (zeta * w * dt)) * (x * cos (wd * dt) + ((v + zeta * w * x) / wd) * sin (wd * dt)),
      exp (- (zeta * w * dt)) * (v * cos (wd * dt) - ((w * w * x + zeta * w * v) / wd) * sin (wd * dt)))"
  by (simp add: propagate_def Let_def)

lemma propagate_critical:
  "propagate target w 1 dt (x + target, v) =
     (target + exp (- (w * dt)) * (x + (v + w * x) * dt), exp (- (w * dt)) * (v - w * dt * (v + w * x)))"
  by (simp add: propagate_def Let_def)

text \<open>Both forms are a decaying factor times an elementary motion, whose derivative is of the same form.\<close>

lemma damped_wave_deriv:
  "((\<lambda>t. exp (- (a * t)) * (p * cos (b * t) + q * sin (b * t))) has_real_derivative
     exp (- (a * t)) * ((b * q - a * p) * cos (b * t) + (- (a * q) - b * p) * sin (b * t))) (at t)"
  by (auto intro!: derivative_eq_intros simp: algebra_simps)

lemma damped_line_deriv:
  "((\<lambda>t. exp (- (a * t)) * (p + q * t)) has_real_derivative exp (- (a * t)) * ((q - a * p) + - (a * q) * t)) (at t)"
  by (auto intro!: derivative_eq_intros simp: algebra_simps)

text \<open>The spring's motion, with its damping between none and critical.\<close>

definition spring :: "real \<Rightarrow> real \<Rightarrow> bool" where
  "spring w zeta \<longleftrightarrow> 0 < w \<and> 0 < zeta \<and> zeta \<le> 1"

definition motion :: "real \<Rightarrow> real \<Rightarrow> real \<Rightarrow> real \<Rightarrow> real \<Rightarrow> real" where
  "motion w zeta x v t = fst (propagate 0 w zeta t (x, v))"

definition motion_vel :: "real \<Rightarrow> real \<Rightarrow> real \<Rightarrow> real \<Rightarrow> real \<Rightarrow> real" where
  "motion_vel w zeta x v t = snd (propagate 0 w zeta t (x, v))"

lemma propagate_motion:
  "propagate target w zeta dt (offset, vel) =
     (target + motion w zeta (offset - target) vel dt, motion_vel w zeta (offset - target) vel dt)"
  by (simp add: motion_def motion_vel_def propagate_def Let_def)

lemma motion_0 [simp]: "motion w zeta x v 0 = x" "motion_vel w zeta x v 0 = v"
  by (simp_all add: motion_def motion_vel_def)

lemma motion_under:
  assumes "zeta < 1" and "wd = w * sqrt (1 - zeta * zeta)"
  shows "motion w zeta x v t = exp (- (zeta * w * t)) * (x * cos (wd * t) + ((v + zeta * w * x) / wd) * sin (wd * t))"
    and "motion_vel w zeta x v t = exp (- (zeta * w * t)) * (v * cos (wd * t) + (- ((w * w * x + zeta * w * v) / wd)) * sin (wd * t))"
  using assms by (simp_all add: motion_def motion_vel_def propagate_def Let_def)

lemma motion_critical:
  "motion w 1 x v t = exp (- (w * t)) * (x + (v + w * x) * t)"
  "motion_vel w 1 x v t = exp (- (w * t)) * (v + (- (w * (v + w * x))) * t)"
  by (simp_all add: motion_def motion_vel_def propagate_def Let_def algebra_simps)

lemma motion_deriv:
  assumes "spring w zeta"
  shows "(motion w zeta x v has_real_derivative motion_vel w zeta x v t) (at t)"
proof (cases "zeta = 1")
  case True
  have eq: "motion w 1 x v = (\<lambda>t. exp (- (w * t)) * (x + (v + w * x) * t))" by (simp add: fun_eq_iff motion_critical)
  show ?thesis unfolding True eq
    by (rule DERIV_cong [OF damped_line_deriv]) (simp add: motion_critical algebra_simps)
next
  case False
  define wd where "wd = w * sqrt (1 - zeta * zeta)"
  have z: "0 < zeta" "zeta < 1" "0 < w" using assms False by (auto simp: spring_def)
  have wd: "0 < wd" "wd\<^sup>2 = w\<^sup>2 * (1 - zeta\<^sup>2)" using damped_frequency [OF z] by (simp_all add: wd_def)
  have eq: "motion w zeta x v = (\<lambda>t. exp (- ((zeta * w) * t)) * (x * cos (wd * t) + ((v + zeta * w * x) / wd) * sin (wd * t)))"
    by (simp add: fun_eq_iff motion_under [OF z(2) wd_def])
  have c: "wd * ((v + zeta * w * x) / wd) - (zeta * w) * x = v" using wd(1) by simp
  have "x * wd = x * wd\<^sup>2 / wd" using wd(1) by (simp add: power2_eq_square)
  then have s: "- ((zeta * w) * ((v + zeta * w * x) / wd)) - wd * x = - ((w * w * x + zeta * w * v) / wd)"
    unfolding wd(2) using wd(1) by (simp add: field_simps power2_eq_square)
  show ?thesis unfolding eq
    by (rule DERIV_cong [OF damped_wave_deriv]) (simp only: c s motion_under(2) [OF z(2) wd_def])
qed

lemma motion_vel_deriv:
  assumes "spring w zeta"
  shows "(motion_vel w zeta x v has_real_derivative
      - (w\<^sup>2 * motion w zeta x v t) - 2 * zeta * w * motion_vel w zeta x v t) (at t)"
proof (cases "zeta = 1")
  case True
  have eq: "motion_vel w 1 x v = (\<lambda>t. exp (- (w * t)) * (v + (- (w * (v + w * x))) * t))" by (simp add: fun_eq_iff motion_critical)
  show ?thesis unfolding True eq
    by (rule DERIV_cong [OF damped_line_deriv]) (simp add: motion_critical algebra_simps power2_eq_square)
next
  case False
  define wd where "wd = w * sqrt (1 - zeta * zeta)"
  have z: "0 < zeta" "zeta < 1" "0 < w" using assms False by (auto simp: spring_def)
  have wd: "0 < wd" "wd\<^sup>2 = w\<^sup>2 * (1 - zeta\<^sup>2)" using damped_frequency [OF z] by (simp_all add: wd_def)
  let ?q = "- ((w * w * x + zeta * w * v) / wd)"
  have eq: "motion_vel w zeta x v = (\<lambda>t. exp (- ((zeta * w) * t)) * (v * cos (wd * t) + ?q * sin (wd * t)))"
    by (simp add: fun_eq_iff motion_under [OF z(2) wd_def])
  have c: "wd * ?q - (zeta * w) * v = - (w\<^sup>2 * x) - 2 * zeta * w * v" using wd(1) by (simp add: power2_eq_square)
  have "wd * (- ((zeta * w) * ?q) - wd * v) = zeta * w * (w * w * x + zeta * w * v) - wd\<^sup>2 * v"
    using wd(1) by (simp add: right_diff_distrib power2_eq_square)
  also have "\<dots> = - (w\<^sup>2 * (v + zeta * w * x)) + 2 * zeta * w * (w * w * x + zeta * w * v)"
    unfolding wd(2) by (simp add: algebra_simps power2_eq_square)
  also have "\<dots> = wd * (- (w\<^sup>2 * ((v + zeta * w * x) / wd)) - 2 * zeta * w * ?q)"
    using wd(1) by (simp add: right_diff_distrib)
  finally have s: "- ((zeta * w) * ?q) - wd * v = - (w\<^sup>2 * ((v + zeta * w * x) / wd)) - 2 * zeta * w * ?q"
    using wd(1) by (simp only: mult_cancel_left) simp
  show ?thesis unfolding eq
    by (rule DERIV_cong [OF damped_wave_deriv])
      (simp only: c s motion_under [OF z(2) wd_def], simp add: algebra_simps)
qed

section \<open>Energy\<close>

definition energy :: "real \<Rightarrow> real \<Rightarrow> real \<Rightarrow> real" where
  "energy w x v = w\<^sup>2 * x\<^sup>2 + v\<^sup>2"

lemma energy_nonincreasing:
  assumes x: "\<And>t. (x has_real_derivative v t) (at t)"
    and v: "\<And>t. (v has_real_derivative - (w\<^sup>2 * x t) - 2 * zeta * w * v t) (at t)"
    and "0 \<le> zeta * w" and "s \<le> t"
  shows "energy w (x t) (v t) \<le> energy w (x s) (v s)"
proof (rule DERIV_nonpos_imp_nonincreasing [OF assms(4)])
  fix u
  have "((\<lambda>t. energy w (x t) (v t)) has_real_derivative
      w\<^sup>2 * (2 * x u * v u) + 2 * v u * (- (w\<^sup>2 * x u) - 2 * zeta * w * v u)) (at u)"
    unfolding energy_def by (auto intro!: derivative_eq_intros x v simp: algebra_simps)
  moreover have "w\<^sup>2 * (2 * x u * v u) + 2 * v u * (- (w\<^sup>2 * x u) - 2 * zeta * w * v u) = - (4 * (zeta * w) * (v u)\<^sup>2)"
    by (simp add: algebra_simps power2_eq_square)
  moreover have "0 \<le> 4 * (zeta * w) * (v u)\<^sup>2" using assms(3) by simp
  ultimately show "\<exists>y. ((\<lambda>t. energy w (x t) (v t)) has_real_derivative y) (at u) \<and> y \<le> 0"
    by (metis neg_le_0_iff_le)
qed

lemma motion_energy:
  "spring w zeta \<Longrightarrow> s \<le> t \<Longrightarrow> energy w (motion w zeta x v t) (motion_vel w zeta x v t)
     \<le> energy w (motion w zeta x v s) (motion_vel w zeta x v s)"
  by (rule energy_nonincreasing [OF motion_deriv motion_vel_deriv]) (auto simp: spring_def)

text \<open>A motion is determined by where it starts, so going on from where a frame ended is the same
  motion.\<close>

lemma motion_continue:
  assumes "spring w zeta" and "0 \<le> t"
  shows "motion w zeta (motion w zeta x v s) (motion_vel w zeta x v s) t = motion w zeta x v (s + t)"
    and "motion_vel w zeta (motion w zeta x v s) (motion_vel w zeta x v s) t = motion_vel w zeta x v (s + t)"
proof -
  let ?x = "motion w zeta x v" and ?v = "motion_vel w zeta x v"
  let ?y = "motion w zeta (?x s) (?v s)" and ?u = "motion_vel w zeta (?x s) (?v s)"
  let ?d = "\<lambda>t. ?y t - ?x (s + t)" and ?e = "\<lambda>t. ?u t - ?v (s + t)"
  have shift: "((\<lambda>t. f (s + t)) has_real_derivative D) (at r)" if "(f has_real_derivative D) (at (s + r))" for f :: "real \<Rightarrow> real" and D r
    using that by (simp add: DERIV_shift add.commute)
  have d: "(?d has_real_derivative ?e r) (at r)" for r
    by (rule DERIV_diff [OF motion_deriv [OF assms(1)] shift [OF motion_deriv [OF assms(1)]]])
  have e: "(?e has_real_derivative - (w\<^sup>2 * ?d r) - 2 * zeta * w * ?e r) (at r)" for r
    by (rule DERIV_cong [OF DERIV_diff [OF motion_vel_deriv [OF assms(1)] shift [OF motion_vel_deriv [OF assms(1)]]]])
      (simp add: algebra_simps)
  have "energy w (?d t) (?e t) \<le> energy w (?d 0) (?e 0)"
    by (rule energy_nonincreasing [OF d e _ assms(2)]) (use assms(1) in \<open>simp add: spring_def\<close>)
  then have "w\<^sup>2 * (?d t)\<^sup>2 + (?e t)\<^sup>2 \<le> 0" by (simp add: energy_def)
  moreover have "0 \<le> w\<^sup>2 * (?d t)\<^sup>2" "0 \<le> (?e t)\<^sup>2" by simp_all
  ultimately have "w\<^sup>2 * (?d t)\<^sup>2 = 0" "(?e t)\<^sup>2 = 0" by linarith+
  then show "?y t = ?x (s + t)" "?u t = ?v (s + t)" using assms(1) by (auto simp: spring_def)
qed

text \<open>An underdamped motion stays under a decaying bound.\<close>

lemma motion_bound:
  assumes "0 < zeta" and "zeta < 1" and "0 < w"
  shows "\<exists>K. \<forall>t. \<bar>motion w zeta x v t\<bar> \<le> exp (- (zeta * w * t)) * K \<and> \<bar>motion_vel w zeta x v t\<bar> \<le> exp (- (zeta * w * t)) * K"
proof -
  define wd where "wd = w * sqrt (1 - zeta * zeta)"
  let ?K = "\<bar>x\<bar> + \<bar>(v + zeta * w * x) / wd\<bar> + \<bar>v\<bar> + \<bar>(w * w * x + zeta * w * v) / wd\<bar>"
  have wave: "\<bar>p * cos a + q * sin a\<bar> \<le> \<bar>p\<bar> + \<bar>q\<bar>" for p q a :: real
  proof -
    have "\<bar>p * cos a\<bar> \<le> \<bar>p\<bar> * 1" "\<bar>q * sin a\<bar> \<le> \<bar>q\<bar> * 1"
      unfolding abs_mult by (intro mult_left_mono abs_cos_le_one abs_sin_le_one abs_ge_zero)+
    then show ?thesis by linarith
  qed
  have "\<bar>motion w zeta x v t\<bar> \<le> exp (- (zeta * w * t)) * ?K" "\<bar>motion_vel w zeta x v t\<bar> \<le> exp (- (zeta * w * t)) * ?K" for t
  proof -
    have k: "\<bar>exp y * z\<bar> \<le> exp y * ?K" if "\<bar>z\<bar> \<le> ?K" for y z :: real
      using that by (simp add: abs_mult)
    show "\<bar>motion w zeta x v t\<bar> \<le> exp (- (zeta * w * t)) * ?K" "\<bar>motion_vel w zeta x v t\<bar> \<le> exp (- (zeta * w * t)) * ?K"
      unfolding motion_under [OF assms(2) wd_def] by (rule k, rule order_trans [OF wave], simp)+
  qed
  then show ?thesis by blast
qed

lemma exp_decay_below:
  fixes a K eps t :: real
  assumes "0 < a" and "0 \<le> K" and "0 < eps" and "K / (a * eps) \<le> t"
  shows "exp (- (a * t)) * K < eps"
proof -
  have "0 < a * eps" using assms by simp
  then have "K \<le> t * (a * eps)" using assms(4) by (simp add: pos_divide_le_eq)
  then have "K \<le> a * t * eps" by (simp add: ac_simps)
  also have "\<dots> < exp (a * t) * eps"
  proof (rule mult_strict_right_mono [OF _ assms(3)])
    show "a * t < exp (a * t)" using exp_ge_add_one_self [of "a * t"] by linarith
  qed
  finally have "K < exp (a * t) * eps" .
  then have "exp (- (a * t)) * K < exp (- (a * t)) * (exp (a * t) * eps)" by simp
  also have "\<dots> = eps" by (simp add: mult.assoc [symmetric] exp_minus)
  finally show ?thesis .
qed

section \<open>Properties\<close>

text \<open>The give is asymptotic: it grows with the push but never reaches its maximum, and catching a
  band mid-flight does not snap, since the inverse gives back the pull it was computed from.\<close>

theorem falloff_give:
  assumes "0 < mx"
  shows "0 \<le> falloff r mx \<and> falloff r mx < mx \<and> (\<bar>r\<bar> < \<bar>s\<bar> \<longrightarrow> falloff r mx < falloff s mx)
    \<and> (0 \<le> p \<and> p \<le> mx * (98 / 100) \<longrightarrow> falloff (unfalloff p mx) mx = p)"
  using falloff_bounds [OF assms] falloff_mono [OF assms] falloff_unfalloff [OF assms] by blast

theorem falloff_give_witness: "falloff (unfalloff 80 160) 160 = 80"
  using falloff_give [of 160 0 0 80] by simp

text \<open>C33. The propagator is exact at any frame length: cutting a stretch of time into two frames gives
  the same offset and velocity as one frame, for the critically damped and the underdamped spring
  alike, so the feel does not depend on the refresh rate.\<close>

theorem propagate_frames:
  assumes "spring w zeta" and "0 \<le> dt2"
  shows "propagate target w zeta dt2 (propagate target w zeta dt1 s) = propagate target w zeta (dt1 + dt2) s"
  by (cases s) (simp add: propagate_motion motion_continue [OF assms])

theorem propagate_frames_witness:
  "propagate 0 14 (55 / 100) (1 / 120) (propagate 0 14 (55 / 100) (1 / 120) (100, 0)) = propagate 0 14 (55 / 100) (1 / 60) (100, 0)"
  using propagate_frames [of 14 "55 / 100" "1 / 120" 0 "1 / 120" "(100, 0)"] by (simp add: spring_def)

text \<open>No frame, however long, adds energy to the spring, so the overshoot can never exceed what the
  starting displacement and velocity allow; and the motion is the damped oscillator's.\<close>

theorem propagate_stable:
  assumes "spring w zeta" and "0 \<le> dt"
  shows "let (offset', vel') = propagate target w zeta dt (offset, vel) in
     energy w (offset' - target) vel' \<le> energy w (offset - target) vel
   \<and> w\<^sup>2 * (offset' - target)\<^sup>2 \<le> w\<^sup>2 * (offset - target)\<^sup>2 + vel\<^sup>2"
proof -
  let ?x = "motion w zeta (offset - target) vel dt" and ?v = "motion_vel w zeta (offset - target) vel dt"
  have e: "energy w ?x ?v \<le> energy w (offset - target) vel"
    using motion_energy [OF assms, of "offset - target" vel] by simp
  moreover have "w\<^sup>2 * ?x\<^sup>2 \<le> energy w ?x ?v" by (simp add: energy_def)
  ultimately have "w\<^sup>2 * ?x\<^sup>2 \<le> energy w (offset - target) vel" by (rule order_trans [rotated])
  with e show ?thesis by (simp add: propagate_motion energy_def)
qed

theorem propagate_stable_witness:
  "34\<^sup>2 * (fst (propagate (- 50) 34 1 (1 / 60) (0, 0)) + 50)\<^sup>2 \<le> 34\<^sup>2 * (50 :: real)\<^sup>2"
  using propagate_stable [of 34 1 "1 / 60" "- 50" 0 0] by (simp add: spring_def split: prod.splits)

text \<open>C34. A released band comes to rest: from any offset and velocity, after some time the offset and the
  velocity are and stay below the resting thresholds.\<close>

theorem release_settles:
  assumes "0 < w"
  shows "\<exists>T. \<forall>t \<ge> T. \<bar>fst (propagate 0 w release_zeta t s)\<bar> < rest_px \<and> \<bar>snd (propagate 0 w release_zeta t s)\<bar> < rest_vel"
proof -
  obtain x v where s: "s = (x, v)" by fastforce
  have z: "0 < release_zeta" "release_zeta < 1" by (simp_all add: release_zeta_def)
  obtain K where K: "\<And>t. \<bar>motion w release_zeta x v t\<bar> \<le> exp (- (release_zeta * w * t)) * K"
      "\<And>t. \<bar>motion_vel w release_zeta x v t\<bar> \<le> exp (- (release_zeta * w * t)) * K"
    using motion_bound [OF z assms, of x v] by blast
  have K0: "0 \<le> K" using K(1) [of 0] by simp
  have a: "0 < release_zeta * w" using z assms by simp
  have e: "0 < rest_px" "0 < rest_vel" by (simp_all add: rest_px_def rest_vel_def)
  have "\<bar>motion w release_zeta x v t\<bar> < rest_px \<and> \<bar>motion_vel w release_zeta x v t\<bar> < rest_vel"
    if "max (K / (release_zeta * w * rest_px)) (K / (release_zeta * w * rest_vel)) \<le> t" for t
    using that K [of t] exp_decay_below [OF a K0 e(1), of t] exp_decay_below [OF a K0 e(2), of t] by force
  then show ?thesis
    unfolding s propagate_motion
    by (intro exI [of _ "max (K / (release_zeta * w * rest_px)) (K / (release_zeta * w * rest_vel))"]) simp
qed

theorem release_settles_witness:
  "\<exists>T. \<forall>t \<ge> T. \<bar>fst (propagate 0 14 release_zeta t (120, - 900))\<bar> < rest_px \<and> \<bar>snd (propagate 0 14 release_zeta t (120, - 900))\<bar> < rest_vel"
  by (rule release_settles) simp

end
