(* ===== verification/Contracts.thy ===== *)
theory Contracts
  imports Prelude
begin

text \<open>
  The interfaces the components share, each stated once as a locale with the laws its provider
  promises; the clients' lemmas are proved from the laws alone. Every locale is interpreted on
  the model's own definitions in the theory of the component that provides it.
\<close>

type_synonym store = "string \<rightharpoonup> string"

section \<open>Event-driven machines\<close>

text \<open>A handler per event, and a state property that every handler keeps.\<close>

locale invariant_machine =
  fixes step :: "'s \<Rightarrow> 'e \<Rightarrow> 's" and inv :: "'s \<Rightarrow> bool"
  assumes inv_step: "inv s \<Longrightarrow> inv (step s e)"
begin

lemma inv_run: "inv s \<Longrightarrow> inv (foldl step s es)"
  by (induction es arbitrary: s) (auto intro: inv_step)

lemma inv_trace: "inv s \<Longrightarrow> prefix ds es \<Longrightarrow> inv (foldl step s ds)"
  by (rule inv_run)

end

text \<open>A machine some of whose events, the busy ones, bring a measure down until it is quiet.\<close>

locale settling_machine = invariant_machine +
  fixes busy :: "'a \<Rightarrow> nat" and drain :: 'b
  assumes drain_busy: "inv s \<Longrightarrow> 0 < busy s \<Longrightarrow> busy (step s drain) < busy s"
begin

lemma drained: "inv s \<Longrightarrow> \<exists>n \<le> busy s. busy (foldl step s (replicate n drain)) = 0"
proof (induction "busy s" arbitrary: s rule: less_induct)
  case less
  show ?case
  proof (cases "busy s = 0")
    case True
    then show ?thesis by (intro exI [of _ 0]) simp
  next
    case False
    then have lt: "busy (step s drain) < busy s"
      using less.prems drain_busy by simp
    then obtain n where n: "n \<le> busy (step s drain)"
        "busy (foldl step (step s drain) (replicate n drain)) = 0"
      using less.hyps inv_step less.prems by blast
    with lt show ?thesis by (intro exI [of _ "Suc n"]) simp
  qed
qed

end

section \<open>Preferences in \<open>localStorage\<close>\<close>

locale pref =
  fixes load :: "store \<Rightarrow> 'a" and save :: "'a \<Rightarrow> store \<Rightarrow> store"
    and key :: string and ok :: "'a \<Rightarrow> bool"
  assumes load_save: "ok v \<Longrightarrow> load (save v m) = v"
    and save_frame: "k \<noteq> key \<Longrightarrow> save v m k = m k"
    and load_local: "m key = m' key \<Longrightarrow> load m = load m'"
begin

lemma load_last_save: "ok v \<Longrightarrow> load (save v (save w m)) = v"
  by (rule load_save)

lemma load_after_foreign_write: "k \<noteq> key \<Longrightarrow> load (m(k := x)) = load m"
  by (rule load_local) simp

text \<open>A saved preference survives any later writes to other keys.\<close>

lemma load_survives:
  assumes "ok v" and "\<forall>f \<in> set fs. \<forall>m. f m key = m key"
  shows "load (fold (\<lambda>f. f) fs (save v m)) = v"
proof -
  have "fold (\<lambda>f. f) fs m' key = m' key" for m'
    using assms(2) by (induction fs arbitrary: m') auto
  then have "load (fold (\<lambda>f. f) fs (save v m)) = load (save v m)"
    by (rule load_local)
  with assms(1) show ?thesis by (simp add: load_save)
qed

end

section \<open>Axis scales\<close>

locale axis_scale =
  fixes scale :: "real \<Rightarrow> real \<times> real list"
  assumes top_ge: "m \<le> fst (scale m)" and top_pos: "0 < fst (scale m)"
begin

text \<open>A value between zero and the maximum the scale was asked for is drawn inside the plot.\<close>

lemma y_in_plot:
  assumes "0 \<le> v" and "v \<le> m" and "0 \<le> h"
  shows "base - h \<le> base - (v / fst (scale m)) * h" and "base - (v / fst (scale m)) * h \<le> base"
proof -
  have "0 \<le> v / fst (scale m)" and le1: "v / fst (scale m) \<le> 1"
    using assms top_ge [of m] top_pos [of m] by (auto simp: divide_le_eq_1_pos)
  then have "0 \<le> (v / fst (scale m)) * h" using assms(3) by (rule_tac mult_nonneg_nonneg)
  then show "base - (v / fst (scale m)) * h \<le> base" by linarith
  show "base - h \<le> base - (v / fst (scale m)) * h"
    using mult_right_mono [OF le1 assms(3)] by simp
qed

end

section \<open>Comparators\<close>

text \<open>A comparator callback of \<open>sort\<close>: a total preorder on the elements it is meant for.\<close>

locale comparator =
  fixes cmp :: "'a \<Rightarrow> 'a \<Rightarrow> int" and ok :: "'a \<Rightarrow> bool"
  assumes cmp_sym: "ok x \<Longrightarrow> ok y \<Longrightarrow> sgn (cmp x y) = - sgn (cmp y x)"
    and cmp_trans: "ok x \<Longrightarrow> ok y \<Longrightarrow> ok z \<Longrightarrow> cmp x y \<le> 0 \<Longrightarrow> cmp y z \<le> 0 \<Longrightarrow> cmp x z \<le> 0"
begin

lemma cmp_total: "ok x \<Longrightarrow> ok y \<Longrightarrow> cmp x y \<le> 0 \<or> cmp y x \<le> 0"
  using cmp_sym [of x y] by (auto simp: sgn_if split: if_splits)

lemma cmp_zero_sym: "ok x \<Longrightarrow> ok y \<Longrightarrow> cmp x y = 0 \<longleftrightarrow> cmp y x = 0"
  using cmp_sym [of x y] by (auto simp: sgn_if split: if_splits)

lemma cmp_pos_neg: "ok x \<Longrightarrow> ok y \<Longrightarrow> 0 < cmp x y \<longleftrightarrow> cmp y x < 0"
  using cmp_sym [of x y] by (auto simp: sgn_if split: if_splits)

lemma sorted_js_insert:
  "\<forall>y \<in> insert x (set ys). ok y \<Longrightarrow> sorted_wrt (\<lambda>x y. cmp x y \<le> 0) ys
    \<Longrightarrow> sorted_wrt (\<lambda>x y. cmp x y \<le> 0) (js_insert cmp x ys)"
proof (induction ys)
  case (Cons y ys)
  show ?case
  proof (cases "cmp x y \<le> 0")
    case True
    with Cons.prems cmp_trans [of x y] show ?thesis by auto
  next
    case False
    with Cons.prems cmp_total [of x y] have "cmp y x \<le> 0" by auto
    with False Cons show ?thesis by auto
  qed
qed simp

lemma sorted_js_sort: "\<forall>x \<in> set xs. ok x \<Longrightarrow> sorted_wrt (\<lambda>x y. cmp x y \<le> 0) (js_sort cmp xs)"
  by (induction xs) (auto intro!: sorted_js_insert)

text \<open>Elements the comparator cannot tell apart keep their order.\<close>

lemma filter_js_insert:
  assumes "\<forall>y \<in> insert x (set ys). ok y" and "ok z" and "sorted_wrt (\<lambda>x y. cmp x y \<le> 0) ys"
  shows "filter (\<lambda>y. cmp z y = 0) (js_insert cmp x ys) = filter (\<lambda>y. cmp z y = 0) (x # ys)"
  using assms
proof (induction ys)
  case (Cons y ys)
  then have ok: "ok x" "ok y" "ok z" by auto
  show ?case
  proof (cases "cmp x y \<le> 0 \<or> cmp z x \<noteq> 0")
    case True
    with Cons show ?thesis by auto
  next
    case False
    then have x: "cmp z x = 0" using ok by auto
    have "cmp z y \<noteq> 0"
    proof
      assume "cmp z y = 0"
      with x ok cmp_zero_sym [of z x] have "cmp x z \<le> 0" "cmp z y \<le> 0" by simp_all
      with ok have "cmp x y \<le> 0" using cmp_trans [of x z y] by blast
      with False show False by simp
    qed
    with False Cons show ?thesis by auto
  qed
qed simp

lemma stable_js_sort:
  "\<forall>x \<in> insert z (set xs). ok x \<Longrightarrow> filter (\<lambda>y. cmp z y = 0) (js_sort cmp xs) = filter (\<lambda>y. cmp z y = 0) xs"
  by (induction xs) (simp_all add: filter_js_insert sorted_js_sort)

end

text \<open>A comparator that subtracts one key from another.\<close>

locale key_comparator =
  fixes cmp :: "'a \<Rightarrow> 'a \<Rightarrow> int" and key :: "'a \<Rightarrow> int"
  assumes cmp_key: "cmp x y = key x - key y"
begin

sublocale comparator cmp "\<lambda>_. True"
  by unfold_locales (auto simp: cmp_key sgn_if)

lemma sorted_keys: "sorted (map key (js_sort cmp xs))"
  using sorted_js_sort [of xs] by (simp add: cmp_key sorted_wrt_map)

end

text \<open>\<open>c1(a, b) || c2(a, b)\<close>: the second comparator breaks the ties of the first.\<close>

definition then_cmp :: "('a \<Rightarrow> 'a \<Rightarrow> int) \<Rightarrow> ('a \<Rightarrow> 'a \<Rightarrow> int) \<Rightarrow> 'a \<Rightarrow> 'a \<Rightarrow> int" where
  "then_cmp c1 c2 x y = (if c1 x y \<noteq> 0 then c1 x y else c2 x y)"

lemma comparator_then:
  assumes "comparator c1 ok" and "comparator c2 ok"
  shows "comparator (then_cmp c1 c2) ok"
proof
  note [simp] = then_cmp_def
  show "sgn (then_cmp c1 c2 x y) = - sgn (then_cmp c1 c2 y x)" if "ok x" "ok y" for x y
    using that comparator.cmp_sym [OF assms(1), of x y] comparator.cmp_sym [OF assms(2), of x y]
      comparator.cmp_zero_sym [OF assms(1), of x y] by auto
  show "then_cmp c1 c2 x z \<le> 0"
    if ok: "ok x" "ok y" "ok z" and le: "then_cmp c1 c2 x y \<le> 0" "then_cmp c1 c2 y z \<le> 0" for x y z
  proof (cases "c1 x z = 0")
    case False
    with ok le comparator.cmp_trans [OF assms(1), of x y z] show ?thesis
      by (auto split: if_splits)
  next
    case xz: True
    then have zx: "c1 z x = 0" using comparator.cmp_zero_sym [OF assms(1)] ok by blast
    have "c1 x y \<le> 0" "c1 y z \<le> 0" using le by (auto split: if_splits)
    moreover from this zx ok have "c1 y x \<le> 0" "c1 z y \<le> 0"
      using comparator.cmp_trans [OF assms(1), of y z x] comparator.cmp_trans [OF assms(1), of z x y]
      by auto
    ultimately have "c1 x y = 0" "c1 y z = 0"
      using ok comparator.cmp_pos_neg [OF assms(1)] by (smt (verit))+
    with le xz show ?thesis
      using ok comparator.cmp_trans [OF assms(2), of x y z] by auto
  qed
qed

lemma comparator_key: "comparator (\<lambda>x y. key x - (key y :: int)) ok"
  by unfold_locales (auto simp: sgn_if)

lemma comparator_key_desc: "comparator (\<lambda>x y. key y - (key x :: int)) ok"
  by unfold_locales (auto simp: sgn_if)

text \<open>Sorted by a composed comparator, a list is sorted by its first.\<close>

lemma sorted_then_first:
  "sorted_wrt (\<lambda>x y. then_cmp c1 c2 x y \<le> 0) xs \<Longrightarrow> sorted_wrt (\<lambda>x y. c1 x y \<le> 0) xs"
  by (induction xs) (auto simp: then_cmp_def split: if_splits)


section \<open>Refinement\<close>

text \<open>A machine whose states stand for states of a simpler one: on the states its invariant allows, every
  event does to the abstraction what the simpler machine does.\<close>

locale refining_machine = invariant_machine +
  fixes astep :: "'c \<Rightarrow> 'b \<Rightarrow> 'c" and abs :: "'a \<Rightarrow> 'c"
  assumes abs_step: "inv s \<Longrightarrow> abs (step s e) = astep (abs s) e"
begin

lemma abs_run: "inv s \<Longrightarrow> abs (foldl step s es) = foldl astep (abs s) es"
  by (induction es arbitrary: s) (simp_all add: abs_step inv_step)

end

end
