(* ===== verification/Band_Machine.thy ===== *)
theory Band_Machine
  imports Band_Physics Contracts
begin

text \<open>
  The rubber-band engine (\<open>rubberband.ts\<close>) as a machine over document events. A band is an object:
  the \<open>bands\<close> map goes from scrollers to object numbers, and the wheel and touch latches hold object
  numbers too, so that a latch can outlive its band's entry in the map, as a reference does. The
  document is given with each event: the chain of elements from the event's target outwards to
  below the body, the page scroller, which scrollers have a content and a glow element, and at a
  frame which contents are still connected. What the code writes to the document (transforms,
  \<open>will-change\<close>, the glow, \<open>scroll\<close> events, \<open>preventDefault\<close>) is part of the state. \<open>rb_gone\<close> is a
  ghost: scrollers whose content had left the document when their band was dropped.
\<close>

section \<open>Whose gesture it is\<close>

record element =
  el_id :: nat
  el_html :: bool
  el_overflow_y :: string
  el_scroll_height :: real
  el_client_height :: real
  el_scroll_top :: real
  el_behavior :: string
  el_position :: string

record env =
  en_page :: "element option"
  en_has_content :: "nat \<Rightarrow> bool"
  en_has_glow :: "nat \<Rightarrow> bool"

definition scrolls :: "element \<Rightarrow> bool" where
  "scrolls el \<longleftrightarrow> el_overflow_y el \<in> {''auto'', ''scroll'', ''overlay''}"

definition room :: "element \<Rightarrow> real \<Rightarrow> real" where
  "room el dir = (if dir > 0 then el_scroll_height el - el_client_height el - el_scroll_top el else el_scroll_top el)"

definition page_owner :: "element option \<Rightarrow> real \<Rightarrow> element option" where
  "page_owner pg dir = (case pg of Some p \<Rightarrow> if room p dir \<le> 1 then Some p else None | None \<Rightarrow> None)"

fun owner_for :: "element option \<Rightarrow> real \<Rightarrow> element list \<Rightarrow> element option" where
  "owner_for pg dir [] = page_owner pg dir"
| "owner_for pg dir (el # els) =
     (if map_option el_id pg = Some (el_id el) then page_owner pg dir
      else if \<not> el_html el then owner_for pg dir els
      else if scrolls el \<and> el_scroll_height el - el_client_height el > 1 \<and> room el dir > 1 then None
      else if scrolls el \<and> el_scroll_height el - el_client_height el > 1 \<and> el_behavior el \<in> {''contain'', ''none''} then Some el
      else if el_position el = ''fixed'' then None
      else owner_for pg dir els)"

section \<open>Bands\<close>

record band =
  bd_scroller :: nat
  bd_glow :: bool
  bd_offset :: real
  bd_vel :: real
  bd_target :: real
  bd_raw :: real
  bd_edge :: real
  bd_max :: real
  bd_held :: bool
  bd_omega :: real
  bd_rel_omega :: real
  bd_leak :: bool
  bd_peak_out :: real
  bd_in_rate :: real
  bd_peak_rate :: real
  bd_auto_release :: bool
  bd_last_input :: real
  bd_last :: real

record rubber =
  rb_objs :: "nat \<rightharpoonup> band"
  rb_next :: nat
  rb_bands :: "(nat \<times> nat) list"
  rb_raf :: bool
  rb_wheel :: "nat option"
  rb_touch :: "nat option"
  rb_touch_id :: int
  rb_touch_y :: real
  rb_wheel_at :: real
  rb_dense :: bool
  rb_guard_until :: real
  rb_guard_edge :: real
  rb_guard_rate :: real
  rb_transform :: "nat \<rightharpoonup> real"
  rb_will_change :: "nat set"
  rb_light :: "nat \<rightharpoonup> real \<times> string"
  rb_scroll_events :: "nat list"
  rb_prevented :: bool
  rb_gone :: "nat set"

definition rb_init :: rubber where
  "rb_init = \<lparr>rb_objs = Map.empty, rb_next = 0, rb_bands = [], rb_raf = False, rb_wheel = None, rb_touch = None,
     rb_touch_id = -1, rb_touch_y = 0, rb_wheel_at = 0, rb_dense = False, rb_guard_until = 0, rb_guard_edge = 0,
     rb_guard_rate = 0, rb_transform = Map.empty, rb_will_change = {}, rb_light = Map.empty, rb_scroll_events = [],
     rb_prevented = False, rb_gone = {}\<rparr>"

definition new_band :: "env \<Rightarrow> real \<Rightarrow> element \<Rightarrow> band" where
  "new_band env now el = \<lparr>bd_scroller = el_id el, bd_glow = en_has_glow env (el_id el), bd_offset = 0, bd_vel = 0,
     bd_target = 0, bd_raw = 0, bd_edge = 1,
     bd_max = max min_pull_px (min (max_pull_ratio * el_client_height el) max_pull_px),
     bd_held = True, bd_omega = hold_omega, bd_rel_omega = release_omega, bd_leak = False, bd_peak_out = 0,
     bd_in_rate = 0, bd_peak_rate = 0, bd_auto_release = True, bd_last_input = now, bd_last = now\<rparr>"

definition band_for :: "env \<Rightarrow> real \<Rightarrow> element \<Rightarrow> rubber \<Rightarrow> nat option \<times> rubber" where
  "band_for env now el s = (case map_of (rb_bands s) (el_id el) of
     Some u \<Rightarrow> (Some u, s)
   | None \<Rightarrow> if \<not> en_has_content env (el_id el) then (None, s)
       else let u = rb_next s in
         (Some u, s\<lparr>rb_objs := (rb_objs s)(u \<mapsto> new_band env now el), rb_next := Suc u,
            rb_will_change := insert (el_id el) (rb_will_change s), rb_bands := rb_bands s @ [(el_id el, u)]\<rparr>))"

definition on_band :: "nat \<Rightarrow> (band \<Rightarrow> band) \<Rightarrow> rubber \<Rightarrow> rubber" where
  "on_band u f s = s\<lparr>rb_objs := (rb_objs s)(u := map_option f (rb_objs s u))\<rparr>"

definition pump :: "rubber \<Rightarrow> rubber" where
  "pump s = (if \<not> rb_raf s \<and> rb_bands s \<noteq> [] then s\<lparr>rb_raf := True\<rparr> else s)"

definition claim :: "real \<Rightarrow> bool \<Rightarrow> band \<Rightarrow> band" where
  "claim edge auto_release b = (let pull = - bd_offset b * edge in
     b\<lparr>bd_edge := edge, bd_auto_release := auto_release, bd_held := True, bd_leak := False, bd_peak_out := 0,
       bd_in_rate := 0, bd_peak_rate := 0, bd_raw := (if pull > 0 then edge * unfalloff pull (bd_max b) else 0)\<rparr>)"

definition pull_band :: "real \<Rightarrow> real \<Rightarrow> band \<Rightarrow> band" where
  "pull_band now dy b = (let raw = bd_raw b + dy in
     if raw * bd_edge b \<le> 0
     then b\<lparr>bd_raw := 0, bd_target := 0, bd_held := False, bd_auto_release := True\<rparr>
     else let in_rate = bd_in_rate b + 3 / 10 * (\<bar>dy\<bar> - bd_in_rate b) in
       b\<lparr>bd_raw := raw, bd_held := True, bd_in_rate := in_rate,
         bd_peak_rate := (if in_rate > bd_peak_rate b then in_rate else bd_peak_rate b),
         bd_last_input := now, bd_target := - bd_edge b * falloff raw (bd_max b)\<rparr>)"

definition pull_takes :: "real \<Rightarrow> band \<Rightarrow> bool" where
  "pull_takes dy b \<longleftrightarrow> \<not> ((bd_raw b + dy) * bd_edge b \<le> 0)"

text \<open>The result of \<open>pull\<close>: whether the band took the delta, and the state.\<close>

definition pull :: "nat \<Rightarrow> real \<Rightarrow> real \<Rightarrow> rubber \<Rightarrow> bool \<times> rubber" where
  "pull u now dy s = (case rb_objs s u of None \<Rightarrow> (False, s)
   | Some b \<Rightarrow> (pull_takes dy b, pump (on_band u (pull_band now dy) s)))"

definition paint :: "nat \<Rightarrow> rubber \<Rightarrow> rubber" where
  "paint u s = (case rb_objs s u of None \<Rightarrow> s
   | Some b \<Rightarrow> let out = max 0 (- bd_offset b * bd_edge b) in
       s\<lparr>rb_transform := (rb_transform s)(bd_scroller b \<mapsto> bd_offset b),
         rb_light := (if bd_glow b then (rb_light s)(bd_scroller b \<mapsto> (min 1 (out / bd_max b), if bd_edge b > 0 then ''bottom'' else ''top''))
            else rb_light s),
         rb_scroll_events := rb_scroll_events s @ [bd_scroller b]\<rparr>)"

text \<open>\<open>alive\<close> tells whether the scroller is still in the document. A band's content is the scroller's
  child, so a frame uses the same predicate for the content.\<close>

definition rest :: "(nat \<Rightarrow> bool) \<Rightarrow> nat \<Rightarrow> rubber \<Rightarrow> rubber" where
  "rest alive u s = (case rb_objs s u of None \<Rightarrow> s
   | Some b \<Rightarrow> s\<lparr>rb_transform := (rb_transform s)(bd_scroller b := None),
       rb_will_change := rb_will_change s - {bd_scroller b},
       rb_light := (if bd_glow b then (rb_light s)(bd_scroller b := None) else rb_light s),
       rb_bands := filter (\<lambda>e. fst e \<noteq> bd_scroller b) (rb_bands s),
       rb_wheel := (if rb_wheel s = Some u then None else rb_wheel s),
       rb_touch := (if rb_touch s = Some u then None else rb_touch s),
       rb_scroll_events := (if alive (bd_scroller b) then rb_scroll_events s @ [bd_scroller b] else rb_scroll_events s)\<rparr>)"

section \<open>A frame\<close>

text \<open>\<open>advance\<close> is the part of a frame that concerns one band; its second result tells that a spent
  fling has just been released, which arms the inertia guard.\<close>

definition idle_release :: "real \<Rightarrow> band \<Rightarrow> band" where
  "idle_release now b = (if bd_held b \<and> bd_auto_release b \<and> now - bd_last_input b > idle_ms
     then b\<lparr>bd_held := False, bd_target := 0\<rparr> else b)"

definition leak_step :: "real \<Rightarrow> band \<Rightarrow> band \<times> bool" where
  "leak_step dt b = (if \<not> (bd_held b \<and> bd_leak b) then (b, False)
     else let raw = bd_raw b * exp (- dt / leak_tau);
            b = b\<lparr>bd_raw := raw, bd_target := - bd_edge b * falloff raw (bd_max b)\<rparr>;
            out = - bd_offset b * bd_edge b in
       if out > bd_peak_out b then (b\<lparr>bd_peak_out := out\<rparr>, False)
       else if bd_peak_out b > fling_min_px \<and> out < deflate_rel * bd_peak_out b
       then (b\<lparr>bd_held := False, bd_target := 0\<rparr>, True)
       else (b, False))"

definition spring_step :: "real \<Rightarrow> band \<Rightarrow> band" where
  "spring_step dt b = (let w = (if bd_held b then bd_omega b else bd_rel_omega b);
       zeta = (if bd_held b then 1 else release_zeta);
       (offset, vel) = propagate (bd_target b) w zeta dt (bd_offset b, bd_vel b) in
     b\<lparr>bd_offset := offset, bd_vel := vel\<rparr>)"

definition advance :: "real \<Rightarrow> band \<Rightarrow> band \<times> bool" where
  "advance now b = (let dt = max 0 ((now - bd_last b) / 1000);
       (b', spent) = leak_step dt (idle_release now (b\<lparr>bd_last := now\<rparr>)) in
     (spring_step dt b', spent))"

definition settled :: "band \<Rightarrow> bool" where
  "settled b \<longleftrightarrow> \<not> bd_held b \<and> \<bar>bd_offset b\<bar> < rest_px \<and> \<bar>bd_vel b\<bar> < rest_vel"

definition tick_band :: "(nat \<Rightarrow> bool) \<Rightarrow> real \<Rightarrow> nat \<Rightarrow> rubber \<Rightarrow> rubber" where
  "tick_band alive now u s = (case rb_objs s u of None \<Rightarrow> s
   | Some b \<Rightarrow>
       if \<not> alive (bd_scroller b)
       then s\<lparr>rb_bands := filter (\<lambda>e. fst e \<noteq> bd_scroller b) (rb_bands s), rb_gone := insert (bd_scroller b) (rb_gone s)\<rparr>
       else let (b', spent) = advance now b;
           s = s\<lparr>rb_objs := (rb_objs s)(u \<mapsto> b')\<rparr>;
           s = (if spent then s\<lparr>rb_guard_edge := bd_edge b', rb_guard_rate := bd_peak_rate b', rb_guard_until := now + idle_ms\<rparr> else s) in
         if settled b' then rest alive u s else paint u s)"

definition tick :: "(nat \<Rightarrow> bool) \<Rightarrow> real \<Rightarrow> rubber \<Rightarrow> rubber" where
  "tick alive now s = (let s' = fold (tick_band alive now) (map snd (rb_bands s)) (s\<lparr>rb_raf := False\<rparr>) in
     s'\<lparr>rb_raf := (rb_bands s' \<noteq> [])\<rparr>)"

definition reset_bands :: "(nat \<Rightarrow> bool) \<Rightarrow> rubber \<Rightarrow> rubber" where
  "reset_bands alive s = (fold (rest alive) (map snd (rb_bands s)) s)
     \<lparr>rb_wheel := None, rb_touch := None, rb_touch_id := -1, rb_raf := False\<rparr>"

section \<open>Input\<close>

record wheel_input =
  wi_ctrl :: bool
  wi_delta_x :: real
  wi_delta_y :: real
  wi_mode :: nat
  wi_chain :: "element list"

definition delta_of :: "env \<Rightarrow> wheel_input \<Rightarrow> real" where
  "delta_of env e = (if wi_mode e = 1 then wi_delta_y e * line_px
     else if wi_mode e = 2 then wi_delta_y e * (case en_page env of Some p \<Rightarrow> el_client_height p | None \<Rightarrow> 800)
     else wi_delta_y e)"

definition is_dense :: "real \<Rightarrow> real \<Rightarrow> bool" where
  "is_dense dy gap \<longleftrightarrow> \<not> (\<bar>dy\<bar> \<ge> notch_px \<and> dy = of_int \<lfloor>dy\<rfloor> \<and> gap \<ge> notch_ms)"

text \<open>The band that owns the burst: the latched one while its scroller has a band and input has not
  been idle, else the owner's, claimed.\<close>

definition wheel_latched :: "real \<Rightarrow> rubber \<Rightarrow> nat option" where
  "wheel_latched now s = (case rb_wheel s of None \<Rightarrow> None
   | Some u \<Rightarrow> (case rb_objs s u of None \<Rightarrow> None
     | Some b \<Rightarrow> if map_of (rb_bands s) (bd_scroller b) = None \<or> now - bd_last_input b > idle_ms then None else Some u))"

definition wheel_claim :: "real \<Rightarrow> bool \<Rightarrow> band \<Rightarrow> band" where
  "wheel_claim dir dense b = (claim dir True b)\<lparr>bd_omega := (if dense then track_omega else hold_omega),
     bd_rel_omega := (if dense then release_omega_fling else release_omega), bd_leak := dense\<rparr>"

definition wheel_pull :: "real \<Rightarrow> real \<Rightarrow> nat \<Rightarrow> rubber \<Rightarrow> rubber" where
  "wheel_pull now dy u s = (let (took, s) = pull u now dy s in
     if took then s\<lparr>rb_prevented := True\<rparr> else s\<lparr>rb_wheel := None\<rparr>)"

definition on_wheel :: "env \<Rightarrow> real \<Rightarrow> wheel_input \<Rightarrow> rubber \<Rightarrow> rubber" where
  "on_wheel env now e s0 = (let s = s0\<lparr>rb_prevented := False\<rparr>; dy = delta_of env e in
     if wi_ctrl e then s
     else if dy = 0 \<or> \<bar>wi_delta_x e\<bar> > \<bar>dy\<bar> then s
     else let dense = is_dense dy (now - rb_wheel_at s); s = s\<lparr>rb_wheel_at := now, rb_dense := dense\<rparr> in
       if now < rb_guard_until s \<and> dense \<and> sgn dy = rb_guard_edge s \<and> \<bar>dy\<bar> < 8 / 10 * rb_guard_rate s
       then s\<lparr>rb_guard_until := now + idle_ms, rb_prevented := True\<rparr>
       else case wheel_latched now s of
         Some u \<Rightarrow> wheel_pull now dy u s
       | None \<Rightarrow> let s = s\<lparr>rb_wheel := None\<rparr> in
           (case owner_for (en_page env) (sgn dy) (wi_chain e) of
              None \<Rightarrow> s
            | Some el \<Rightarrow> (case band_for env now el s of
                (None, s) \<Rightarrow> s
              | (Some u, s) \<Rightarrow> wheel_pull now dy u ((on_band u (wheel_claim (sgn dy) dense) s)\<lparr>rb_wheel := Some u\<rparr>))))"

definition on_touch_end :: "rubber \<Rightarrow> rubber" where
  "on_touch_end s = (let s' = (case rb_touch s of None \<Rightarrow> s
       | Some u \<Rightarrow> pump (on_band u (\<lambda>b. b\<lparr>bd_held := False, bd_target := 0, bd_auto_release := True\<rparr>) s)) in
     s'\<lparr>rb_touch := None, rb_touch_id := -1\<rparr>)"

text \<open>A touch event carries its active touches, each an identifier and a position.\<close>

definition on_touch_start :: "(int \<times> real) list \<Rightarrow> rubber \<Rightarrow> rubber" where
  "on_touch_start touches s = (case touches of
     [(i, y)] \<Rightarrow> s\<lparr>rb_touch_id := i, rb_touch_y := y, rb_touch := None\<rparr> | _ \<Rightarrow> on_touch_end s)"

definition touch_pull :: "real \<Rightarrow> real \<Rightarrow> nat \<Rightarrow> rubber \<Rightarrow> rubber" where
  "touch_pull now dy u s = (let (took, s) = pull u now dy (on_band u (\<lambda>b. b\<lparr>bd_omega := touch_omega\<rparr>) s) in
     if took then s\<lparr>rb_prevented := True\<rparr> else s\<lparr>rb_touch := None\<rparr>)"

definition on_touch_move :: "env \<Rightarrow> real \<Rightarrow> (int \<times> real) list \<Rightarrow> element list \<Rightarrow> rubber \<Rightarrow> rubber" where
  "on_touch_move env now touches chain s0 = (let s = s0\<lparr>rb_prevented := False\<rparr> in case touches of
     [(i, y)] \<Rightarrow>
       if rb_touch_id s < 0 \<or> i \<noteq> rb_touch_id s then s
       else let dy = rb_touch_y s - y; s = s\<lparr>rb_touch_y := y\<rparr> in
         if dy = 0 then s
         else (case rb_touch s of
             Some u \<Rightarrow> touch_pull now dy u s
           | None \<Rightarrow> (case owner_for (en_page env) (sgn dy) chain of
                 None \<Rightarrow> s
               | Some el \<Rightarrow> (case band_for env now el s of
                   (None, s) \<Rightarrow> s
                 | (Some u, s) \<Rightarrow> touch_pull now dy u ((on_band u (claim (sgn dy) False) s)\<lparr>rb_touch := Some u\<rparr>))))
   | _ \<Rightarrow> s)"

definition key_dir :: "string \<Rightarrow> real" where
  "key_dir k = (case map_of [(''PageDown'', 1), (''PageUp'', -1), (''End'', 1), (''Home'', -1), (''ArrowDown'', 1),
     (''ArrowUp'', -1), ('' '', 1)] k of Some d \<Rightarrow> d | None \<Rightarrow> 0)"

definition key_kick :: "real \<Rightarrow> real \<Rightarrow> band \<Rightarrow> band" where
  "key_kick now dir b = b\<lparr>bd_edge := dir, bd_held := False, bd_auto_release := True, bd_target := 0, bd_raw := 0,
     bd_vel := - dir * key_impulse, bd_last_input := now\<rparr>"

text \<open>\<open>modified\<close>: Ctrl, Alt or Meta is down; \<open>consumed\<close>: the target consumes keys itself.\<close>

definition on_key :: "env \<Rightarrow> real \<Rightarrow> bool \<Rightarrow> bool \<Rightarrow> string \<Rightarrow> element list \<Rightarrow> rubber \<Rightarrow> rubber" where
  "on_key env now modified consumed k chain s = (let dir = key_dir k in
     if modified \<or> dir = 0 \<or> consumed then s
     else case owner_for (en_page env) dir chain of
       None \<Rightarrow> s
     | Some el \<Rightarrow> (case band_for env now el s of
           (None, s) \<Rightarrow> s
         | (Some u, s) \<Rightarrow> pump (on_band u (key_kick now dir) s)))"

datatype rb_event = Wheel env real wheel_input | TouchStart "(int \<times> real) list"
  | TouchMove env real "(int \<times> real) list" "element list" | TouchEnd
  | Key env real bool bool string "element list" | Frame "nat \<Rightarrow> bool" real | Reset "nat \<Rightarrow> bool"

fun rb_step :: "rubber \<Rightarrow> rb_event \<Rightarrow> rubber" where
  "rb_step s (Wheel env now e) = on_wheel env now e s"
| "rb_step s (TouchStart ts) = on_touch_start ts s"
| "rb_step s (TouchMove env now ts chain) = on_touch_move env now ts chain s"
| "rb_step s TouchEnd = on_touch_end s"
| "rb_step s (Key env now m c k chain) = on_key env now m c k chain s"
| "rb_step s (Frame alive now) = (if rb_raf s then tick alive now s else s)"
| "rb_step s (Reset alive) = reset_bands alive s"

section \<open>The invariant\<close>

definition band_ok :: "band \<Rightarrow> bool" where
  "band_ok b \<longleftrightarrow> 32 \<le> bd_max b \<and> bd_max b \<le> 160 \<and> bd_edge b \<in> {1, -1} \<and> \<bar>bd_target b\<bar> < bd_max b
     \<and> (\<not> bd_held b \<longrightarrow> bd_target b = 0)"

definition styled :: "rubber \<Rightarrow> nat set" where
  "styled s = dom (rb_transform s) \<union> rb_will_change s \<union> dom (rb_light s)"

text \<open>The part that holds inside a handler too, where a frame may not have been requested yet.\<close>

definition core :: "rubber \<Rightarrow> bool" where
  "core s \<longleftrightarrow> distinct (map fst (rb_bands s))
    \<and> (\<forall>(sc, u) \<in> set (rb_bands s). \<exists>b. rb_objs s u = Some b \<and> bd_scroller b = sc)
    \<and> (\<forall>u b. rb_objs s u = Some b \<longrightarrow> u < rb_next s \<and> band_ok b)
    \<and> dom (rb_transform s) \<union> rb_will_change s \<subseteq> fst ` set (rb_bands s) \<union> rb_gone s
    \<and> (\<forall>sc \<in> dom (rb_light s) - rb_gone s. \<exists>u b. (sc, u) \<in> set (rb_bands s) \<and> rb_objs s u = Some b \<and> bd_glow b)"

lemma coreI:
  assumes "distinct (map fst (rb_bands s))"
    and "\<And>sc u. (sc, u) \<in> set (rb_bands s) \<Longrightarrow> \<exists>b. rb_objs s u = Some b \<and> bd_scroller b = sc"
    and "\<And>u b. rb_objs s u = Some b \<Longrightarrow> u < rb_next s \<and> band_ok b"
    and "dom (rb_transform s) \<union> rb_will_change s \<subseteq> fst ` set (rb_bands s) \<union> rb_gone s"
    and "\<And>sc. sc \<in> dom (rb_light s) - rb_gone s \<Longrightarrow> \<exists>u b. (sc, u) \<in> set (rb_bands s) \<and> rb_objs s u = Some b \<and> bd_glow b"
  shows "core s"
  using assms unfolding core_def by blast

lemma coreD:
  assumes "core s"
  shows "distinct (map fst (rb_bands s))"
    and "(sc, u) \<in> set (rb_bands s) \<Longrightarrow> \<exists>b. rb_objs s u = Some b \<and> bd_scroller b = sc"
    and "rb_objs s u = Some b \<Longrightarrow> u < rb_next s \<and> band_ok b"
    and "dom (rb_transform s) \<union> rb_will_change s \<subseteq> fst ` set (rb_bands s) \<union> rb_gone s"
    and "sc \<in> dom (rb_light s) - rb_gone s \<Longrightarrow> \<exists>u b. (sc, u) \<in> set (rb_bands s) \<and> rb_objs s u = Some b \<and> bd_glow b"
  using assms unfolding core_def by blast+

lemma core_styled: 
  assumes "core s"
  shows "styled s \<subseteq> fst ` set (rb_bands s) \<union> rb_gone s"
proof -
  have "sc \<in> fst ` set (rb_bands s) \<union> rb_gone s" if "sc \<in> dom (rb_light s)" for sc
  proof (cases "sc \<in> rb_gone s")
    case False
    with that coreD(5) [OF assms, of sc] obtain u where "(sc, u) \<in> set (rb_bands s)" by blast
    then show ?thesis by force
  qed simp
  with coreD(4) [OF assms] show ?thesis unfolding styled_def by blast
qed

definition rb_inv :: "rubber \<Rightarrow> bool" where
  "rb_inv s \<longleftrightarrow> core s \<and> (rb_raf s \<longleftrightarrow> rb_bands s \<noteq> [])"

definition keeps_band :: "(band \<Rightarrow> band) \<Rightarrow> bool" where
  "keeps_band f \<longleftrightarrow> (\<forall>b. band_ok b \<longrightarrow> band_ok (f b)) \<and> (\<forall>b. bd_scroller (f b) = bd_scroller b \<and> bd_glow (f b) = bd_glow b)"

lemma band_ok_new: "band_ok (new_band env now el)"
  by (simp add: band_ok_def new_band_def min_pull_px_def max_pull_px_def)

lemma target_falloff: "band_ok b \<Longrightarrow> \<bar>- bd_edge b * falloff r (bd_max b)\<bar> < bd_max b"
  using falloff_bounds [of "bd_max b" r] by (auto simp: band_ok_def abs_mult)

lemma keeps_claim: "edge \<in> {1, -1} \<Longrightarrow> keeps_band (claim edge auto)"
  by (auto simp: keeps_band_def band_ok_def claim_def Let_def)

lemma keeps_wheel_claim: "edge \<in> {1, -1} \<Longrightarrow> keeps_band (wheel_claim edge dense)"
  using keeps_claim [of edge True] by (auto simp: keeps_band_def band_ok_def wheel_claim_def)

lemma keeps_pull: "keeps_band (pull_band now dy)"
proof -
  have "band_ok (pull_band now dy b)" if ok: "band_ok b" for b
    using ok target_falloff [OF ok, of "bd_raw b + dy"]
    by (auto simp: pull_band_def Let_def band_ok_def)
  then show ?thesis by (simp add: keeps_band_def pull_band_def Let_def)
qed

lemma keeps_kick: "dir \<in> {1, -1} \<Longrightarrow> keeps_band (key_kick now dir)"
  by (auto simp: keeps_band_def band_ok_def key_kick_def)

lemma keeps_fields:
  "keeps_band (\<lambda>b. b\<lparr>bd_omega := w\<rparr>)" "keeps_band (\<lambda>b. b\<lparr>bd_held := False, bd_target := 0, bd_auto_release := True\<rparr>)"
  by (auto simp: keeps_band_def band_ok_def)

lemma keeps_advance: "keeps_band (\<lambda>b. fst (advance now b))"
proof -
  have idle: "keeps_band (\<lambda>b. idle_release now (b\<lparr>bd_last := now\<rparr>))" by (auto simp: keeps_band_def idle_release_def band_ok_def)
  have leak: "keeps_band (\<lambda>c. fst (leak_step dt c))" for dt
  proof -
    have "band_ok (fst (leak_step dt c))" if c: "band_ok c" for c
      using c target_falloff [OF c, of "bd_raw c * exp (- dt / leak_tau)"] by (auto simp: leak_step_def Let_def band_ok_def)
    then show ?thesis by (auto simp: keeps_band_def leak_step_def Let_def)
  qed
  have spring: "keeps_band (spring_step dt)" for dt
    by (simp add: keeps_band_def spring_step_def band_ok_def Let_def split: prod.splits)
  have "fst (advance now b) = spring_step (max 0 ((now - bd_last b) / 1000))
      (fst (leak_step (max 0 ((now - bd_last b) / 1000)) (idle_release now (b\<lparr>bd_last := now\<rparr>))))" for b
    by (simp add: advance_def Let_def split: prod.splits)
  with idle leak spring show ?thesis by (simp add: keeps_band_def)
qed

lemma core_on_band: "core s \<Longrightarrow> keeps_band f \<Longrightarrow> core (on_band u f s) \<and> rb_bands (on_band u f s) = rb_bands s"
proof -
  assume c: "core s" and k: "keeps_band f"
  let ?o = "(rb_objs s)(u := map_option f (rb_objs s u))"
  have "\<exists>b. ?o u' = Some b \<and> bd_scroller b = sc" if "(sc, u') \<in> set (rb_bands s)" for sc u'
  proof -
    from c that obtain b where "rb_objs s u' = Some b" "bd_scroller b = sc" unfolding core_def by blast
    with k show ?thesis by (cases "u' = u") (auto simp: keeps_band_def)
  qed
  moreover have "u' < rb_next s \<and> band_ok b'" if o: "?o u' = Some b'" for u' b'
  proof (cases "u' = u")
    case True
    with o obtain b where "rb_objs s u = Some b" "b' = f b" by auto
    with c k True show ?thesis unfolding core_def keeps_band_def by blast
  next
    case False
    with o c show ?thesis unfolding core_def by simp
  qed
  moreover have "\<exists>u' b. (sc, u') \<in> set (rb_bands s) \<and> ?o u' = Some b \<and> bd_glow b" if "sc \<in> dom (rb_light s) - rb_gone s" for sc
  proof -
    from c that obtain u' b where b: "(sc, u') \<in> set (rb_bands s)" "rb_objs s u' = Some b" "bd_glow b"
      unfolding core_def by blast
    with k show ?thesis by (intro exI [of _ u'] exI [of _ "if u' = u then f b else b"]) (auto simp: keeps_band_def)
  qed
  ultimately show ?thesis
    using c unfolding core_def on_band_def by (simp add: case_prod_unfold)
qed

lemma core_pump: "core s \<Longrightarrow> rb_raf s \<longrightarrow> rb_bands s \<noteq> [] \<Longrightarrow> rb_inv (pump s)"
  by (auto simp: rb_inv_def pump_def core_def)

lemma core_ctl [simp]:
  "core (s\<lparr>rb_wheel := w\<rparr>) = core s" "core (s\<lparr>rb_touch := w\<rparr>) = core s" "core (s\<lparr>rb_touch_id := i\<rparr>) = core s"
  "core (s\<lparr>rb_touch_y := y\<rparr>) = core s" "core (s\<lparr>rb_prevented := p\<rparr>) = core s" "core (s\<lparr>rb_wheel_at := t\<rparr>) = core s"
  "core (s\<lparr>rb_dense := d\<rparr>) = core s" "core (s\<lparr>rb_guard_until := t\<rparr>) = core s" "core (s\<lparr>rb_raf := r\<rparr>) = core s"
  "core (s\<lparr>rb_guard_edge := e\<rparr>) = core s" "core (s\<lparr>rb_guard_rate := e\<rparr>) = core s"
  by (simp_all add: core_def)

lemma inv_ctl [simp]:
  "rb_inv (s\<lparr>rb_wheel := w\<rparr>) = rb_inv s" "rb_inv (s\<lparr>rb_touch := w\<rparr>) = rb_inv s" "rb_inv (s\<lparr>rb_touch_id := i\<rparr>) = rb_inv s"
  "rb_inv (s\<lparr>rb_touch_y := y\<rparr>) = rb_inv s" "rb_inv (s\<lparr>rb_prevented := p\<rparr>) = rb_inv s" "rb_inv (s\<lparr>rb_wheel_at := t\<rparr>) = rb_inv s"
  "rb_inv (s\<lparr>rb_dense := d\<rparr>) = rb_inv s" "rb_inv (s\<lparr>rb_guard_until := t\<rparr>) = rb_inv s"
  by (simp_all add: rb_inv_def)

lemma inv_pull:
  "core s \<Longrightarrow> rb_raf s \<longrightarrow> rb_bands s \<noteq> [] \<Longrightarrow> rb_objs s u \<noteq> None \<Longrightarrow> rb_inv (snd (pull u now dy s))"
  using core_on_band [OF _ keeps_pull, of s u now dy]
  by (auto simp: pull_def intro!: core_pump simp: on_band_def)

lemma band_for_core:
  assumes "rb_inv s" and "band_for env now el s = (r, s')"
  shows "core s' \<and> (rb_raf s' \<longrightarrow> rb_bands s' \<noteq> []) \<and> (r = None \<longrightarrow> s' = s) \<and> (\<forall>u. r = Some u \<longrightarrow> rb_objs s' u \<noteq> None)"
proof (cases "map_of (rb_bands s) (el_id el)")
  case (Some u)
  have "(el_id el, u) \<in> set (rb_bands s)" by (rule map_of_SomeD [OF Some])
  with assms(1) have "rb_objs s u \<noteq> None" by (fastforce simp: rb_inv_def core_def)
  with assms Some show ?thesis by (auto simp: band_for_def rb_inv_def)
next
  case None
  show ?thesis
  proof (cases "en_has_content env (el_id el)")
    case True
    have c: "core s" using assms(1) by (simp add: rb_inv_def)
    then have fresh: "rb_objs s (rb_next s) = None" by (force simp: core_def)
    have old: "u \<noteq> rb_next s" if "(sc, u) \<in> set (rb_bands s)" for sc u
      using c that fresh by (force simp: core_def)
    let ?s = "s\<lparr>rb_objs := (rb_objs s)(rb_next s \<mapsto> new_band env now el), rb_next := Suc (rb_next s),
            rb_will_change := insert (el_id el) (rb_will_change s), rb_bands := rb_bands s @ [(el_id el, rb_next s)]\<rparr>"
    have "core ?s"
    proof (rule coreI)
      show "distinct (map fst (rb_bands ?s))" using coreD(1) [OF c] None by (simp add: map_of_eq_None_iff)
      show "\<exists>b. rb_objs ?s u = Some b \<and> bd_scroller b = sc" if "(sc, u) \<in> set (rb_bands ?s)" for sc u
        using that coreD(2) [OF c, of sc u] old [of sc u] by (auto simp: new_band_def)
      show "u < rb_next ?s \<and> band_ok b" if "rb_objs ?s u = Some b" for u b
        using that coreD(3) [OF c, of u b] band_ok_new [of env now el] by (auto split: if_splits)
      show "dom (rb_transform ?s) \<union> rb_will_change ?s \<subseteq> fst ` set (rb_bands ?s) \<union> rb_gone ?s"
        using coreD(4) [OF c] by auto
      show "\<exists>u b. (sc, u) \<in> set (rb_bands ?s) \<and> rb_objs ?s u = Some b \<and> bd_glow b" if "sc \<in> dom (rb_light ?s) - rb_gone ?s" for sc
      proof -
        from that coreD(5) [OF c, of sc] obtain u b where b: "(sc, u) \<in> set (rb_bands s)" "rb_objs s u = Some b" "bd_glow b" by auto
        with old show ?thesis by (intro exI [of _ u] exI [of _ b]) auto
      qed
    qed
    moreover have "s' = ?s" "r = Some (rb_next s)" using assms(2) None True by (auto simp: band_for_def Let_def)
    ultimately show ?thesis by simp

  qed (use assms None in \<open>simp add: band_for_def rb_inv_def\<close>)
qed

lemma sgn_edge: "dy \<noteq> 0 \<Longrightarrow> sgn (dy :: real) \<in> {1, -1}"
  by (simp add: sgn_if)

lemma inv_wheel_pull:
  "core s \<Longrightarrow> rb_raf s \<longrightarrow> rb_bands s \<noteq> [] \<Longrightarrow> rb_objs s u \<noteq> None \<Longrightarrow> rb_inv (wheel_pull now dy u s)"
  using inv_pull [of s u now dy] by (cases "pull u now dy s") (simp add: wheel_pull_def)

lemma inv_on_wheel:
  assumes "rb_inv s"
  shows "rb_inv (on_wheel env now e s)"
proof -
  let ?s = "s\<lparr>rb_prevented := False, rb_wheel_at := now, rb_dense := is_dense (delta_of env e) (now - rb_wheel_at s)\<rparr>"
  have inv: "rb_inv ?s" "core ?s" "rb_raf ?s \<longrightarrow> rb_bands ?s \<noteq> []" using assms by (simp_all add: rb_inv_def)
  have latched: "rb_inv (wheel_pull now dy u ?s)" if "wheel_latched now ?s = Some u" for dy u
    by (rule inv_wheel_pull [OF inv(2,3)]) (use that in \<open>auto simp: wheel_latched_def split: option.splits if_splits\<close>)
  have fresh: "rb_inv (wheel_pull now dy u ((on_band u (wheel_claim (sgn dy) dense) s')\<lparr>rb_wheel := Some u\<rparr>))"
    if "dy \<noteq> 0" "band_for env now el (?s\<lparr>rb_wheel := None\<rparr>) = (Some u, s')" for dy dense el u s'
  proof -
    have "core s' \<and> (rb_raf s' \<longrightarrow> rb_bands s' \<noteq> []) \<and> rb_objs s' u \<noteq> None"
      using band_for_core [OF _ that(2)] inv(1) by simp
    then show ?thesis
      using core_on_band [OF _ keeps_wheel_claim [OF sgn_edge [OF that(1)]], of s' u dense]
      by (intro inv_wheel_pull) (auto simp: on_band_def)
  qed
  have none: "rb_inv s'" if "band_for env now el (?s\<lparr>rb_wheel := None\<rparr>) = (None, s')" for el s'
    using band_for_core [OF _ that] inv(1) by simp
  show ?thesis
    using assms inv(1) latched fresh none
    by (auto simp: on_wheel_def Let_def split: option.splits prod.splits)
qed

lemma inv_touch_end: "rb_inv s \<Longrightarrow> rb_inv (on_touch_end s)"
  using core_on_band [OF _ keeps_fields(2), of s]
  by (auto simp: on_touch_end_def Let_def rb_inv_def on_band_def split: option.splits
      intro!: core_pump [unfolded rb_inv_def, THEN conjunct1] core_pump [unfolded rb_inv_def, THEN conjunct2])

lemma inv_touch_pull:
  assumes "core s" and "rb_raf s \<longrightarrow> rb_bands s \<noteq> []" and "rb_objs s u \<noteq> None"
  shows "rb_inv (touch_pull now dy u s)"
proof -
  let ?s = "on_band u (\<lambda>b. b\<lparr>bd_omega := touch_omega\<rparr>) s"
  have "core ?s" "rb_bands ?s = rb_bands s" using core_on_band [OF assms(1) keeps_fields(1)] by blast+
  then have "rb_inv (snd (pull u now dy ?s))"
    using assms by (intro inv_pull) (auto simp: on_band_def)
  then show ?thesis by (cases "pull u now dy ?s") (simp add: touch_pull_def)
qed

text \<open>The latches only ever refer to objects that exist.\<close>

definition latch_ok :: "rubber \<Rightarrow> bool" where
  "latch_ok s \<longleftrightarrow> (\<forall>u. rb_touch s = Some u \<longrightarrow> rb_objs s u \<noteq> None)"

lemma inv_touch_move:
  assumes "rb_inv s" and "latch_ok s"
  shows "rb_inv (on_touch_move env now touches chain s)"
proof -
  have fresh: "rb_inv (touch_pull now dy u ((on_band u (claim (sgn dy) False) s')\<lparr>rb_touch := Some u\<rparr>))"
    if "dy \<noteq> 0" "band_for env now el (s\<lparr>rb_prevented := False, rb_touch_y := y\<rparr>) = (Some u, s')" for dy y el u s'
  proof -
    have "core s' \<and> (rb_raf s' \<longrightarrow> rb_bands s' \<noteq> []) \<and> rb_objs s' u \<noteq> None"
      using band_for_core [OF _ that(2)] assms(1) by simp
    then show ?thesis
      using core_on_band [OF _ keeps_claim [OF sgn_edge [OF that(1)]], of s' u False]
      by (intro inv_touch_pull) (auto simp: on_band_def)
  qed
  have held: "rb_inv (touch_pull now dy u (s\<lparr>rb_prevented := False, rb_touch_y := y\<rparr>))" if "rb_touch s = Some u" for dy y u
    by (rule inv_touch_pull) (use assms that in \<open>auto simp: rb_inv_def latch_ok_def\<close>)
  have none: "rb_inv s'" if "band_for env now el (s\<lparr>rb_prevented := False, rb_touch_y := y\<rparr>) = (None, s')" for el y s'
    using band_for_core [OF _ that] assms(1) by simp
  show ?thesis
    using assms(1) fresh held none
    by (auto simp: on_touch_move_def Let_def split: option.splits prod.splits list.splits)
qed

lemma inv_key:
  assumes "rb_inv s"
  shows "rb_inv (on_key env now m c k chain s)"
proof -
  have kick: "rb_inv (pump (on_band u (key_kick now (key_dir k)) s'))"
    if "key_dir k \<noteq> 0" "band_for env now el s = (Some u, s')" for el u s'
  proof -
    have "key_dir k \<in> {1, -1}" using that(1) by (auto simp: key_dir_def split: if_splits)
    moreover have "core s' \<and> (rb_raf s' \<longrightarrow> rb_bands s' \<noteq> [])" using band_for_core [OF assms that(2)] by simp
    ultimately show ?thesis
      using core_on_band [OF _ keeps_kick, of s' "key_dir k" u now] by (intro core_pump) (auto simp: on_band_def)
  qed
  moreover have "rb_inv s'" if "band_for env now el s = (None, s')" for el s'
    using band_for_core [OF assms that] assms by simp
  ultimately show ?thesis
    using assms by (auto simp: on_key_def Let_def split: option.splits prod.splits)
qed

text \<open>Dropping one scroller's entry, with its styles or leaving it to the ghost.\<close>

lemma core_drop:
  assumes "core s"
  shows "core (s\<lparr>rb_bands := filter (\<lambda>e. fst e \<noteq> sc) (rb_bands s), rb_gone := insert sc (rb_gone s)\<rparr>)"
proof -
  have "fst ` set (filter (\<lambda>e. fst e \<noteq> sc) (rb_bands s)) = fst ` set (rb_bands s) - {sc}" by auto
  with coreD(4) [OF assms] have "dom (rb_transform s) \<union> rb_will_change s
      \<subseteq> fst ` set (filter (\<lambda>e. fst e \<noteq> sc) (rb_bands s)) \<union> insert sc (rb_gone s)" by blast
  then show ?thesis
    using coreD(1-3,5) [OF assms] by (intro coreI) (simp_all add: distinct_map_filter)
qed

lemma core_rest:
  assumes "core s" and "rb_objs s u = Some b" and "(bd_scroller b, u) \<in> set (rb_bands s)"
  shows "core (rest alive u s) \<and> rb_bands (rest alive u s) = filter (\<lambda>e. fst e \<noteq> bd_scroller b) (rb_bands s)
    \<and> rb_objs (rest alive u s) = rb_objs s"
proof -
  let ?sc = "bd_scroller b"
  have c: "distinct (map fst (rb_bands s))" "\<forall>sc \<in> dom (rb_light s) - rb_gone s. \<exists>u b. (sc, u) \<in> set (rb_bands s) \<and> rb_objs s u = Some b \<and> bd_glow b"
    using assms(1) unfolding core_def by blast+
  have only: "u' = u" if "(?sc, u') \<in> set (rb_bands s)" for u'
    using c(1) assms(3) that by (metis eq_key_imp_eq_value)
  let ?l = "if bd_glow b then (rb_light s)(?sc := None) else rb_light s"
  have light: "\<exists>u' b'. (sc, u') \<in> set (filter (\<lambda>e. fst e \<noteq> ?sc) (rb_bands s)) \<and> rb_objs s u' = Some b' \<and> bd_glow b'"
    if l: "sc \<in> dom ?l - rb_gone s" for sc
  proof -
    have "sc \<in> dom (rb_light s) - rb_gone s" using l by (auto split: if_splits)
    with c(2) obtain u' b' where b': "(sc, u') \<in> set (rb_bands s)" "rb_objs s u' = Some b'" "bd_glow b'" by blast
    have "sc \<noteq> ?sc"
    proof
      assume "sc = ?sc"
      with b' only assms(2) have "bd_glow b" by auto
      with l \<open>sc = ?sc\<close> show False by auto
    qed
    with b' show ?thesis by auto
  qed
  have "fst ` set (filter (\<lambda>e. fst e \<noteq> ?sc) (rb_bands s)) = fst ` set (rb_bands s) - {?sc}" by auto
  then have "(dom (rb_transform s) - {?sc}) \<union> (rb_will_change s - {?sc})
      \<subseteq> fst ` set (filter (\<lambda>e. fst e \<noteq> ?sc) (rb_bands s)) \<union> rb_gone s"
    using coreD(4) [OF assms(1)] by blast
  then have "core (rest alive u s)"
    using coreD(1-3) [OF assms(1)] assms(2) light
    by (intro coreI) (simp_all add: rest_def distinct_map_filter dom_fun_upd)
  with assms(2) show ?thesis by (simp add: rest_def)
qed

lemma core_paint:
  assumes "core s" and "rb_objs s u = Some b" and "(bd_scroller b, u) \<in> set (rb_bands s)"
  shows "core (paint u s) \<and> rb_bands (paint u s) = rb_bands s"
proof -
  have light: "\<exists>u' b'. (sc, u') \<in> set (rb_bands s) \<and> rb_objs s u' = Some b' \<and> bd_glow b'"
    if "sc \<in> dom (rb_light (paint u s)) - rb_gone s" for sc
  proof (cases "sc = bd_scroller b \<and> bd_glow b")
    case True
    with assms(2,3) show ?thesis by blast
  next
    case False
    with that assms(2) have "sc \<in> dom (rb_light s) - rb_gone s"
      by (auto simp: paint_def Let_def split: if_splits)
    with coreD(5) [OF assms(1)] show ?thesis by blast
  qed
  have "dom ((rb_transform s)(bd_scroller b \<mapsto> bd_offset b)) \<union> rb_will_change s \<subseteq> fst ` set (rb_bands s) \<union> rb_gone s"
    using coreD(4) [OF assms(1)] assms(3) by force
  then have "core (paint u s)"
    using coreD(1-3) [OF assms(1)] assms(2) light
    by (intro coreI) (simp_all add: paint_def Let_def)
  with assms(2) show ?thesis by (simp add: paint_def Let_def)
qed

lemma core_tick_band:
  assumes "core s" and "(sc, u) \<in> set (rb_bands s)"
  shows "core (tick_band alive now u s) \<and> rb_bands (tick_band alive now u s) \<in> {rb_bands s, filter (\<lambda>e. fst e \<noteq> sc) (rb_bands s)}"
proof -
  from coreD(2) [OF assms] obtain b where b: "rb_objs s u = Some b" "bd_scroller b = sc" by blast
  show ?thesis
  proof (cases "alive sc")
    case False
    with b core_drop [OF assms(1)] show ?thesis by (simp add: tick_band_def)
  next
    case True
    obtain b' spent where adv: "advance now b = (b', spent)" by (cases "advance now b") blast
    let ?o = "on_band u (\<lambda>b. fst (advance now b)) s"
    let ?s = "if spent then ?o\<lparr>rb_guard_edge := bd_edge b', rb_guard_rate := bd_peak_rate b', rb_guard_until := now + idle_ms\<rparr> else ?o"
    have o: "core ?o" "rb_bands ?o = rb_bands s" using core_on_band [OF assms(1) keeps_advance] by blast+
    then have s: "core ?s" "rb_bands ?s = rb_bands s" by simp_all
    have obj: "rb_objs ?s u = Some b'" using b(1) adv by (simp add: on_band_def)
    have sc: "bd_scroller b' = sc" using keeps_advance [of now] b(2) adv by (metis fst_conv keeps_band_def)
    have mem: "(bd_scroller b', u) \<in> set (rb_bands ?s)" using assms(2) s(2) sc by simp
    have "tick_band alive now u s = (if settled b' then rest alive u ?s else paint u ?s)"
      using b True adv by (simp add: tick_band_def Let_def on_band_def)
    then show ?thesis
      using core_rest [OF s(1) obj mem, of alive] core_paint [OF s(1) obj mem] s(2) sc by (cases "settled b'") simp_all
  qed
qed

text \<open>A pass over the snapshot of the bands, each entry still present when its turn comes.\<close>

lemma core_fold:
  assumes step: "\<And>s sc u. core s \<Longrightarrow> (sc, u) \<in> set (rb_bands s) \<Longrightarrow>
      core (f u s) \<and> rb_bands (f u s) \<in> {rb_bands s, filter (\<lambda>e. fst e \<noteq> sc) (rb_bands s)}"
  shows "core s \<Longrightarrow> distinct us \<Longrightarrow> \<forall>u \<in> set us. \<exists>sc. (sc, u) \<in> set (rb_bands s) \<Longrightarrow>
    core (fold f us s) \<and> set (rb_bands (fold f us s)) \<subseteq> set (rb_bands s)"
proof (induction us arbitrary: s)
  case (Cons u us)
  from Cons.prems(3) obtain sc where sc: "(sc, u) \<in> set (rb_bands s)" by auto
  note st = step [OF Cons.prems(1) sc]
  have "\<exists>sc'. (sc', u') \<in> set (rb_bands (f u s))" if "u' \<in> set us" for u'
  proof -
    from that Cons.prems(3) obtain sc' where sc': "(sc', u') \<in> set (rb_bands s)" by auto
    have "u' \<noteq> u" using that Cons.prems(2) by auto
    then have "sc' \<noteq> sc" using eq_key_imp_eq_value [OF coreD(1) [OF Cons.prems(1)] sc] sc' by blast
    with sc' st show ?thesis by auto
  qed
  with Cons.IH [of "f u s"] st Cons.prems(2)
  have "core (fold f us (f u s)) \<and> set (rb_bands (fold f us (f u s))) \<subseteq> set (rb_bands (f u s))" by simp
  moreover have "set (rb_bands (f u s)) \<subseteq> set (rb_bands s)" using st by auto
  ultimately show ?case by auto
qed simp

lemma core_snapshot:
  assumes "core s"
  shows "distinct (map snd (rb_bands s))" and "\<forall>u \<in> set (map snd (rb_bands s)). \<exists>sc. (sc, u) \<in> set (rb_bands s)"
proof -
  have "inj_on snd (set (rb_bands s))"
  proof (rule inj_onI)
    fix x y assume "x \<in> set (rb_bands s)" "y \<in> set (rb_bands s)" "snd x = snd y"
    with coreD(2) [OF assms, of "fst x" "snd x"] coreD(2) [OF assms, of "fst y" "snd y"]
    show "x = y" by (metis option.sel prod.collapse)
  qed
  moreover have "distinct (rb_bands s)" using coreD(1) [OF assms] by (simp add: distinct_map)
  ultimately show "distinct (map snd (rb_bands s))" by (simp add: distinct_map)
qed force

lemma inv_tick: 
  assumes "rb_inv s"
  shows "rb_inv (tick alive now s)"
proof -
  have c: "core (s\<lparr>rb_raf := False\<rparr>)" using assms by (simp add: rb_inv_def)
  have "core (fold (tick_band alive now) (map snd (rb_bands s)) (s\<lparr>rb_raf := False\<rparr>))"
    using core_fold [OF core_tick_band c] core_snapshot [OF c] by simp
  then show ?thesis unfolding tick_def Let_def rb_inv_def by simp
qed

lemma core_rest_entry:
  assumes "core s" and "(sc, u) \<in> set (rb_bands s)"
  shows "core (rest alive u s) \<and> rb_bands (rest alive u s) = filter (\<lambda>e. fst e \<noteq> sc) (rb_bands s)"
proof -
  from coreD(2) [OF assms] obtain b where b: "rb_objs s u = Some b" "bd_scroller b = sc" by blast
  with core_rest [OF assms(1) b(1)] assms(2) show ?thesis by simp
qed

lemma rest_all:
  "core s \<Longrightarrow> map snd (rb_bands s) = us \<Longrightarrow> core (fold (rest alive) us s) \<and> rb_bands (fold (rest alive) us s) = []"
proof (induction us arbitrary: s)
  case (Cons u us)
  then obtain sc es where es: "rb_bands s = (sc, u) # es" "map snd es = us" by (auto simp: Cons_eq_map_conv)
  have "\<forall>e \<in> set es. fst e \<noteq> sc" using coreD(1) [OF Cons.prems(1)] es(1) by force
  then have "rb_bands (rest alive u s) = es" "core (rest alive u s)"
    using core_rest_entry [OF Cons.prems(1), of sc u alive] es(1) by simp_all
  with Cons.IH [of "rest alive u s"] es(2) show ?case by simp
qed simp

lemma inv_reset: "rb_inv s \<Longrightarrow> rb_inv (reset_bands alive s) \<and> rb_bands (reset_bands alive s) = []"
  using rest_all [of s _ alive] by (simp add: reset_bands_def rb_inv_def)

text \<open>The objects that a latch refers to exist.\<close>

definition grows :: "rubber \<Rightarrow> rubber \<Rightarrow> bool" where
  "grows s s' \<longleftrightarrow> dom (rb_objs s) \<subseteq> dom (rb_objs s') \<and> (\<forall>u. rb_touch s' = Some u \<longrightarrow> rb_touch s = Some u \<or> u \<in> dom (rb_objs s'))"

lemma grows_refl [simp]: "grows s s"
  by (simp add: grows_def)

lemma grows_trans [trans]: "grows s s' \<Longrightarrow> grows s' s'' \<Longrightarrow> grows s s''"
  unfolding grows_def by blast

lemma latch_grows: "latch_ok s \<Longrightarrow> grows s s' \<Longrightarrow> latch_ok s'"
  unfolding grows_def latch_ok_def by blast

lemma grows_on_band: "grows s (on_band u f s)"
  by (auto simp: grows_def on_band_def)

lemma grows_pump: "grows s (pump s)"
  by (simp add: grows_def pump_def)

lemma grows_paint: "grows s (paint u s)"
  by (simp add: grows_def paint_def Let_def split: option.splits)

lemma grows_rest: "grows s (rest alive u s)"
  by (simp add: grows_def rest_def split: option.splits)

lemma grows_fold: "(\<And>u s. grows s (f u s)) \<Longrightarrow> grows s (fold f us s)"
  by (induction us arbitrary: s) (auto intro: grows_trans)

lemma grows_ctl [simp]:
  "grows s (t\<lparr>rb_wheel := w\<rparr>) = grows s t" "grows s (t\<lparr>rb_touch_id := i\<rparr>) = grows s t"
  "grows s (t\<lparr>rb_touch_y := y\<rparr>) = grows s t" "grows s (t\<lparr>rb_prevented := p\<rparr>) = grows s t"
  "grows s (t\<lparr>rb_wheel_at := d'\<rparr>) = grows s t" "grows s (t\<lparr>rb_dense := d\<rparr>) = grows s t"
  "grows s (t\<lparr>rb_guard_until := g\<rparr>) = grows s t" "grows s (t\<lparr>rb_raf := r\<rparr>) = grows s t"
  "grows s (t\<lparr>rb_guard_edge := d'\<rparr>) = grows s t" "grows s (t\<lparr>rb_guard_rate := d'\<rparr>) = grows s t"
  "grows (s\<lparr>rb_wheel := w\<rparr>) t = grows s t" "grows (s\<lparr>rb_prevented := p\<rparr>) t = grows s t"
  "grows (s\<lparr>rb_wheel_at := d'\<rparr>) t = grows s t" "grows (s\<lparr>rb_dense := d\<rparr>) t = grows s t"
  "grows (s\<lparr>rb_touch_y := y\<rparr>) t = grows s t" "grows (s\<lparr>rb_raf := r\<rparr>) t = grows s t"
  by (simp_all add: grows_def)

lemma grows_drop_touch: "grows s t \<Longrightarrow> grows s (t\<lparr>rb_touch := None\<rparr>)"
  by (simp add: grows_def)

lemma grows_take_touch: "grows s t \<Longrightarrow> rb_objs t u \<noteq> None \<Longrightarrow> grows s (t\<lparr>rb_touch := Some u\<rparr>)"
  by (auto simp: grows_def)

lemma grows_settle: "grows s (if settled b' then rest alive u s else paint u s)"
  by (simp add: grows_rest grows_paint)

lemma grows_tick_band: "grows s (tick_band alive now u s)"
proof (cases "rb_objs s u")
  case (Some b)
  obtain b' spent where adv: "advance now b = (b', spent)" by (cases "advance now b") blast
  define t where "t = (if spent then (s\<lparr>rb_objs := (rb_objs s)(u \<mapsto> b')\<rparr>)\<lparr>rb_guard_edge := bd_edge b', rb_guard_rate := bd_peak_rate b', rb_guard_until := now + idle_ms\<rparr>
    else s\<lparr>rb_objs := (rb_objs s)(u \<mapsto> b')\<rparr>)"
  have "grows s t" by (auto simp: t_def grows_def)
  then have "grows s (if settled b' then rest alive u t else paint u t)" by (rule grows_trans [OF _ grows_settle])
  moreover have "grows s (s\<lparr>rb_bands := filter (\<lambda>e. fst e \<noteq> bd_scroller b) (rb_bands s), rb_gone := insert (bd_scroller b) (rb_gone s)\<rparr>)"
    by (simp add: grows_def)
  moreover have "tick_band alive now u s = (if \<not> alive (bd_scroller b)
      then s\<lparr>rb_bands := filter (\<lambda>e. fst e \<noteq> bd_scroller b) (rb_bands s), rb_gone := insert (bd_scroller b) (rb_gone s)\<rparr>
      else if settled b' then rest alive u t else paint u t)"
    unfolding tick_band_def t_def Some option.case adv Let_def prod.case by (rule refl)
  ultimately show ?thesis by presburger
qed (simp add: tick_band_def)

lemma grows_tick: "grows s (tick alive now s)"
proof -
  have "grows (s\<lparr>rb_raf := False\<rparr>) (fold (tick_band alive now) (map snd (rb_bands s)) (s\<lparr>rb_raf := False\<rparr>))"
    by (rule grows_fold [OF grows_tick_band])
  then show ?thesis by (simp add: tick_def Let_def)
qed

lemma grows_reset: "grows s (reset_bands alive s)"
proof -
  have "grows s (fold (rest alive) (map snd (rb_bands s)) s)" by (rule grows_fold [OF grows_rest])
  then show ?thesis by (simp add: reset_bands_def grows_drop_touch)
qed

lemma grows_pull: "grows s (snd (pull u now dy s))"
  using grows_trans [OF grows_on_band grows_pump] by (simp add: pull_def split: option.splits)

lemma grows_band_for: "band_for env now el s = (r, s') \<Longrightarrow> grows s s'"
  by (auto simp: band_for_def grows_def Let_def split: option.splits if_splits)

lemma grows_wheel_pull: "grows s (wheel_pull now dy u s)"
  using grows_pull [of s u now dy] by (cases "pull u now dy s") (simp add: wheel_pull_def)

lemma grows_touch_pull: "grows s (touch_pull now dy u s)"
proof -
  let ?s = "on_band u (\<lambda>b. b\<lparr>bd_omega := touch_omega\<rparr>) s"
  have "grows s (snd (pull u now dy ?s))" by (rule grows_trans [OF grows_on_band grows_pull])
  then show ?thesis by (cases "pull u now dy ?s") (simp add: touch_pull_def grows_drop_touch)
qed

lemma grows_on_wheel: "grows s (on_wheel env now e s)"
proof -
  let ?s = "s\<lparr>rb_prevented := False, rb_wheel_at := now, rb_dense := is_dense (delta_of env e) (now - rb_wheel_at s)\<rparr>"
  have latched: "grows s (wheel_pull now dy u ?s)" for dy u
    using grows_wheel_pull [of ?s now dy u] by simp
  have fresh: "grows s (wheel_pull now dy u ((on_band u f s')\<lparr>rb_wheel := Some u\<rparr>))"
    if "band_for env now el (?s\<lparr>rb_wheel := None\<rparr>) = (Some u, s')" for s' dy u f el
  proof -
    have "grows s s'" using grows_band_for [OF that] by simp
    then have "grows s (on_band u f s')" by (rule grows_trans [OF _ grows_on_band])
    then have "grows s ((on_band u f s')\<lparr>rb_wheel := Some u\<rparr>)" by simp
    then show ?thesis by (rule grows_trans [OF _ grows_wheel_pull])
  qed
  have none: "grows s s'" if "band_for env now el (?s\<lparr>rb_wheel := None\<rparr>) = (None, s')" for s' el
    using grows_band_for [OF that] by simp
  show ?thesis
    using latched fresh none by (auto simp: on_wheel_def Let_def split: option.splits prod.splits)
qed

lemma grows_touch_end: "grows s (on_touch_end s)"
  using grows_trans [OF grows_on_band grows_pump]
  by (auto simp: on_touch_end_def Let_def grows_drop_touch split: option.splits)

lemma grows_touch_start: "grows s (on_touch_start ts s)"
  using grows_touch_end by (auto simp: on_touch_start_def grows_drop_touch split: list.splits)

lemma grows_key: "grows s (on_key env now m c k chain s)"
proof -
  have "grows s (pump (on_band u f s'))" if "band_for env now el s = (Some u, s')" for s' u f el
    by (rule grows_trans [OF grows_trans [OF grows_band_for [OF that] grows_on_band] grows_pump])
  then show ?thesis
    using grows_band_for by (auto simp: on_key_def Let_def split: option.splits prod.splits)
qed

lemma grows_touch_move:
  assumes "rb_inv s"
  shows "grows s (on_touch_move env now ts chain s)"
proof -
  have "grows s (touch_pull now dy u ((on_band u f s')\<lparr>rb_touch := Some u\<rparr>))"
    if "band_for env now el (s\<lparr>rb_prevented := False, rb_touch_y := y\<rparr>) = (Some u, s')" for s' dy u f el y
  proof -
    have "grows s s'" "rb_objs s' u \<noteq> None"
      using grows_band_for [OF that] band_for_core [OF _ that] assms by simp_all
    then have "grows s ((on_band u f s')\<lparr>rb_touch := Some u\<rparr>)"
      using grows_trans [OF _ grows_on_band] by (intro grows_take_touch) (auto simp: on_band_def)
    then show ?thesis by (rule grows_trans [OF _ grows_touch_pull])
  qed
  moreover have "grows s s'" if "band_for env now el (s\<lparr>rb_prevented := False, rb_touch_y := y\<rparr>) = (None, s')" for s' el y
    using grows_band_for [OF that] by simp
  ultimately show ?thesis
    using grows_touch_pull [of "s\<lparr>rb_prevented := False, rb_touch_y := y\<rparr>" for y]
    by (auto simp: on_touch_move_def Let_def split: option.splits prod.splits list.splits)
qed

lemma inv_touch_start: "rb_inv s \<Longrightarrow> rb_inv (on_touch_start ts s)"
  using inv_touch_end by (auto simp: on_touch_start_def split: list.splits)

definition rb_ok :: "rubber \<Rightarrow> bool" where
  "rb_ok s \<longleftrightarrow> rb_inv s \<and> latch_ok s"

lemma rb_ok_step: "rb_ok s \<Longrightarrow> rb_ok (rb_step s e)"
proof -
  assume s: "rb_ok s"
  have "rb_inv (rb_step s e)"
    using s by (cases e) (simp_all add: rb_ok_def inv_on_wheel inv_touch_start inv_touch_move inv_touch_end inv_key inv_tick inv_reset)
  moreover have "grows s (rb_step s e)"
    using s by (cases e) (simp_all add: rb_ok_def grows_on_wheel grows_touch_start grows_touch_move grows_touch_end grows_key grows_tick grows_reset)
  ultimately show ?thesis using s latch_grows unfolding rb_ok_def by blast
qed

lemma rb_ok_init: "rb_ok rb_init"
  by (simp add: rb_ok_def rb_inv_def core_def latch_ok_def rb_init_def)

interpretation bands: invariant_machine rb_step rb_ok
  by unfold_locales (rule rb_ok_step)

section \<open>What the machine guarantees\<close>

text \<open>C1. After any sequence of wheel, touch, key and frame events and resets, a frame is scheduled exactly
  when a band is live; every live band aims strictly inside its asymptote, which is at most 160 px,
  and aims at zero once released; and only contents that have a live band carry a transform,
  \<open>will-change\<close> or a glow, those that left the document while their band was live excepted.\<close>

theorem bands_invariant:
  assumes "s = foldl rb_step rb_init es"
  shows "rb_raf s = (rb_bands s \<noteq> []) \<and> styled s \<subseteq> fst ` set (rb_bands s) \<union> rb_gone s
    \<and> (\<forall>(sc, u) \<in> set (rb_bands s). \<exists>b. rb_objs s u = Some b \<and> bd_scroller b = sc \<and> \<bar>bd_target b\<bar> < bd_max b \<and> bd_max b \<le> 160
        \<and> (bd_held b \<or> bd_target b = 0))"
proof -
  have ok: "rb_inv s" using bands.inv_run [OF rb_ok_init, of es] assms by (simp add: rb_ok_def)
  then have c: "core s" by (simp add: rb_inv_def)
  have "\<exists>b. rb_objs s u = Some b \<and> bd_scroller b = sc \<and> \<bar>bd_target b\<bar> < bd_max b \<and> bd_max b \<le> 160 \<and> (bd_held b \<or> bd_target b = 0)"
    if "(sc, u) \<in> set (rb_bands s)" for sc u
    using coreD(2) [OF c that] coreD(3) [OF c, of u] unfolding band_ok_def by blast
  with ok core_styled [OF c] show ?thesis unfolding rb_inv_def by blast
qed

definition sample_scroller :: element where
  "sample_scroller = \<lparr>el_id = 1, el_html = True, el_overflow_y = ''auto'', el_scroll_height = 900, el_client_height = 300,
     el_scroll_top = 600, el_behavior = ''contain'', el_position = ''static''\<rparr>"

definition sample_env :: env where
  "sample_env = \<lparr>en_page = None, en_has_content = (\<lambda>_. True), en_has_glow = (\<lambda>_. True)\<rparr>"

lemmas sample_run = sample_scroller_def sample_env_def rb_init_def on_touch_start_def on_touch_move_def Let_def
  scrolls_def room_def band_for_def touch_pull_def pull_def pull_takes_def claim_def new_band_def on_band_def
  pull_band_def pump_def tick_def tick_band_def

theorem bands_invariant_witness:
  "\<exists>s. s = foldl rb_step rb_init [TouchStart [(0, 100)], TouchMove sample_env 0 [(0, 50)] [sample_scroller]]
    \<and> rb_bands s = [(1, 0)] \<and> rb_raf s = True \<and> styled s \<subseteq> {1} \<union> rb_gone s"
proof -
  define s where "s = foldl rb_step rb_init [TouchStart [(0, 100)], TouchMove sample_env 0 [(0, 50)] [sample_scroller]]"
  have "rb_bands s = [(1, 0)]" unfolding s_def by (simp add: sample_run)
  moreover from this have "rb_raf s = True" "styled s \<subseteq> {1} \<union> rb_gone s" using bands_invariant [OF s_def] by simp_all
  ultimately show ?thesis using s_def by blast
qed

text \<open>C2. A reset, at any point of any run, leaves no band, no scheduled frame and no latched gesture, and
  takes every transform, \<open>will-change\<close> and glow off the contents that are still in the document, so
  that navigation never snapshots a content in mid-bounce.\<close>

theorem reset_leaves_nothing:
  "let s = rb_step (foldl rb_step rb_init es) (Reset alive) in
    rb_bands s = [] \<and> \<not> rb_raf s \<and> rb_wheel s = None \<and> rb_touch s = None \<and> rb_touch_id s = -1 \<and> styled s \<subseteq> rb_gone s"
proof -
  let ?s = "foldl rb_step rb_init es"
  have "rb_inv ?s" using bands.inv_run [OF rb_ok_init, of es] by (simp add: rb_ok_def)
  then have "rb_inv (reset_bands alive ?s) \<and> rb_bands (reset_bands alive ?s) = []" by (rule inv_reset)
  moreover from this have "styled (reset_bands alive ?s) \<subseteq> rb_gone (reset_bands alive ?s)"
    using core_styled [of "reset_bands alive ?s"] unfolding rb_inv_def by simp
  ultimately show ?thesis by (simp add: Let_def reset_bands_def)
qed

lemma page_owner_room: "page_owner pg dir = Some el \<Longrightarrow> pg = Some el \<and> room el dir \<le> 1"
  by (auto simp: page_owner_def split: option.splits if_splits)

text \<open>The owner of a gesture has no room left in its direction, and is either the page or an element of
  the chain that scrolls and contains its overscroll; and no scrollable element between the target
  and the owner had room, so a band never takes a delta that the platform would have scrolled by.\<close>

theorem owner_at_its_end:
  "owner_for pg dir els = Some el \<Longrightarrow>
    room el dir \<le> 1 \<and> (pg = Some el \<or> el \<in> set els \<and> scrolls el \<and> el_behavior el \<in> {''contain'', ''none''})
    \<and> (\<forall>e \<in> set (takeWhile (\<lambda>e. e \<noteq> el \<and> map_option el_id pg \<noteq> Some (el_id e)) els).
         el_html e \<and> scrolls e \<and> el_scroll_height e - el_client_height e > 1 \<longrightarrow> room e dir \<le> 1)"
proof (induction pg dir els rule: owner_for.induct)
  case (1 pg dir)
  then show ?case by (auto dest: page_owner_room)
next
  case (2 pg dir e els)
  show ?case
  proof (cases "map_option el_id pg = Some (el_id e)")
    case True
    with 2 have "page_owner pg dir = Some el" by simp
    with True show ?thesis by (auto dest: page_owner_room)
  next
    case False
    note page = this
    let ?full = "scrolls e \<and> el_scroll_height e - el_client_height e > 1"
    show ?thesis
    proof (cases "el_html e \<and> ?full \<and> el_behavior e \<in> {''contain'', ''none''}")
      case True
      with 2 False have "el = e \<and> room e dir \<le> 1" by (simp split: if_splits)
      with True show ?thesis by auto
    next
      case noclaim: False
      have rest: "owner_for pg dir els = Some el" and noroom: "el_html e \<and> ?full \<longrightarrow> room e dir \<le> 1"
        using 2(3) page noclaim by (auto split: if_splits)
      have "room el dir \<le> 1 \<and> (pg = Some el \<or> el \<in> set els \<and> scrolls el \<and> el_behavior el \<in> {''contain'', ''none''})
        \<and> (\<forall>e \<in> set (takeWhile (\<lambda>e. e \<noteq> el \<and> map_option el_id pg \<noteq> Some (el_id e)) els).
             el_html e \<and> scrolls e \<and> el_scroll_height e - el_client_height e > 1 \<longrightarrow> room e dir \<le> 1)"
        using 2(1,2) rest page noclaim 2(3) by (simp split: if_splits)
      with noroom show ?thesis by auto
    qed
  qed
qed

theorem owner_at_its_end_witness:
  "owner_for None 1 [sample_scroller\<lparr>el_id := 2, el_behavior := ''auto''\<rparr>, sample_scroller] = Some sample_scroller
    \<and> room sample_scroller 1 \<le> 1"
proof -
  have "owner_for None 1 [sample_scroller\<lparr>el_id := 2, el_behavior := ''auto''\<rparr>, sample_scroller] = Some sample_scroller"
    by (simp add: sample_scroller_def scrolls_def room_def)
  with owner_at_its_end [OF this] show ?thesis by simp
qed

text \<open>A wheel event with no owner, no latched burst and no armed inertia guard is left to the platform:
  it is not prevented, and no band is created or moved.\<close>

theorem wheel_left_alone:
  assumes "owner_for (en_page env) (sgn (delta_of env e)) (wi_chain e) = None"
    and "wheel_latched now s = None" and "rb_guard_until s \<le> now"
  shows "\<not> rb_prevented (on_wheel env now e s) \<and> rb_bands (on_wheel env now e s) = rb_bands s
    \<and> rb_objs (on_wheel env now e s) = rb_objs s \<and> rb_raf (on_wheel env now e s) = rb_raf s"
proof -
  have "wheel_latched now (s\<lparr>rb_prevented := False, rb_wheel_at := now, rb_dense := d\<rparr>) = None" for d
    using assms(2) by (cases "rb_wheel s"; cases "rb_objs s (the (rb_wheel s))") (simp_all add: wheel_latched_def)
  with assms(1,3) show ?thesis by (simp add: on_wheel_def Let_def)
qed

theorem wheel_left_alone_witness:
  "\<not> rb_prevented (on_wheel sample_env 5 \<lparr>wi_ctrl = False, wi_delta_x = 0, wi_delta_y = -120, wi_mode = 0, wi_chain = [sample_scroller]\<rparr> rb_init)"
  by (rule wheel_left_alone [THEN conjunct1])
    (simp_all add: sample_scroller_def sample_env_def delta_of_def scrolls_def room_def wheel_latched_def rb_init_def)

text \<open>The touch latch, unlike the wheel's, is not checked against the live bands: when the content under
  a finger has left the document and a frame has dropped its band, the finger's next move still
  suppresses the platform's scrolling, with no band on screen to show for it.\<close>

theorem touch_latch_outlives_band:
  "let s = foldl rb_step rb_init [TouchStart [(0, 100)], TouchMove sample_env 0 [(0, 50)] [sample_scroller],
      Frame (\<lambda>_. False) 16, TouchMove sample_env 20 [(0, 40)] []] in
    rb_prevented s \<and> rb_bands s = [] \<and> \<not> rb_raf s"
  by (simp add: sample_run)

end
