(* ===== verification/Format.thy ===== *)
theory Format
  imports Contracts
begin

text \<open>
  The display functions: durations, byte counts, rates and percentages (\<open>state.ts\<close>,
  \<open>players.ts\<close>, \<open>analytics.ts\<close>), the relative times and addresses of the Traffic screen, the
  fleet-health rollup, the flag glyph and the wizard's pairing-code parse. \<open>Date.now()\<close> is the
  argument \<open>now\<close>.
\<close>

section \<open>Durations\<close>

definition fmt_uptime :: "int \<Rightarrow> string" where
  "fmt_uptime ms = (let s = ms div 1000; d = s div 86400; h = (js_rem s 86400) div 3600;
       m = (js_rem s 3600) div 60; sec = js_rem s 60
     in if d > 0 then show_int d @ ''d '' @ show_int h @ ''h''
        else if h > 0 then show_int h @ ''h '' @ show_int m @ ''m''
        else if m > 0 then show_int m @ ''m '' @ show_int sec @ ''s''
        else show_int sec @ ''s'')"

definition fmt_duration :: "int \<Rightarrow> string" where
  "fmt_duration ms = (let s = max 0 (ms div 1000); h = s div 3600; m = (js_rem s 3600) div 60;
       sec = js_rem s 60
     in if h > 0 then show_int h @ ''h '' @ show_int m @ ''m''
        else if m > 0 then show_int m @ ''m '' @ show_int sec @ ''s''
        else show_int sec @ ''s'')"

definition fmt_elapsed :: "int \<Rightarrow> string" where
  "fmt_elapsed ms = (let s = max 0 (ms div 1000); h = s div 3600; m = (js_rem s 3600) div 60;
       sec = js_rem s 60; pad = (\<lambda>n. pad_start 2 (CHR ''0'') (show_int n))
     in if h > 0 then show_int h @ '':'' @ pad m @ '':'' @ pad sec
        else show_int m @ '':'' @ pad sec)"

definition fmt_playtime :: "int \<Rightarrow> string" where
  "fmt_playtime ms = (let m = ms div 60000 in
     if m < 60 then show_int m @ ''m''
     else let h = m div 60 in
       if h < 48 then show_int h @ ''h '' @ show_int (js_rem m 60) @ ''m''
       else show_int (h div 24) @ ''d '' @ show_int (js_rem h 24) @ ''h'')"

text \<open>The em dash of an unknown value, in UTF-8.\<close>

definition em_dash :: string where
  "em_dash = [CHR 0xE2, CHR 0x80, CHR 0x94]"

definition mid_dot :: string where
  "mid_dot = [CHR '' '', CHR 0xC2, CHR 0xB7, CHR '' '']"

definition ellipsis :: string where
  "ellipsis = [CHR 0xE2, CHR 0x80, CHR 0xA6]"

definition ago :: "int \<Rightarrow> int \<Rightarrow> char \<Rightarrow> string" where
  "ago s unit c = show_int (js_round (real_of_int s / real_of_int unit)) @ c # '' ago''"

definition fmt_last_seen :: "int \<Rightarrow> int \<Rightarrow> bool \<Rightarrow> string" where
  "fmt_last_seen now t online =
     (if online then ''online now'' else if t = 0 then em_dash
      else let s = max 0 ((now - t) div 1000) in
        if s < 90 then ''just now''
        else if s < 3600 then ago s 60 (CHR ''m'')
        else if s < 86400 then ago s 3600 (CHR ''h'')
        else if s < 7 * 86400 then ago s 86400 (CHR ''d'')
        else ago s (7 * 86400) (CHR ''w''))"

definition fmt_relative :: "int \<Rightarrow> int \<Rightarrow> string" where
  "fmt_relative now t =
     (if t = 0 then em_dash
      else let s = max 0 ((now - t) div 1000) in
        if s < 45 then ''just now''
        else if s < 3600 then ago s 60 (CHR ''m'')
        else if s < 86400 then ago s 3600 (CHR ''h'')
        else if s < 7 * 86400 then ago s 86400 (CHR ''d'')
        else ago s (7 * 86400) (CHR ''w''))"

section \<open>Byte counts and rates\<close>

definition byte_units :: "string list" where
  "byte_units = [''B'', ''KiB'', ''MiB'', ''GiB'', ''TiB'']"

function scale_unit :: "real \<Rightarrow> nat \<Rightarrow> real \<times> nat" where
  "scale_unit v i = (if v \<ge> 1024 \<and> i < length byte_units - 1 then scale_unit (v / 1024) (Suc i) else (v, i))"
  by pat_completeness auto
termination
  by (relation "measure (\<lambda>(v, i). length byte_units - i)") auto

declare scale_unit.simps [simp del]

definition fmt_bytes :: "real \<Rightarrow> string" where
  "fmt_bytes n = (if n = 0 \<or> n < 0 then ''0 B''
     else let (v, i) = scale_unit n 0 in
       (if v \<ge> 100 \<or> i = 0 then show_int (js_round v) else to_fixed 1 v) @ '' '' @ byte_units ! i)"

definition fmt_rate :: "real \<Rightarrow> string" where
  "fmt_rate r = fmt_bytes r @ ''/s''"

definition fmt_pct :: "real \<Rightarrow> nat \<Rightarrow> string" where
  "fmt_pct v digits = (if v < 0 then em_dash else to_fixed digits v @ ''%'')"

definition has_rtt :: "real \<Rightarrow> bool" where
  "has_rtt ms \<longleftrightarrow> ms > 0"

definition fmt_rtt :: "real \<Rightarrow> string" where
  "fmt_rtt ms = show_int (js_round ms) @ '' ms''"

text \<open>\<open>scale_unit\<close> keeps the quantity and stops at the largest unit that does not exceed it.\<close>

lemma scale_unit_spec:
  assumes "0 \<le> v" and "i \<le> 4" and "0 < i \<longrightarrow> 1 \<le> v"
  shows "case scale_unit v i of (w, j) \<Rightarrow>
    w * 1024 ^ j = v * 1024 ^ i \<and> i \<le> j \<and> j \<le> 4 \<and> (0 < j \<longrightarrow> 1 \<le> w) \<and> (j < 4 \<longrightarrow> w < 1024)"
  using assms
proof (induction v i rule: scale_unit.induct)
  case (1 v i)
  have n: "length byte_units - 1 = 4" by (simp add: byte_units_def)
  show ?case
  proof (cases "v \<ge> 1024 \<and> i < 4")
    case True
    then have "case scale_unit (v / 1024) (Suc i) of (w, j) \<Rightarrow>
        w * 1024 ^ j = v / 1024 * 1024 ^ Suc i \<and> Suc i \<le> j \<and> j \<le> 4 \<and>
        (0 < j \<longrightarrow> 1 \<le> w) \<and> (j < 4 \<longrightarrow> w < 1024)"
      using 1 n by simp
    with True n show ?thesis by (subst scale_unit.simps) auto
  next
    case False
    with "1.prems" n show ?thesis by (subst scale_unit.simps) auto
  qed
qed

lemma scale_unit_0:
  assumes "0 \<le> n"
  obtains v i where "scale_unit n 0 = (v, i)" and "n = v * 1024 ^ i" and "i \<le> 4"
    and "0 < i \<Longrightarrow> 1 \<le> v" and "i < 4 \<Longrightarrow> v < 1024"
  using scale_unit_spec [of n 0] assms by (cases "scale_unit n 0") auto

section \<open>Bandwidth scopes and fleet health\<close>

definition bandwidth_scopes :: "(string \<times> string) list" where
  "bandwidth_scopes = [(''combined'', ''Combined''), (''per-direction'', ''Per-direction''),
     (''per-connection'', ''Per-connection'')]"

definition scope_label :: "string \<Rightarrow> string" where
  "scope_label s = (case map_of bandwidth_scopes (if s = '''' then ''combined'' else s) of
     Some l \<Rightarrow> l | None \<Rightarrow> ''Combined'')"

datatype tone = Good | Warn | Bad

fun worst_from :: "tone \<Rightarrow> string list \<Rightarrow> tone" where
  "worst_from t [] = t"
| "worst_from t (h # hs) =
     (if h = ''bad'' then Bad
      else worst_from (if h = ''warn'' \<or> h = ''unknown'' then Warn else t) hs)"

text \<open>The argument is the list of the agents' \<open>healthScore\<close> fields.\<close>

definition worst_health :: "string list \<Rightarrow> tone" where
  "worst_health hs = worst_from Good hs"

fun severity :: "tone \<Rightarrow> nat" where
  "severity Good = 0" | "severity Warn = 1" | "severity Bad = 2"

definition score_severity :: "string \<Rightarrow> nat" where
  "score_severity h = (if h = ''bad'' then 2 else if h = ''warn'' \<or> h = ''unknown'' then 1 else 0)"

lemma severity_worst_from:
  "t \<noteq> Bad \<Longrightarrow> severity (worst_from t hs) = fold max (map score_severity hs) (severity t)"
proof (induction hs arbitrary: t)
  case (Cons h hs)
  have top: "fold max (map score_severity hs) 2 = 2"
  proof (induction hs)
    case (Cons g gs)
    have "max (score_severity g) 2 = 2" by (simp add: score_severity_def)
    with Cons show ?case by simp
  qed simp
  show ?case
  proof (cases "h = ''bad''")
    case True
    then have "max (score_severity h) (severity t) = 2"
      using Cons.prems by (cases t) (simp_all add: score_severity_def)
    with True top show ?thesis by simp
  next
    case False
    with Cons show ?thesis by (cases t) (simp_all add: score_severity_def max_def)
  qed
qed simp

lemma fold_max_mono: "a \<le> (b::nat) \<Longrightarrow> fold max xs a \<le> fold max xs b"
  by (induction xs arbitrary: a b) auto

lemma fold_max_upper: "fold max xs (a::nat) = Max (insert a (set xs))"
  by (metis Max.set_eq_fold list.set(2))

section \<open>Flags\<close>

definition is_letter :: "char \<Rightarrow> bool" where
  "is_letter c \<longleftrightarrow> (let n = of_char c :: nat in (65 \<le> n \<and> n \<le> 90) \<or> (97 \<le> n \<and> n \<le> 122))"

text \<open>The result is the list of code points handed to \<open>String.fromCodePoint\<close>.\<close>

definition flag_emoji :: "string option \<Rightarrow> nat list option" where
  "flag_emoji cc = (case cc of
     Some [a, b] \<Rightarrow> if is_letter a \<and> is_letter b
       then Some [0x1f1e6 + of_char (upper_char a) - 65, 0x1f1e6 + of_char (upper_char b) - 65]
       else None
   | _ \<Rightarrow> None)"

section \<open>Addresses\<close>

definition strip_port :: "string \<Rightarrow> string" where
  "strip_port addr = (case last_index (CHR '':'') addr of
     Some i \<Rightarrow> if i > 0 \<and> index_from (CHR '':'') addr 0 = Some i then take i addr else addr
   | None \<Rightarrow> addr)"

definition split_addr :: "string \<Rightarrow> string \<times> string" where
  "split_addr addr = (case last_index (CHR '':'') addr of
     Some i \<Rightarrow> if i > 0 \<and> index_from (CHR '':'') addr 0 = Some i
       then (take i addr, drop (i + 1) addr) else (addr, '''')
   | None \<Rightarrow> (addr, ''''))"

definition is_digit :: "char \<Rightarrow> bool" where
  "is_digit c \<longleftrightarrow> 48 \<le> (of_char c :: nat) \<and> (of_char c :: nat) \<le> 57"

text \<open>The match of \<open>/^172\.(\d+)\./\<close>: the digits, when a dot follows them.\<close>

definition match_172 :: "string \<Rightarrow> nat option" where
  "match_172 ip = (if prefix ''172.'' ip
     then let rest = drop 4 ip; ds = takeWhile is_digit rest in
       if ds \<noteq> [] \<and> prefix ''.'' (dropWhile is_digit rest) then Some (digits_value ds) else None
     else None)"

definition is_private_ip :: "string \<Rightarrow> bool" where
  "is_private_ip ip \<longleftrightarrow>
     (ip = ''::1'' \<or> prefix ''127.'' ip \<or> prefix ''localhost'' ip)
   \<or> (prefix ''10.'' ip \<or> prefix ''192.168.'' ip \<or> prefix ''169.254.'' ip)
   \<or> (case match_172 ip of Some n \<Rightarrow> 16 \<le> n \<and> n \<le> 31 | None \<Rightarrow> False)
   \<or> (prefix ''fe80:'' ip \<or> prefix ''fc'' ip \<or> prefix ''fd'' ip)"

lemma find_index_append:
  "\<forall>x\<in>set xs. \<not> p x \<Longrightarrow> p y \<Longrightarrow> find_index p (xs @ y # ys) = Some (length xs)"
  by (induction xs) auto

lemma last_index_append: "c \<notin> set t \<Longrightarrow> last_index c (s @ c # t) = Some (length s)"
proof -
  assume "c \<notin> set t"
  then have "find_index (\<lambda>x. x = c) (rev t @ c # rev s) = Some (length (rev t))"
    by (intro find_index_append) auto
  then show ?thesis by (simp add: last_index_def)
qed

lemma index_from_append: "c \<notin> set s \<Longrightarrow> index_from c (s @ c # t) 0 = Some (length s)"
proof -
  assume "c \<notin> set s"
  then have "find_index (\<lambda>x. x = c) (s @ c # t) = Some (length s)"
    by (intro find_index_append) auto
  then show ?thesis by (simp add: index_from_def)
qed

lemma last_index_Some: "last_index c s = Some i \<Longrightarrow> i < length s \<and> s ! i = c"
  by (auto simp: last_index_def find_index_Some rev_nth)

lemma takeWhile_digits_show_nat:
  "\<not> is_digit c \<Longrightarrow> takeWhile is_digit (show_nat n @ c # r) = show_nat n \<and>
    dropWhile is_digit (show_nat n @ c # r) = c # r"
proof -
  assume c: "\<not> is_digit c"
  have "\<forall>d\<in>set (show_nat n). is_digit d" using show_nat_digits by (auto simp: is_digit_def)
  with c show ?thesis by (simp add: takeWhile_append dropWhile_append)
qed

section \<open>The pairing code the wizard previews\<close>

definition is_hex :: "char \<Rightarrow> bool" where
  "is_hex c \<longleftrightarrow> (let n = of_char c :: nat in
     (48 \<le> n \<and> n \<le> 57) \<or> (65 \<le> n \<and> n \<le> 70) \<or> (97 \<le> n \<and> n \<le> 102))"

text \<open>A group \<open>[^...]+\<close> followed by a character outside the class: the run and what follows.\<close>

definition span_plus :: "(char \<Rightarrow> bool) \<Rightarrow> string \<Rightarrow> (string \<times> string) option" where
  "span_plus p s = (if takeWhile p s = [] then None else Some (takeWhile p s, dropWhile p s))"

definition strip_prefix :: "string \<Rightarrow> string \<Rightarrow> string option" where
  "strip_prefix p s = (if prefix p s then Some (drop (length p) s) else None)"

definition pairing_tail :: "string \<Rightarrow> string \<Rightarrow> (string \<times> nat) option" where
  "pairing_tail host s =
     Option.bind (strip_prefix '':'' s) (\<lambda>s.
     Option.bind (span_plus is_digit s) (\<lambda>(port, s).
     Option.bind (strip_prefix ''/v1/pair/'' s) (\<lambda>s.
     Option.bind (span_plus (\<lambda>c. c \<noteq> CHR ''/'' \<and> c \<noteq> CHR ''#'') s) (\<lambda>(tok, s).
     Option.bind (strip_prefix ''#sha256:'' s) (\<lambda>hex.
       if length hex = 64 \<and> list_all is_hex hex then Some (host, digits_value port) else None)))))"

definition pairing_match :: "string \<Rightarrow> (string \<times> nat) option" where
  "pairing_match t =
     Option.bind (strip_prefix ''pxf://'' t) (\<lambda>s.
       case (if prefix [CHR 0x5B] s
         then Option.bind (span_plus (\<lambda>c. c \<noteq> CHR 0x5D) (tl s)) (\<lambda>(h, s).
           Option.bind (strip_prefix '']'' s) (pairing_tail (CHR 0x5B # h @ [CHR 0x5D])))
         else None) of
         Some r \<Rightarrow> Some r
       | None \<Rightarrow> Option.bind (span_plus (\<lambda>c. c \<noteq> CHR ''/'' \<and> c \<noteq> CHR '':'') s)
           (\<lambda>(h, s). pairing_tail h s))"

definition strip_brackets :: "string \<Rightarrow> string" where
  "strip_brackets h = (let h1 = (if prefix [CHR 0x5B] h then tl h else h) in
     if h1 \<noteq> [] \<and> last h1 = CHR 0x5D then butlast h1 else h1)"

definition parse_pairing :: "string \<Rightarrow> (string \<times> nat) option" where
  "parse_pairing s = (case pairing_match (js_trim s) of
     None \<Rightarrow> None
   | Some (h, port) \<Rightarrow> if port < 1 \<or> port > 65535 then None else Some (strip_brackets h, port))"

text \<open>The code as \<open>IssuePairingCode\<close> and the gateway spell it.\<close>

definition pairing_code :: "string \<Rightarrow> nat \<Rightarrow> string \<Rightarrow> string \<Rightarrow> string" where
  "pairing_code host port tok hex =
     ''pxf://'' @ host @ '':'' @ show_nat port @ ''/v1/pair/'' @ tok @ ''#sha256:'' @ hex"

section \<open>Properties\<close>

text \<open>Under a day the uptime and the session duration are printed alike: \<open>fmtUptime\<close> and
  \<open>fmtDuration\<close> agree on every span from 0 to 24 hours, and only \<open>fmtUptime\<close> has a day branch.\<close>

theorem fmt_uptime_duration:
  assumes "0 \<le> ms" and "ms < 86400000"
  shows "fmt_uptime ms = fmt_duration ms"
proof -
  have s: "0 \<le> ms div 1000" "ms div 1000 < 86400" using assms by simp_all
  then have "(ms div 1000) div 86400 = 0" "(ms div 1000) mod 86400 = ms div 1000" by simp_all
  with s show ?thesis by (simp add: fmt_uptime_def fmt_duration_def Let_def)
qed

theorem fmt_uptime_duration_witness:
  "fmt_uptime 3725000 = fmt_duration 3725000 \<and> fmt_duration 3725000 = ''1h 2m''"
proof -
  have "fmt_duration 3725000 = ''1h 2m''" by code_simp
  then show ?thesis using fmt_uptime_duration [of 3725000] by simp
qed

text \<open>A positive byte count is printed in the largest unit up to TiB that does not exceed it:
  the mantissa is the count divided by that power of 1024, below 1024 unless the unit is TiB, shown
  as the nearest whole number in bytes or from 100 up and with one decimal otherwise.\<close>

theorem fmt_bytes_unit:
  assumes "0 < n"
  shows "\<exists>v i. n = v * 1024 ^ i \<and> i < length byte_units \<and> (0 < i \<longrightarrow> 1 \<le> v) \<and> (i < 4 \<longrightarrow> v < 1024)
    \<and> fmt_bytes n = (if v \<ge> 100 \<or> i = 0 then show_int (js_round v) else to_fixed 1 v) @ '' '' @ byte_units ! i
    \<and> \<bar>of_int (js_round v) - v\<bar> \<le> 1 / 2"
proof -
  from assms have n0: "0 \<le> n" by simp
  obtain v i where vi: "scale_unit n 0 = (v, i)" "n = v * 1024 ^ i" "i \<le> 4"
      "0 < i \<Longrightarrow> 1 \<le> v" "i < 4 \<Longrightarrow> v < 1024"
    using scale_unit_0 [OF n0] by blast
  have round: "\<bar>of_int (js_round v) - v\<bar> \<le> 1 / 2"
    unfolding js_round_def by linarith
  have "fmt_bytes n = (if v \<ge> 100 \<or> i = 0 then show_int (js_round v) else to_fixed 1 v) @ '' '' @ byte_units ! i"
    using assms vi(1) by (simp add: fmt_bytes_def)
  moreover have "i < length byte_units" using vi(3) by (simp add: byte_units_def)
  ultimately show ?thesis
    by (intro exI [of _ v] exI [of _ i] conjI impI round) (fact vi | rule vi, assumption)+
qed

theorem fmt_bytes_unit_witness:
  "\<exists>v i. 3072 = v * 1024 ^ i \<and> i < length byte_units \<and> (0 < i \<longrightarrow> 1 \<le> v) \<and> (i < 4 \<longrightarrow> v < 1024)
    \<and> fmt_bytes 3072 = (if v \<ge> 100 \<or> i = 0 then show_int (js_round v) else to_fixed 1 v) @ '' '' @ byte_units ! i
    \<and> \<bar>of_int (js_round v) - v\<bar> \<le> 1 / 2"
  by (rule fmt_bytes_unit [of 3072]) simp

text \<open>One byte short of a mebibyte is printed as \<open>1024 KiB\<close>: the unit is chosen before the
  mantissa is rounded, so rounding up never carries into the next unit.\<close>

theorem fmt_bytes_no_carry: "fmt_bytes 1048575 = ''1024 KiB'' \<and> fmt_bytes 1048576 = ''1.0 MiB''"
proof -
  have "scale_unit 1048575 0 = (1048575 / 1024, 1)"
    by (subst scale_unit.simps, subst scale_unit.simps) (simp add: byte_units_def)
  moreover have "js_round (1048575 / 1024) = 1024" by (simp add: js_round_def)
  moreover have "show_int 1024 = ''1024''" by code_simp
  moreover have "scale_unit 1048576 0 = (1, 2)"
    by (subst scale_unit.simps, subst scale_unit.simps, subst scale_unit.simps) (simp add: byte_units_def)
  moreover have "to_fixed 1 1 = ''1.0''"
  proof -
    have "show_nat 10 = ''10''" by code_simp
    then show ?thesis by (simp add: to_fixed_def fixed_abs_def pad_start_def)
  qed
  ultimately show ?thesis by (simp add: fmt_bytes_def byte_units_def)
qed

text \<open>The fleet verdict is the most severe of its agents' scores, where an unknown score counts
  as a warning: \<open>worstHealth\<close>, with its early return, computes the maximum, so no order of the
  agents and no number of healthy ones hides a struggling one.\<close>

theorem worst_health_max:
  "severity (worst_health hs) = Max (insert 0 (score_severity ` set hs))"
  using severity_worst_from [of Good hs] by (simp add: worst_health_def fold_max_upper)

text \<open>Splitting \<open>ip:port\<close> gives the parts back, and whatever an address looks like (bare IPv6,
  no port) \<open>splitAddr\<close> and \<open>stripPort\<close> agree on the host and never lose a character.\<close>

theorem split_addr_parts:
  "strip_port a = fst (split_addr a) \<and>
   (a = fst (split_addr a) \<and> snd (split_addr a) = [] \<or>
    a = fst (split_addr a) @ '':'' @ snd (split_addr a))
   \<and> (CHR '':'' \<notin> set ip \<and> CHR '':'' \<notin> set port \<and> ip \<noteq> [] \<longrightarrow>
        split_addr (ip @ '':'' @ port) = (ip, port))"
proof (intro conjI impI)
  show "strip_port a = fst (split_addr a)"
    by (simp add: strip_port_def split_addr_def split: option.splits)
  show "a = fst (split_addr a) \<and> snd (split_addr a) = [] \<or>
      a = fst (split_addr a) @ '':'' @ snd (split_addr a)"
  proof (cases "last_index (CHR '':'') a")
    case (Some i)
    then have "a = take i a @ '':'' @ drop (i + 1) a"
      using last_index_Some [of "CHR '':''" a i] id_take_nth_drop [of i a] by simp
    with Some show ?thesis by (simp add: split_addr_def)
  qed (simp add: split_addr_def)
  assume "CHR '':'' \<notin> set ip \<and> CHR '':'' \<notin> set port \<and> ip \<noteq> []"
  then show "split_addr (ip @ '':'' @ port) = (ip, port)"
    using last_index_append [of "CHR '':''" port ip] index_from_append [of "CHR '':''" ip port]
    by (simp add: split_addr_def)
qed

theorem split_addr_parts_witness: "split_addr ''203.0.113.44:51422'' = (''203.0.113.44'', ''51422'')"
  using split_addr_parts [of _ "''203.0.113.44''" "''51422''"] by simp


lemma pairing_tail_code:
  assumes tok: "tok \<noteq> []" "CHR ''/'' \<notin> set tok" "CHR ''#'' \<notin> set tok"
    and hex: "length hex = 64" "list_all is_hex hex"
  shows "pairing_tail host ('':'' @ show_nat port @ ''/v1/pair/'' @ tok @ ''#sha256:'' @ hex) = Some (host, port)"
proof -
  have nd: "\<not> is_digit (CHR ''/'')" by (simp add: is_digit_def)
  have port: "takeWhile is_digit (show_nat port @ ''/v1/pair/'' @ tok @ ''#sha256:'' @ hex) = show_nat port"
    "dropWhile is_digit (show_nat port @ ''/v1/pair/'' @ tok @ ''#sha256:'' @ hex) = ''/v1/pair/'' @ tok @ ''#sha256:'' @ hex"
    using takeWhile_digits_show_nat [OF nd, of port "''v1/pair/'' @ tok @ ''#sha256:'' @ hex"] by simp_all
  let ?p = "\<lambda>c. c \<noteq> CHR ''/'' \<and> c \<noteq> CHR ''#''"
  have "\<forall>c\<in>set tok. ?p c" using tok by auto
  then have "takeWhile ?p (tok @ ''#sha256:'' @ hex) = tok"
    "dropWhile ?p (tok @ ''#sha256:'' @ hex) = ''#sha256:'' @ hex"
    by (simp_all add: takeWhile_append dropWhile_append)
  with port tok(1) hex show ?thesis
    by (simp add: pairing_tail_def strip_prefix_def span_plus_def digits_value_show)
qed

lemma pairing_match_code:
  assumes host: "host \<noteq> []" "CHR ''/'' \<notin> set host" "CHR '':'' \<notin> set host" "CHR 0x5B \<notin> set host"
    and tok: "tok \<noteq> []" "CHR ''/'' \<notin> set tok" "CHR ''#'' \<notin> set tok"
    and hex: "length hex = 64" "list_all is_hex hex"
  shows "pairing_match (pairing_code host port tok hex) = Some (host, port)"
proof -
  let ?p = "\<lambda>c. c \<noteq> CHR ''/'' \<and> c \<noteq> CHR '':''"
  let ?rest = "'':'' @ show_nat port @ ''/v1/pair/'' @ tok @ ''#sha256:'' @ hex"
  obtain c cs where h: "host = c # cs" using host(1) by (cases host) auto
  have "\<forall>c\<in>set host. ?p c" using host by auto
  then have "takeWhile ?p (host @ ?rest) = host" "dropWhile ?p (host @ ?rest) = ?rest"
    by (simp_all add: takeWhile_append dropWhile_append)
  moreover have "c \<noteq> CHR 0x5B" using host h by auto
  ultimately show ?thesis
    using pairing_tail_code [OF tok hex, of host port] h
    by (simp add: pairing_match_def pairing_code_def strip_prefix_def span_plus_def)
qed

text \<open>C38. A pairing code round-trips through the wizard's preview parse: for every host without
  slash or colon (and not bracketed), port in range, token and 64-digit fingerprint, pasting the
  code with any surrounding blanks shows exactly that host and port.\<close>

theorem parse_pairing_code:
  assumes host: "host \<noteq> []" "CHR ''/'' \<notin> set host" "CHR '':'' \<notin> set host"
      "CHR 0x5B \<notin> set host" "CHR 0x5D \<notin> set host"
    and port: "1 \<le> port" "port \<le> 65535"
    and tok: "tok \<noteq> []" "CHR ''/'' \<notin> set tok" "CHR ''#'' \<notin> set tok"
    and hex: "length hex = 64" "list_all is_hex hex"
    and trim: "js_trim s = pairing_code host port tok hex"
  shows "parse_pairing s = Some (host, port)"
proof -
  have "hd host \<noteq> CHR 0x5B" "last host \<noteq> CHR 0x5D" using host by (metis hd_in_set, metis last_in_set)
  then have "strip_brackets host = host" using host(1) by (cases host) (simp_all add: strip_brackets_def Let_def)
  with pairing_match_code [OF host(1-4) tok hex, of port] port trim show ?thesis by (simp add: parse_pairing_def)
qed

theorem parse_pairing_code_witness:
  "parse_pairing (''  pxf://play.example.com:8474/v1/pair/tkt#sha256:'' @ replicate 64 (CHR ''a'')) =
     Some (''play.example.com'', 8474)"
proof (rule parse_pairing_code [of _ _ "''tkt''" "replicate 64 (CHR ''a'')"])
  have n: "show_nat 8474 = ''8474''" by (simp add: js_simps)
  show "js_trim (''  pxf://play.example.com:8474/v1/pair/tkt#sha256:'' @ replicate 64 (CHR ''a'')) =
      pairing_code ''play.example.com'' 8474 ''tkt'' (replicate 64 (CHR ''a''))"
    using js_trim_pad [of "''  ''" "[]" "pairing_code ''play.example.com'' 8474 ''tkt'' (replicate 64 (CHR ''a''))"]
    by (simp add: pairing_code_def n is_space_def)
qed (simp_all add: is_hex_def list_all_length)

end
