(* ===== verification/Prefs.thy ===== *)
theory Prefs
  imports Contracts
begin

text \<open>
  The per-machine preferences kept in \<open>localStorage\<close>: effects level (\<open>fx.ts\<close>), animation
  (\<open>motion.ts\<close>), the chart preferences and ranges of \<open>history.ts\<close>, and the Agents screen's sort
  and density. The document is its \<open>localStorage\<close>, the \<open>data-*\<close> attributes of the root element
  (\<open>dataset\<close>), the system's reduced-motion signal and the number of listener notifications sent.
  Each load/save pair is an interpretation of the locale \<open>pref\<close>.
\<close>

record document =
  storage :: store
  dataset :: store
  os_reduced :: bool
  notified :: nat

section \<open>Effects level\<close>

definition fx_key :: string where
  "fx_key = ''pf-fx''"

definition fx_pref :: "store \<Rightarrow> string" where
  "fx_pref m = (case m fx_key of Some v \<Rightarrow> v | None \<Rightarrow> '''')"

definition save_fx :: "string \<Rightarrow> store \<Rightarrow> store" where
  "save_fx v m = (if v \<noteq> '''' then m(fx_key \<mapsto> v) else m(fx_key := None))"

definition set_fx_pref :: "string \<Rightarrow> document \<Rightarrow> document" where
  "set_fx_pref v d = d\<lparr>storage := save_fx v (storage d),
     dataset := (if v \<noteq> '''' then (dataset d)(''fx'' \<mapsto> v) else (dataset d)(''fx'' := None))\<rparr>"

definition init_fx :: "document \<Rightarrow> document" where
  "init_fx d = (let v = fx_pref (storage d) in
     if v \<noteq> '''' then d\<lparr>dataset := (dataset d)(''fx'' \<mapsto> v)\<rparr> else d)"

section \<open>Animation preference\<close>

datatype motion_pref = MotionOn | MotionOff | MotionSystem

fun motion_name :: "motion_pref \<Rightarrow> string" where
  "motion_name MotionOn = ''on''" | "motion_name MotionOff = ''off''"
| "motion_name MotionSystem = ''system''"

definition motion_key :: string where
  "motion_key = ''pf-motion''"

definition motion_pref_of :: "store \<Rightarrow> motion_pref" where
  "motion_pref_of m = (if m motion_key = Some ''off'' then MotionOff
     else if m motion_key = Some ''system'' then MotionSystem else MotionOn)"

definition prefers_reduced :: "document \<Rightarrow> bool" where
  "prefers_reduced d = (let p = motion_pref_of (storage d) in
     if p = MotionSystem then os_reduced d else p = MotionOff)"

definition stamp :: "motion_pref \<Rightarrow> store \<Rightarrow> store" where
  "stamp v ds = (if v = MotionSystem then ds(''motion'' := None) else ds(''motion'' \<mapsto> motion_name v))"

definition save_motion :: "motion_pref \<Rightarrow> store \<Rightarrow> store" where
  "save_motion v m = (if v = MotionOn then m(motion_key := None) else m(motion_key \<mapsto> motion_name v))"

definition set_motion_pref :: "motion_pref \<Rightarrow> document \<Rightarrow> document" where
  "set_motion_pref v d = d\<lparr>storage := save_motion v (storage d), dataset := stamp v (dataset d),
     notified := Suc (notified d)\<rparr>"

definition init_motion :: "document \<Rightarrow> document" where
  "init_motion d = d\<lparr>dataset := stamp (motion_pref_of (storage d)) (dataset d)\<rparr>"

text \<open>The listener \<open>initMotion\<close> installs on the media query.\<close>

definition os_motion_change :: "bool \<Rightarrow> document \<Rightarrow> document" where
  "os_motion_change reduced d = d\<lparr>os_reduced := reduced, notified := Suc (notified d)\<rparr>"

section \<open>Chart ranges and chart preferences\<close>

datatype render = RenderLine | RenderBars
datatype chart_mode = ModeLine | ModeCandles | ModeBars

record range_spec =
  label :: string
  window_ms :: int
  poll_ms :: int
  buckets :: int
  render :: render
  candles_ok :: bool

definition range_keys :: "string list" where
  "range_keys = [''15s'', ''1m'', ''15m'', ''1h'', ''6h'', ''24h'', ''7d'', ''30d'', ''all'']"

definition ranges :: "(string \<times> range_spec) list" where
  "ranges = [
     (''15s'', \<lparr>label = ''15s'', window_ms = 15000, poll_ms = 250, buckets = 150, render = RenderLine, candles_ok = False\<rparr>),
     (''1m'', \<lparr>label = ''1m'', window_ms = 60000, poll_ms = 500, buckets = 300, render = RenderLine, candles_ok = False\<rparr>),
     (''15m'', \<lparr>label = ''15m'', window_ms = 900000, poll_ms = 1000, buckets = 300, render = RenderLine, candles_ok = True\<rparr>),
     (''1h'', \<lparr>label = ''1h'', window_ms = 3600000, poll_ms = 5000, buckets = 240, render = RenderLine, candles_ok = True\<rparr>),
     (''6h'', \<lparr>label = ''6h'', window_ms = 21600000, poll_ms = 15000, buckets = 288, render = RenderLine, candles_ok = True\<rparr>),
     (''24h'', \<lparr>label = ''24h'', window_ms = 86400000, poll_ms = 30000, buckets = 288, render = RenderLine, candles_ok = True\<rparr>),
     (''7d'', \<lparr>label = ''7d'', window_ms = 604800000, poll_ms = 60000, buckets = 168, render = RenderBars, candles_ok = False\<rparr>),
     (''30d'', \<lparr>label = ''30d'', window_ms = 2592000000, poll_ms = 60000, buckets = 30, render = RenderBars, candles_ok = False\<rparr>),
     (''all'', \<lparr>label = ''All'', window_ms = 0, poll_ms = 60000, buckets = 300, render = RenderBars, candles_ok = False\<rparr>)]"

text \<open>
  \<open>RANGES[v]\<close> is truthy for the nine keys and also for the names a plain object inherits from
  \<open>Object.prototype\<close>.
\<close>

definition object_prototype :: "string list" where
  "object_prototype = [''constructor'', ''hasOwnProperty'', ''isPrototypeOf'', ''propertyIsEnumerable'',
     ''toLocaleString'', ''toString'', ''valueOf'', ''__defineGetter__'', ''__defineSetter__'',
     ''__lookupGetter__'', ''__lookupSetter__'', ''__proto__'']"

definition range_key :: string where
  "range_key = ''pf-chart-range''"

definition load_range_pref :: "store \<Rightarrow> string" where
  "load_range_pref m = (case m range_key of
     Some v \<Rightarrow> if v \<noteq> '''' \<and> (map_of ranges v \<noteq> None \<or> v \<in> set object_prototype) then v else ''1m''
   | None \<Rightarrow> ''1m'')"

definition save_range_pref :: "string \<Rightarrow> store \<Rightarrow> store" where
  "save_range_pref r m = m(range_key \<mapsto> r)"

definition candle_key :: string where
  "candle_key = ''pf-chart-candles''"

definition load_candle_pref :: "store \<Rightarrow> bool" where
  "load_candle_pref m \<longleftrightarrow> m candle_key = Some ''1''"

definition save_candle_pref :: "bool \<Rightarrow> store \<Rightarrow> store" where
  "save_candle_pref on m = m(candle_key \<mapsto> (if on then ''1'' else ''0''))"

definition uptime_key :: string where
  "uptime_key = ''pf-chart-uptime''"

definition load_uptime_pref :: "store \<Rightarrow> bool" where
  "load_uptime_pref m \<longleftrightarrow> m uptime_key = Some ''1''"

definition save_uptime_pref :: "bool \<Rightarrow> store \<Rightarrow> store" where
  "save_uptime_pref on m = m(uptime_key \<mapsto> (if on then ''1'' else ''0''))"

text \<open>\<open>RANGES[range]\<close> is undefined outside the nine keys, and reading a field of it throws.\<close>

definition mode_for :: "string \<Rightarrow> bool \<Rightarrow> chart_mode option" where
  "mode_for r candles = map_option (\<lambda>spec.
     if render spec = RenderBars then ModeBars
     else if candles \<and> candles_ok spec then ModeCandles else ModeLine) (map_of ranges r)"

section \<open>Preferences of the Agents screen\<close>

definition sort_key_name :: string where
  "sort_key_name = ''pf-agents-sort''"

definition load_sort :: "store \<Rightarrow> string" where
  "load_sort m = (case m sort_key_name of Some v \<Rightarrow> if v = '''' then ''health'' else v | None \<Rightarrow> ''health'')"

definition save_sort :: "string \<Rightarrow> store \<Rightarrow> store" where
  "save_sort v m = m(sort_key_name \<mapsto> v)"

definition density_key :: string where
  "density_key = ''pf-agents-density''"

definition load_density :: "store \<Rightarrow> string" where
  "load_density m = (case m density_key of Some v \<Rightarrow> if v = '''' then ''grid'' else v | None \<Rightarrow> ''grid'')"

definition save_density :: "string \<Rightarrow> store \<Rightarrow> store" where
  "save_density v m = m(density_key \<mapsto> v)"

section \<open>Every pair is a preference\<close>

lemmas pref_defs = fx_pref_def save_fx_def fx_key_def motion_pref_of_def save_motion_def motion_key_def
  load_range_pref_def save_range_pref_def range_key_def load_candle_pref_def save_candle_pref_def
  candle_key_def load_uptime_pref_def save_uptime_pref_def uptime_key_def load_sort_def save_sort_def
  sort_key_name_def load_density_def save_density_def density_key_def

interpretation fx: pref fx_pref save_fx fx_key "\<lambda>_. True"
  by unfold_locales (auto simp: pref_defs)

interpretation motion: pref motion_pref_of save_motion motion_key "\<lambda>_. True"
proof unfold_locales
  show "motion_pref_of (save_motion v m) = v" for v m
    by (cases v) (simp_all add: pref_defs)
qed (auto simp: pref_defs)

lemma ranges_keys: "map_of ranges r \<noteq> None \<longleftrightarrow> r \<in> set range_keys"
  by (simp add: ranges_def range_keys_def)

interpretation chart_range: pref load_range_pref save_range_pref range_key "\<lambda>r. r \<in> set range_keys"
proof unfold_locales
  show "load_range_pref (save_range_pref r m) = r" if "r \<in> set range_keys" for r m
  proof -
    have "r \<noteq> ''''" using that by (auto simp: range_keys_def)
    with that ranges_keys [of r] show ?thesis by (simp add: load_range_pref_def save_range_pref_def)
  qed
qed (auto simp: load_range_pref_def save_range_pref_def range_key_def)

interpretation candle: pref load_candle_pref save_candle_pref candle_key "\<lambda>_. True"
  by unfold_locales (auto simp: pref_defs)

interpretation uptime_strip: pref load_uptime_pref save_uptime_pref uptime_key "\<lambda>_. True"
  by unfold_locales (auto simp: pref_defs)

interpretation agent_sort: pref load_sort save_sort sort_key_name "\<lambda>v. v \<noteq> ''''"
  by unfold_locales (auto simp: pref_defs)

interpretation agent_density: pref load_density save_density density_key "\<lambda>v. v \<noteq> ''''"
  by unfold_locales (auto simp: pref_defs)

lemma mode_for_total: "r \<in> set range_keys \<Longrightarrow> mode_for r c \<noteq> None"
  using ranges_keys [of r] by (auto simp: mode_for_def)

lemma range_keys_in_order: "map fst ranges = range_keys"
  by (simp add: ranges_def range_keys_def)

section \<open>Properties\<close>

text \<open>A chosen chart range is what the next session opens with, whatever the other preferences
  are set to in between (candles, uptime strip, animation, effects), and the chart mode of that
  range is defined.\<close>

theorem range_pref_survives:
  assumes "r \<in> set range_keys"
  shows "load_range_pref (save_fx f (save_motion p (save_uptime_pref u (save_candle_pref c (save_range_pref r m))))) = r
    \<and> mode_for r c \<noteq> None"
proof -
  have "load_range_pref (fold (\<lambda>f. f) [save_candle_pref c, save_uptime_pref u, save_motion p, save_fx f]
      (save_range_pref r m)) = r"
    by (rule chart_range.load_survives) (use assms in \<open>auto simp: pref_defs\<close>)
  with mode_for_total [OF assms] show ?thesis by simp
qed

theorem range_pref_survives_witness:
  "load_range_pref (save_fx ''low'' (save_motion MotionOff (save_uptime_pref True
     (save_candle_pref True (save_range_pref ''6h'' Map.empty))))) = ''6h''"
  using range_pref_survives [of "''6h''"] by (simp add: range_keys_def)

text \<open>A restart shows what the live change showed: after \<open>setMotionPref\<close> and \<open>setFxPref\<close> the
  root element carries exactly the attributes the start-up functions stamp on a fresh document from
  the same \<open>localStorage\<close>.\<close>

theorem prefs_restart_agree:
  assumes "d' = set_fx_pref f (set_motion_pref p d)" and "dataset d = Map.empty"
  shows "dataset (init_motion (init_fx (d'\<lparr>dataset := Map.empty\<rparr>))) = dataset d'
    \<and> prefers_reduced d' = (if p = MotionSystem then os_reduced d else p = MotionOff)"
proof -
  have "motion_pref_of (storage d') = p"
    using assms fx.save_frame [of motion_key f "save_motion p (storage d)"]
      motion.load_local [of "storage d'" "save_motion p (storage d)"] motion.load_save [of p "storage d"]
    by (simp add: set_fx_pref_def set_motion_pref_def fx_key_def motion_key_def)
  moreover have "fx_pref (storage d') = f"
    using assms by (simp add: set_fx_pref_def fx.load_save)
  ultimately show ?thesis
    using assms by (cases p) (auto simp: set_fx_pref_def set_motion_pref_def init_motion_def init_fx_def
        stamp_def prefers_reduced_def Let_def)
qed

theorem prefs_restart_agree_witness:
  "dataset (init_motion (init_fx ((set_fx_pref ''low'' (set_motion_pref MotionOff
      \<lparr>storage = Map.empty, dataset = Map.empty, os_reduced = False, notified = 0\<rparr>))\<lparr>dataset := Map.empty\<rparr>)))
   = [''motion'' \<mapsto> ''off'', ''fx'' \<mapsto> ''low'']"
  using prefs_restart_agree [of "set_fx_pref ''low'' (set_motion_pref MotionOff
      \<lparr>storage = Map.empty, dataset = Map.empty, os_reduced = False, notified = 0\<rparr>)" "''low''" MotionOff
      "\<lparr>storage = Map.empty, dataset = Map.empty, os_reduced = False, notified = 0\<rparr>"]
  by (simp add: set_fx_pref_def set_motion_pref_def stamp_def)

text \<open>The stored chart range is not validated against own keys: a stored \<open>toString\<close> is accepted
  although no range has that name, and the chart mode is then undefined.\<close>

theorem range_pref_prototype_leak:
  "load_range_pref [range_key \<mapsto> ''toString''] = ''toString'' \<and> ''toString'' \<notin> set range_keys
   \<and> mode_for ''toString'' c = None"
  by (simp add: load_range_pref_def object_prototype_def range_keys_def mode_for_def ranges_def)

end
