(* ===== verification/Model.thy ===== *)
theory Model
  imports Prelude
begin

text \<open>
  The data that crosses the boundary to the Go side, class by class as \<open>wailsjs/go/models.ts\<close>
  declares it. A counter, an identifier or a timestamp is an \<open>int\<close>, a measurement a \<open>real\<close>, an
  optional field an option; the three lists of a status that the screens guard with \<open>?? []\<close> are
  options too (an older daemon leaves them out).
\<close>

record country_agg =
  cag_cc :: string
  cag_country :: string
  cag_players :: int
  cag_sessions :: int
  cag_bytes_in :: int
  cag_bytes_out :: int
  cag_rtt_avg :: real

record ip_span =
  ips_ip :: string
  ips_first_seen :: int
  ips_last_seen :: int
  ips_sessions :: int
  ips_cc :: string

record latency_point =
  lat_t :: int
  lat_avg :: real
  lat_min :: real
  lat_max :: real

record name_span =
  nsp_name :: string
  nsp_first_seen :: int
  nsp_last_seen :: int

record peak_cell =
  cell_avg :: real
  cell_max :: real

record peak_matrix =
  pmx_cells :: "peak_cell list list"

record player_card =
  card_uuid :: string
  card_name :: string
  card_offline :: bool
  card_online :: bool
  card_first_seen :: int
  card_last_seen :: int
  card_sessions :: int
  card_play_ms :: int
  card_bytes_in :: int
  card_bytes_out :: int
  card_last_cc :: string
  card_rtt_ms :: real

record session_meta =
  sess_id :: int
  sess_tunnel_name :: string
  sess_client_ip :: string
  sess_player_name :: string
  sess_player_uuid :: string
  sess_started_ms :: int
  sess_ended_ms :: int
  sess_bytes_in :: int
  sess_bytes_out :: int
  sess_cc :: string
  sess_rtt_avg :: real

record player_detail =
  det_card :: player_card
  det_names :: "name_span list"
  det_ips :: "ip_span list"
  det_recent :: "session_meta list"

record players_page =
  ppage_total :: int
  ppage_players :: "player_card list"

record players_query =
  pq_search :: string
  pq_sort :: string
  pq_agent_id :: string
  pq_tunnel_id :: string
  pq_cc :: string
  pq_offset :: int
  pq_limit :: int

record traffic_point =
  trf_t :: int
  trf_in :: int
  trf_out :: int

record session_timeline =
  stl_traffic :: "traffic_point list"
  stl_rtt :: "latency_point list"

record sessions_page =
  spage_total :: int
  spage_sessions :: "session_meta list"

record sessions_query =
  sq_player_uuid :: string
  sq_agent_id :: string
  sq_tunnel_id :: string
  sq_cc :: string
  sq_since_ms :: int
  sq_offset :: int
  sq_limit :: int

record summary =
  smy_range_ms :: int
  smy_bytes_in :: int
  smy_bytes_out :: int
  smy_sessions :: int
  smy_unique_players :: int
  smy_peak_players :: int
  smy_peak_players_at :: int
  smy_peak_in_bps :: real
  smy_peak_in_at :: int
  smy_peak_out_bps :: real
  smy_peak_out_at :: int
  smy_avg_rtt_ms :: real
  smy_avg_loss_pct :: real
  smy_link_uptime_pct :: real
  smy_rec_in_bps :: real
  smy_rec_in_at :: int
  smy_rec_out_bps :: real
  smy_rec_out_at :: int
  smy_rec_players :: int
  smy_rec_players_at :: int
  smy_rec_conns :: int
  smy_rec_conns_at :: int
  smy_lifetime_bytes_in :: int
  smy_lifetime_bytes_out :: int
  smy_lifetime_uptime_ms :: int
  smy_link_sessions :: int

record uptime_span =
  usp_t :: int
  usp_up :: bool

record tunnel_uptime =
  tup_tunnel_id :: string
  tup_name :: string
  tup_uptime_pct :: real
  tup_events :: "uptime_span list"

record uptime_report =
  urep_link :: tunnel_uptime
  urep_tunnels :: "tunnel_uptime list"

record agent_ui =
  agent_agent_id :: string
  agent_hostname :: string
  agent_lan_ips :: "string list"
  agent_remote_ip :: string
  agent_link_up_since_ms :: int
  agent_rtt_millis :: int
  agent_jitter_millis :: real
  agent_packet_loss_pct :: real
  agent_health_score :: string
  agent_link_bytes_in :: int
  agent_link_bytes_out :: int
  agent_tunnels :: int
  agent_players :: int

record conn_ui =
  conn_id :: int
  conn_agent_id :: "string option"
  conn_tunnel_name :: string
  conn_client_addr :: string
  conn_started_at :: int
  conn_bytes_in :: int
  conn_bytes_out :: int
  conn_player_name :: "string option"
  conn_player_uuid :: "string option"
  conn_rtt_ms :: real

record latency_result =
  lres_samples :: int
  lres_rtt_avg_ms :: real
  lres_rtt_min_ms :: real
  lres_rtt_max_ms :: real
  lres_jitter_ms :: real
  lres_one_way_estimate_ms :: real
  lres_one_way_up_ms :: real
  lres_one_way_down_ms :: real
  lres_have_one_way :: bool
  lres_clock_sync_caveat :: bool

record setup_file_info =
  sfi_path :: string
  sfi_role :: string
  sfi_app_version :: string
  sfi_exported_at_ms :: int
  sfi_encrypted :: bool

record tunnel_ui =
  tun_agent_id :: "string option"
  tun_id :: string
  tun_name :: string
  tun_public_port :: int
  tun_local_up :: bool
  tun_local_known :: bool
  tun_bandwidth_limit_mbps :: int
  tun_bandwidth_limit_scope :: string

record ui_status =
  st_mode :: string
  st_role :: string
  st_version :: string
  st_hostname :: string
  st_pid :: int
  st_config_path :: string
  st_link_up :: bool
  st_rtt_millis :: int
  st_agent_connected :: bool
  st_transport :: string
  st_jitter_millis :: real
  st_packet_loss_pct :: real
  st_health_score :: string
  st_peer_hostname :: string
  st_public_ip :: string
  st_peer_public_ip :: string
  st_local_lan_ips :: "string list"
  st_peer_lan_ips :: "string list"
  st_agents :: "agent_ui list option"
  st_tunnels :: "tunnel_ui list option"
  st_connections :: "conn_ui list option"
  st_total_bytes_in :: int
  st_total_bytes_out :: int
  st_link_up_since_ms :: int
  st_process_start_ms :: int
  st_peer_addr :: string
  st_link_bytes_in :: int
  st_link_bytes_out :: int
  st_all_time_bytes_in :: int
  st_all_time_bytes_out :: int
  st_cumulative_uptime_ms :: int
  st_link_sessions :: int
  st_history_unsupported :: "bool option"
  st_analytics_unsupported :: "bool option"
  st_connections_truncated :: "bool option"
  st_connections_total :: "int option"
  st_engine_fatal :: "string option"

record tunnel_options =
  topt_minecraft_aware :: bool
  topt_proxy_protocol_v2 :: bool
  topt_offline_motd :: string
  topt_bandwidth_limit_mbps :: int
  topt_bandwidth_limit_scope :: string

record tunnel =
  tnl_id :: string
  tnl_name :: string
  tnl_type :: string
  tnl_local_addr :: string
  tnl_public_port :: int
  tnl_enabled :: bool
  tnl_options :: tunnel_options

record agent_config =
  acfg_agent_id :: string
  acfg_gateway_host :: string
  acfg_gateway_port :: int
  acfg_token :: string
  acfg_cert_fingerprint :: string
  acfg_transport :: string
  acfg_tunnels :: "tunnel list"
  acfg_enroll_ticket :: string

record analytics_config =
  ancfg_retention_days :: int
  ancfg_mojang_lookups :: bool
  ancfg_geo_ip_city_path :: string
  ancfg_geo_ipasn_path :: string

record ui_config =
  uicfg_theme :: string
  uicfg_minimize_to_tray :: bool
  uicfg_autostart :: bool

record logging_config =
  lcfg_level :: string
  lcfg_file_enabled :: bool

record metrics_config =
  mcfg_prometheus_enabled :: bool
  mcfg_prometheus_addr :: string

record gateway_config =
  gcfg_bind_addr :: string
  gcfg_control_port :: int
  gcfg_token :: string
  gcfg_public_host :: string
  gcfg_port_allowlist :: "int list"
  gcfg_max_conns_global :: int
  gcfg_max_conns_per_ip :: int
  gcfg_auth_attempts_per_min :: int
  gcfg_quic_enabled :: bool
  gcfg_accept_shared_token :: bool

record config =
  cfg_role :: string
  cfg_agent :: agent_config
  cfg_gateway :: gateway_config
  cfg_metrics :: metrics_config
  cfg_logging :: logging_config
  cfg_ui :: ui_config
  cfg_analytics :: analytics_config

record agent_view =
  view_agent_id :: string
  view_nickname :: string
  view_enrolled :: bool
  view_revoked :: bool
  view_scope_ports :: "int list"
  view_scope_tunnels :: "string list"
  view_issued_at_ms :: int
  view_connected :: bool
  view_hostname :: string
  view_remote_ip :: string
  view_link_up_since_ms :: int
  view_tunnels :: int

record gateway_event =
  ev_seq :: int
  ev_time_ms :: int
  ev_kind :: string
  ev_agent_id :: "string option"
  ev_tunnel_id :: "string option"
  ev_message :: string
  ev_requested_port :: "int option"
  ev_actual_port :: "int option"

record geo_status =
  geo_city_loaded :: bool
  geo_asn_loaded :: bool
  geo_city_error :: "string option"
  geo_asn_error :: "string option"

record log_entry =
  log_seq :: int
  log_time_ms :: int
  log_level :: string
  log_msg :: string
  log_attrs :: string

record bucket =
  b_t :: int
  b_in :: int
  b_out :: int
  b_io :: real
  b_ih :: real
  b_il :: real
  b_ic :: real
  b_oo :: real
  b_oh :: real
  b_ol :: real
  b_oc :: real
  b_co :: real
  b_ch :: real
  b_cl :: real
  b_cc :: real
  b_ro :: real
  b_rh :: real
  b_rl :: real
  b_rc :: real
  b_po :: real
  b_ph :: real
  b_pl :: real
  b_pc :: real
  b_lo :: real
  b_lh :: real
  b_ll :: real
  b_lc :: real

record history_result =
  hist_window_ms :: int
  hist_bucket_ms :: int
  hist_buckets :: "bucket list"

record peer_stat =
  peer_ip :: string
  peer_first_seen :: int
  peer_last_seen :: int
  peer_total_bytes_in :: int
  peer_total_bytes_out :: int
  peer_total_conns :: int

end
