(* ===== verification/Feeds.thy ===== *)
theory Feeds
  imports Contracts Model
begin

text \<open>
  Log tails with a since-cursor: \<open>useGatewayEvents\<close> (\<open>Agents.tsx\<close>) and the Activity screen's \<open>pull\<close>
  (\<open>Activity.tsx\<close>), and the two providers of \<open>devmock.ts\<close>, the conflict-event ring and the engine
  log. A provider hands out the entries after a sequence number; the client keeps the last
  sequence number it saw and the last \<open>CAP\<close> entries. The locale \<open>cursor_feed\<close> is the contract; both
  providers interpret it.

  A pull is two steps of the client, because it awaits: \<open>feed_send\<close> reads the cursor, and the
  answer is handled later by the closure that sent it, dropped when that closure is not alive.
\<close>

section \<open>The providers\<close>

text \<open>A ring with its sequence counter; the counter is bumped before an entry is pushed.\<close>

record 'e ring =
  rg_seq :: int
  rg_items :: "'e list"

definition empty_ring :: "'e ring" where
  "empty_ring = \<lparr>rg_seq = 0, rg_items = []\<rparr>"

definition push_event :: "gateway_event ring \<Rightarrow> gateway_event \<Rightarrow> gateway_event ring" where
  "push_event r e = \<lparr>rg_seq = rg_seq r + 1, rg_items = rg_items r @ [e\<lparr>ev_seq := rg_seq r + 1\<rparr>]\<rparr>"

definition gateway_events :: "gateway_event ring \<Rightarrow> int \<Rightarrow> gateway_event list" where
  "gateway_events r n = filter (\<lambda>e. n < ev_seq e) (rg_items r)"

definition push_log :: "log_entry ring \<Rightarrow> log_entry \<Rightarrow> log_entry ring" where
  "push_log r e = \<lparr>rg_seq = rg_seq r + 1, rg_items = rg_items r @ [e\<lparr>log_seq := rg_seq r + 1\<rparr>]\<rparr>"

definition logs_since :: "bool \<Rightarrow> log_entry ring \<Rightarrow> int \<Rightarrow> log_entry list" where
  "logs_since attached r n = (if attached then [] else filter (\<lambda>l. n < log_seq l) (rg_items r))"

section \<open>The client\<close>

record 'e feed =
  fd_events :: "'e list option"        \<comment> \<open>null until the first answer\<close>
  fd_last :: int                       \<comment> \<open>\<open>lastSeq.current\<close>\<close>
  fd_gen :: nat
  fd_alive :: bool
  fd_flight :: "(nat \<times> nat) list"     \<comment> \<open>pulls in flight: id, generation of the closure\<close>
  fd_next :: nat

definition feed_send :: "'e feed \<Rightarrow> 'e feed" where
  "feed_send s = s\<lparr>fd_flight := fd_flight s @ [(fd_next s, fd_gen s)], fd_next := Suc (fd_next s)\<rparr>"

definition feed_take :: "nat \<Rightarrow> 'e feed \<Rightarrow> 'e feed" where
  "feed_take i s = s\<lparr>fd_flight := filter (\<lambda>e. fst e \<noteq> i) (fd_flight s)\<rparr>"

definition feed_live :: "nat \<Rightarrow> 'e feed \<Rightarrow> bool" where
  "feed_live i s \<longleftrightarrow> fd_alive s \<and> map_of (fd_flight s) i = Some (fd_gen s)"

definition shown_events :: "'e feed \<Rightarrow> 'e list" where
  "shown_events s = (case fd_events s of Some es \<Rightarrow> es | None \<Rightarrow> [])"

subsection \<open>\<open>useGatewayEvents\<close>\<close>

definition events_cap :: nat where
  "events_cap = 200"

definition gw_answer :: "nat \<Rightarrow> gateway_event list \<Rightarrow> gateway_event feed \<Rightarrow> gateway_event feed" where
  "gw_answer i fresh s = (if \<not> feed_live i s then feed_take i s
     else (feed_take i s)\<lparr>fd_last := (if fresh \<noteq> [] then ev_seq (last fresh) else fd_last s),
       fd_events := Some (if fresh \<noteq> [] then last_n events_cap (shown_events s @ fresh) else shown_events s)\<rparr>)"

definition gw_fail :: "nat \<Rightarrow> gateway_event feed \<Rightarrow> gateway_event feed" where
  "gw_fail i s = (if feed_live i s then (feed_take i s)\<lparr>fd_events := Some (shown_events s)\<rparr> else feed_take i s)"

text \<open>The effect of \<open>[enabled]\<close>: a new closure; off clears the list and the cursor, on pulls at once.\<close>

definition gw_enable :: "bool \<Rightarrow> gateway_event feed \<Rightarrow> gateway_event feed" where
  "gw_enable on s = (let s = s\<lparr>fd_gen := Suc (fd_gen s)\<rparr> in
     if on then feed_send (s\<lparr>fd_alive := True\<rparr>) else s\<lparr>fd_alive := False, fd_events := None, fd_last := 0\<rparr>)"

definition gw_mount :: "gateway_event feed" where
  "gw_mount = \<lparr>fd_events = None, fd_last = 0, fd_gen = 0, fd_alive = False, fd_flight = [], fd_next = 0\<rparr>"

subsection \<open>The Activity tail\<close>

definition log_cap :: nat where
  "log_cap = 2000"

definition log_answer :: "nat \<Rightarrow> log_entry list \<Rightarrow> log_entry feed \<Rightarrow> log_entry feed" where
  "log_answer i fresh s = (if feed_live i s \<and> fresh \<noteq> []
     then (feed_take i s)\<lparr>fd_last := log_seq (last fresh), fd_events := Some (last_n log_cap (shown_events s @ fresh))\<rparr>
     else feed_take i s)"

definition log_fail :: "nat \<Rightarrow> log_entry feed \<Rightarrow> log_entry feed" where
  "log_fail i s = feed_take i s"

definition log_unmount :: "log_entry feed \<Rightarrow> log_entry feed" where
  "log_unmount s = s\<lparr>fd_alive := False\<rparr>"

definition log_mount :: "log_entry feed" where
  "log_mount = \<lparr>fd_events = Some [], fd_last = 0, fd_gen = 0, fd_alive = True, fd_flight = [], fd_next = 0\<rparr>"

section \<open>The contract\<close>

text \<open>
  \<open>answer\<close> is the client's handler, \<open>push\<close> and \<open>since\<close> the provider's operations. The laws: entries
  come in ascending sequence order from 1, \<open>since\<close> returns exactly those after the cursor, and a
  live answer appends what is fresh, keeps the last \<open>cap\<close> entries and moves the cursor.
\<close>

locale cursor_feed =
  fixes seq :: "'e \<Rightarrow> int" and push :: "'e ring \<Rightarrow> 'e \<Rightarrow> 'e ring" and since :: "'e ring \<Rightarrow> int \<Rightarrow> 'e list"
    and cap :: nat and answer :: "nat \<Rightarrow> 'e list \<Rightarrow> 'e feed \<Rightarrow> 'e feed"
  assumes push_seq: "rg_seq (push r e) = rg_seq r + 1"
    and push_items: "\<exists>e'. rg_items (push r e) = rg_items r @ [e'] \<and> seq e' = rg_seq r + 1"
    and since: "since r n = filter (\<lambda>e. n < seq e) (rg_items r)"
    and answer_live: "feed_live i s \<Longrightarrow> shown_events (answer i fresh s) = last_n cap (shown_events s @ fresh) \<or>
          (fresh = [] \<and> shown_events (answer i fresh s) = shown_events s)"
    and answer_last: "feed_live i s \<Longrightarrow> fd_last (answer i fresh s) = (if fresh = [] then fd_last s else seq (last fresh))"
    and answer_flight: "fd_flight (answer i fresh s) = filter (\<lambda>e. fst e \<noteq> i) (fd_flight s)"
    and answer_ctl: "fd_gen (answer i fresh s) = fd_gen s" "fd_alive (answer i fresh s) = fd_alive s"
      "fd_next (answer i fresh s) = fd_next s"
begin

text \<open>A round: the provider grows by a batch, then one pull is sent and answered.\<close>

definition feed_round :: "'e ring \<times> 'e feed \<Rightarrow> 'e list \<Rightarrow> 'e ring \<times> 'e feed" where
  "feed_round p batch = (let r = foldl push (fst p) batch; s = feed_send (snd p) in
     (r, answer (fd_next (snd p)) (since r (fd_last s)) s))"

definition ring_ok :: "'e ring \<Rightarrow> bool" where
  "ring_ok r \<longleftrightarrow> sorted_wrt (<) (map seq (rg_items r)) \<and> (\<forall>e \<in> set (rg_items r). 0 < seq e \<and> seq e \<le> rg_seq r)
     \<and> 0 \<le> rg_seq r"

definition in_step :: "'e ring \<Rightarrow> 'e feed \<Rightarrow> bool" where
  "in_step r s \<longleftrightarrow> fd_alive s \<and> fd_flight s = [] \<and> shown_events s = last_n cap (rg_items r)
     \<and> fd_last s = (if rg_items r = [] then 0 else seq (last (rg_items r)))"

lemma shown_in_step: "in_step r s \<Longrightarrow> shown_events s = last_n cap (rg_items r)"
  by (simp add: in_step_def)

lemma ring_ok_push: "ring_ok r \<Longrightarrow> ring_ok (push r e)"
proof -
  assume ok: "ring_ok r"
  obtain e' where "rg_items (push r e) = rg_items r @ [e']" "seq e' = rg_seq r + 1"
    using push_items by blast
  with ok push_seq [of r e] show ?thesis
    by (force simp: ring_ok_def sorted_wrt_append)
qed

lemma push_batch:
  "ring_ok r \<Longrightarrow> ring_ok (foldl push r es) \<and> (\<exists>es'. rg_items (foldl push r es) = rg_items r @ es')"
proof (induction es arbitrary: r)
  case (Cons e es)
  obtain e' where "rg_items (push r e) = rg_items r @ [e']" using push_items by blast
  with Cons.IH [OF ring_ok_push [OF Cons.prems], of e] show ?case by auto
qed simp

text \<open>What a provider hands out after the last entry the client saw is what came since.\<close>

lemma since_last:
  assumes "ring_ok r'" and "rg_items r' = rg_items r @ es"
  shows "since r' (if rg_items r = [] then 0 else seq (last (rg_items r))) = es"
proof -
  have sw: "sorted_wrt (<) (map seq (rg_items r @ es))" "\<forall>e \<in> set (rg_items r @ es). 0 < seq e"
    using assms by (simp_all add: ring_ok_def)
  show ?thesis
  proof (cases "rg_items r" rule: rev_cases)
    case Nil
    with assms sw show ?thesis by (simp add: since filter_id_conv)
  next
    case (snoc xs x)
    with sw(1) have "\<forall>e \<in> set (xs @ [x]). seq e \<le> seq x" "\<forall>e \<in> set es. seq x < seq e"
      by (auto simp: sorted_wrt_append)
    with snoc assms(2) show ?thesis
      by (auto simp: since filter_id_conv filter_empty_conv)
  qed
qed

lemma round_in_step:
  assumes "ring_ok (fst p)" and "in_step (fst p) (snd p)"
  shows "ring_ok (fst (feed_round p batch)) \<and> in_step (fst (feed_round p batch)) (snd (feed_round p batch))"
proof -
  obtain r s where p: "p = (r, s)" by fastforce
  let ?r = "foldl push r batch" and ?s = "feed_send s" and ?i = "fd_next s"
  obtain es where ok: "ring_ok ?r" and es: "rg_items ?r = rg_items r @ es"
    using push_batch assms p by fastforce
  have fresh: "since ?r (fd_last ?s) = es"
    using since_last [OF ok es] assms(2) p by (simp add: in_step_def feed_send_def)
  have live: "feed_live ?i ?s"
    using assms(2) p by (simp add: feed_live_def feed_send_def in_step_def)
  have shown: "shown_events ?s = last_n cap (rg_items r)" and last: "fd_last ?s = fd_last s"
    using assms(2) p by (simp_all add: in_step_def feed_send_def shown_events_def)
  have "shown_events (answer ?i es ?s) = last_n cap (rg_items r @ es)"
    using answer_live [OF live, of es] shown last_n_append_last_n [of cap "rg_items r" es]
    by (auto simp: last_n_append_last_n)
  moreover have "fd_last (answer ?i es ?s) = (if rg_items r @ es = [] then 0 else seq (last (rg_items r @ es)))"
    using answer_last [OF live, of es] last assms(2) p by (simp add: in_step_def)
  moreover have "fd_flight (answer ?i es ?s) = []" "fd_alive (answer ?i es ?s)"
    using answer_flight [of ?i es ?s] answer_ctl(2) [of ?i es ?s] assms(2) p by (simp_all add: in_step_def feed_send_def)
  ultimately show ?thesis using ok es fresh p by (simp add: feed_round_def in_step_def Let_def)
qed

lemma rounds_in_step:
  assumes "ring_ok (fst p)" and "in_step (fst p) (snd p)"
  shows "in_step (fst (foldl feed_round p bs)) (snd (foldl feed_round p bs))"
  using assms
proof (induction bs arbitrary: p)
  case (Cons b bs)
  with round_in_step [of p b] show ?case by simp
qed simp

end

definition gw_round :: "gateway_event ring \<times> gateway_event feed \<Rightarrow> gateway_event list \<Rightarrow> gateway_event ring \<times> gateway_event feed" where
  "gw_round p batch = (let r = foldl push_event (fst p) batch; s = feed_send (snd p) in
     (r, gw_answer (fd_next (snd p)) (gateway_events r (fd_last s)) s))"

definition log_round :: "log_entry ring \<times> log_entry feed \<Rightarrow> log_entry list \<Rightarrow> log_entry ring \<times> log_entry feed" where
  "log_round p batch = (let r = foldl push_log (fst p) batch; s = feed_send (snd p) in
     (r, log_answer (fd_next (snd p)) (logs_since False r (fd_last s)) s))"

lemmas feed_defs = feed_take_def feed_live_def shown_events_def

interpretation gw: cursor_feed ev_seq push_event gateway_events events_cap gw_answer
  by unfold_locales (auto simp: push_event_def gateway_events_def gw_answer_def feed_defs)

interpretation activity: cursor_feed log_seq push_log "logs_since False" log_cap log_answer
  by unfold_locales (auto simp: push_log_def logs_since_def log_answer_def feed_defs)

lemma gw_round_eq: "gw_round = gw.feed_round"
  by (simp add: fun_eq_iff gw_round_def gw.feed_round_def)

lemma log_round_eq: "log_round = activity.feed_round"
  by (simp add: fun_eq_iff log_round_def activity.feed_round_def)

text \<open>Both clients start in step with an empty provider, the gateway's once it is enabled and its
  first pull has been answered.\<close>

definition gw_started :: "gateway_event feed" where
  "gw_started = gw_answer 0 (gateway_events empty_ring 0) (gw_enable True gw_mount)"

lemma gw_start: "gw.ring_ok empty_ring \<and> gw.in_step empty_ring gw_started"
  by (simp add: gw.ring_ok_def gw.in_step_def gw_started_def empty_ring_def gw_enable_def gw_mount_def
      feed_send_def gw_answer_def gateway_events_def feed_defs last_n_def)

lemma log_start: "activity.ring_ok empty_ring \<and> activity.in_step empty_ring log_mount"
  by (simp add: activity.ring_ok_def activity.in_step_def empty_ring_def log_mount_def shown_events_def last_n_def)

section \<open>Properties\<close>

text \<open>C4. As long as each pull is answered before the next is sent, nothing is lost, repeated or
  reordered, whatever arrives between the pulls: the event list is the last 200 events of the ring,
  the activity list the last 2000 lines of the log.\<close>

theorem feeds_complete:
  "shown_events (snd (foldl gw_round (empty_ring, gw_started) bs))
     = last_n 200 (rg_items (fst (foldl gw_round (empty_ring, gw_started) bs)))
   \<and> shown_events (snd (foldl log_round (empty_ring, log_mount) cs))
     = last_n 2000 (rg_items (fst (foldl log_round (empty_ring, log_mount) cs)))"
  using gw.shown_in_step [OF gw.rounds_in_step [of "(empty_ring, gw_started)" bs]] gw_start
    activity.shown_in_step [OF activity.rounds_in_step [of "(empty_ring, log_mount)" cs]] log_start
  by (simp add: gw_round_eq log_round_eq events_cap_def log_cap_def)

text \<open>Turning the gateway role off and on again starts the tail afresh: an answer still in flight
  from before is dropped, so it cannot enter the new list or move the new cursor.\<close>

theorem gw_restart_drops_stale:
  assumes "map_of (fd_flight s) i = Some (fd_gen s)" and "i < fd_next s"
  shows "let s' = gw_enable True (gw_enable False s) in
     fd_events s' = None \<and> fd_last s' = 0
   \<and> fd_events (gw_answer i fresh s') = None \<and> fd_last (gw_answer i fresh s') = 0"
  using assms by (simp add: gw_enable_def feed_send_def gw_answer_def feed_defs Let_def map_add_def)

theorem gw_restart_drops_stale_witness:
  "fd_last (gw_answer 0 [e] (gw_enable True (gw_enable False (gw_enable True gw_mount)))) = 0"
  using gw_restart_drops_stale [of "gw_enable True gw_mount" 0 "[e]"]
  by (simp add: gw_enable_def gw_mount_def feed_send_def Let_def)

text \<open>Two pulls in flight at once, which a slow answer to a 250 ms poll produces, read the same
  cursor, and the lines both return are appended twice.\<close>

theorem overlapping_pulls_duplicate:
  "let r = push_log empty_ring e; s = feed_send (feed_send log_mount);
     s' = log_answer 1 (logs_since False r 0) (log_answer 0 (logs_since False r 0) s) in
   shown_events s' = rg_items r @ rg_items r \<and> length (rg_items r) = 1"
  by (simp add: push_log_def empty_ring_def feed_send_def log_mount_def log_answer_def logs_since_def
      feed_defs last_n_def log_cap_def Let_def)

end
