(* ===== verification/Hooks.thy ===== *)
theory Hooks
  imports Contracts
begin

text \<open>
  The polling hooks (\<open>hooks.ts\<close>, \<open>state.ts\<close>, \<open>players.ts\<close>, \<open>analytics.ts\<close>, \<open>history.ts\<close>) and the two
  module stores screens talk through (\<open>pagecontext.ts\<close> and the dossier mailbox of \<open>players.ts\<close>).

  A hook instance is a state machine: a render, an effect, an interval tick, an answer or a
  failure of a request in flight, an unmount. An effect closure is identified by its generation
  \<open>gen\<close>; its \<open>alive\<close> flag holds while the hook is mounted and no later effect has replaced it.
  A request in flight carries its closure's generation and key, and the key of the fetcher that
  \<open>fetchRef.current\<close> held when it was sent. \<open>po_served\<close> is a ghost: what the backend has answered,
  for which key.
\<close>

section \<open>\<open>usePolled\<close>\<close>

record request =
  rq_gen :: nat
  rq_key :: string        \<comment> \<open>the key of the closure that sent it\<close>
  rq_fetch :: string      \<comment> \<open>the key of the fetcher it called\<close>

record 'v polled =
  po_cache :: "(string \<times> 'v) list"
  po_data :: "'v option"
  po_fetcher :: "string option"    \<comment> \<open>the key of the last render, whose fetcher \<open>fetchRef\<close> holds\<close>
  po_key :: "string option"        \<comment> \<open>the key of the last effect\<close>
  po_gen :: nat
  po_mounted :: bool
  po_flight :: "(nat \<times> request) list"
  po_next :: nat
  po_served :: "(string \<times> 'v) list"

definition poll_lookup :: "(string \<times> 'v) list \<Rightarrow> string option \<Rightarrow> 'v option" where
  "poll_lookup cache k = (case k of None \<Rightarrow> None | Some k \<Rightarrow> map_of cache k)"

definition poll_fetch_once :: "'v polled \<Rightarrow> 'v polled" where
  "poll_fetch_once s = (case (po_key s, po_fetcher s) of
     (Some k, Some f) \<Rightarrow> s\<lparr>po_flight := po_flight s @ [(po_next s, \<lparr>rq_gen = po_gen s, rq_key = k, rq_fetch = f\<rparr>)],
                           po_next := Suc (po_next s)\<rparr>
   | _ \<Rightarrow> s)"

text \<open>A render assigns \<open>fetchRef.current\<close>; the effect then runs for the rendered key, its
  predecessor's cleanup first.\<close>

definition poll_render :: "string option \<Rightarrow> 'v polled \<Rightarrow> 'v polled" where
  "poll_render k s = (if po_mounted s then s\<lparr>po_fetcher := k\<rparr> else s)"

definition poll_effect :: "'v polled \<Rightarrow> 'v polled" where
  "poll_effect s = (if \<not> po_mounted s \<or> po_key s = po_fetcher s then s
     else poll_fetch_once (s\<lparr>po_key := po_fetcher s, po_gen := Suc (po_gen s),
            po_data := poll_lookup (po_cache s) (po_fetcher s)\<rparr>))"

definition poll_interval :: "'v polled \<Rightarrow> 'v polled" where
  "poll_interval s = (if po_mounted s then poll_fetch_once s else s)"

definition poll_alive :: "'v polled \<Rightarrow> request \<Rightarrow> bool" where
  "poll_alive s r \<longleftrightarrow> po_mounted s \<and> rq_gen r = po_gen s"

definition poll_resolve :: "nat \<Rightarrow> 'v \<Rightarrow> 'v polled \<Rightarrow> 'v polled" where
  "poll_resolve i v s = (case map_of (po_flight s) i of None \<Rightarrow> s
   | Some r \<Rightarrow> let s' = s\<lparr>po_flight := filter (\<lambda>e. fst e \<noteq> i) (po_flight s),
                         po_served := (rq_fetch r, v) # po_served s\<rparr> in
       if poll_alive s r then s'\<lparr>po_cache := AList.update (rq_key r) v (po_cache s), po_data := Some v\<rparr> else s')"

definition poll_reject :: "nat \<Rightarrow> 'v polled \<Rightarrow> 'v polled" where
  "poll_reject i s = s\<lparr>po_flight := filter (\<lambda>e. fst e \<noteq> i) (po_flight s)\<rparr>"

definition poll_unmount :: "'v polled \<Rightarrow> 'v polled" where
  "poll_unmount s = s\<lparr>po_mounted := False\<rparr>"

text \<open>Mounting: the state's initial value comes from the module cache, then the first effect.\<close>

definition poll_mount :: "(string \<times> 'v) list \<Rightarrow> string option \<Rightarrow> 'v polled" where
  "poll_mount cache k = poll_fetch_once \<lparr>po_cache = cache, po_data = poll_lookup cache k, po_fetcher = k, po_key = k,
     po_gen = 0, po_mounted = True, po_flight = [], po_next = 0, po_served = cache\<rparr>"

text \<open>\<open>Switch\<close> is a render whose effect runs before any timer; \<open>Elsewhere\<close> is another instance of
  the hook storing an answer in the shared module cache.\<close>

datatype 'v poll_event = Switch "string option" | Interval | Resolve nat 'v | Reject nat | Unmount
  | Elsewhere string 'v

fun poll_step :: "'v polled \<Rightarrow> 'v poll_event \<Rightarrow> 'v polled" where
  "poll_step s (Switch k) = poll_effect (poll_render k s)"
| "poll_step s Interval = poll_interval s"
| "poll_step s (Resolve i v) = poll_resolve i v s"
| "poll_step s (Reject i) = poll_reject i s"
| "poll_step s Unmount = poll_unmount s"
| "poll_step s (Elsewhere k v) = s\<lparr>po_cache := AList.update k v (po_cache s), po_served := (k, v) # po_served s\<rparr>"

definition poll_inv :: "'v polled \<Rightarrow> bool" where
  "poll_inv s \<longleftrightarrow> (\<forall>k v. map_of (po_cache s) k = Some v \<longrightarrow> (k, v) \<in> set (po_served s))
    \<and> (\<forall>v. po_data s = Some v \<longrightarrow> (\<exists>k. po_key s = Some k \<and> (k, v) \<in> set (po_served s)))
    \<and> (\<forall>r \<in> snd ` set (po_flight s). rq_fetch r = rq_key r \<and> rq_gen r \<le> po_gen s
         \<and> (rq_gen r = po_gen s \<longrightarrow> po_key s = Some (rq_key r)))
    \<and> po_fetcher s = po_key s"

lemma poll_inv_fetch: "poll_inv s \<Longrightarrow> poll_inv (poll_fetch_once s)"
  by (auto simp: poll_inv_def poll_fetch_once_def split: option.splits)

lemma poll_inv_drop: "poll_inv s \<Longrightarrow> poll_inv (s\<lparr>po_flight := filter p (po_flight s)\<rparr>)"
  by (auto simp: poll_inv_def)

lemma poll_inv_switch:
  assumes inv: "poll_inv s"
  shows "poll_inv (poll_effect (poll_render k s))"
proof (cases "po_mounted s \<and> po_key s \<noteq> k")
  case True
  let ?s = "s\<lparr>po_fetcher := k, po_key := k, po_gen := Suc (po_gen s), po_data := poll_lookup (po_cache s) k\<rparr>"
  have "poll_inv ?s"
    using inv by (fastforce simp: poll_inv_def poll_lookup_def split: option.splits)
  then have "poll_inv (poll_fetch_once ?s)" by (rule poll_inv_fetch)
  with True show ?thesis by (simp add: poll_effect_def poll_render_def)
next
  case False
  have "poll_effect (poll_render k s) = s"
    using False inv by (auto simp: poll_effect_def poll_render_def poll_inv_def)
  with inv show ?thesis by simp
qed

lemma poll_inv_resolve:
  assumes inv: "poll_inv s"
  shows "poll_inv (poll_resolve i v s)"
proof (cases "map_of (po_flight s) i")
  case (Some r)
  then have "r \<in> snd ` set (po_flight s)" by (force dest: map_of_SomeD)
  with inv have r: "rq_fetch r = rq_key r" "rq_gen r = po_gen s \<Longrightarrow> po_key s = Some (rq_key r)"
    by (auto simp: poll_inv_def)
  show ?thesis
    using inv Some r by (auto simp: poll_resolve_def poll_alive_def poll_inv_def Let_def update_conv' split: if_splits)
qed (use inv in \<open>simp add: poll_resolve_def\<close>)

lemma poll_inv_step: "poll_inv s \<Longrightarrow> poll_inv (poll_step s e)"
proof (cases e)
  case (Elsewhere k v)
  then show "poll_inv s \<Longrightarrow> ?thesis"
    by (auto simp: poll_inv_def update_conv' split: if_splits)
qed (auto simp: poll_inv_switch poll_inv_resolve poll_interval_def poll_inv_fetch poll_reject_def
      poll_inv_drop poll_unmount_def, auto simp: poll_inv_def)

lemma poll_inv_mount: "poll_inv (poll_mount cache k)"
  unfolding poll_mount_def
  by (rule poll_inv_fetch) (auto simp: poll_inv_def poll_lookup_def dest: map_of_SomeD split: option.splits)

interpretation polled: invariant_machine poll_step poll_inv
  by unfold_locales (rule poll_inv_step)

section \<open>The typed hooks' cache keys\<close>

definition history_key :: "string option \<Rightarrow> int \<Rightarrow> string option" where
  "history_key uuid window = map_option (\<lambda>u. u @ '':'' @ show_int window) uuid"

definition timeline_key :: "int option \<Rightarrow> string option" where
  "timeline_key i = map_option show_int i"

lemma history_key_inj: "history_key (Some u) w = history_key (Some u') w' \<longleftrightarrow> u = u' \<and> w = w'"
  using colon_key_inj [of u w u' w'] by (simp add: history_key_def)

section \<open>\<open>useBandwidthHistory\<close>\<close>

text \<open>
  The same state, but the request is built from the closure's own range and its answer is dropped
  when \<open>rangeRef.current\<close>, assigned during render, is no longer that range. Renders and effects are
  separate events here, so timers and answers may fall between them.
\<close>

definition hist_fetch_once :: "'v polled \<Rightarrow> 'v polled" where
  "hist_fetch_once s = (case po_key s of
     Some k \<Rightarrow> s\<lparr>po_flight := po_flight s @ [(po_next s, \<lparr>rq_gen = po_gen s, rq_key = k, rq_fetch = k\<rparr>)],
                po_next := Suc (po_next s)\<rparr>
   | None \<Rightarrow> s)"

definition hist_effect :: "'v polled \<Rightarrow> 'v polled" where
  "hist_effect s = (if \<not> po_mounted s \<or> po_key s = po_fetcher s then s
     else hist_fetch_once (s\<lparr>po_key := po_fetcher s, po_gen := Suc (po_gen s),
            po_data := poll_lookup (po_cache s) (po_fetcher s)\<rparr>))"

definition hist_resolve :: "nat \<Rightarrow> 'v \<Rightarrow> 'v polled \<Rightarrow> 'v polled" where
  "hist_resolve i v s = (case map_of (po_flight s) i of None \<Rightarrow> s
   | Some r \<Rightarrow> let s' = s\<lparr>po_flight := filter (\<lambda>e. fst e \<noteq> i) (po_flight s),
                         po_served := (rq_fetch r, v) # po_served s\<rparr> in
       if \<not> poll_alive s r \<or> po_fetcher s \<noteq> Some (rq_key r) then s'
       else s'\<lparr>po_cache := AList.update (rq_key r) v (po_cache s), po_data := Some v\<rparr>)"

definition hist_mount :: "string \<Rightarrow> 'v polled" where
  "hist_mount r = hist_fetch_once \<lparr>po_cache = [], po_data = None, po_fetcher = Some r, po_key = Some r,
     po_gen = 0, po_mounted = True, po_flight = [], po_next = 0, po_served = []\<rparr>"

datatype 'v hist_event = HistRender string | HistEffect | HistInterval | HistResolve nat 'v | HistReject nat
  | HistUnmount

fun hist_step :: "'v polled \<Rightarrow> 'v hist_event \<Rightarrow> 'v polled" where
  "hist_step s (HistRender r) = poll_render (Some r) s"
| "hist_step s HistEffect = hist_effect s"
| "hist_step s HistInterval = (if po_mounted s then hist_fetch_once s else s)"
| "hist_step s (HistResolve i v) = hist_resolve i v s"
| "hist_step s (HistReject i) = poll_reject i s"
| "hist_step s HistUnmount = poll_unmount s"

definition hist_inv :: "'v polled \<Rightarrow> bool" where
  "hist_inv s \<longleftrightarrow> (\<forall>k v. map_of (po_cache s) k = Some v \<longrightarrow> (k, v) \<in> set (po_served s))
    \<and> (\<forall>v. po_data s = Some v \<longrightarrow> (\<exists>k. po_key s = Some k \<and> (k, v) \<in> set (po_served s)))
    \<and> (\<forall>r \<in> snd ` set (po_flight s). rq_fetch r = rq_key r \<and> rq_gen r \<le> po_gen s
         \<and> (rq_gen r = po_gen s \<longrightarrow> po_key s = Some (rq_key r)))"

lemma hist_inv_fetch: "hist_inv s \<Longrightarrow> hist_inv (hist_fetch_once s)"
  by (auto simp: hist_inv_def hist_fetch_once_def split: option.splits)

lemma hist_inv_effect:
  assumes inv: "hist_inv s"
  shows "hist_inv (hist_effect s)"
proof -
  let ?s = "s\<lparr>po_key := po_fetcher s, po_gen := Suc (po_gen s), po_data := poll_lookup (po_cache s) (po_fetcher s)\<rparr>"
  have "hist_inv ?s"
    using inv by (fastforce simp: hist_inv_def poll_lookup_def split: option.splits)
  then have "hist_inv (hist_fetch_once ?s)" by (rule hist_inv_fetch)
  with inv show ?thesis by (simp add: hist_effect_def)
qed

lemma hist_inv_resolve:
  assumes inv: "hist_inv s"
  shows "hist_inv (hist_resolve i v s)"
proof (cases "map_of (po_flight s) i")
  case (Some r)
  then have "r \<in> snd ` set (po_flight s)" by (force dest: map_of_SomeD)
  with inv have r: "rq_fetch r = rq_key r" "rq_gen r = po_gen s \<Longrightarrow> po_key s = Some (rq_key r)"
    by (auto simp: hist_inv_def)
  show ?thesis
    using inv Some r by (auto simp: hist_resolve_def poll_alive_def hist_inv_def Let_def update_conv' split: if_splits)
qed (use inv in \<open>simp add: hist_resolve_def\<close>)

lemma hist_inv_step: "hist_inv s \<Longrightarrow> hist_inv (hist_step s e)"
  by (cases e) (simp_all add: hist_inv_effect hist_inv_fetch hist_inv_resolve,
      auto simp: hist_inv_def poll_render_def poll_reject_def poll_unmount_def)

lemma hist_inv_mount: "hist_inv (hist_mount r)"
  unfolding hist_mount_def by (rule hist_inv_fetch) (simp add: hist_inv_def)

interpretation bandwidth: invariant_machine hist_step hist_inv
  by unfold_locales (rule hist_inv_step)

section \<open>\<open>usePeers\<close>\<close>

text \<open>No key: the module cache is one nullable array, and a null answer is an empty array. The effect
  restarts when the cadence changes.\<close>

record 'p peers_hook =
  pe_cache :: "'p list option"
  pe_peers :: "'p list"
  pe_gen :: nat
  pe_mounted :: bool
  pe_flight :: "(nat \<times> nat) list"
  pe_next :: nat

definition peers_fetch_once :: "'p peers_hook \<Rightarrow> 'p peers_hook" where
  "peers_fetch_once s = s\<lparr>pe_flight := pe_flight s @ [(pe_next s, pe_gen s)], pe_next := Suc (pe_next s)\<rparr>"

definition peers_mount :: "'p list option \<Rightarrow> 'p peers_hook" where
  "peers_mount c = peers_fetch_once \<lparr>pe_cache = c, pe_peers = (case c of Some p \<Rightarrow> p | None \<Rightarrow> []),
     pe_gen = 0, pe_mounted = True, pe_flight = [], pe_next = 0\<rparr>"

definition peers_cadence :: "'p peers_hook \<Rightarrow> 'p peers_hook" where
  "peers_cadence s = (if pe_mounted s then peers_fetch_once (s\<lparr>pe_gen := Suc (pe_gen s)\<rparr>) else s)"

definition peers_interval :: "'p peers_hook \<Rightarrow> 'p peers_hook" where
  "peers_interval s = (if pe_mounted s then peers_fetch_once s else s)"

definition peers_resolve :: "nat \<Rightarrow> 'p list option \<Rightarrow> 'p peers_hook \<Rightarrow> 'p peers_hook" where
  "peers_resolve i p s = (case map_of (pe_flight s) i of None \<Rightarrow> s
   | Some g \<Rightarrow> let s' = s\<lparr>pe_flight := filter (\<lambda>e. fst e \<noteq> i) (pe_flight s)\<rparr>;
                  p' = (case p of Some p \<Rightarrow> p | None \<Rightarrow> []) in
       if pe_mounted s \<and> g = pe_gen s then s'\<lparr>pe_cache := Some p', pe_peers := p'\<rparr> else s')"

lemma peers_cached:
  "pe_cache s = Some (pe_peers s) \<Longrightarrow> pe_cache (peers_resolve i p s) = Some (pe_peers (peers_resolve i p s))"
  by (auto simp: peers_resolve_def Let_def split: option.splits)

section \<open>\<open>useTick\<close> and \<open>useTickStale\<close>\<close>

record 'u tick_hook =
  tk_status :: "'u option"
  tk_mounted :: bool

definition tick_mount :: "'u tick_hook" where
  "tick_mount = \<lparr>tk_status = None, tk_mounted = True\<rparr>"

text \<open>The reply of the initial \<open>Status()\<close>, a \<open>tick\<close> event, the cleanup (which unsubscribes).\<close>

definition tick_reply :: "'u \<Rightarrow> 'u tick_hook \<Rightarrow> 'u tick_hook" where
  "tick_reply u s = (if tk_mounted s then s\<lparr>tk_status := Some u\<rparr> else s)"

definition tick_event :: "'u \<Rightarrow> 'u tick_hook \<Rightarrow> 'u tick_hook" where
  "tick_event u s = (if tk_mounted s then s\<lparr>tk_status := Some u\<rparr> else s)"

definition tick_unmount :: "'u tick_hook \<Rightarrow> 'u tick_hook" where
  "tick_unmount s = s\<lparr>tk_mounted := False\<rparr>"

text \<open>The watchdog: a new snapshot object resets it, an interval every second checks it. The hook's
  result is the flag while there is a status.\<close>

record stale_hook =
  sl_last :: int
  sl_stale :: bool
  sl_has_status :: bool

datatype stale_event = Snapshot int | Check int

fun stale_step :: "stale_hook \<Rightarrow> stale_event \<Rightarrow> stale_hook" where
  "stale_step s (Snapshot t) = s\<lparr>sl_last := t, sl_stale := False, sl_has_status := True\<rparr>"
| "stale_step s (Check t) = s\<lparr>sl_stale := (2500 < t - sl_last s)\<rparr>"

definition tick_stale :: "stale_hook \<Rightarrow> bool" where
  "tick_stale s \<longleftrightarrow> sl_stale s \<and> sl_has_status s"

fun stale_time :: "stale_event \<Rightarrow> int" where
  "stale_time (Snapshot t) = t" | "stale_time (Check t) = t"

text \<open>\<open>fed last es\<close>: the events are in time order and no event is more than 2500 ms after the latest
  snapshot before it.\<close>

fun fed :: "int \<Rightarrow> stale_event list \<Rightarrow> bool" where
  "fed t [] = True"
| "fed t (Snapshot u # es) = (t \<le> u \<and> fed u es)"
| "fed t (Check u # es) = (u - t \<le> 2500 \<and> fed t es)"

lemma fed_never_stale:
  "fed (sl_last s) es \<Longrightarrow> \<not> sl_stale s \<Longrightarrow> \<not> sl_stale (foldl stale_step s es)"
proof (induction es arbitrary: s)
  case (Cons e es)
  show ?case by (cases e) (use Cons.prems Cons.IH [of "stale_step s e"] in auto)
qed simp

lemma checks_keep_last: "sl_last (foldl stale_step s (map Check ts)) = sl_last s"
  by (induction ts arbitrary: s) simp_all

lemma checks_stale:
  "ts \<noteq> [] \<Longrightarrow> sl_stale (foldl stale_step s (map Check ts)) \<longleftrightarrow> 2500 < last ts - sl_last s"
  by (induction ts rule: rev_induct) (simp_all add: checks_keep_last)

lemma checks_keep_status: "sl_has_status (foldl stale_step s (map Check ts)) = sl_has_status s"
  by (induction ts arbitrary: s) simp_all

section \<open>\<open>useDebounced\<close>\<close>

text \<open>The value passed by the render, the trailing state, the pending timer's deadline and the clock.\<close>

record 'a debounce =
  db_value :: 'a
  db_trail :: 'a
  db_due :: "int option"
  db_clock :: int

definition debounce_mount :: "int \<Rightarrow> int \<Rightarrow> 'a \<Rightarrow> 'a debounce" where
  "debounce_mount ms now x = \<lparr>db_value = x, db_trail = x, db_due = Some (now + ms), db_clock = now\<rparr>"

definition debounce_render :: "int \<Rightarrow> 'a \<Rightarrow> 'a debounce \<Rightarrow> 'a debounce" where
  "debounce_render ms x s = (if x = db_value s then s
     else s\<lparr>db_value := x, db_due := Some (db_clock s + ms)\<rparr>)"

definition debounce_clock :: "int \<Rightarrow> 'a debounce \<Rightarrow> 'a debounce" where
  "debounce_clock now s = (case db_due s of
     Some t \<Rightarrow> if t \<le> now then s\<lparr>db_clock := now, db_trail := db_value s, db_due := None\<rparr> else s\<lparr>db_clock := now\<rparr>
   | None \<Rightarrow> s\<lparr>db_clock := now\<rparr>)"

datatype 'a debounce_event = Typed 'a | Elapsed nat

fun debounce_step :: "int \<Rightarrow> 'a debounce \<Rightarrow> 'a debounce_event \<Rightarrow> 'a debounce" where
  "debounce_step ms s (Typed x) = debounce_render ms x s"
| "debounce_step ms s (Elapsed d) = debounce_clock (db_clock s + int d) s"

text \<open>The trailing value differs from the value only while a timer is pending, and a timer is due
  within the delay.\<close>

definition debounce_inv :: "int \<Rightarrow> 'a debounce \<Rightarrow> bool" where
  "debounce_inv ms s \<longleftrightarrow> 0 < ms \<and> (db_trail s \<noteq> db_value s \<longrightarrow> db_due s \<noteq> None)
    \<and> (\<forall>t. db_due s = Some t \<longrightarrow> db_clock s < t \<and> t \<le> db_clock s + ms)"

interpretation debounced: invariant_machine "debounce_step ms" "debounce_inv ms"
proof unfold_locales
  show "debounce_inv ms (debounce_step ms s e)" if "debounce_inv ms s" for s :: "'b debounce" and e
    using that by (cases e) (auto simp: debounce_inv_def debounce_render_def debounce_clock_def split: option.splits)
qed

lemma debounce_inv_mount: "0 < ms \<Longrightarrow> debounce_inv ms (debounce_mount ms now x)"
  by (simp add: debounce_inv_def debounce_mount_def)

lemma debounce_trail_step:
  "db_trail (debounce_step ms s e) \<noteq> db_trail s \<Longrightarrow>
     \<exists>d t. e = Elapsed d \<and> db_due s = Some t \<and> t \<le> db_clock s + int d \<and> db_trail (debounce_step ms s e) = db_value s"
  by (cases e) (auto simp: debounce_render_def debounce_clock_def split: option.splits if_splits)

section \<open>Stores between screens\<close>

text \<open>The title bar's context line: a new value notifies the subscribers, an equal one does not. A
  screen sets its text in an effect whose cleanup sets null.\<close>

record page_store =
  pg_value :: "string option"
  pg_notified :: nat

definition page_set :: "string option \<Rightarrow> page_store \<Rightarrow> page_store" where
  "page_set x s = (if x = pg_value s then s else s\<lparr>pg_value := x, pg_notified := Suc (pg_notified s)\<rparr>)"

definition page_mount :: "string option \<Rightarrow> page_store \<Rightarrow> page_store" where
  "page_mount x s = page_set x s"

definition page_change :: "string option \<Rightarrow> string option \<Rightarrow> page_store \<Rightarrow> page_store" where
  "page_change old new s = (if old = new then s else page_set new (page_set None s))"

definition page_unmount :: "page_store \<Rightarrow> page_store" where
  "page_unmount s = page_set None s"

text \<open>A screen's life: it mounts with a text, shows further texts, unmounts.\<close>

definition page_visit :: "string option list \<Rightarrow> page_store \<Rightarrow> page_store" where
  "page_visit xs s = (case xs of [] \<Rightarrow> s
   | x # xs' \<Rightarrow> fst (foldl (\<lambda>(s, old) new. (page_change old new s, new)) (page_mount x s, x) xs'))"

lemma page_set_value [simp]: "pg_value (page_set x s) = x"
  by (simp add: page_set_def)

lemma page_visit_value: "xs \<noteq> [] \<Longrightarrow> pg_value (page_visit xs s) = last xs"
proof (cases xs)
  case (Cons x xs')
  let ?f = "\<lambda>(s, old) new. (page_change old new s, new)"
  have "pg_value (fst (foldl ?f p ys)) = (if ys = [] then snd p else last ys)" if "pg_value (fst p) = snd p" for p ys
    using that
  proof (induction ys arbitrary: p)
    case (Cons y ys)
    then have "pg_value (fst (?f p y)) = snd (?f p y)"
      by (cases p) (auto simp: page_change_def)
    with Cons.IH [of "?f p y"] show ?case by (cases p) auto
  qed simp
  from this [of "(page_mount x s, x)" xs'] Cons show ?thesis
    by (simp add: page_visit_def page_mount_def)
qed simp

text \<open>The mailbox through which another screen asks Players to open a dossier.\<close>

definition open_dossier_on_mount :: "string \<Rightarrow> string option \<Rightarrow> string option" where
  "open_dossier_on_mount uuid box = Some uuid"

definition take_pending_dossier :: "string option \<Rightarrow> string option \<times> string option" where
  "take_pending_dossier box = (box, None)"

section \<open>Properties\<close>



text \<open>An answer to the current effect's request is stored under its key and shown; an answer to a
  request of an earlier key, or one that arrives after the unmount, changes neither the cache nor
  what is shown.\<close>

theorem polled_answer:
  assumes "map_of (po_flight s) i = Some r"
  shows "if po_mounted s \<and> rq_gen r = po_gen s
    then po_data (poll_resolve i v s) = Some v \<and> map_of (po_cache (poll_resolve i v s)) (rq_key r) = Some v
    else po_data (poll_resolve i v s) = po_data s \<and> po_cache (poll_resolve i v s) = po_cache s"
  using assms by (simp add: poll_resolve_def poll_alive_def Let_def update_conv')

theorem polled_answer_witness:
  "po_data (poll_resolve 0 (7::int) (poll_mount [] (Some ''a''))) = Some 7"
  using polled_answer [of "poll_mount [] (Some ''a'')" 0 "\<lparr>rq_gen = 0, rq_key = ''a'', rq_fetch = ''a''\<rparr>" "7::int"]
  by (simp add: poll_mount_def poll_fetch_once_def)

text \<open>The bandwidth history shown for a chart range was answered for that range even when timers
  and answers fall between a render and its effect, where \<open>rangeRef\<close> is already the next range.\<close>

theorem history_shows_own_range:
  "let s = foldl hist_step (hist_mount r) es in
     \<forall>v. po_data s = Some v \<longrightarrow> (\<exists>k. po_key s = Some k \<and> (k, v) \<in> set (po_served s))"
proof -
  have "hist_inv (foldl hist_step (hist_mount r) es)" by (rule bandwidth.inv_run [OF hist_inv_mount])
  then show ?thesis unfolding hist_inv_def Let_def by (elim conjE) assumption
qed

theorem history_shows_own_range_witness:
  "let s = foldl hist_step (hist_mount ''1m'') [HistRender ''1h'', HistInterval, HistEffect, HistResolve 0 (5::int), HistResolve 2 6] in
     po_data s = Some 6 \<and> (''1h'', 6) \<in> set (po_served s)"
proof -
  let ?es = "[HistRender ''1h'', HistInterval, HistEffect, HistResolve 0 (5::int), HistResolve 2 6]"
  have "po_data (foldl hist_step (hist_mount ''1m'') ?es) = Some 6"
    "po_key (foldl hist_step (hist_mount ''1m'') ?es) = Some ''1h''"
    by code_simp+
  with history_shows_own_range [of "''1m''" ?es] show ?thesis unfolding Let_def by (metis option.inject)
qed

text \<open>A player's history and latency series are polled under a key that determines both the
  player and the window: the series shown for one was never answered for another.\<close>

theorem player_history_own:
  assumes "po_key s = history_key (Some u) w" and "s = foldl poll_step (poll_mount [] k0) es"
    and "po_data s = Some v"
  shows "\<exists>f. (f, v) \<in> set (po_served s) \<and> (\<forall>u' w'. Some f = history_key (Some u') w' \<longrightarrow> u' = u \<and> w' = w)"
proof -
  have "poll_inv s" unfolding assms(2) by (rule polled.inv_run [OF poll_inv_mount])
  with assms(1,3) obtain k where k: "history_key (Some u) w = Some k" "(k, v) \<in> set (po_served s)"
    by (auto simp: poll_inv_def)
  have "u' = u \<and> w' = w" if "Some k = history_key (Some u') w'" for u' w'
    by (rule history_key_inj [THEN iffD1]) (use that k(1) in metis)
  with k show ?thesis by blast
qed

theorem player_history_own_witness:
  "\<exists>f. (f, 9::int) \<in> set (po_served (foldl poll_step (poll_mount [] (history_key (Some ''u'') 7)) [Resolve 0 9]))
     \<and> (\<forall>u' w'. Some f = history_key (Some u') w' \<longrightarrow> u' = ''u'' \<and> w' = 7)"
proof -
  obtain k where k: "history_key (Some ''u'') 7 = Some k" by (simp add: history_key_def)
  let ?s = "foldl poll_step (poll_mount [] (Some k)) [Resolve 0 (9::int)]"
  have "po_key ?s = Some k" "po_data ?s = Some 9"
    by (simp_all add: poll_mount_def poll_fetch_once_def poll_resolve_def poll_alive_def)
  with player_history_own [of ?s "''u''" 7 "Some k" "[Resolve 0 9]" 9] k show ?thesis by simp
qed

text \<open>The status watchdog never reports staleness while a snapshot arrives at least every 2.5 s;
  and after the last snapshot, one-second checks report it at the first check past 2.5 s, which is
  at most 3.5 s after it.\<close>

theorem stale_watchdog:
  assumes "fed (sl_last s) es" and "\<not> sl_stale s"
    and "t = sl_last (foldl stale_step s es)" and "t \<le> c" and "c \<le> t + 1000"
  shows "\<not> tick_stale (foldl stale_step s es)
    \<and> (\<exists>n. c + 1000 * int n \<le> t + 3501 \<and>
         sl_stale (foldl stale_step s (es @ map (\<lambda>k. Check (c + 1000 * int k)) [0..<Suc n])))"
proof
  show "\<not> tick_stale (foldl stale_step s es)"
    using fed_never_stale [OF assms(1,2)] by (simp add: tick_stale_def)
  define n where "n = nat ((t + 2500 - c) div 1000 + 1)"
  have n: "t + 2500 < c + 1000 * int n" "c + 1000 * int n \<le> t + 3501"
    using assms(4,5) unfolding n_def by linarith+
  have eq: "foldl stale_step s (es @ map (\<lambda>k. Check (c + 1000 * int k)) [0..<Suc n])
      = foldl stale_step (foldl stale_step s es) (map Check (map (\<lambda>k. c + 1000 * int k) [0..<Suc n]))"
    by (simp add: comp_def)
  have "sl_stale (foldl stale_step (foldl stale_step s es) (map Check (map (\<lambda>k. c + 1000 * int k) [0..<Suc n])))"
    using n assms(3) by (subst checks_stale) (simp_all add: last_map)
  with n(2) eq show "\<exists>n. c + 1000 * int n \<le> t + 3501 \<and>
      sl_stale (foldl stale_step s (es @ map (\<lambda>k. Check (c + 1000 * int k)) [0..<Suc n]))"
    by metis
qed

theorem stale_watchdog_witness:
  "\<not> tick_stale (foldl stale_step \<lparr>sl_last = 0, sl_stale = False, sl_has_status = False\<rparr> [Check 1000, Snapshot 1500, Check 2000])"
  using stale_watchdog [of "\<lparr>sl_last = 0, sl_stale = False, sl_has_status = False\<rparr>" "[Check 1000, Snapshot 1500, Check 2000]" 1500 2000]
  by simp

text \<open>A debounced value never moves before it has been left alone for the delay, and once it has,
  the trailing value is the last one typed.\<close>

theorem debounce_settles:
  assumes "0 < ms" and "s = foldl (debounce_step ms) (debounce_mount ms t0 x0) es"
    and "x \<noteq> db_value s"
  shows "\<forall>d. db_trail (debounce_step ms (debounce_step ms s (Typed x)) (Elapsed d))
     = (if ms \<le> int d then x else db_trail s)"
  using assms by (simp add: debounce_render_def debounce_clock_def)

theorem debounce_settles_witness:
  "db_trail (foldl (debounce_step 250) (debounce_mount 250 0 ''a'') [Typed ''ab'', Elapsed 100, Typed ''abc'', Elapsed 300]) = ''abc''"
  using debounce_settles [of 250 "foldl (debounce_step 250) (debounce_mount 250 0 ''a'') [Typed ''ab'', Elapsed 100]"
      0 "''a''" "[Typed ''ab'', Elapsed 100]" "''abc''"]
  by (simp add: debounce_mount_def debounce_render_def debounce_clock_def)

end
