(* ===== verification/Roster.thy ===== *)
theory Roster
  imports Format Prefs Feeds Hooks
begin

text \<open>
  The Agents screen (\<open>screens/Agents.tsx\<close>): the roster joined with the live snapshot, its filter and
  sort, the unresolved conflicts, the fleet summary, and what a card, a tunnel line and a detail
  panel show. A JavaScript \<open>NaN\<close> in a comparator, which a health word outside the four known ones
  produces, is the zero it counts as under \<open>||\<close>.
\<close>

record row =
  row_view :: agent_view
  row_live :: "agent_ui option"

section \<open>Health language\<close>

definition seg :: "agent_ui \<Rightarrow> string" where
  "seg a = (if agent_health_score a = '''' then ''unknown'' else agent_health_score a)"

definition row_seg :: "row \<Rightarrow> string" where
  "row_seg r = (case row_live r of Some a \<Rightarrow> seg a | None \<Rightarrow> ''unknown'')"

definition health_rank :: "string \<Rightarrow> int option" where
  "health_rank = map_of [(''bad'', 0), (''warn'', 1), (''unknown'', 2), (''good'', 3)]"

definition health_label :: "string \<Rightarrow> string option" where
  "health_label = map_of [(''good'', ''Healthy''), (''warn'', ''Fair''), (''bad'', ''Poor''), (''unknown'', ''Unknown'')]"

definition health_tone :: "string \<Rightarrow> string option" where
  "health_tone = map_of [(''good'', ''good''), (''warn'', ''warn''), (''bad'', ''bad''), (''unknown'', ''neutral'')]"

definition jitter_tone :: "real \<Rightarrow> string" where
  "jitter_tone v = (if v < 0 then ''unknown'' else if v > 100 then ''bad'' else if v > 30 then ''warn'' else ''good'')"

definition loss_tone :: "real \<Rightarrow> string" where
  "loss_tone v = (if v < 0 then ''unknown'' else if v > 5 then ''bad'' else if v > 1 then ''warn'' else ''good'')"

definition fmt_ms :: "real \<Rightarrow> string" where
  "fmt_ms v = (if v < 0 then em_dash else to_fixed 1 v @ '' ms'')"

definition fmt_loss_pct :: "real \<Rightarrow> string" where
  "fmt_loss_pct v = (if v < 0 then em_dash else to_fixed (if v > 0 \<and> v < 10 then 1 else 0) v @ ''%'')"

definition fmt_rtt_ms :: "real \<Rightarrow> string" where
  "fmt_rtt_ms v = (if has_rtt v then show_int (js_round v) @ '' ms'' else em_dash)"

section \<open>Rows\<close>

definition traffic :: "row \<Rightarrow> int" where
  "traffic r = (case row_live r of Some a \<Rightarrow> agent_link_bytes_in a + agent_link_bytes_out a | None \<Rightarrow> 0)"

definition row_players :: "row \<Rightarrow> int" where
  "row_players r = (case row_live r of Some a \<Rightarrow> agent_players a | None \<Rightarrow> 0)"

definition is_connected :: "agent_view \<Rightarrow> bool" where
  "is_connected v \<longleftrightarrow> view_connected v \<and> \<not> view_revoked v"

definition tier :: "row \<Rightarrow> int" where
  "tier r = (if view_revoked (row_view r) then 2 else if view_connected (row_view r) then 0 else 1)"

definition display_name :: "agent_view \<Rightarrow> string" where
  "display_name v = (if view_nickname v \<noteq> '''' then view_nickname v
     else if view_hostname v \<noteq> '''' then view_hostname v else view_agent_id v)"

definition scope_text :: "agent_view \<Rightarrow> string" where
  "scope_text v = (let ports = view_scope_ports v; tuns = view_scope_tunnels v in
     if ports = [] \<and> tuns = [] then ''Unrestricted''
     else join_with mid_dot (
       (if ports \<noteq> [] then [(if length ports = 1 then ''port'' else ''ports'') @ '' '' @ join_with '', '' (map show_int ports)] else [])
       @ (if tuns \<noteq> [] then [show_nat (length tuns) @ '' tunnel'' @ (if length tuns = 1 then '''' else ''s'')] else [])))"

text \<open>\<open>new Map(agents.map(a => [a.agentId, a]))\<close>: a later entry of the same id replaces an earlier.\<close>

definition live_by_id :: "ui_status \<Rightarrow> string \<Rightarrow> agent_ui option" where
  "live_by_id st i = map_of (rev (map (\<lambda>a. (agent_agent_id a, a)) (case st_agents st of Some as \<Rightarrow> as | None \<Rightarrow> []))) i"

definition roster_rows :: "agent_view list option \<Rightarrow> ui_status \<Rightarrow> row list" where
  "roster_rows roster st = map (\<lambda>v. \<lparr>row_view = v, row_live = live_by_id st (view_agent_id v)\<rparr>)
     (case roster of Some vs \<Rightarrow> vs | None \<Rightarrow> [])"

definition roster_ids :: "agent_view list option \<Rightarrow> string set" where
  "roster_ids roster = set (map view_agent_id (case roster of Some vs \<Rightarrow> vs | None \<Rightarrow> []))"

section \<open>Filter and sort\<close>

definition row_matches :: "string \<Rightarrow> row \<Rightarrow> bool" where
  "row_matches query r = (let f = js_lower (js_trim query); v = row_view r in
     f = '''' \<or> sublist f (js_lower (view_hostname v)) \<or> sublist f (js_lower (view_agent_id v))
     \<or> sublist f (js_lower (view_nickname v)))"

definition health_cmp :: "row \<Rightarrow> row \<Rightarrow> int" where
  "health_cmp a b = (case (health_rank (row_seg a), health_rank (row_seg b)) of
     (Some x, Some y) \<Rightarrow> x - y | _ \<Rightarrow> 0)"

definition tier_cmp :: "row \<Rightarrow> row \<Rightarrow> int" where
  "tier_cmp a b = tier a - tier b"

definition players_cmp :: "row \<Rightarrow> row \<Rightarrow> int" where
  "players_cmp a b = row_players b - row_players a"

definition traffic_cmp :: "row \<Rightarrow> row \<Rightarrow> int" where
  "traffic_cmp a b = traffic b - traffic a"

text \<open>\<open>lc\<close> is \<open>localeCompare\<close>.\<close>

definition row_cmp :: "(string \<Rightarrow> string \<Rightarrow> int) \<Rightarrow> string \<Rightarrow> row \<Rightarrow> row \<Rightarrow> int" where
  "row_cmp lc srt a b = (if srt = ''name'' then lc (display_name (row_view a)) (display_name (row_view b))
     else let t = tier_cmp a b in
       if t \<noteq> 0 then t
       else if srt = ''players'' then (if players_cmp a b \<noteq> 0 then players_cmp a b else traffic_cmp a b)
       else if srt = ''traffic'' then traffic_cmp a b
       else if health_cmp a b \<noteq> 0 then health_cmp a b else traffic_cmp a b)"

definition sorted_rows :: "(string \<Rightarrow> string \<Rightarrow> int) \<Rightarrow> string \<Rightarrow> string \<Rightarrow> row list \<Rightarrow> row list" where
  "sorted_rows lc srt query rows = js_sort (row_cmp lc srt) (filter (row_matches query) rows)"

section \<open>Conflicts\<close>

definition conflict_key :: "gateway_event \<Rightarrow> string" where
  "conflict_key e = ev_kind e @ '':'' @ (case ev_agent_id e of Some i \<Rightarrow> i | None \<Rightarrow> '''') @ '':''
     @ (case ev_tunnel_id e of Some i \<Rightarrow> i | None \<Rightarrow> '''') @ '':''
     @ (case ev_requested_port e of Some p \<Rightarrow> show_int p | None \<Rightarrow> '''')"

definition conflict_add :: "(string \<times> gateway_event) list \<Rightarrow> gateway_event \<Rightarrow> (string \<times> gateway_event) list" where
  "conflict_add m e = (case map_of m (conflict_key e) of
     Some prev \<Rightarrow> if ev_seq prev < ev_seq e then AList.update (conflict_key e) e m else m
   | None \<Rightarrow> AList.update (conflict_key e) e m)"

definition seq_desc :: "gateway_event \<Rightarrow> gateway_event \<Rightarrow> int" where
  "seq_desc a b = ev_seq b - ev_seq a"

definition conflicts :: "gateway_event list option \<Rightarrow> int set \<Rightarrow> gateway_event list" where
  "conflicts events dismissed = (case events of None \<Rightarrow> []
   | Some es \<Rightarrow> js_sort seq_desc (filter (\<lambda>e. ev_seq e \<notin> dismissed) (map snd (foldl conflict_add [] es))))"

definition conflict_linkable :: "string set \<Rightarrow> gateway_event \<Rightarrow> bool" where
  "conflict_linkable ids e \<longleftrightarrow> (case ev_agent_id e of Some i \<Rightarrow> i \<noteq> '''' \<and> i \<in> ids | None \<Rightarrow> False)"

definition event_log_rows :: "gateway_event list \<Rightarrow> gateway_event list" where
  "event_log_rows es = take 60 (rev es)"

section \<open>Selection, refresh, summary\<close>

definition deselect :: "string option \<Rightarrow> agent_view list option \<Rightarrow> string option" where
  "deselect selected roster = (case (selected, roster) of
     (Some i, Some vs) \<Rightarrow> if i \<noteq> '''' \<and> \<not> (\<exists>v \<in> set vs. view_agent_id v = i) then None else selected
   | _ \<Rightarrow> selected)"

definition roster_key :: "nat \<Rightarrow> string" where
  "roster_key nonce = ''roster:'' @ show_nat nonce"

text \<open>\<open>refreshRoster\<close>: the current data is put under the next key, then the key moves.\<close>

definition refresh_roster :: "nat \<Rightarrow> agent_view list polled \<Rightarrow> agent_view list polled \<times> nat" where
  "refresh_roster nonce s = (let s' = (case po_data s of
       Some r \<Rightarrow> s\<lparr>po_cache := AList.update (roster_key (nonce + 1)) r (po_cache s)\<rparr> | None \<Rightarrow> s) in
     (poll_effect (poll_render (Some (roster_key (nonce + 1))) s'), nonce + 1))"

record fleet_cells =
  fs_agents :: nat
  fs_online :: nat
  fs_revoked :: nat
  fs_worst :: tone
  fs_tunnels :: int
  fs_players :: int
  fs_verdict :: string
  fs_dot :: string          \<comment> \<open>the status dot: the worst tone, or unknown when nothing is online\<close>

definition tone_name :: "tone \<Rightarrow> string" where
  "tone_name t = (case t of Good \<Rightarrow> ''good'' | Warn \<Rightarrow> ''warn'' | Bad \<Rightarrow> ''bad'')"

definition fleet_summary :: "row list \<Rightarrow> fleet_cells" where
  "fleet_summary rows = (let online = length (filter (\<lambda>r. is_connected (row_view r)) rows);
       worst = worst_health (map agent_health_score (List.map_filter row_live rows)) in
     \<lparr>fs_agents = length rows, fs_online = online,
      fs_revoked = length (filter (\<lambda>r. view_revoked (row_view r)) rows), fs_worst = worst,
      fs_tunnels = sum_list (map (\<lambda>r. view_tunnels (row_view r)) rows), fs_players = sum_list (map row_players rows),
      fs_verdict = (if worst = Good then ''All healthy'' else if worst = Warn then ''Needs attention'' else ''Degraded''),
      fs_dot = (if 0 < online then tone_name worst else ''unknown'')\<rparr>)"

section \<open>What the cards show\<close>

datatype mark = RevokedBadge | HealthDot string | OfflineDot

definition status_mark :: "agent_view \<Rightarrow> string \<Rightarrow> mark" where
  "status_mark v h = (if view_revoked v then RevokedBadge else if is_connected v then HealthDot h else OfflineDot)"

text \<open>A metric's text and tone.\<close>

type_synonym metric = "string \<times> string"

datatype card_body = Vitals metric metric metric | AccessRevoked | EnrolledAt int

record card_cells =
  ac_title :: string
  ac_id :: string
  ac_mark :: mark
  ac_body :: card_body
  ac_tunnels :: string
  ac_players :: "string option"
  ac_scope :: string
  ac_up_since :: "int option"

definition vitals :: "agent_ui \<Rightarrow> card_body" where
  "vitals a = Vitals (fmt_rtt_ms (of_int (agent_rtt_millis a)), ''neutral'')
     (fmt_ms (agent_jitter_millis a), jitter_tone (agent_jitter_millis a))
     (fmt_loss_pct (agent_packet_loss_pct a), loss_tone (agent_packet_loss_pct a))"

definition plural :: "int \<Rightarrow> string \<Rightarrow> string" where
  "plural n w = show_int n @ '' '' @ w @ (if n = 1 then '''' else ''s'')"

definition agent_card :: "row \<Rightarrow> card_cells" where
  "agent_card r = (let v = row_view r; connected = is_connected v in
     \<lparr>ac_title = display_name v, ac_id = (if view_agent_id v = '''' then em_dash else view_agent_id v),
      ac_mark = status_mark v (row_seg r),
      ac_body = (case row_live r of
          Some a \<Rightarrow> if connected then vitals a else if view_revoked v then AccessRevoked else EnrolledAt (view_issued_at_ms v)
        | None \<Rightarrow> if view_revoked v then AccessRevoked else EnrolledAt (view_issued_at_ms v)),
      ac_tunnels = plural (view_tunnels v) ''tunnel'',
      ac_players = (if connected then Some (plural (row_players r) ''player'') else None),
      ac_scope = scope_text v,
      ac_up_since = (if connected \<and> view_link_up_since_ms v > 0 then Some (view_link_up_since_ms v) else None)\<rparr>)"

text \<open>The drill-in shows an agent with no live snapshot as a synthesized one with nothing known.\<close>

definition live_or_synth :: "row \<Rightarrow> agent_ui" where
  "live_or_synth r = (case row_live r of Some a \<Rightarrow> a
   | None \<Rightarrow> let v = row_view r in
     \<lparr>agent_agent_id = view_agent_id v, agent_hostname = view_hostname v, agent_lan_ips = [],
      agent_remote_ip = view_remote_ip v,
      agent_link_up_since_ms = (if is_connected v then view_link_up_since_ms v else 0), agent_rtt_millis = 0,
      agent_jitter_millis = -1, agent_packet_loss_pct = -1, agent_health_score = ''unknown'',
      agent_link_bytes_in = 0, agent_link_bytes_out = 0, agent_tunnels = view_tunnels v, agent_players = 0\<rparr>)"

definition detail_tunnels :: "ui_status \<Rightarrow> row \<Rightarrow> tunnel_ui list" where
  "detail_tunnels st r = filter (\<lambda>t. tun_agent_id t = Some (view_agent_id (row_view r)))
     (case st_tunnels st of Some ts \<Rightarrow> ts | None \<Rightarrow> [])"

definition detail_conns :: "ui_status \<Rightarrow> row \<Rightarrow> conn_ui list" where
  "detail_conns st r = filter (\<lambda>c. conn_agent_id c = Some (view_agent_id (row_view r)))
     (case st_connections st of Some cs \<Rightarrow> cs | None \<Rightarrow> [])"

definition tunnel_sub :: "tunnel_ui \<Rightarrow> string" where
  "tunnel_sub t = (let capped = tun_bandwidth_limit_mbps t > 0;
       scoped = capped \<and> (if tun_bandwidth_limit_scope t = '''' then ''combined'' else tun_bandwidth_limit_scope t) \<noteq> ''combined'' in
     ''port '' @ (if tun_public_port t > 0 then show_int (tun_public_port t) else em_dash)
     @ (if capped then mid_dot @ show_int (tun_bandwidth_limit_mbps t) @ '' Mbps'' else '''')
     @ (if scoped then mid_dot @ scope_label (tun_bandwidth_limit_scope t) else ''''))"

section \<open>Lemmas\<close>

definition known_health :: "row \<Rightarrow> bool" where
  "known_health r \<longleftrightarrow> health_rank (row_seg r) \<noteq> None"

definition name_cmp :: "(string \<Rightarrow> string \<Rightarrow> int) \<Rightarrow> row \<Rightarrow> row \<Rightarrow> int" where
  "name_cmp lc a b = lc (display_name (row_view a)) (display_name (row_view b))"

lemma row_cmp_then:
  "row_cmp lc srt = (if srt = ''name'' then name_cmp lc
     else then_cmp tier_cmp (if srt = ''players'' then then_cmp players_cmp traffic_cmp
       else if srt = ''traffic'' then traffic_cmp else then_cmp health_cmp traffic_cmp))"
  by (simp add: fun_eq_iff row_cmp_def then_cmp_def name_cmp_def Let_def)

interpretation tiers: key_comparator tier_cmp tier
  by unfold_locales (simp add: tier_cmp_def)

lemma comparator_tier: "comparator tier_cmp ok"
  unfolding tier_cmp_def by (rule comparator_key)

lemma comparator_traffic: "comparator traffic_cmp ok"
  unfolding traffic_cmp_def by (rule comparator_key_desc)

lemma comparator_players: "comparator players_cmp ok"
  unfolding players_cmp_def by (rule comparator_key_desc)

lemma health_cmp_known:
  "known_health a \<Longrightarrow> known_health b \<Longrightarrow> health_cmp a b = the (health_rank (row_seg a)) - the (health_rank (row_seg b))"
  by (auto simp: known_health_def health_cmp_def)

lemma comparator_health: "comparator health_cmp known_health"
  by unfold_locales (auto simp: health_cmp_known sgn_if)

lemma comparator_row:
  assumes "comparator lc (\<lambda>_. True)"
  shows "comparator (row_cmp lc srt) known_health"
proof -
  have "comparator (name_cmp lc) known_health"
  proof
    show "sgn (name_cmp lc x y) = - sgn (name_cmp lc y x)" for x y
      unfolding name_cmp_def by (rule comparator.cmp_sym [OF assms]) simp_all
    show "name_cmp lc x z \<le> 0" if "name_cmp lc x y \<le> 0" "name_cmp lc y z \<le> 0" for x y z
      using that comparator.cmp_trans [OF assms, of "display_name (row_view x)" "display_name (row_view y)"
          "display_name (row_view z)"] by (simp add: name_cmp_def)
  qed
  then show ?thesis
    unfolding row_cmp_then
    by (simp add: comparator_then comparator_tier comparator_traffic comparator_players comparator_health)
qed

lemma sorted_wrt_restrict:
  "sorted_wrt P xs \<Longrightarrow> \<forall>x \<in> set xs. ok x \<Longrightarrow> (\<And>x y. ok x \<Longrightarrow> ok y \<Longrightarrow> P x y \<Longrightarrow> Q x y) \<Longrightarrow> sorted_wrt Q xs"
  by (induction xs) auto

text \<open>The dedupe map: under each key, the event with the greatest sequence number so far.\<close>

definition latest :: "gateway_event list \<Rightarrow> gateway_event \<Rightarrow> bool" where
  "latest es e \<longleftrightarrow> e \<in> set es \<and> (\<forall>e' \<in> set es. conflict_key e' = conflict_key e \<longrightarrow> ev_seq e' \<le> ev_seq e)"

definition conflict_map_ok :: "gateway_event list \<Rightarrow> (string \<times> gateway_event) list \<Rightarrow> bool" where
  "conflict_map_ok es m \<longleftrightarrow> distinct (map fst m) \<and> (\<forall>k e. (k, e) \<in> set m \<longleftrightarrow> latest es e \<and> k = conflict_key e)"

lemma conflict_map_update:
  assumes ok: "conflict_map_ok es m"
    and l: "\<And>x. latest (es @ [e]) x \<longleftrightarrow> (if conflict_key x = conflict_key e then x = e else latest es x)"
  shows "conflict_map_ok (es @ [e]) (AList.update (conflict_key e) e m)"
proof -
  have d: "distinct (map fst m)" using ok unfolding conflict_map_ok_def by blast
  then have d': "distinct (map fst (AList.update (conflict_key e) e m))" by (rule distinct_update)
  note in_update_iff [OF d]
  with ok d' show ?thesis
    unfolding conflict_map_ok_def by (simp only: l) (metis (full_types))
qed

lemma conflict_map_snoc:
  assumes ok: "conflict_map_ok es m" and new: "ev_seq e \<notin> ev_seq ` set es"
  shows "conflict_map_ok (es @ [e]) (conflict_add m e)"
proof -
  note okD = ok [unfolded conflict_map_ok_def]
  have d: "distinct (map fst m)" using okD by blast
  have entry: "map_of m (conflict_key e) = Some p \<longleftrightarrow> latest es p \<and> conflict_key p = conflict_key e" for p
    using okD map_of_eq_Some_iff [OF d] by metis

  have new': "ev_seq x \<noteq> ev_seq e" if "x \<in> set es" for x using new that by (metis image_eqI)
  show ?thesis
  proof (cases "map_of m (conflict_key e)")
    case None
    then have none: "conflict_key x \<noteq> conflict_key e" if "latest es x" for x
      using okD that by (metis option.distinct(1) weak_map_of_SomeI)
    have "conflict_key x \<noteq> conflict_key e" if x: "x \<in> set es" for x
    proof
      assume eq: "conflict_key x = conflict_key e"
      let ?S = "{y \<in> set es. conflict_key y = conflict_key e}"
      obtain y where "y \<in> ?S" "ev_seq y = Max (ev_seq ` ?S)"
        using x eq Max_in [of "ev_seq ` ?S"] by fastforce
      then have "latest es y" by (auto simp: latest_def intro!: Max_ge)
      with none \<open>y \<in> ?S\<close> show False by blast
    qed
    then have "latest (es @ [e]) x \<longleftrightarrow> (if conflict_key x = conflict_key e then x = e else latest es x)" for x
      by (auto simp: latest_def)
    from conflict_map_update [OF ok this] None show ?thesis by (simp add: conflict_add_def)
  next
    case (Some p)
    then have p: "latest es p" "conflict_key p = conflict_key e" using entry by auto
    then have pe: "ev_seq p \<noteq> ev_seq e" using new' by (simp add: latest_def)
    have top: "ev_seq x \<le> ev_seq p" if "x \<in> set es" "conflict_key x = conflict_key e" for x
      using p that by (simp add: latest_def)
    show ?thesis
    proof (cases "ev_seq p < ev_seq e")
      case True
      have "latest (es @ [e]) x \<longleftrightarrow> (if conflict_key x = conflict_key e then x = e else latest es x)" for x
      proof (cases "conflict_key x = conflict_key e")
        case eq: True
        have "x = e" if l: "latest (es @ [e]) x"
        proof (rule ccontr)
          assume "x \<noteq> e"
          with l eq have "x \<in> set es" "ev_seq e \<le> ev_seq x" by (auto simp: latest_def)
          with top eq True show False by fastforce
        qed
        moreover have "latest (es @ [e]) e"
          using top True by (auto simp: latest_def intro: order_trans less_imp_le)
        ultimately show ?thesis using eq by auto
      next
        case False
        then show ?thesis by (auto simp: latest_def)
      qed
      from conflict_map_update [OF ok this] True Some show ?thesis by (simp add: conflict_add_def)
    next
      case False
      with pe have lt: "ev_seq e < ev_seq p" by simp
      have "latest (es @ [e]) x \<longleftrightarrow> latest es x" for x
      proof (cases "conflict_key x = conflict_key e")
        case eq: True
        have "\<not> latest (es @ [e]) e" using p lt by (auto simp: latest_def not_le)
        moreover have "ev_seq e \<le> ev_seq x" if "latest es x"
          using that p eq lt by (fastforce simp: latest_def)
        ultimately show ?thesis by (auto simp: latest_def)
      next
        case False
        then show ?thesis by (auto simp: latest_def)
      qed
      with False Some okD show ?thesis
        unfolding conflict_map_ok_def conflict_add_def by auto
    qed
  qed
qed

lemma conflict_map:
  "distinct (map ev_seq es) \<Longrightarrow> conflict_map_ok es (foldl conflict_add [] es)"
proof (induction es rule: rev_induct)
  case (snoc e es)
  then show ?case by (auto intro!: conflict_map_snoc)
qed (simp add: conflict_map_ok_def latest_def)

interpretation newest_first: key_comparator seq_desc "\<lambda>e. - ev_seq e"
  by unfold_locales (simp add: seq_desc_def)

section \<open>Properties\<close>

text \<open>The agent list shows exactly the rows that match the filter. Sorted by name it follows the
  names; sorted by anything else it keeps connected agents before offline ones and those before
  revoked ones, whatever the second criterion, and the default sort puts the worst health first
  inside each tier.\<close>

theorem roster_sorted:
  assumes "comparator lc (\<lambda>_. True)" and "\<forall>r \<in> set rows. known_health r"
  shows "mset (sorted_rows lc srt q rows) = mset (filter (row_matches q) rows)
   \<and> (if srt = ''name''
       then sorted_wrt (\<lambda>a b. lc (display_name (row_view a)) (display_name (row_view b)) \<le> 0) (sorted_rows lc srt q rows)
       else sorted (map tier (sorted_rows lc srt q rows)))
   \<and> (srt \<in> {''health'', ''''} \<longrightarrow> sorted_wrt (\<lambda>a b. tier a = tier b \<longrightarrow>
         the (health_rank (row_seg a)) \<le> the (health_rank (row_seg b))) (sorted_rows lc srt q rows))"
proof -
  let ?xs = "sorted_rows lc srt q rows"
  have known: "\<forall>r \<in> set ?xs. known_health r" using assms(2) by (auto simp: sorted_rows_def)
  have srt: "sorted_wrt (\<lambda>a b. row_cmp lc srt a b \<le> 0) ?xs"
    unfolding sorted_rows_def
    by (rule comparator.sorted_js_sort [OF comparator_row [OF assms(1)]]) (use assms(2) in auto)
  have "sorted_wrt (\<lambda>a b. tier_cmp a b \<le> 0) ?xs" if "srt \<noteq> ''name''"
    using srt that unfolding row_cmp_then by (auto dest: sorted_then_first)
  then have "sorted (map tier ?xs)" if "srt \<noteq> ''name''"
    using that by (simp add: tier_cmp_def sorted_wrt_map)
  moreover have "sorted_wrt (\<lambda>a b. lc (display_name (row_view a)) (display_name (row_view b)) \<le> 0) ?xs"
    if "srt = ''name''"
    using srt that by (simp add: row_cmp_then name_cmp_def)
  moreover have "sorted_wrt (\<lambda>a b. tier a = tier b \<longrightarrow>
         the (health_rank (row_seg a)) \<le> the (health_rank (row_seg b))) ?xs" if "srt \<in> {''health'', ''''}"
  proof (rule sorted_wrt_restrict [OF srt known])
    fix a b
    assume "known_health a" "known_health b" "row_cmp lc srt a b \<le> 0"
    with that health_cmp_known [of a b]
    show "tier a = tier b \<longrightarrow> the (health_rank (row_seg a)) \<le> the (health_rank (row_seg b))"
      by (auto simp: row_cmp_then then_cmp_def tier_cmp_def split: if_splits)
  qed
  ultimately show ?thesis by (simp add: sorted_rows_def)
qed

definition sample_view :: "string \<Rightarrow> bool \<Rightarrow> bool \<Rightarrow> agent_view" where
  "sample_view i linked revoked = \<lparr>view_agent_id = i, view_nickname = [], view_enrolled = True,
     view_revoked = revoked, view_scope_ports = [], view_scope_tunnels = [], view_issued_at_ms = 0,
     view_connected = linked, view_hostname = i, view_remote_ip = [], view_link_up_since_ms = 0, view_tunnels = 0\<rparr>"

theorem roster_sorted_witness:
  "sorted (map tier (sorted_rows (\<lambda>a b. int (length a) - int (length b)) ''health'' []
     [\<lparr>row_view = sample_view ''a'' False True, row_live = None\<rparr>, \<lparr>row_view = sample_view ''b'' True False, row_live = None\<rparr>]))"
proof -
  have "comparator (\<lambda>a b :: string. int (length a) - int (length b)) (\<lambda>_. True)" by (rule comparator_key)
  from roster_sorted [OF this, of "[\<lparr>row_view = sample_view ''a'' False True, row_live = None\<rparr>,
      \<lparr>row_view = sample_view ''b'' True False, row_live = None\<rparr>]" "''health''" "[]"]
  show ?thesis by (simp add: known_health_def row_seg_def health_rank_def)
qed

text \<open>C27. The conflict cards are, newest first, exactly the latest event of each conflict that has not
  been dismissed: a dismissed event never hides a newer one of the same conflict.\<close>

theorem conflicts_latest:
  assumes "distinct (map ev_seq es)"
  shows "sorted_wrt (\<lambda>a b. ev_seq b \<le> ev_seq a) (conflicts (Some es) dismissed)
    \<and> (\<forall>e. e \<in> set (conflicts (Some es) dismissed) \<longleftrightarrow> latest es e \<and> ev_seq e \<notin> dismissed)
    \<and> distinct (map conflict_key (conflicts (Some es) dismissed))"
proof -
  let ?m = "foldl conflict_add [] es"
  let ?f = "filter (\<lambda>e. ev_seq e \<notin> dismissed) (map snd ?m)"
  have m: "distinct (map fst ?m)" "\<And>k e. (k, e) \<in> set ?m \<longleftrightarrow> latest es e \<and> k = conflict_key e"
    using conflict_map [OF assms] unfolding conflict_map_ok_def by blast+
  have "map conflict_key (map snd ?m) = map fst ?m" using m(2) by auto
  with m(1) have "distinct (map conflict_key (map snd ?m))" by metis
  then have "distinct (map conflict_key ?f)" by (rule distinct_map_filter)
  then have "distinct (map conflict_key (js_sort seq_desc ?f))"
    by (simp add: distinct_map)
  moreover have "e \<in> set (map snd ?m) \<longleftrightarrow> latest es e" for e
    unfolding list.set_map image_iff using m(2) by (metis prod.collapse snd_conv)
  moreover have "sorted_wrt (\<lambda>a b. ev_seq b \<le> ev_seq a) (js_sort seq_desc ?f)"
    using newest_first.sorted_keys [of ?f] by (simp add: sorted_wrt_map)
  ultimately show ?thesis by (auto simp: conflicts_def)
qed

definition sample_event :: "int \<Rightarrow> gateway_event" where
  "sample_event n = \<lparr>ev_seq = n, ev_time_ms = 0, ev_kind = ''clone-suspected'', ev_agent_id = Some ''a'',
     ev_tunnel_id = None, ev_message = [], ev_requested_port = None, ev_actual_port = None\<rparr>"

theorem conflicts_latest_witness:
  "sample_event 2 \<in> set (conflicts (Some [sample_event 1, sample_event 2]) {1})"
proof -
  have "latest [sample_event 1, sample_event 2] (sample_event 2)"
    by (auto simp: latest_def sample_event_def)
  with conflicts_latest [of "[sample_event 1, sample_event 2]" "{1}"]
  show ?thesis by (simp add: sample_event_def)
qed

text \<open>After a mutation the roster is polled again at once without a skeleton: the data shown stays,
  and a request for the new key is in flight.\<close>

theorem refresh_keeps_data:
  assumes "po_mounted s" and "po_key s = Some (roster_key n)" and "po_data s = Some r"
  shows "let (s', n') = refresh_roster n s in
     po_data s' = Some r \<and> po_key s' = Some (roster_key n')
   \<and> (\<exists>i. (i, \<lparr>rq_gen = po_gen s', rq_key = roster_key n', rq_fetch = roster_key n'\<rparr>) \<in> set (po_flight s'))"
proof -
  have "roster_key (Suc n) \<noteq> roster_key n" by (simp add: roster_key_def)
  with assms show ?thesis
    by (auto simp: refresh_roster_def poll_effect_def poll_render_def poll_fetch_once_def poll_lookup_def
        update_conv' Let_def)
qed

theorem refresh_keeps_data_witness:
  "po_data (fst (refresh_roster 0 (poll_resolve 0 [sample_view ''a'' True False] (poll_mount [] (Some (roster_key 0))))))
     = Some [sample_view ''a'' True False]"
proof -
  let ?s = "poll_resolve 0 [sample_view ''a'' True False] (poll_mount [] (Some (roster_key 0)))"
  have "po_mounted ?s" "po_key ?s = Some (roster_key 0)" "po_data ?s = Some [sample_view ''a'' True False]"
    by (simp_all add: poll_mount_def poll_fetch_once_def poll_resolve_def poll_alive_def)
  from refresh_keeps_data [OF this] show ?thesis by (simp add: Let_def split: prod.splits)
qed

end
