(* ===== verification/Management.thy ===== *)
theory Management
  imports Roster
begin

text \<open>
  The management panel of one agent (\<open>AgentManagement\<close> in \<open>screens/Agents.tsx\<close>): the form fields, their
  reseeding when the persisted values change, the parsing of the scope fields, and the three
  writes (rename, scope, revoke), each an asynchronous backend call whose outcome arrives later as
  an error or a success. A backend call is recorded with the arguments it was sent with.
\<close>

section \<open>Parsing the scope fields\<close>

fun split_on :: "char \<Rightarrow> string \<Rightarrow> string list" where
  "split_on c [] = [[]]"
| "split_on c (x # xs) = (if x = c then [] # split_on c xs
     else (case split_on c xs of [] \<Rightarrow> [[x]] | w # ws \<Rightarrow> (x # w) # ws))"

text \<open>\<open>parseInt(s, 10)\<close>: white space, a sign, the leading digits; \<open>None\<close> is \<open>NaN\<close>.\<close>

definition parse_int10 :: "string \<Rightarrow> int option" where
  "parse_int10 s = (let t = dropWhile is_space s;
       neg = (t \<noteq> [] \<and> hd t = CHR ''-'');
       u = (if t \<noteq> [] \<and> (hd t = CHR ''-'' \<or> hd t = CHR ''+'') then tl t else t);
       ds = takeWhile is_digit u in
     if ds = [] then None else Some (if neg then - int (digits_value ds) else int (digits_value ds)))"

definition parse_ports :: "string \<Rightarrow> int list" where
  "parse_ports s = filter (\<lambda>n. 0 < n \<and> n < 65536) (List.map_filter (\<lambda>x. parse_int10 (js_trim x)) (split_on (CHR '','') s))"

definition parse_tuns :: "string \<Rightarrow> string list" where
  "parse_tuns s = filter (\<lambda>t. t \<noteq> []) (map js_trim (split_on (CHR '','') s))"

section \<open>The panel\<close>

datatype mgmt_call = Rename string string | SetScope string "int list" "string list" | Revoke string

record mgmt =
  mg_nickname :: string
  mg_ports :: string
  mg_tuns :: string
  mg_saving_name :: bool
  mg_saving_scope :: bool
  mg_confirming :: bool
  mg_revoking :: bool
  mg_err :: string
  mg_calls :: "mgmt_call list"
  mg_changed :: nat                       \<comment> \<open>calls of \<open>onChanged\<close>\<close>
  mg_deps :: "(string \<times> string \<times> string \<times> string) option"

definition ports_text :: "agent_view \<Rightarrow> string" where
  "ports_text v = join_with '', '' (map show_int (view_scope_ports v))"

definition tuns_text :: "agent_view \<Rightarrow> string" where
  "tuns_text v = join_with '', '' (view_scope_tunnels v)"

definition mgmt_deps :: "agent_view \<Rightarrow> string \<times> string \<times> string \<times> string" where
  "mgmt_deps v = (view_agent_id v, view_nickname v, join_with '','' (map show_int (view_scope_ports v)),
     join_with '','' (view_scope_tunnels v))"

text \<open>The effect keyed on the serialized values.\<close>

definition mgmt_reseed :: "agent_view \<Rightarrow> mgmt \<Rightarrow> mgmt" where
  "mgmt_reseed v s = (if mg_deps s = Some (mgmt_deps v) then s
     else s\<lparr>mg_deps := Some (mgmt_deps v), mg_nickname := view_nickname v, mg_ports := ports_text v, mg_tuns := tuns_text v\<rparr>)"

definition mgmt_mount :: "agent_view \<Rightarrow> mgmt" where
  "mgmt_mount v = mgmt_reseed v \<lparr>mg_nickname = view_nickname v, mg_ports = ports_text v, mg_tuns = tuns_text v,
     mg_saving_name = False, mg_saving_scope = False, mg_confirming = False, mg_revoking = False, mg_err = [],
     mg_calls = [], mg_changed = 0, mg_deps = None\<rparr>"

definition name_changed :: "agent_view \<Rightarrow> mgmt \<Rightarrow> bool" where
  "name_changed v s \<longleftrightarrow> js_trim (mg_nickname s) \<noteq> view_nickname v"

definition scope_changed :: "agent_view \<Rightarrow> mgmt \<Rightarrow> bool" where
  "scope_changed v s \<longleftrightarrow> join_with '','' (map show_int (parse_ports (mg_ports s))) \<noteq> join_with '','' (map show_int (view_scope_ports v))
     \<or> join_with '','' (parse_tuns (mg_tuns s)) \<noteq> join_with '','' (view_scope_tunnels v)"

text \<open>Each save begins with its flag up and the error cleared, and ends in a success or an error.\<close>

definition save_name :: "agent_view \<Rightarrow> mgmt \<Rightarrow> mgmt" where
  "save_name v s = s\<lparr>mg_saving_name := True, mg_err := [],
     mg_calls := mg_calls s @ [Rename (view_agent_id v) (js_trim (mg_nickname s))]\<rparr>"

definition save_name_done :: "string + unit \<Rightarrow> mgmt \<Rightarrow> mgmt" where
  "save_name_done r s = (case r of Inr _ \<Rightarrow> s\<lparr>mg_changed := Suc (mg_changed s), mg_saving_name := False\<rparr>
     | Inl e \<Rightarrow> s\<lparr>mg_err := e, mg_saving_name := False\<rparr>)"

definition save_scope :: "agent_view \<Rightarrow> mgmt \<Rightarrow> mgmt" where
  "save_scope v s = s\<lparr>mg_saving_scope := True, mg_err := [],
     mg_calls := mg_calls s @ [SetScope (view_agent_id v) (parse_ports (mg_ports s)) (parse_tuns (mg_tuns s))]\<rparr>"

definition save_scope_done :: "string + unit \<Rightarrow> mgmt \<Rightarrow> mgmt" where
  "save_scope_done r s = (case r of Inr _ \<Rightarrow> s\<lparr>mg_changed := Suc (mg_changed s), mg_saving_scope := False\<rparr>
     | Inl e \<Rightarrow> s\<lparr>mg_err := e, mg_saving_scope := False\<rparr>)"

definition do_revoke :: "agent_view \<Rightarrow> mgmt \<Rightarrow> mgmt" where
  "do_revoke v s = s\<lparr>mg_revoking := True, mg_err := [], mg_calls := mg_calls s @ [Revoke (view_agent_id v)]\<rparr>"

definition do_revoke_done :: "string + unit \<Rightarrow> mgmt \<Rightarrow> mgmt" where
  "do_revoke_done r s = (case r of
       Inr _ \<Rightarrow> s\<lparr>mg_confirming := False, mg_changed := Suc (mg_changed s), mg_revoking := False\<rparr>
     | Inl e \<Rightarrow> s\<lparr>mg_err := e, mg_confirming := False, mg_revoking := False\<rparr>)"

text \<open>The controls: a button is disabled while its write runs or nothing changed, Enter in a field is
  not; a revoked agent shows no Revoke button, and the confirming dialog's button runs the write.\<close>

datatype mgmt_event = TypeNickname string | TypePorts string | TypeTuns string
  | ClickName | EnterName | ClickScope | EnterScope | AskRevoke | CancelRevoke | ConfirmRevoke
  | DoneName "string + unit" | DoneScope "string + unit" | DoneRevoke "string + unit" | DismissErr | Poll agent_view

fun mgmt_step :: "agent_view \<times> mgmt \<Rightarrow> mgmt_event \<Rightarrow> agent_view \<times> mgmt" where
  "mgmt_step (v, s) (TypeNickname x) = (v, s\<lparr>mg_nickname := x\<rparr>)"
| "mgmt_step (v, s) (TypePorts x) = (v, s\<lparr>mg_ports := x\<rparr>)"
| "mgmt_step (v, s) (TypeTuns x) = (v, s\<lparr>mg_tuns := x\<rparr>)"
| "mgmt_step (v, s) ClickName = (v, if mg_saving_name s \<or> \<not> name_changed v s then s else save_name v s)"
| "mgmt_step (v, s) EnterName = (v, save_name v s)"
| "mgmt_step (v, s) ClickScope = (v, if mg_saving_scope s \<or> \<not> scope_changed v s then s else save_scope v s)"
| "mgmt_step (v, s) EnterScope = (v, save_scope v s)"
| "mgmt_step (v, s) AskRevoke = (v, if view_revoked v then s else s\<lparr>mg_confirming := True\<rparr>)"
| "mgmt_step (v, s) CancelRevoke = (v, s\<lparr>mg_confirming := False\<rparr>)"
| "mgmt_step (v, s) ConfirmRevoke = (v, if mg_confirming s \<and> \<not> mg_revoking s then do_revoke v s else s)"
| "mgmt_step (v, s) (DoneName r) = (v, save_name_done r s)"
| "mgmt_step (v, s) (DoneScope r) = (v, save_scope_done r s)"
| "mgmt_step (v, s) (DoneRevoke r) = (v, do_revoke_done r s)"
| "mgmt_step (v, s) DismissErr = (v, s\<lparr>mg_err := []\<rparr>)"
| "mgmt_step (v, s) (Poll v') = (v', mgmt_reseed v' s)"

section \<open>Lemmas\<close>

lemma split_on_nonempty [simp]: "split_on c s \<noteq> []"
  by (induction s) (auto split: list.splits)

lemma split_on_plain: "c \<notin> set s \<Longrightarrow> split_on c s = [s]"
  by (induction s) auto

lemma split_on_append: "c \<notin> set s \<Longrightarrow> split_on c (s @ c # t) = s # split_on c t"
  by (induction s) auto

text \<open>Splitting a joined list at the separator's comma gives the parts, all but the first with a
  leading space.\<close>

lemma split_on_join:
  assumes "\<forall>w \<in> set (w # ws). CHR '','' \<notin> set w"
  shows "split_on (CHR '','') (join_with '', '' (w # ws)) = w # map ((#) (CHR '' '')) ws"
  using assms
proof (induction ws arbitrary: w)
  case Nil
  then show ?case by (simp add: split_on_plain)
next
  case (Cons x xs)
  have "split_on (CHR '','') (join_with '', '' (w # x # xs))
      = w # split_on (CHR '','') (CHR '' '' # join_with '', '' (x # xs))"
    using Cons.prems by (simp add: split_on_append)
  also have "\<dots> = w # (CHR '' '' # x) # map ((#) (CHR '' '')) xs"
    using Cons.IH [of x] Cons.prems by simp
  finally show ?case by simp
qed

definition trimmed :: "string \<Rightarrow> bool" where
  "trimmed w \<longleftrightarrow> w \<noteq> [] \<and> \<not> is_space (hd w) \<and> \<not> is_space (last w)"

lemma js_trim_trimmed: "trimmed w \<Longrightarrow> js_trim w = w \<and> js_trim (CHR '' '' # w) = w"
  using js_trim_pad [of "[]" "[]" w] js_trim_pad [of "'' ''" "[]" w]
  by (simp add: trimmed_def is_space_def)

lemma map_trim_split:
  assumes "\<forall>w \<in> set (w # ws). CHR '','' \<notin> set w \<and> trimmed w"
  shows "map js_trim (split_on (CHR '','') (join_with '', '' (w # ws))) = w # ws"
proof -
  have "map (\<lambda>x. js_trim (CHR '' '' # x)) ws = ws"
    using assms by (intro map_idI) (simp add: js_trim_trimmed)
  then show ?thesis
    using assms by (simp add: split_on_join js_trim_trimmed comp_def)
qed

lemma digit_not_special:
  "48 \<le> (of_char c :: nat) \<Longrightarrow> (of_char c :: nat) \<le> 57 \<Longrightarrow> \<not> is_space c \<and> c \<noteq> CHR ''-'' \<and> c \<noteq> CHR ''+'' \<and> c \<noteq> CHR '',''"
  by (auto simp: is_space_def)

lemma show_int_trimmed: "0 \<le> n \<Longrightarrow> CHR '','' \<notin> set (show_int n) \<and> trimmed (show_int n)"
  using show_nat_digits [of _ "nat n"] digit_not_special
  by (metis hd_in_set last_in_set show_int_def show_nat_not_Nil trimmed_def leD)

lemma parse_int10_show: "0 \<le> n \<Longrightarrow> parse_int10 (show_int n) = Some n"
proof -
  assume n: "0 \<le> n"
  then have s: "show_int n = show_nat (nat n)" by (simp add: show_int_def)
  have dig: "\<forall>c \<in> set (show_nat (nat n)). is_digit c" using show_nat_digits by (simp add: is_digit_def)
  then have hd: "\<not> is_space (hd (show_nat (nat n))) \<and> hd (show_nat (nat n)) \<noteq> CHR ''-'' \<and> hd (show_nat (nat n)) \<noteq> CHR ''+''"
    using digit_not_special by (metis hd_in_set is_digit_def show_nat_not_Nil)
  then have "dropWhile is_space (show_nat (nat n)) = show_nat (nat n)"
    by (cases "show_nat (nat n)") simp_all
  moreover have tw: "takeWhile is_digit (show_nat (nat n)) = show_nat (nat n)"
    using dig by (rule takeWhile_eq_all_conv [THEN iffD2])
  ultimately show ?thesis using n hd by (simp add: s parse_int10_def Let_def tw digits_value_show)
qed

lemma map_filter_map: "List.map_filter f (map g xs) = List.map_filter (\<lambda>x. f (g x)) xs"
  by (induction xs) (simp_all add: List.map_filter_simps split: option.splits)

lemma parse_ports_join:
  assumes "\<forall>p \<in> set ps. 0 < p \<and> p < 65536"
  shows "parse_ports (join_with '', '' (map show_int ps)) = ps"
proof (cases ps)
  case Nil
  have "parse_ports [] = []" by code_simp
  with Nil show ?thesis by simp
next
  case (Cons q qs)
  have "map js_trim (split_on (CHR '','') (join_with '', '' (map show_int ps))) = map show_int ps"
  proof -
    have "\<forall>w \<in> set (map show_int ps). CHR '','' \<notin> set w \<and> trimmed w"
      using assms show_int_trimmed by (simp add: less_imp_le)
    with Cons show ?thesis using map_trim_split [of "show_int q" "map show_int qs"] by simp
  qed
  then have "List.map_filter (\<lambda>x. parse_int10 (js_trim x)) (split_on (CHR '','') (join_with '', '' (map show_int ps)))
      = List.map_filter parse_int10 (map show_int ps)"
    by (metis map_filter_map)
  also have "\<dots> = ps"
    using assms by (induction ps) (simp_all add: List.map_filter_simps parse_int10_show)
  finally show ?thesis using assms by (simp add: parse_ports_def filter_id_conv)
qed

lemma parse_tuns_join:
  assumes "\<forall>t \<in> set ts. CHR '','' \<notin> set t \<and> trimmed t"
  shows "parse_tuns (join_with '', '' ts) = ts"
proof (cases ts)
  case Nil
  then show ?thesis by (simp add: parse_tuns_def js_trim_def)
next
  case (Cons w ws)
  with map_trim_split [of w ws] assms show ?thesis
    by (simp add: parse_tuns_def filter_id_conv trimmed_def)
qed

section \<open>Properties\<close>

text \<open>C11. The scope fields round-trip: for a scope of valid ports and well-formed tunnel ids, the text
  the panel is seeded with parses back to that scope, the panel reports no change, its button is
  inert, and Enter writes the very same scope back.\<close>

theorem scope_round_trip:
  assumes "\<forall>p \<in> set (view_scope_ports v). 0 < p \<and> p < 65536"
    and "\<forall>t \<in> set (view_scope_tunnels v). CHR '','' \<notin> set t \<and> trimmed t"
  shows "let s = mgmt_mount v in
     \<not> scope_changed v s \<and> mgmt_step (v, s) ClickScope = (v, s)
   \<and> mg_calls (snd (mgmt_step (v, s) EnterScope)) = [SetScope (view_agent_id v) (view_scope_ports v) (view_scope_tunnels v)]"
proof -
  have "mg_ports (mgmt_mount v) = ports_text v" "mg_tuns (mgmt_mount v) = tuns_text v" "mg_calls (mgmt_mount v) = []"
    by (simp_all add: mgmt_mount_def mgmt_reseed_def)
  moreover have "parse_ports (ports_text v) = view_scope_ports v" "parse_tuns (tuns_text v) = view_scope_tunnels v"
    using assms by (simp_all add: ports_text_def tuns_text_def parse_ports_join parse_tuns_join)
  ultimately show ?thesis by (simp add: scope_changed_def save_scope_def Let_def)
qed

theorem scope_round_trip_witness:
  "\<not> scope_changed ((sample_view ''a'' True False)\<lparr>view_scope_ports := [25565, 25566], view_scope_tunnels := [''t1'']\<rparr>)
     (mgmt_mount ((sample_view ''a'' True False)\<lparr>view_scope_ports := [25565, 25566], view_scope_tunnels := [''t1'']\<rparr>))"
  using scope_round_trip [of "(sample_view ''a'' True False)\<lparr>view_scope_ports := [25565, 25566], view_scope_tunnels := [''t1'']\<rparr>"]
  by (simp add: trimmed_def is_space_def sample_view_def Let_def)



text \<open>A port outside 1 to 65535 is dropped silently, and a scope left empty means unrestricted: on an
  agent restricted to port 25565, saving the typing error 255650 sends an empty scope.\<close>

theorem scope_typo_unrestricts:
  "let v = (sample_view ''a'' True False)\<lparr>view_scope_ports := [25565]\<rparr>;
     s = snd (foldl mgmt_step (v, mgmt_mount v) [TypePorts ''255650'', ClickScope]) in
   mg_calls s = [SetScope ''a'' [] []] \<and> scope_text v = ''port 25565''
   \<and> scope_text (v\<lparr>view_scope_ports := [], view_scope_tunnels := []\<rparr>) = ''Unrestricted''"
proof -
  let ?v = "(sample_view ''a'' True False)\<lparr>view_scope_ports := [25565]\<rparr>"
  have ports: "parse_ports ''255650'' = []"
  proof -
    have "split_on (CHR '','') ''255650'' = [''255650'']" "js_trim ''255650'' = ''255650''"
      "dropWhile is_space ''255650'' = ''255650''" "takeWhile is_digit ''255650'' = ''255650''"
      by code_simp+
    moreover have "digits_value ''255650'' = 255650" by (simp add: digits_value_def)
    ultimately show ?thesis by (simp add: parse_ports_def parse_int10_def List.map_filter_simps)
  qed
  have tuns: "parse_tuns [] = []" by code_simp
  have fields: "mg_tuns (mgmt_mount ?v) = []" "mg_calls (mgmt_mount ?v) = []" "\<not> mg_saving_scope (mgmt_mount ?v)"
    by (simp_all add: mgmt_mount_def mgmt_reseed_def tuns_text_def sample_view_def)
  have sct: "scope_text ?v = ''port 25565''" "scope_text (?v\<lparr>view_scope_ports := [], view_scope_tunnels := []\<rparr>) = ''Unrestricted''"
    by (simp_all add: scope_text_def sample_view_def js_simps)
  have "view_agent_id ?v = ''a''" "view_scope_ports ?v = [25565]" by (simp_all add: sample_view_def)
  then show ?thesis
    using fields sct by (simp add: scope_changed_def save_scope_def ports tuns Let_def js_simps)
qed

end
