(* ===== verification/Setup.thy ===== *)
theory Setup
  imports Management
begin

text \<open>
  Setting a machine up and moving its setup: the wizard (\<open>Wizard.tsx\<close>: its acts, the submissions, the
  deep link, \<open>GatewayLive\<close>'s issue-and-retry of the pairing code and \<open>AgentLive\<close>'s hand-over), the
  role switcher (\<open>RoleSwitcher.tsx\<close>) and the backup file (\<open>SetupBackup.tsx\<close>). A call of the backend is
  recorded when it is made; its answer is a later event.
\<close>

section \<open>The wizard\<close>

datatype act = ActRole | ActGateway | ActAgent | ActImport | ActLive
datatype kind = KindGateway | KindAgent
datatype setup_call = CallGateway string | CallAgent string string int

record wizard =
  wz_act :: act
  wz_kind :: kind
  wz_err :: string
  wz_busy :: bool
  wz_public_host :: string
  wz_pairing :: string
  wz_local_addr :: string
  wz_public_port :: string
  wz_control_port :: int
  wz_deep_link :: string
  wz_calls :: "setup_call list"
  wz_handed_over :: nat

text \<open>The deep link effect, which runs on mount and when the link changes.\<close>

definition wizard_link_effect :: "wizard \<Rightarrow> wizard" where
  "wizard_link_effect w = (if wz_deep_link w \<noteq> '''' \<and> prefix ''pxf://'' (wz_deep_link w)
     then w\<lparr>wz_err := '''', wz_kind := KindAgent, wz_pairing := wz_deep_link w, wz_act := ActAgent\<rparr> else w)"

definition wizard_mount :: "string \<Rightarrow> wizard" where
  "wizard_mount link = wizard_link_effect \<lparr>wz_act = ActRole, wz_kind = KindGateway, wz_err = '''', wz_busy = False, wz_public_host = '''',
     wz_pairing = '''', wz_local_addr = ''127.0.0.1:25565'', wz_public_port = ''25565'', wz_control_port = 8474, wz_deep_link = link,
     wz_calls = [], wz_handed_over = 0\<rparr>"

definition wizard_link :: "string \<Rightarrow> wizard \<Rightarrow> wizard" where
  "wizard_link link w = (if link = wz_deep_link w then w else wizard_link_effect (w\<lparr>wz_deep_link := link\<rparr>))"

definition wizard_config :: "int \<Rightarrow> wizard \<Rightarrow> wizard" where
  "wizard_config port w = (if port \<noteq> 0 then w\<lparr>wz_control_port := port\<rparr> else w)"

definition pick_role :: "act \<Rightarrow> wizard \<Rightarrow> wizard" where
  "pick_role a w = (if wz_act w = ActRole then w\<lparr>wz_err := '''', wz_act := a\<rparr> else w)"

definition wizard_back :: "wizard \<Rightarrow> wizard" where
  "wizard_back w = (case wz_act w of
     ActRole \<Rightarrow> w
   | ActLive \<Rightarrow> if wz_kind w = KindAgent then w\<lparr>wz_err := '''', wz_act := ActAgent\<rparr> else w
   | _ \<Rightarrow> w\<lparr>wz_act := ActRole\<rparr>)"

definition do_gateway :: "wizard \<Rightarrow> wizard" where
  "do_gateway w = w\<lparr>wz_busy := True, wz_err := '''', wz_calls := wz_calls w @ [CallGateway (js_trim (wz_public_host w))]\<rparr>"

definition do_agent :: "wizard \<Rightarrow> wizard" where
  "do_agent w = w\<lparr>wz_busy := True, wz_err := '''', wz_calls := wz_calls w @ [CallAgent (js_trim (wz_pairing w)) (js_trim (wz_local_addr w))
     (case parse_int10 (wz_public_port w) of None \<Rightarrow> 25565 | Some p \<Rightarrow> if p = 0 then 25565 else p)]\<rparr>"

text \<open>The submit controls: the gateway's button and the Enter key of its field, and the agent's button.\<close>

definition gateway_button :: "wizard \<Rightarrow> wizard" where
  "gateway_button w = (if wz_act w = ActGateway \<and> \<not> wz_busy w then do_gateway w else w)"

definition gateway_enter :: "wizard \<Rightarrow> wizard" where
  "gateway_enter w = (if wz_act w = ActGateway then do_gateway w else w)"

definition agent_button :: "wizard \<Rightarrow> wizard" where
  "agent_button w = (if wz_act w = ActAgent \<and> \<not> wz_busy w \<and> parse_pairing (wz_pairing w) \<noteq> None then do_agent w else w)"

definition setup_done :: "kind \<Rightarrow> string option \<Rightarrow> wizard \<Rightarrow> wizard" where
  "setup_done k err w = (case err of
     None \<Rightarrow> w\<lparr>wz_kind := k, wz_act := ActLive, wz_busy := False\<rparr>
   | Some e \<Rightarrow> w\<lparr>wz_err := e, wz_busy := False\<rparr>)"

text \<open>The live act hands over: a button in either panel, hidden from an agent whose engine has failed for
  good, or the agent panel's timer.\<close>

definition hand_over :: "bool \<Rightarrow> wizard \<Rightarrow> wizard" where
  "hand_over fatal w = (if wz_act w = ActLive \<and> \<not> (wz_kind w = KindAgent \<and> fatal)
     then w\<lparr>wz_handed_over := Suc (wz_handed_over w)\<rparr> else w)"

definition stepper_index :: "act \<Rightarrow> nat" where
  "stepper_index a = (if a = ActRole then 0 else if a = ActLive then 2 else 1)"

definition stepper_labels :: "act \<Rightarrow> string list" where
  "stepper_labels a = [''Choose role'', if a = ActImport then ''Restore'' else ''Configure'', ''Go live'']"

datatype wizard_event = PickRole act | Back | TypeHost string | TypePairing string | TypeLocal string | TypePort string
  | GatewayButton | GatewayEnter | AgentButton | SetupDone kind "string option" | Link string | ConfigRead int | HandOver bool

fun wizard_step :: "wizard \<Rightarrow> wizard_event \<Rightarrow> wizard" where
  "wizard_step w (PickRole a) = pick_role a w"
| "wizard_step w Back = wizard_back w"
| "wizard_step w (TypeHost v) = (if wz_act w = ActGateway then w\<lparr>wz_public_host := v\<rparr> else w)"
| "wizard_step w (TypePairing v) = (if wz_act w = ActAgent then w\<lparr>wz_pairing := v\<rparr> else w)"
| "wizard_step w (TypeLocal v) = (if wz_act w = ActAgent then w\<lparr>wz_local_addr := v\<rparr> else w)"
| "wizard_step w (TypePort v) = (if wz_act w = ActAgent then w\<lparr>wz_public_port := v\<rparr> else w)"
| "wizard_step w GatewayButton = gateway_button w"
| "wizard_step w GatewayEnter = gateway_enter w"
| "wizard_step w AgentButton = agent_button w"
| "wizard_step w (SetupDone k err) = setup_done k err w"
| "wizard_step w (Link l) = wizard_link l w"
| "wizard_step w (ConfigRead p) = wizard_config p w"
| "wizard_step w (HandOver fatal) = hand_over fatal w"

text \<open>Every agent setup that was submitted carries a code that parses, and a port that is a number.\<close>

definition calls_ok :: "wizard \<Rightarrow> bool" where
  "calls_ok w \<longleftrightarrow> (\<forall>code addr port. CallAgent code addr port \<in> set (wz_calls w) \<longrightarrow> parse_pairing code \<noteq> None \<and> port \<noteq> 0)"

lemma js_trim_trim: "js_trim (js_trim s) = js_trim s"
proof (cases "js_trim s = []")
  case False
  let ?t = "dropWhile is_space s"
  have t: "js_trim s = rev (dropWhile is_space (rev ?t))" by (simp add: js_trim_def)
  then have ne: "dropWhile is_space (rev ?t) \<noteq> []" using False by simp
  have last: "\<not> is_space (last (js_trim s))"
    using hd_dropWhile [OF ne] by (simp add: t last_rev)
  obtain p where "rev ?t = p @ dropWhile is_space (rev ?t)" by (metis takeWhile_dropWhile_id)
  then have "?t = js_trim s @ rev p" using t by (metis rev_append rev_rev_ident)
  then have "hd (js_trim s) = hd ?t" "?t \<noteq> []" using False by (metis hd_append2, metis append_is_Nil_conv)
  then have "\<not> is_space (hd (js_trim s))" using hd_dropWhile [of is_space s] by simp
  with js_trim_pad [of "[]" "[]" "js_trim s"] False last show ?thesis by simp
qed (simp add: js_trim_def [of "[]"])

lemma parse_pairing_trim [simp]: "parse_pairing (js_trim s) = parse_pairing s"
  by (simp add: parse_pairing_def js_trim_trim)

lemma calls_kept [simp]:
  "wz_calls (pick_role a w) = wz_calls w" "wz_calls (wizard_back w) = wz_calls w" "wz_calls (setup_done k err w) = wz_calls w"
  "wz_calls (wizard_link_effect w) = wz_calls w" "wz_calls (wizard_link l w) = wz_calls w" "wz_calls (wizard_config p w) = wz_calls w"
  "wz_calls (hand_over fatal w) = wz_calls w"
  by (simp_all add: pick_role_def wizard_back_def setup_done_def wizard_link_effect_def wizard_link_def wizard_config_def hand_over_def
      split: act.splits option.splits)

lemma calls_ok_gateway: "calls_ok (w\<lparr>wz_busy := b, wz_err := e, wz_calls := wz_calls w @ [CallGateway h]\<rparr>) = calls_ok w"
  by (simp add: calls_ok_def)

lemma calls_ok_agent:
  "calls_ok w \<Longrightarrow> parse_pairing (wz_pairing w) \<noteq> None \<Longrightarrow> calls_ok (do_agent w)"
  by (auto simp: calls_ok_def do_agent_def split: option.splits)

lemma calls_ok_cong: "wz_calls w' = wz_calls w \<Longrightarrow> calls_ok w' = calls_ok w"
  by (simp add: calls_ok_def)

lemma calls_ok_step: "calls_ok w \<Longrightarrow> calls_ok (wizard_step w e)"
proof (cases e)
  case AgentButton
  assume "calls_ok w"
  with AgentButton show ?thesis by (simp add: agent_button_def calls_ok_agent)
qed (simp_all add: gateway_button_def gateway_enter_def do_gateway_def calls_ok_gateway cong: if_cong, simp_all add: calls_ok_def)

lemma calls_ok_mount: "calls_ok (wizard_mount link)"
  by (simp add: calls_ok_def wizard_mount_def wizard_link_effect_def)

interpretation wizard: invariant_machine wizard_step calls_ok
  by unfold_locales (rule calls_ok_step)

section \<open>The pairing code\<close>

text \<open>\<open>GatewayLive\<close>: each issue is an attempt number, retried up to twenty times a quarter second apart; a
  change of the toggle or \<open>New code\<close> cancels the issue before it. A request carries the issue it
  belongs to and the toggle it was made with.\<close>

record issue =
  is_reusable :: bool
  is_issue :: nat
  is_code :: "(string \<times> bool) option"  \<comment> \<open>the code shown, and (ghost) what it was issued as\<close>
  is_err :: string
  is_busy :: bool
  is_flight :: "(nat \<times> bool \<times> nat) option"  \<comment> \<open>issue, toggle and attempt of the outstanding request\<close>
  is_retry :: "nat option"  \<comment> \<open>attempt the pending retry timer will make\<close>
  is_requests :: "(bool \<times> nat) list"  \<comment> \<open>requests made: reusable, lifetime in seconds\<close>

definition issue_ttl :: "bool \<Rightarrow> nat" where
  "issue_ttl reusable = (if reusable then 0 else 600)"

definition issue_poll :: "nat \<Rightarrow> issue \<Rightarrow> issue" where
  "issue_poll n s = s\<lparr>is_flight := Some (is_issue s, is_reusable s, n), is_requests := is_requests s @ [(is_reusable s, issue_ttl (is_reusable s))]\<rparr>"

definition issue_start :: "issue \<Rightarrow> issue" where
  "issue_start s = issue_poll 0 (s\<lparr>is_issue := Suc (is_issue s), is_busy := True, is_code := None, is_err := '''', is_retry := None\<rparr>)"

definition issue_mount :: issue where
  "issue_mount = issue_start \<lparr>is_reusable = False, is_issue = 0, is_code = None, is_err = '''', is_busy = False, is_flight = None,
     is_retry = None, is_requests = []\<rparr>"

definition issue_toggle :: "bool \<Rightarrow> issue \<Rightarrow> issue" where
  "issue_toggle reusable s = (if reusable = is_reusable s then s else issue_start (s\<lparr>is_reusable := reusable\<rparr>))"

definition issue_new_code :: "issue \<Rightarrow> issue" where
  "issue_new_code s = (if is_busy s then s else issue_start s)"

text \<open>An answer names the issue, toggle and attempt of its request: an issue that was cancelled may still
  be answered, and is ignored.\<close>

definition issue_answer :: "nat \<times> bool \<times> nat \<Rightarrow> string \<Rightarrow> issue \<Rightarrow> issue" where
  "issue_answer r code s = (if fst r = is_issue s \<and> is_flight s = Some r
     then s\<lparr>is_code := Some (code, fst (snd r)), is_busy := False, is_flight := None\<rparr> else s)"

definition issue_reject :: "nat \<times> bool \<times> nat \<Rightarrow> string \<Rightarrow> issue \<Rightarrow> issue" where
  "issue_reject r e s = (if fst r = is_issue s \<and> is_flight s = Some r
     then let n = snd (snd r) in
       if n < 20 then s\<lparr>is_flight := None, is_retry := Some (n + 1)\<rparr>
       else s\<lparr>is_flight := None, is_err := e, is_busy := False\<rparr>
     else s)"

definition issue_timer :: "issue \<Rightarrow> issue" where
  "issue_timer s = (case is_retry s of None \<Rightarrow> s | Some n \<Rightarrow> issue_poll n (s\<lparr>is_retry := None\<rparr>))"

datatype issue_event = SetReusable bool | NewCode | Answer "nat \<times> bool \<times> nat" string | Reject "nat \<times> bool \<times> nat" string | RetryTimer
  | GatewayDown

text \<open>\<open>GatewayDown\<close> stands for the next thing that happens while the gateway does not answer: the outstanding
  request is rejected, or the retry timer fires.\<close>

fun issue_step :: "issue \<Rightarrow> issue_event \<Rightarrow> issue" where
  "issue_step s (SetReusable b) = issue_toggle b s"
| "issue_step s NewCode = issue_new_code s"
| "issue_step s (Answer r c) = issue_answer r c s"
| "issue_step s (Reject r e) = issue_reject r e s"
| "issue_step s RetryTimer = issue_timer s"
| "issue_step s GatewayDown = (case is_flight s of Some r \<Rightarrow> issue_reject r ''refused'' s | None \<Rightarrow> issue_timer s)"

definition requests_ok :: "(bool \<times> nat) list \<Rightarrow> bool" where
  "requests_ok rs \<longleftrightarrow> (\<forall>(b, ttl) \<in> set rs. ttl = issue_ttl b)"

definition code_ok :: "(string \<times> bool) option \<Rightarrow> bool \<Rightarrow> bool" where
  "code_ok c b = (case c of None \<Rightarrow> True | Some (_, b') \<Rightarrow> b' = b)"

definition issue_inv :: "issue \<Rightarrow> bool" where
  "issue_inv s \<longleftrightarrow> requests_ok (is_requests s) \<and> code_ok (is_code s) (is_reusable s)
    \<and> (case is_flight s of
         Some r \<Rightarrow> is_busy s \<and> is_retry s = None \<and> fst r = is_issue s \<and> fst (snd r) = is_reusable s \<and> snd (snd r) \<le> 20
       | None \<Rightarrow> (case is_retry s of Some n \<Rightarrow> is_busy s \<and> n \<le> 20 | None \<Rightarrow> \<not> is_busy s))"

lemma requests_ok_poll: "requests_ok (rs @ [(b, issue_ttl b)]) = requests_ok rs"
  by (simp add: requests_ok_def)

lemma issue_inv_poll:
  "issue_inv s \<Longrightarrow> is_retry s = Some n \<Longrightarrow> issue_inv (issue_poll n (s\<lparr>is_retry := None\<rparr>))"
  by (simp add: issue_inv_def issue_poll_def requests_ok_poll split: option.splits)

lemma issue_inv_start: "requests_ok (is_requests s) \<Longrightarrow> issue_inv (issue_start s)"
  by (simp add: issue_inv_def issue_start_def issue_poll_def requests_ok_poll code_ok_def)

lemma issue_inv_reject: "issue_inv s \<Longrightarrow> issue_inv (issue_reject r e s)"
  by (simp add: issue_inv_def issue_reject_def Let_def split: option.splits)

lemma issue_inv_timer: "issue_inv s \<Longrightarrow> issue_inv (issue_timer s)"
  using issue_inv_poll by (simp add: issue_timer_def split: option.splits)

lemma issue_inv_answer: "issue_inv s \<Longrightarrow> issue_inv (issue_answer r c s)"
  by (auto simp: issue_inv_def issue_answer_def code_ok_def split: option.splits)

lemma issue_inv_step: "issue_inv s \<Longrightarrow> issue_inv (issue_step s e)"
proof (cases e)
  case (SetReusable b)
  assume "issue_inv s"
  with SetReusable show ?thesis by (simp add: issue_toggle_def issue_inv_start issue_inv_def [of s])
next
  case NewCode
  assume "issue_inv s"
  with NewCode show ?thesis by (simp add: issue_new_code_def issue_inv_start issue_inv_def [of s])
qed (simp_all add: issue_inv_reject issue_inv_timer issue_inv_answer split: option.splits)

lemma issue_inv_mount: "issue_inv issue_mount"
  unfolding issue_mount_def by (rule issue_inv_start) (simp add: requests_ok_def)

text \<open>What is left of the retries, for a gateway that stays down.\<close>

definition issue_left :: "issue \<Rightarrow> nat" where
  "issue_left s = (case is_flight s of Some r \<Rightarrow> 2 * (21 - snd (snd r))
     | None \<Rightarrow> (case is_retry s of Some n \<Rightarrow> 2 * (21 - n) + 1 | None \<Rightarrow> 0))"

lemma issue_left_down: "issue_inv s \<Longrightarrow> 0 < issue_left s \<Longrightarrow> issue_left (issue_step s GatewayDown) < issue_left s"
proof (cases "is_flight s")
  case (Some r)
  assume "issue_inv s"
  with Some show ?thesis by (simp add: issue_left_def issue_inv_def issue_reject_def Let_def) arith
next
  case None
  assume "0 < issue_left s"
  with None obtain n where "is_retry s = Some n" by (auto simp: issue_left_def split: option.splits)
  with None show ?thesis by (simp add: issue_left_def issue_timer_def issue_poll_def)
qed

interpretation code: settling_machine issue_step issue_inv issue_left GatewayDown
  by unfold_locales (rule issue_inv_step issue_left_down, assumption+)+

section \<open>The role switcher\<close>

datatype switch_call = SwGateway string | SwSave config | SwRestart
datatype switch_stage = Idle | AwaitConfig string | AwaitGateway | AwaitSave | AwaitRestart

record switcher =
  rw_role :: string
  rw_attached :: bool
  rw_open :: bool
  rw_confirm :: "string option"
  rw_cfg :: "config option"
  rw_err :: string
  rw_stage :: switch_stage
  rw_calls :: "switch_call list"
  rw_pairs :: nat

definition rw_busy :: "switcher \<Rightarrow> bool" where
  "rw_busy s \<longleftrightarrow> rw_stage s \<noteq> Idle"

definition switcher_role :: "string \<Rightarrow> string" where
  "switcher_role r = (if r = ''agent'' then ''agent'' else ''gateway'')"

definition rw_paired :: "switcher \<Rightarrow> bool" where
  "rw_paired s = (case rw_cfg s of None \<Rightarrow> False | Some c \<Rightarrow> acfg_token (cfg_agent c) \<noteq> '''' \<and> acfg_gateway_host (cfg_agent c) \<noteq> '''')"

definition rw_toggle :: "switcher \<Rightarrow> switcher" where
  "rw_toggle s = (if rw_attached s then s else s\<lparr>rw_open := \<not> rw_open s\<rparr>)"

definition rw_pick :: "string \<Rightarrow> switcher \<Rightarrow> switcher" where
  "rw_pick target s = (if \<not> rw_open s then s else let s = s\<lparr>rw_open := False\<rparr> in
     if target = switcher_role (rw_role s) then s
     else if target = ''agent'' \<and> \<not> rw_paired s then s\<lparr>rw_pairs := Suc (rw_pairs s)\<rparr>
     else s\<lparr>rw_err := '''', rw_confirm := Some target\<rparr>)"

definition rw_cancel :: "switcher \<Rightarrow> switcher" where
  "rw_cancel s = (if rw_busy s then s else s\<lparr>rw_confirm := None, rw_err := ''''\<rparr>)"

definition do_switch :: "switcher \<Rightarrow> switcher" where
  "do_switch s = (case rw_confirm s of None \<Rightarrow> s
   | Some target \<Rightarrow> if rw_busy s then s else s\<lparr>rw_stage := AwaitConfig target, rw_err := ''''\<rparr>)"

text \<open>The awaited call succeeds; a configuration is what \<open>GetConfig\<close> answers.\<close>

definition rw_ok :: "config \<Rightarrow> switcher \<Rightarrow> switcher" where
  "rw_ok c s = (case rw_stage s of
     Idle \<Rightarrow> s
   | AwaitConfig target \<Rightarrow> if target = ''gateway''
       then s\<lparr>rw_stage := AwaitGateway, rw_calls := rw_calls s @ [SwGateway (js_trim (gcfg_public_host (cfg_gateway c)))]\<rparr>
       else s\<lparr>rw_stage := AwaitSave, rw_calls := rw_calls s @ [SwSave (c\<lparr>cfg_role := ''agent''\<rparr>)]\<rparr>
   | AwaitSave \<Rightarrow> s\<lparr>rw_stage := AwaitRestart, rw_calls := rw_calls s @ [SwRestart]\<rparr>
   | _ \<Rightarrow> s\<lparr>rw_stage := Idle, rw_confirm := None\<rparr>)"

definition rw_fail :: "string \<Rightarrow> switcher \<Rightarrow> switcher" where
  "rw_fail e s = (if rw_stage s = Idle then s else s\<lparr>rw_stage := Idle, rw_err := e\<rparr>)"

definition rw_config :: "config \<Rightarrow> switcher \<Rightarrow> switcher" where
  "rw_config c s = s\<lparr>rw_cfg := Some c\<rparr>"

definition rw_mount :: "string \<Rightarrow> bool \<Rightarrow> switcher" where
  "rw_mount role attached = \<lparr>rw_role = role, rw_attached = attached, rw_open = False, rw_confirm = None, rw_cfg = None, rw_err = '''',
     rw_stage = Idle, rw_calls = [], rw_pairs = 0\<rparr>"

datatype rw_event = RwToggle | RwPick string | RwCancel | RwConfirm | RwOk config | RwFail string | RwConfig config

fun rw_step :: "switcher \<Rightarrow> rw_event \<Rightarrow> switcher" where
  "rw_step s RwToggle = rw_toggle s"
| "rw_step s (RwPick r) = rw_pick r s"
| "rw_step s RwCancel = rw_cancel s"
| "rw_step s RwConfirm = do_switch s"
| "rw_step s (RwOk c) = rw_ok c s"
| "rw_step s (RwFail e) = rw_fail e s"
| "rw_step s (RwConfig c) = rw_config c s"

text \<open>A restart always directly follows a save of the agent role, a save that has succeeded.\<close>

fun restarts_ok :: "switch_call list \<Rightarrow> bool" where
  "restarts_ok (SwRestart # _) = False"
| "restarts_ok (SwSave c # SwRestart # cs) = (cfg_role c = ''agent'' \<and> restarts_ok cs)"
| "restarts_ok (SwSave c # cs) = (cfg_role c = ''agent'' \<and> restarts_ok cs)"
| "restarts_ok (SwGateway h # cs) = restarts_ok cs"
| "restarts_ok [] = True"

definition rw_inv :: "switcher \<Rightarrow> bool" where
  "rw_inv s \<longleftrightarrow> restarts_ok (rw_calls s)
    \<and> (rw_stage s = AwaitSave \<longrightarrow> (\<exists>cs c. rw_calls s = cs @ [SwSave c] \<and> restarts_ok cs \<and> cfg_role c = ''agent''))
    \<and> (rw_stage s \<noteq> Idle \<longrightarrow> rw_confirm s \<noteq> None)"

lemma restarts_ok_append: "restarts_ok cs \<Longrightarrow> restarts_ok ds \<Longrightarrow> restarts_ok (cs @ ds)"
proof (induction cs rule: restarts_ok.induct [case_names restart pair last save_gateway save_save gateway empty])
  case (pair c cs)
  then show ?case by simp
next
  case (last c)
  then show ?case by (cases ds rule: restarts_ok.cases) auto
qed auto

lemma restarts_ok_before:
  "restarts_ok (cs @ SwRestart # ds) \<Longrightarrow> \<exists>bs c. cs = bs @ [SwSave c] \<and> cfg_role c = ''agent''"
proof (induction cs rule: restarts_ok.induct [case_names restart pair last save_gateway save_save gateway empty])
  case (pair c cs)
  then obtain bs d where "cs = bs @ [SwSave d] \<and> cfg_role d = ''agent''" by auto
  then show ?case by (intro exI [of _ "SwSave c # SwRestart # bs"] exI [of _ d]) simp
next
  case (save_save c c' cs)
  then obtain bs d where "SwSave c' # cs = bs @ [SwSave d] \<and> cfg_role d = ''agent''" by auto
  then show ?case by (intro exI [of _ "SwSave c # bs"] exI [of _ d]) simp
next
  case (save_gateway c h cs)
  then obtain bs d where "SwGateway h # cs = bs @ [SwSave d] \<and> cfg_role d = ''agent''" by auto
  then show ?case by (intro exI [of _ "SwSave c # bs"] exI [of _ d]) simp
next
  case (gateway h cs)
  then obtain bs d where "cs = bs @ [SwSave d] \<and> cfg_role d = ''agent''" by auto
  then show ?case by (intro exI [of _ "SwGateway h # bs"] exI [of _ d]) simp
qed auto

lemma rw_inv_step: "rw_inv s \<Longrightarrow> rw_inv (rw_step s e)"
proof (cases e)
  case (RwOk c)
  assume inv: "rw_inv s"
  show ?thesis
  proof (cases "rw_stage s")
    case AwaitSave
    with inv obtain cs d where "rw_calls s = cs @ [SwSave d]" "restarts_ok cs" "cfg_role d = ''agent''"
      by (auto simp: rw_inv_def)
    with AwaitSave inv RwOk show ?thesis
      using restarts_ok_append [of cs "[SwSave d, SwRestart]"] by (simp add: rw_inv_def rw_ok_def)
  qed (use inv RwOk restarts_ok_append in \<open>auto simp: rw_inv_def rw_ok_def\<close>)
qed (auto simp: rw_inv_def rw_toggle_def rw_pick_def rw_cancel_def do_switch_def rw_fail_def rw_config_def rw_busy_def Let_def split: option.splits)

lemma rw_inv_mount: "rw_inv (rw_mount role attached)"
  by (simp add: rw_inv_def rw_mount_def)

interpretation role_switch: invariant_machine rw_step rw_inv
  by unfold_locales (rule rw_inv_step)

section \<open>The backup file\<close>

text \<open>\<open>ex_calls\<close>: the passphrases \<open>ExportSetup\<close> was called with; the empty one writes the file in the clear.\<close>

record export =
  ex_encrypt :: bool
  ex_pass :: string
  ex_busy :: bool
  ex_err :: string
  ex_done :: string
  ex_calls :: "string list"

definition export_mount :: export where
  "export_mount = \<lparr>ex_encrypt = True, ex_pass = '''', ex_busy = False, ex_err = '''', ex_done = '''', ex_calls = []\<rparr>"

definition do_export :: "export \<Rightarrow> export" where
  "do_export x = x\<lparr>ex_busy := True, ex_err := '''', ex_done := '''', ex_calls := ex_calls x @ [if ex_encrypt x then ex_pass x else '''']\<rparr>"

definition export_done :: "string + string \<Rightarrow> export \<Rightarrow> export" where
  "export_done r x = (case r of Inl e \<Rightarrow> x\<lparr>ex_err := e, ex_busy := False\<rparr>
     | Inr path \<Rightarrow> if path = '''' then x\<lparr>ex_busy := False\<rparr> else x\<lparr>ex_done := path, ex_busy := False\<rparr>)"

definition export_button :: "export \<Rightarrow> export" where
  "export_button x = (if ex_busy x \<or> ex_encrypt x \<and> ex_pass x = '''' then x else do_export x)"

definition export_enter :: "export \<Rightarrow> export" where
  "export_enter x = (if ex_encrypt x then do_export x else x)"

definition export_toggle :: "bool \<Rightarrow> export \<Rightarrow> export" where
  "export_toggle v x = x\<lparr>ex_encrypt := v, ex_done := ''''\<rparr>"

definition export_type :: "string \<Rightarrow> export \<Rightarrow> export" where
  "export_type v x = x\<lparr>ex_pass := v, ex_done := ''''\<rparr>"

record import_flow =
  im_info :: "setup_file_info option"
  im_pass :: string
  im_busy :: bool
  im_err :: string
  im_calls :: "(string \<times> string) list"
  im_done :: nat

definition import_choose :: "string + setup_file_info option \<Rightarrow> import_flow \<Rightarrow> import_flow" where
  "import_choose r x = (let x = x\<lparr>im_err := ''''\<rparr> in case r of Inl e \<Rightarrow> x\<lparr>im_err := e\<rparr>
     | Inr None \<Rightarrow> x | Inr (Some i) \<Rightarrow> x\<lparr>im_info := Some i, im_pass := ''''\<rparr>)"

definition do_import :: "import_flow \<Rightarrow> import_flow" where
  "do_import x = (case im_info x of None \<Rightarrow> x
   | Some i \<Rightarrow> x\<lparr>im_busy := True, im_err := '''', im_calls := im_calls x @ [(sfi_path i, im_pass x)]\<rparr>)"

definition import_button :: "import_flow \<Rightarrow> import_flow" where
  "import_button x = (case im_info x of None \<Rightarrow> x
   | Some i \<Rightarrow> if im_busy x \<or> sfi_encrypted i \<and> im_pass x = '''' then x else do_import x)"

definition import_done :: "string option \<Rightarrow> import_flow \<Rightarrow> import_flow" where
  "import_done r x = (case r of None \<Rightarrow> x\<lparr>im_info := None, im_done := Suc (im_done x), im_busy := False\<rparr>
     | Some e \<Rightarrow> x\<lparr>im_err := e, im_busy := False\<rparr>)"

definition import_cancel :: "import_flow \<Rightarrow> import_flow" where
  "import_cancel x = x\<lparr>im_info := None, im_err := ''''\<rparr>"

section \<open>The agent's hand-over\<close>

text \<open>\<open>AgentLive\<close>'s timer: armed while the link is up, cancelled when it drops. \<open>al_up_since\<close> is a ghost.\<close>

record agent_live =
  al_up :: bool
  al_timer :: "int option"
  al_handed :: nat
  al_up_since :: int

definition live_mount :: agent_live where
  "live_mount = \<lparr>al_up = False, al_timer = None, al_handed = 0, al_up_since = 0\<rparr>"

definition live_link :: "int \<Rightarrow> bool \<Rightarrow> agent_live \<Rightarrow> agent_live" where
  "live_link now up x = (if up = al_up x then x else if up then x\<lparr>al_up := True, al_timer := Some (now + 1600), al_up_since := now\<rparr>
     else x\<lparr>al_up := False, al_timer := None\<rparr>)"

definition live_clock :: "int \<Rightarrow> agent_live \<Rightarrow> agent_live" where
  "live_clock now x = (case al_timer x of Some t \<Rightarrow> if t \<le> now then x\<lparr>al_timer := None, al_handed := Suc (al_handed x)\<rparr> else x | None \<Rightarrow> x)"

datatype live_event = LinkIs int bool | LiveClock int

fun live_step :: "agent_live \<Rightarrow> live_event \<Rightarrow> agent_live" where
  "live_step x (LinkIs now up) = live_link now up x"
| "live_step x (LiveClock now) = live_clock now x"

definition live_inv :: "agent_live \<Rightarrow> bool" where
  "live_inv x \<longleftrightarrow> (case al_timer x of None \<Rightarrow> True | Some t \<Rightarrow> al_up x \<and> t = al_up_since x + 1600)"

interpretation hand_over: invariant_machine live_step live_inv
proof unfold_locales
  fix x e assume "live_inv x"
  then show "live_inv (live_step x e)"
    by (cases e) (auto simp: live_inv_def live_link_def live_clock_def split: option.splits)
qed

section \<open>Properties\<close>

text \<open>Whatever the user types and clicks, every agent setup the wizard submits carries a pairing code that
  parses to a host, port and fingerprint, and a public port that is not zero.\<close>

theorem submitted_codes_parse:
  "CallAgent code addr port \<in> set (wz_calls (foldl wizard_step (wizard_mount link) es)) \<Longrightarrow>
    parse_pairing code \<noteq> None \<and> port \<noteq> 0"
  using wizard.inv_run [OF calls_ok_mount, of link es] by (auto simp: calls_ok_def)

definition sample_code :: string where
  "sample_code = ''pxf://h:8474/v1/pair/t#sha256:'' @ replicate 64 (CHR ''a'')"

theorem submitted_codes_parse_witness:
  "parse_pairing sample_code \<noteq> None \<and> (25565 :: int) \<noteq> 0"
proof -
  have n: "show_nat 8474 = ''8474''" by (simp add: js_simps)
  have code: "sample_code = pairing_code ''h'' 8474 ''t'' (replicate 64 (CHR ''a''))"
    by (simp add: sample_code_def pairing_code_def n)
  have trim: "js_trim sample_code = sample_code"
    using js_trim_pad [of "[]" "[]" sample_code] by (simp add: sample_code_def is_space_def)
  have trim': "js_trim ''127.0.0.1:25565'' = ''127.0.0.1:25565''" by code_simp
  have "pairing_match sample_code = Some (''h'', 8474)"
    unfolding code by (rule pairing_match_code) (simp_all add: is_hex_def list_all_length)
  then have parse: "parse_pairing sample_code = Some (strip_brackets ''h'', 8474)" by (simp add: parse_pairing_def trim)
  have "show_int 25565 = ''25565''" by (simp add: js_simps)
  then have port: "parse_int10 ''25565'' = Some 25565" using parse_int10_show [of 25565] by simp
  have "prefix ''pxf://'' sample_code" "sample_code \<noteq> ''''" by (simp_all add: sample_code_def)
  then have "wz_calls (foldl wizard_step (wizard_mount sample_code) [AgentButton]) = [CallAgent sample_code ''127.0.0.1:25565'' 25565]"
    by (simp add: wizard_mount_def wizard_link_effect_def agent_button_def do_agent_def parse trim trim' port)
  then show ?thesis using submitted_codes_parse [of sample_code "''127.0.0.1:25565''" 25565 sample_code "[AgentButton]"] by simp
qed




text \<open>The role switcher restarts the engine only directly after a save that has succeeded, and it only
  ever saves the agent role; whatever fails, no later call of the sequence is made.\<close>

theorem restart_after_save:
  assumes "rw_calls (foldl rw_step (rw_mount role attached) es) = cs @ SwRestart # ds"
  shows "\<exists>bs c. cs = bs @ [SwSave c] \<and> cfg_role c = ''agent''"
proof -
  have "restarts_ok (cs @ SwRestart # ds)" using role_switch.inv_run [OF rw_inv_mount, of role attached es] assms by (simp add: rw_inv_def)
  then show ?thesis by (rule restarts_ok_before)
qed

definition sample_config :: config where
  "sample_config = \<lparr>cfg_role = ''gateway'',
     cfg_agent = \<lparr>acfg_agent_id = '''', acfg_gateway_host = ''h'', acfg_gateway_port = 1, acfg_token = ''t'', acfg_cert_fingerprint = '''',
       acfg_transport = '''', acfg_tunnels = [], acfg_enroll_ticket = ''''\<rparr>,
     cfg_gateway = \<lparr>gcfg_bind_addr = '''', gcfg_control_port = 1, gcfg_token = '''', gcfg_public_host = '''', gcfg_port_allowlist = [],
       gcfg_max_conns_global = 0, gcfg_max_conns_per_ip = 0, gcfg_auth_attempts_per_min = 0, gcfg_quic_enabled = False, gcfg_accept_shared_token = False\<rparr>,
     cfg_metrics = \<lparr>mcfg_prometheus_enabled = False, mcfg_prometheus_addr = ''''\<rparr>,
     cfg_logging = \<lparr>lcfg_level = '''', lcfg_file_enabled = False\<rparr>,
     cfg_ui = \<lparr>uicfg_theme = '''', uicfg_minimize_to_tray = False, uicfg_autostart = False\<rparr>,
     cfg_analytics = \<lparr>ancfg_retention_days = 0, ancfg_mojang_lookups = False, ancfg_geo_ip_city_path = '''', ancfg_geo_ipasn_path = ''''\<rparr>\<rparr>"

theorem restart_after_save_witness:
  "\<exists>bs c. [SwSave (sample_config\<lparr>cfg_role := ''agent''\<rparr>)] = bs @ [SwSave c] \<and> cfg_role c = ''agent''"
proof -
  have "rw_calls (foldl rw_step (rw_mount ''gateway'' False)
      [RwConfig sample_config, RwToggle, RwPick ''agent'', RwConfirm, RwOk sample_config, RwOk sample_config])
    = [SwSave (sample_config\<lparr>cfg_role := ''agent''\<rparr>)] @ SwRestart # []"
    by (simp add: rw_mount_def rw_config_def rw_toggle_def rw_pick_def rw_paired_def switcher_role_def do_switch_def rw_busy_def
        rw_ok_def sample_config_def Let_def)
  from restart_after_save [OF this] show ?thesis .
qed

text \<open>The export button never writes a file in the clear while encryption is on, but the Enter key of the
  passphrase field has no such guard: with encryption on and nothing typed it exports in the clear.\<close>

theorem export_enter_in_the_clear:
  "(ex_encrypt x \<and> ex_calls (export_button x) \<noteq> ex_calls x \<longrightarrow> (\<exists>p. p \<noteq> '''' \<and> ex_calls (export_button x) = ex_calls x @ [p]))
    \<and> ex_encrypt (export_enter export_mount) \<and> ex_calls (export_enter export_mount) = ['''']"
  by (simp add: export_button_def export_enter_def export_mount_def do_export_def)

theorem export_enter_in_the_clear_witness:
  "ex_calls (export_enter export_mount) = [''''] \<and> ex_calls (export_button (export_type ''pw'' export_mount)) = [''pw'']"
  using export_enter_in_the_clear [of "export_type ''pw'' export_mount"]
  by (simp add: export_button_def export_type_def export_mount_def do_export_def)

text \<open>The agent's panel hands over by itself only when the link has been up for 1.6 seconds without a break.\<close>

theorem hand_over_after_steady_link:
  assumes "x = foldl live_step live_mount es" and "al_handed (live_step x e) \<noteq> al_handed x"
  shows "\<exists>now. e = LiveClock now \<and> al_up x \<and> al_up_since x + 1600 \<le> now"
proof -
  have "live_inv x" using hand_over.inv_run [of live_mount es] assms(1) by (simp add: live_inv_def live_mount_def)
  with assms(2) show ?thesis
    by (cases e) (auto simp: live_inv_def live_link_def live_clock_def split: option.splits if_splits)
qed

theorem hand_over_after_steady_link_witness:
  "\<exists>now. LiveClock 2100 = LiveClock now \<and> al_up_since (foldl live_step live_mount [LinkIs 0 True, LinkIs 100 False, LinkIs 500 True]) + 1600 \<le> now"
  using hand_over_after_steady_link [OF refl, of "[LinkIs 0 True, LinkIs 100 False, LinkIs 500 True]" "LiveClock 2100"]
  by (simp add: live_mount_def live_link_def live_clock_def)

end
