(* ===== verification/Tunnels.thy ===== *)
theory Tunnels
  imports Management
begin

text \<open>
  The Tunnels screen (\<open>screens/Tunnels.tsx\<close>): the agent's list of tunnels with its edits, each of which
  saves the whole list, the editor, the two-step delete button and the path test; what a card says
  about a tunnel; and the gateway's read-only table. A call of the backend takes effect at the
  event that answers it; \<open>tp_stored\<close> is a ghost, the list the backend holds.
\<close>

section \<open>Tunnels and their edits\<close>

definition hex_digit :: "nat \<Rightarrow> char" where
  "hex_digit d = (if d < 10 then char_of (48 + d) else char_of (87 + d))"

definition hex_byte :: "nat \<Rightarrow> string" where
  "hex_byte b = [hex_digit (b div 16), hex_digit (b mod 16)]"

text \<open>\<open>newTunnelID\<close>, the sixteen random bytes given.\<close>

definition new_tunnel_id :: "nat list \<Rightarrow> string" where
  "new_tunnel_id bytes = concat (map hex_byte bytes)"

definition blank_tunnel :: "nat list \<Rightarrow> tunnel" where
  "blank_tunnel bytes = \<lparr>tnl_id = new_tunnel_id bytes, tnl_name = ''Minecraft'', tnl_type = ''tcp'',
     tnl_local_addr = ''127.0.0.1:25565'', tnl_public_port = 25565, tnl_enabled = True,
     tnl_options = \<lparr>topt_minecraft_aware = False, topt_proxy_protocol_v2 = False, topt_offline_motd = '''',
       topt_bandwidth_limit_mbps = 0, topt_bandwidth_limit_scope = ''combined''\<rparr>\<rparr>"

definition tunnel_ids :: "tunnel list \<Rightarrow> string list" where
  "tunnel_ids ts = map tnl_id ts"

text \<open>The lists that \<open>onSave\<close>, \<open>onDelete\<close> and \<open>onToggle\<close> send.\<close>

definition saved_list :: "tunnel \<Rightarrow> tunnel list \<Rightarrow> tunnel list" where
  "saved_list t ts = (case find_index (\<lambda>x. tnl_id x = tnl_id t) ts of
     Some _ \<Rightarrow> map (\<lambda>x. if tnl_id x = tnl_id t then t else x) ts
   | None \<Rightarrow> ts @ [t])"

definition deleted_list :: "string \<Rightarrow> tunnel list \<Rightarrow> tunnel list" where
  "deleted_list i ts = filter (\<lambda>t. tnl_id t \<noteq> i) ts"

definition toggled_list :: "string \<Rightarrow> bool \<Rightarrow> tunnel list \<Rightarrow> tunnel list" where
  "toggled_list i e ts = map (\<lambda>t. if tnl_id t = i then t\<lparr>tnl_enabled := e\<rparr> else t) ts"

datatype tunnel_edit = SaveTunnel tunnel | DeleteTunnel string | EnableTunnel string bool

fun edited_list :: "tunnel list \<Rightarrow> tunnel_edit \<Rightarrow> tunnel list" where
  "edited_list ts (SaveTunnel t) = saved_list t ts"
| "edited_list ts (DeleteTunnel i) = deleted_list i ts"
| "edited_list ts (EnableTunnel i e) = toggled_list i e ts"

text \<open>The specification: a map from identities to tunnels.\<close>

definition tunnel_map :: "tunnel list \<Rightarrow> string \<rightharpoonup> tunnel" where
  "tunnel_map ts = map_of (map (\<lambda>t. (tnl_id t, t)) ts)"

fun edit_map :: "(string \<rightharpoonup> tunnel) \<Rightarrow> tunnel_edit \<Rightarrow> (string \<rightharpoonup> tunnel)" where
  "edit_map m (SaveTunnel t) = m(tnl_id t \<mapsto> t)"
| "edit_map m (DeleteTunnel i) = m(i := None)"
| "edit_map m (EnableTunnel i e) = m(i := map_option (tnl_enabled_update (\<lambda>_. e)) (m i))"

definition ids_distinct :: "tunnel list \<Rightarrow> bool" where
  "ids_distinct ts \<longleftrightarrow> distinct (tunnel_ids ts)"

lemma in_tunnel_ids: "i \<in> set (tunnel_ids ts) \<longleftrightarrow> (\<exists>x \<in> set ts. tnl_id x = i)"
  by (auto simp: tunnel_ids_def)

lemma saved_list_new: "tnl_id t \<notin> set (tunnel_ids ts) \<Longrightarrow> saved_list t ts = ts @ [t]"
proof -
  assume "tnl_id t \<notin> set (tunnel_ids ts)"
  then have "find_index (\<lambda>x. tnl_id x = tnl_id t) ts = None" by (auto simp: find_index_None in_tunnel_ids)
  then show ?thesis by (simp add: saved_list_def)
qed

lemma saved_list_old:
  "tnl_id t \<in> set (tunnel_ids ts) \<Longrightarrow> saved_list t ts = map (\<lambda>x. if tnl_id x = tnl_id t then t else x) ts"
proof -
  assume "tnl_id t \<in> set (tunnel_ids ts)"
  then have "find_index (\<lambda>x. tnl_id x = tnl_id t) ts \<noteq> None" by (auto simp: find_index_None in_tunnel_ids)
  then show ?thesis by (auto simp: saved_list_def)
qed

lemma saved_list_ids:
  "tunnel_ids (saved_list t ts) = (if tnl_id t \<in> set (tunnel_ids ts) then tunnel_ids ts else tunnel_ids ts @ [tnl_id t])"
  by (simp add: saved_list_new saved_list_old) (simp add: tunnel_ids_def)

lemma toggled_list_ids: "tunnel_ids (toggled_list i b ts) = tunnel_ids ts"
  by (simp add: tunnel_ids_def toggled_list_def)

lemma edited_list_distinct: "ids_distinct ts \<Longrightarrow> ids_distinct (edited_list ts e)"
  by (cases e) (simp_all add: ids_distinct_def saved_list_ids toggled_list_ids,
    simp add: tunnel_ids_def deleted_list_def distinct_map_filter)

lemma tunnel_map_simps [simp]:
  "tunnel_map [] = Map.empty" "tunnel_map (t # ts) = (tunnel_map ts)(tnl_id t \<mapsto> t)"
  by (simp_all add: tunnel_map_def)

lemma tunnel_map_replace:
  "tnl_id t \<in> set (tunnel_ids ts) \<Longrightarrow>
    tunnel_map (map (\<lambda>x. if tnl_id x = tnl_id t then t else x) ts) = (tunnel_map ts)(tnl_id t \<mapsto> t)"
proof (induction ts)
  case (Cons x ts)
  have "tnl_id t \<notin> set (tunnel_ids ts) \<Longrightarrow> map (\<lambda>x. if tnl_id x = tnl_id t then t else x) ts = ts"
    by (induction ts) (auto simp: tunnel_ids_def)
  with Cons show ?case
    by (cases "tnl_id t \<in> set (tunnel_ids ts)") (auto simp: tunnel_ids_def fun_eq_iff)
qed (simp add: tunnel_ids_def)

lemma tunnel_map_snoc: "tnl_id t \<notin> set (tunnel_ids ts) \<Longrightarrow> tunnel_map (ts @ [t]) = (tunnel_map ts)(tnl_id t \<mapsto> t)"
  by (induction ts) (auto simp: tunnel_ids_def fun_eq_iff)

lemma tunnel_map_deleted: "tunnel_map (deleted_list i ts) = (tunnel_map ts)(i := None)"
  by (induction ts) (auto simp: deleted_list_def fun_eq_iff)

lemma tunnel_map_toggled:
  "tunnel_map (toggled_list i b ts) = (tunnel_map ts)(i := map_option (tnl_enabled_update (\<lambda>_. b)) (tunnel_map ts i))"
  by (induction ts) (auto simp: toggled_list_def fun_eq_iff)

lemma tunnel_map_edit: "tunnel_map (edited_list ts e) = edit_map (tunnel_map ts) e"
proof (cases e)
  case (SaveTunnel t)
  then show ?thesis
    by (cases "tnl_id t \<in> set (tunnel_ids ts)") (simp_all add: saved_list_new saved_list_old tunnel_map_snoc tunnel_map_replace)
qed (simp_all add: tunnel_map_deleted tunnel_map_toggled)

interpretation tunnel_edits: refining_machine edited_list ids_distinct edit_map tunnel_map
  by unfold_locales (rule edited_list_distinct tunnel_map_edit, assumption?)+


section \<open>The screen\<close>

text \<open>The editor's form keeps its own copy of the tunnel, from the tunnel it was opened on. \<open>te_inst\<close> is the
  identity of the mounted editor.\<close>

record tunnel_form =
  te_inst :: nat
  te_tunnel :: tunnel
  te_saving :: bool

text \<open>\<open>GetConfig\<close>, called on mount: not read yet, read and on its way back, or over.\<close>

datatype config_read = ReadPending | ReadDone "tunnel list" | ReadOver

text \<open>A save in flight: its number, the list it sent, and the editor that awaits it.\<close>

record tunnels_page =
  tp_tunnels :: "tunnel list"
  tp_loaded :: bool
  tp_editing :: "tunnel option"
  tp_form :: "tunnel_form option"
  tp_err :: string
  tp_read :: config_read
  tp_flight :: "(nat \<times> tunnel list \<times> nat option) list"
  tp_next :: nat
  tp_stored :: "tunnel list"

definition tunnels_mount :: "tunnel list \<Rightarrow> tunnels_page" where
  "tunnels_mount stored = \<lparr>tp_tunnels = [], tp_loaded = False, tp_editing = None, tp_form = None, tp_err = '''',
     tp_read = ReadPending, tp_flight = [], tp_next = 0, tp_stored = stored\<rparr>"

definition read_config :: "tunnels_page \<Rightarrow> tunnels_page" where
  "read_config s = (if tp_read s = ReadPending then s\<lparr>tp_read := ReadDone (tp_stored s)\<rparr> else s)"

definition config_arrives :: "tunnels_page \<Rightarrow> tunnels_page" where
  "config_arrives s = (case tp_read s of ReadDone ts \<Rightarrow> s\<lparr>tp_tunnels := ts, tp_loaded := True, tp_read := ReadOver\<rparr> | _ \<Rightarrow> s)"

definition config_fails :: "string \<Rightarrow> tunnels_page \<Rightarrow> tunnels_page" where
  "config_fails e s = (if tp_read s = ReadOver then s else s\<lparr>tp_err := e, tp_read := ReadOver\<rparr>)"

text \<open>\<open>setEditing\<close>: an editor that is mounted already keeps the form it has.\<close>

definition set_editing :: "tunnel option \<Rightarrow> tunnels_page \<Rightarrow> tunnels_page" where
  "set_editing t s = s\<lparr>tp_editing := t, tp_form := (case (t, tp_form s) of
       (None, _) \<Rightarrow> None
     | (Some t, None) \<Rightarrow> Some \<lparr>te_inst = tp_next s, te_tunnel = t, te_saving = False\<rparr>
     | (Some t, Some f) \<Rightarrow> Some f),
     tp_next := Suc (tp_next s)\<rparr>"

definition persist :: "nat option \<Rightarrow> tunnel list \<Rightarrow> tunnels_page \<Rightarrow> tunnels_page" where
  "persist inst ts s = s\<lparr>tp_err := '''', tp_flight := tp_flight s @ [(tp_next s, ts, inst)], tp_next := Suc (tp_next s)\<rparr>"

text \<open>\<open>onSave\<close>, \<open>onDelete\<close> and \<open>onToggle\<close>, over the list of the current render.\<close>

definition on_edit :: "nat option \<Rightarrow> tunnel_edit \<Rightarrow> tunnels_page \<Rightarrow> tunnels_page" where
  "on_edit inst e s = persist inst (edited_list (tp_tunnels s) e) s"

text \<open>The continuation of the editor's \<open>save\<close>, which a closed editor ignores.\<close>

definition save_returns :: "nat option \<Rightarrow> tunnels_page \<Rightarrow> tunnels_page" where
  "save_returns inst s = s\<lparr>tp_form := map_option (\<lambda>f. if Some (te_inst f) = inst then f\<lparr>te_saving := False\<rparr> else f) (tp_form s)\<rparr>"

definition persist_answer :: "nat \<Rightarrow> string option \<Rightarrow> tunnels_page \<Rightarrow> tunnels_page" where
  "persist_answer i err s = (case map_of (tp_flight s) i of None \<Rightarrow> s
   | Some (ts, inst) \<Rightarrow> let s' = s\<lparr>tp_flight := filter (\<lambda>c. fst c \<noteq> i) (tp_flight s)\<rparr> in
       save_returns inst (case err of
         None \<Rightarrow> set_editing None (s'\<lparr>tp_stored := ts, tp_tunnels := ts\<rparr>)
       | Some e \<Rightarrow> s'\<lparr>tp_err := e\<rparr>))"

datatype form_edit = TypeName string | TypeAddr string | TypePublicPort string | SetAware bool | SetProxy bool
  | TypeMotd string | TypeCap string | PickScope string

text \<open>\<open>parseInt(v, 10) || 0\<close>\<close>

definition int_or_zero :: "string \<Rightarrow> int" where
  "int_or_zero v = (case parse_int10 v of Some n \<Rightarrow> n | None \<Rightarrow> 0)"

definition set_opt :: "(tunnel_options \<Rightarrow> tunnel_options) \<Rightarrow> tunnel \<Rightarrow> tunnel" where
  "set_opt f t = t\<lparr>tnl_options := f (tnl_options t)\<rparr>"

fun edit_form :: "form_edit \<Rightarrow> tunnel \<Rightarrow> tunnel" where
  "edit_form (TypeName v) t = t\<lparr>tnl_name := v\<rparr>"
| "edit_form (TypeAddr v) t = t\<lparr>tnl_local_addr := v\<rparr>"
| "edit_form (TypePublicPort v) t = t\<lparr>tnl_public_port := int_or_zero v\<rparr>"
| "edit_form (SetAware b) t = set_opt (topt_minecraft_aware_update (\<lambda>_. b)) t"
| "edit_form (SetProxy b) t = set_opt (topt_proxy_protocol_v2_update (\<lambda>_. b)) t"
| "edit_form (TypeMotd v) t = set_opt (topt_offline_motd_update (\<lambda>_. v)) t"
| "edit_form (TypeCap v) t = set_opt (topt_bandwidth_limit_mbps_update (\<lambda>_. int_or_zero v)) t"
| "edit_form (PickScope v) t = (if topt_bandwidth_limit_mbps (tnl_options t) \<le> 0 then t
     else set_opt (topt_bandwidth_limit_scope_update (\<lambda>_. v)) t)"

definition form_savable :: "tunnel_form \<Rightarrow> bool" where
  "form_savable f \<longleftrightarrow> \<not> te_saving f \<and> js_trim (tnl_name (te_tunnel f)) \<noteq> '''' \<and> js_trim (tnl_local_addr (te_tunnel f)) \<noteq> ''''"

definition save_form :: "tunnels_page \<Rightarrow> tunnels_page" where
  "save_form s = (case tp_form s of None \<Rightarrow> s
   | Some f \<Rightarrow> if \<not> form_savable f then s
       else on_edit (Some (te_inst f)) (SaveTunnel (te_tunnel f)) (s\<lparr>tp_form := Some (f\<lparr>te_saving := True\<rparr>)\<rparr>))"

datatype tunnels_event = ReadConfig | ConfigArrives | ConfigFails string | AddTunnel "nat list" | EditTunnel string
  | EditForm form_edit | CancelForm | SaveForm | ClickDelete string | ClickToggle string bool
  | Answer nat "string option" | DismissError

fun tunnels_step :: "tunnels_page \<Rightarrow> tunnels_event \<Rightarrow> tunnels_page" where
  "tunnels_step s ReadConfig = read_config s"
| "tunnels_step s ConfigArrives = config_arrives s"
| "tunnels_step s (ConfigFails e) = config_fails e s"
| "tunnels_step s (AddTunnel bytes) = set_editing (Some (blank_tunnel bytes)) s"
| "tunnels_step s (EditTunnel i) = (case tunnel_map (tp_tunnels s) i of None \<Rightarrow> s | Some t \<Rightarrow> set_editing (Some t) s)"
| "tunnels_step s (EditForm e) = s\<lparr>tp_form := map_option (\<lambda>f. f\<lparr>te_tunnel := edit_form e (te_tunnel f)\<rparr>) (tp_form s)\<rparr>"
| "tunnels_step s CancelForm = set_editing None s"
| "tunnels_step s SaveForm = save_form s"
| "tunnels_step s (ClickDelete i) = (if i \<in> set (tunnel_ids (tp_tunnels s)) then on_edit None (DeleteTunnel i) s else s)"
| "tunnels_step s (ClickToggle i e) = (if i \<in> set (tunnel_ids (tp_tunnels s)) then on_edit None (EnableTunnel i e) s else s)"
| "tunnels_step s (Answer i err) = persist_answer i err s"
| "tunnels_step s DismissError = s\<lparr>tp_err := ''''\<rparr>"

definition editor_title :: "tunnels_page \<Rightarrow> string" where
  "editor_title s = (case tp_editing s of
     Some t \<Rightarrow> if tnl_id t \<in> set (tunnel_ids (tp_tunnels s)) then ''Edit tunnel'' else ''Add tunnel''
   | None \<Rightarrow> '''')"

text \<open>Once the configuration has arrived, the screen shows what the backend holds and every list on its way
  names each tunnel once.\<close>

definition tunnels_inv :: "tunnels_page \<Rightarrow> bool" where
  "tunnels_inv s \<longleftrightarrow> tp_read s = ReadOver \<and> tp_tunnels s = tp_stored s \<and> ids_distinct (tp_stored s)
     \<and> (\<forall>c \<in> set (tp_flight s). ids_distinct (fst (snd c)))
     \<and> (tp_form s = None \<longleftrightarrow> tp_editing s = None)"

lemma set_editing_kept [simp]:
  "tp_tunnels (set_editing t s) = tp_tunnels s" "tp_stored (set_editing t s) = tp_stored s"
  "tp_flight (set_editing t s) = tp_flight s" "tp_read (set_editing t s) = tp_read s"
  "tp_editing (set_editing t s) = t" "tp_form (set_editing t s) = None \<longleftrightarrow> t = None"
  by (simp_all add: set_editing_def split: option.splits)

lemma persist_kept [simp]:
  "tp_tunnels (persist inst ts s) = tp_tunnels s" "tp_stored (persist inst ts s) = tp_stored s"
  "tp_flight (persist inst ts s) = tp_flight s @ [(tp_next s, ts, inst)]" "tp_read (persist inst ts s) = tp_read s"
  "tp_editing (persist inst ts s) = tp_editing s" "tp_form (persist inst ts s) = tp_form s"
  by (simp_all add: persist_def)

lemma save_returns_kept [simp]:
  "tp_tunnels (save_returns inst s) = tp_tunnels s" "tp_stored (save_returns inst s) = tp_stored s"
  "tp_flight (save_returns inst s) = tp_flight s" "tp_read (save_returns inst s) = tp_read s"
  "tp_editing (save_returns inst s) = tp_editing s" "tp_form (save_returns inst s) = None \<longleftrightarrow> tp_form s = None"
  by (simp_all add: save_returns_def)

lemma tunnels_inv_persist: "tunnels_inv s \<Longrightarrow> ids_distinct ts \<Longrightarrow> tunnels_inv (persist inst ts s)"
  by (auto simp: tunnels_inv_def)

lemma tunnels_inv_editing: "tunnels_inv s \<Longrightarrow> tunnels_inv (set_editing t s)"
  by (simp add: tunnels_inv_def)

lemma tunnels_inv_answer: "tunnels_inv s \<Longrightarrow> tunnels_inv (persist_answer i err s)"
proof (cases "map_of (tp_flight s) i")
  case (Some c)
  obtain ts inst where c: "c = (ts, inst)" by (cases c)
  assume inv: "tunnels_inv s"
  from Some c have "(i, ts, inst) \<in> set (tp_flight s)" by (auto dest: map_of_SomeD)
  with inv have "ids_distinct ts" by (force simp: tunnels_inv_def)
  with inv Some c show ?thesis
    by (cases err) (auto simp: persist_answer_def tunnels_inv_def Let_def)
qed (simp add: persist_answer_def)

lemma tunnels_inv_edit: "tunnels_inv s \<Longrightarrow> tunnels_inv (on_edit inst e s)"
  using edited_list_distinct [of "tp_tunnels s" e] by (simp add: on_edit_def tunnels_inv_persist) (simp add: tunnels_inv_def)

lemma tunnels_inv_save: "tunnels_inv s \<Longrightarrow> tunnels_inv (save_form s)"
proof (cases "tp_form s")
  case (Some f)
  assume "tunnels_inv s"
  with Some have "tunnels_inv (s\<lparr>tp_form := Some (f\<lparr>te_saving := True\<rparr>)\<rparr>)" by (auto simp: tunnels_inv_def)
  with Some show ?thesis using \<open>tunnels_inv s\<close> by (simp add: save_form_def tunnels_inv_edit)
qed (simp add: save_form_def)

lemma tunnels_inv_step: "tunnels_inv s \<Longrightarrow> tunnels_inv (tunnels_step s e)"
  by (cases e) (auto simp: read_config_def config_arrives_def config_fails_def tunnels_inv_answer tunnels_inv_editing
       tunnels_inv_edit tunnels_inv_save split: option.split, auto simp: tunnels_inv_def)

interpretation tunnels: invariant_machine tunnels_step tunnels_inv
  by unfold_locales (rule tunnels_inv_step)


section \<open>What a card says\<close>

text \<open>The live state of a tunnel: \<open>new Map\<close> keeps the last entry of an identity.\<close>

definition live_tunnel :: "tunnel_ui list option \<Rightarrow> string \<Rightarrow> tunnel_ui option" where
  "live_tunnel ts i = map_of (rev (map (\<lambda>t. (tun_id t, t)) (case ts of None \<Rightarrow> [] | Some ts \<Rightarrow> ts))) i"

definition tunnel_bound :: "tunnel_ui option \<Rightarrow> bool" where
  "tunnel_bound l = (case l of None \<Rightarrow> False | Some l \<Rightarrow> 0 < tun_public_port l)"

definition server_badge :: "tunnel_ui \<Rightarrow> string" where
  "server_badge l = (if tun_local_up l then ''Server up'' else ''Server down'')"

definition card_badges :: "tunnel \<Rightarrow> tunnel_ui option \<Rightarrow> string list" where
  "card_badges t l = (if tnl_enabled t then [if tunnel_bound l then ''Bound'' else ''Pending''] else [''Disabled''])
     @ (case l of Some l \<Rightarrow> if tun_local_known l then [server_badge l] else [] | None \<Rightarrow> [])"

definition advanced_rows :: "tunnel_options \<Rightarrow> (string \<times> string) list" where
  "advanced_rows o' = (if topt_minecraft_aware o' then [(''Minecraft-aware'', ''On'')] else [])
     @ (if topt_proxy_protocol_v2 o' then [(''PROXY protocol v2'', ''On'')] else [])
     @ (if topt_offline_motd o' \<noteq> '''' then [(''Offline MOTD'', topt_offline_motd o')] else [])
     @ (if 0 < topt_bandwidth_limit_mbps o'
        then [(''Bandwidth cap'', show_int (topt_bandwidth_limit_mbps o') @ '' Mbps'' @
               (let s = (if topt_bandwidth_limit_scope o' = '''' then ''combined'' else topt_bandwidth_limit_scope o') in
                if s \<noteq> ''combined'' then mid_dot @ scope_label (topt_bandwidth_limit_scope o') else ''''))] else [])"

definition advanced_hint :: "tunnel_options \<Rightarrow> string" where
  "advanced_hint o' = (let n = length (advanced_rows o') in show_nat n @ '' option'' @ (if n = 1 then '''' else ''s'') @ '' set'')"

text \<open>Whether the editor opens with its advanced options unfolded.\<close>

definition advanced_open :: "tunnel_options \<Rightarrow> bool" where
  "advanced_open o' \<longleftrightarrow> topt_minecraft_aware o' \<or> topt_proxy_protocol_v2 o' \<or> topt_offline_motd o' \<noteq> '''' \<or> 0 < topt_bandwidth_limit_mbps o'"

text \<open>A row of the gateway's read-only table.\<close>

definition gateway_tunnel_row :: "tunnel_ui \<Rightarrow> string \<times> string \<times> string \<times> string" where
  "gateway_tunnel_row t = (tun_name t, if 0 < tun_public_port t then show_int (tun_public_port t) else em_dash,
     if tun_local_known t then (if tun_local_up t then ''good'' else ''bad'') else ''neutral'',
     if tun_local_known t then server_badge t else ''Unknown'')"

lemma advanced_open_rows: "advanced_open o' \<longleftrightarrow> advanced_rows o' \<noteq> []"
  by (simp add: advanced_open_def advanced_rows_def)

section \<open>The path test and the delete button\<close>

datatype test_state = TestIdle | TestBusy | TestOk | TestFail

record path_test =
  pt_state :: test_state
  pt_msg :: string
  pt_flight :: nat

definition path_test_mount :: path_test where
  "path_test_mount = \<lparr>pt_state = TestIdle, pt_msg = '''', pt_flight = 0\<rparr>"

datatype test_event = RunTest bool | TestAnswer "string + string"

definition run_test :: "bool \<Rightarrow> path_test \<Rightarrow> path_test" where
  "run_test bound s = (if \<not> bound \<or> pt_state s = TestBusy then s
     else s\<lparr>pt_state := TestBusy, pt_msg := '''', pt_flight := Suc (pt_flight s)\<rparr>)"

definition test_answer :: "string + string \<Rightarrow> path_test \<Rightarrow> path_test" where
  "test_answer r s = (if pt_flight s = 0 then s else let s' = s\<lparr>pt_flight := pt_flight s - 1\<rparr> in
     case r of Inr res \<Rightarrow> s'\<lparr>pt_state := TestOk, pt_msg := res\<rparr> | Inl e \<Rightarrow> s'\<lparr>pt_state := TestFail, pt_msg := e\<rparr>)"

fun test_step :: "path_test \<Rightarrow> test_event \<Rightarrow> path_test" where
  "test_step s (RunTest bound) = run_test bound s"
| "test_step s (TestAnswer r) = test_answer r s"

definition test_inv :: "path_test \<Rightarrow> bool" where
  "test_inv s \<longleftrightarrow> pt_flight s = (if pt_state s = TestBusy then 1 else 0)"

interpretation path_test: invariant_machine test_step test_inv
proof unfold_locales
  fix s e assume "test_inv s"
  then show "test_inv (test_step s e)"
    by (cases e) (auto simp: test_inv_def run_test_def test_answer_def Let_def split: sum.splits if_splits)
qed

text \<open>The button's clock, the time its disarming timer is due, and (ghost) when it was armed and when it
  deleted.\<close>

record delete_button =
  db_now :: int
  db_armed :: "int option"
  db_deletes :: "(int \<times> int) list"

definition delete_mount :: "int \<Rightarrow> delete_button" where
  "delete_mount now = \<lparr>db_now = now, db_armed = None, db_deletes = []\<rparr>"

definition delete_click :: "delete_button \<Rightarrow> delete_button" where
  "delete_click s = (case db_armed s of
     None \<Rightarrow> s\<lparr>db_armed := Some (db_now s + 2500)\<rparr>
   | Some due \<Rightarrow> s\<lparr>db_deletes := db_deletes s @ [(due - 2500, db_now s)]\<rparr>)"

text \<open>Time passes; a timer that is due fires first.\<close>

definition delete_clock :: "nat \<Rightarrow> delete_button \<Rightarrow> delete_button" where
  "delete_clock d s = (let now = db_now s + int d in s\<lparr>db_now := now,
     db_armed := (case db_armed s of Some due \<Rightarrow> if due \<le> now then None else Some due | None \<Rightarrow> None)\<rparr>)"

fun delete_step :: "delete_button \<Rightarrow> nat option \<Rightarrow> delete_button" where
  "delete_step s None = delete_click s"
| "delete_step s (Some d) = delete_clock d s"

definition delete_inv :: "delete_button \<Rightarrow> bool" where
  "delete_inv s \<longleftrightarrow> (\<forall>due. db_armed s = Some due \<longrightarrow> due - 2500 \<le> db_now s \<and> db_now s < due)
     \<and> (\<forall>(a, d) \<in> set (db_deletes s). a \<le> d \<and> d < a + 2500)"

interpretation delete_button: invariant_machine delete_step delete_inv
proof unfold_locales
  fix s e assume "delete_inv s"
  then show "delete_inv (delete_step s e)"
    by (cases e) (auto simp: delete_inv_def delete_click_def delete_clock_def Let_def split: option.splits if_splits)
qed


section \<open>Edits one after the other\<close>

text \<open>An edit whose save is answered before the next edit begins.\<close>

fun edit_round :: "tunnels_page \<Rightarrow> tunnel_edit \<times> string option \<Rightarrow> tunnels_page" where
  "edit_round s (e, err) = persist_answer (tp_next s) err (on_edit None e s)"

fun edit_map_round :: "(string \<rightharpoonup> tunnel) \<Rightarrow> tunnel_edit \<times> string option \<Rightarrow> (string \<rightharpoonup> tunnel)" where
  "edit_map_round m (e, err) = (if err = None then edit_map m e else m)"

definition at_rest :: "tunnels_page \<Rightarrow> bool" where
  "at_rest s \<longleftrightarrow> tunnels_inv s \<and> tp_flight s = []"

lemma edit_round_stored:
  assumes "at_rest s"
  shows "tp_stored (edit_round s (e, err)) = (if err = None then edited_list (tp_stored s) e else tp_stored s)"
    and "tp_flight (edit_round s (e, err)) = []"
  using assms by (auto simp: at_rest_def tunnels_inv_def on_edit_def persist_answer_def Let_def split: option.splits)

lemma at_rest_round: "at_rest s \<Longrightarrow> at_rest (edit_round s r)"
proof (cases r)
  case (Pair e err)
  assume rest: "at_rest s"
  then have "tunnels_inv (edit_round s (e, err))"
    by (simp add: at_rest_def tunnels_inv_answer tunnels_inv_edit)
  with rest Pair show ?thesis unfolding at_rest_def using edit_round_stored(2) [OF rest] by simp
qed

interpretation edit_rounds: refining_machine edit_round at_rest edit_map_round "\<lambda>s. tunnel_map (tp_stored s)"
proof unfold_locales
  fix s r assume rest: "at_rest s"
  then show "at_rest (edit_round s r)" by (rule at_rest_round)
  obtain e err where r: "r = (e, err)" by (cases r)
  show "tunnel_map (tp_stored (edit_round s r)) = edit_map_round (tunnel_map (tp_stored s)) r"
    unfolding r edit_round_stored(1) [OF rest] by (simp add: tunnel_map_edit)
qed

section \<open>Properties\<close>


text \<open>C14. Edits that are saved one after the other act on the tunnels as on a map from identities: saving puts
  the tunnel at its identity, deleting removes it, the switch changes nothing but its enablement, and a
  refused save changes nothing.\<close>

theorem tunnel_edits_refine:
  assumes "at_rest s"
  shows "tunnel_map (tp_tunnels (foldl edit_round s es)) = foldl edit_map_round (tunnel_map (tp_tunnels s)) es"
proof -
  have "at_rest (foldl edit_round s es)" using assms by (rule edit_rounds.inv_run)
  with assms edit_rounds.abs_run [OF assms, of es] show ?thesis by (simp add: at_rest_def tunnels_inv_def)
qed

text \<open>C39. When the configuration could not be read, adding a tunnel replaces every tunnel the backend holds.\<close>

theorem add_before_load_wipes:
  "tp_stored (foldl tunnels_step (tunnels_mount stored) [ConfigFails e, AddTunnel bytes, SaveForm, Answer 1 None])
     = [blank_tunnel bytes]"
proof -
  have trim: "js_trim ''Minecraft'' \<noteq> ''''" "js_trim ''127.0.0.1:25565'' \<noteq> ''''" by code_simp+
  have "saved_list (blank_tunnel bytes) [] = [blank_tunnel bytes]" by (simp add: saved_list_def)
  with trim show ?thesis
    by (simp add: tunnels_mount_def config_fails_def set_editing_def save_form_def form_savable_def
        blank_tunnel_def on_edit_def persist_def persist_answer_def Let_def)
qed

text \<open>Two switches flipped before the first save is answered: the second save carries the list of before
  the first, so the first change is lost.\<close>

theorem overlapping_toggles_lost:
  assumes "at_rest s" and "i \<in> set (tunnel_ids (tp_tunnels s))" and "j \<in> set (tunnel_ids (tp_tunnels s))"
  shows "tunnel_map (tp_stored (foldl tunnels_step s
      [ClickToggle i a, ClickToggle j b, Answer (tp_next s) None, Answer (Suc (tp_next s)) None]))
    = edit_map (tunnel_map (tp_stored s)) (EnableTunnel j b)"
proof -
  have "tp_tunnels s = tp_stored s" "tp_flight s = []" using assms(1) by (auto simp: at_rest_def tunnels_inv_def)
  with assms(2,3) show ?thesis
    by (simp add: on_edit_def persist_answer_def persist_def Let_def set_editing_def save_returns_def tunnel_map_toggled)
qed

text \<open>A save that is answered while an editor is open closes it, whichever tunnel it edits and whatever has
  been typed into it.\<close>

theorem answer_closes_editor:
  assumes "at_rest s" and "i \<in> set (tunnel_ids (tp_tunnels s))"
  shows "tp_form (foldl tunnels_step s [ClickToggle i a, EditTunnel j, EditForm e, Answer (tp_next s) None]) = None"
proof -
  have "tp_flight s = []" using assms(1) by (auto simp: at_rest_def)
  with assms(2) show ?thesis
    by (simp add: on_edit_def persist_answer_def persist_def Let_def set_editing_def save_returns_def split: option.split)
qed

text \<open>A tunnel is deleted by a second click less than two and a half seconds after the first.\<close>

theorem delete_takes_two_clicks:
  assumes "(a, d) \<in> set (db_deletes (foldl delete_step (delete_mount now) es))"
  shows "a \<le> d \<and> d < a + 2500"
proof -
  have "delete_inv (delete_mount now)" by (simp add: delete_inv_def delete_mount_def)
  from delete_button.inv_run [OF this, of es] assms show ?thesis by (auto simp: delete_inv_def)
qed

definition sample_tunnel :: tunnel where
  "sample_tunnel = blank_tunnel [1, 255]"

definition sample_page :: tunnels_page where
  "sample_page = foldl tunnels_step (tunnels_mount [sample_tunnel, sample_tunnel\<lparr>tnl_id := ''b''\<rparr>]) [ReadConfig, ConfigArrives]"

lemma sample_id: "tnl_id sample_tunnel = ''01ff''"
  by code_simp

lemma sample_page_rest: "at_rest sample_page"
  by (simp add: sample_page_def at_rest_def tunnels_mount_def read_config_def config_arrives_def tunnels_inv_def
      ids_distinct_def tunnel_ids_def sample_id)

lemma sample_page_ids: "tunnel_ids (tp_tunnels sample_page) = [''01ff'', ''b'']"
  by (simp add: sample_page_def tunnels_mount_def read_config_def config_arrives_def tunnel_ids_def sample_id)


theorem tunnel_edits_refine_witness:
  "tunnel_map (tp_tunnels (foldl edit_round sample_page [(DeleteTunnel ''b'', None), (DeleteTunnel ''01ff'', Some ''no'')])) ''b'' = None"
  using tunnel_edits_refine [OF sample_page_rest, of "[(DeleteTunnel ''b'', None), (DeleteTunnel ''01ff'', Some ''no'')]"] by simp

theorem overlapping_toggles_lost_witness:
  "tunnel_map (tp_stored (foldl tunnels_step sample_page
      [ClickToggle ''01ff'' False, ClickToggle ''b'' False, Answer (tp_next sample_page) None, Answer (Suc (tp_next sample_page)) None]))
    = edit_map (tunnel_map (tp_stored sample_page)) (EnableTunnel ''b'' False)"
  by (rule overlapping_toggles_lost [OF sample_page_rest]) (simp_all add: sample_page_ids)

theorem answer_closes_editor_witness:
  "tp_form (foldl tunnels_step sample_page
      [ClickToggle ''01ff'' False, EditTunnel ''b'', EditForm (TypeName ''x''), Answer (tp_next sample_page) None]) = None"
  by (rule answer_closes_editor [OF sample_page_rest]) (simp add: sample_page_ids)

theorem delete_takes_two_clicks_witness: "(0::int) \<le> 2000 \<and> (2000::int) < 0 + 2500"
  by (rule delete_takes_two_clicks [of 0 2000 0 "[None, Some 2000, None]"])
     (simp add: delete_mount_def delete_click_def delete_clock_def)

end
