(* ===== verification/Settings.thy ===== *)
theory Settings
  imports Tunnels
begin

text \<open>
  The Settings screen (\<open>screens/Settings.tsx\<close>): the staged configuration with its edits, the save with
  its folded defaults and the engine restart, the discard, the database picker, the section rail with
  its scroll spy and its pin, and the system, token and badge rows. Calls of the backend are answered
  by later events; a closure carries the configuration it captured.
\<close>

section \<open>Defaults and fields\<close>

definition def_control_port :: int where "def_control_port = 8474"
definition def_max_conns_global :: int where "def_max_conns_global = 4096"
definition def_max_conns_per_ip :: int where "def_max_conns_per_ip = 32"
definition def_auth_attempts :: int where "def_auth_attempts = 10"
definition def_retention_days :: int where "def_retention_days = 180"
definition def_prometheus_addr :: string where "def_prometheus_addr = ''127.0.0.1:9464''"
definition def_bind_addr :: string where "def_bind_addr = ''0.0.0.0''"

definition num_str :: "int \<Rightarrow> string" where
  "num_str n = (if 0 < n then show_int n else '''')"

definition transport_label :: "string \<Rightarrow> string" where
  "transport_label t = (if t = ''quic'' then ''QUIC'' else if t = ''per-conn'' then ''Per-connection''
     else if t = ''mux'' then ''Multiplexed'' else t)"

definition settings_sections :: "bool \<Rightarrow> (string \<times> string) list" where
  "settings_sections is_agent = [(''appearance'', ''Appearance''), (''connection'', ''Connection'')]
     @ (if is_agent then [] else [(''security'', ''Security'')])
     @ [(''analytics'', ''Analytics''), (''telemetry'', ''Telemetry''), (''system'', ''System''), (''backup'', ''Backup''), (''about'', ''About'')]"

datatype settings_edit = EditHost string | EditPort string | EditTransport string | EditPublicHost string | EditControlPort string
  | EditBindAddr string | EditMaxConns string | EditMaxPerIp string | EditAuthAttempts string | EditRetention string
  | EditMojang bool | EditCityPath string | EditAsnPath string | EditLevel string | EditLogFile bool
  | EditPrometheus bool | EditPrometheusAddr string

text \<open>What the handlers of each section change.\<close>

fun patch_agent :: "settings_edit \<Rightarrow> agent_config \<Rightarrow> agent_config" where
  "patch_agent (EditHost v) a = a\<lparr>acfg_gateway_host := v\<rparr>"
| "patch_agent (EditPort v) a = a\<lparr>acfg_gateway_port := int_or_zero v\<rparr>"
| "patch_agent (EditTransport v) a = a\<lparr>acfg_transport := v\<rparr>"
| "patch_agent _ a = a"

fun patch_gateway :: "settings_edit \<Rightarrow> gateway_config \<Rightarrow> gateway_config" where
  "patch_gateway (EditPublicHost v) g = g\<lparr>gcfg_public_host := v\<rparr>"
| "patch_gateway (EditControlPort v) g = g\<lparr>gcfg_control_port := int_or_zero v\<rparr>"
| "patch_gateway (EditBindAddr v) g = g\<lparr>gcfg_bind_addr := v\<rparr>"
| "patch_gateway _ g = g"

fun patch_limits :: "settings_edit \<Rightarrow> gateway_config \<Rightarrow> gateway_config" where
  "patch_limits (EditMaxConns v) g = g\<lparr>gcfg_max_conns_global := int_or_zero v\<rparr>"
| "patch_limits (EditMaxPerIp v) g = g\<lparr>gcfg_max_conns_per_ip := int_or_zero v\<rparr>"
| "patch_limits (EditAuthAttempts v) g = g\<lparr>gcfg_auth_attempts_per_min := int_or_zero v\<rparr>"
| "patch_limits _ g = g"

fun patch_analytics :: "settings_edit \<Rightarrow> analytics_config \<Rightarrow> analytics_config" where
  "patch_analytics (EditRetention v) a = a\<lparr>ancfg_retention_days := int_or_zero v\<rparr>"
| "patch_analytics (EditMojang b) a = a\<lparr>ancfg_mojang_lookups := b\<rparr>"
| "patch_analytics (EditCityPath v) a = a\<lparr>ancfg_geo_ip_city_path := v\<rparr>"
| "patch_analytics (EditAsnPath v) a = a\<lparr>ancfg_geo_ipasn_path := v\<rparr>"
| "patch_analytics _ a = a"

fun patch_logging :: "settings_edit \<Rightarrow> logging_config \<Rightarrow> logging_config" where
  "patch_logging (EditLevel v) l = l\<lparr>lcfg_level := v\<rparr>"
| "patch_logging (EditLogFile b) l = l\<lparr>lcfg_file_enabled := b\<rparr>"
| "patch_logging _ l = l"

fun patch_metrics :: "settings_edit \<Rightarrow> metrics_config \<Rightarrow> metrics_config" where
  "patch_metrics (EditPrometheus b) m = m\<lparr>mcfg_prometheus_enabled := b\<rparr>"
| "patch_metrics (EditPrometheusAddr v) m = m\<lparr>mcfg_prometheus_addr := v\<rparr>"
| "patch_metrics _ m = m"

definition patch_config :: "settings_edit \<Rightarrow> config \<Rightarrow> config" where
  "patch_config e c = c\<lparr>cfg_agent := patch_agent e (cfg_agent c), cfg_gateway := patch_limits e (patch_gateway e (cfg_gateway c)),
     cfg_analytics := patch_analytics e (cfg_analytics c), cfg_logging := patch_logging e (cfg_logging c),
     cfg_metrics := patch_metrics e (cfg_metrics c)\<rparr>"

text \<open>\<open>n || d\<close> on numbers, and what \<open>save\<close> sends for the staged configuration.\<close>

definition or_default :: "int \<Rightarrow> int \<Rightarrow> int" where
  "or_default n d = (if n = 0 then d else n)"

definition fold_defaults :: "config \<Rightarrow> config" where
  "fold_defaults c = (let a = cfg_agent c; g = cfg_gateway c; n = cfg_analytics c; m = cfg_metrics c in
     c\<lparr>cfg_agent := a\<lparr>acfg_gateway_port := or_default (acfg_gateway_port a) def_control_port\<rparr>,
       cfg_gateway := g\<lparr>gcfg_control_port := or_default (gcfg_control_port g) def_control_port,
         gcfg_max_conns_global := or_default (gcfg_max_conns_global g) def_max_conns_global,
         gcfg_max_conns_per_ip := or_default (gcfg_max_conns_per_ip g) def_max_conns_per_ip,
         gcfg_auth_attempts_per_min := or_default (gcfg_auth_attempts_per_min g) def_auth_attempts\<rparr>,
       cfg_analytics := n\<lparr>ancfg_retention_days := or_default (ancfg_retention_days n) def_retention_days\<rparr>,
       cfg_metrics := (if mcfg_prometheus_enabled m \<and> js_trim (mcfg_prometheus_addr m) = ''''
         then m\<lparr>mcfg_prometheus_addr := def_prometheus_addr\<rparr> else m)\<rparr>)"

section \<open>The screen\<close>

text \<open>A save: the configuration it sent, before and after the backend stored it.\<close>

datatype save_stage = NoSave | SavingConfig config | RestartingEngine

datatype settings_call = CallSave config | CallRestart

record settings_page =
  se_attached :: bool
  se_cfg :: "config option"
  se_dirty :: bool
  se_saving :: bool
  se_err :: string
  se_note :: string
  se_geo :: "geo_status option"
  se_stage :: save_stage
  se_browse :: "(bool \<times> config) list"   \<comment> \<open>open pickers: for the city file?, and the configuration captured\<close>
  se_calls :: "settings_call list"

definition settings_mount :: "bool \<Rightarrow> settings_page" where
  "settings_mount attached = \<lparr>se_attached = attached, se_cfg = None, se_dirty = False, se_saving = False, se_err = '''', se_note = '''',
     se_geo = None, se_stage = NoSave, se_browse = [], se_calls = []\<rparr>"

text \<open>The answer of a \<open>reload\<close>: on mount, by the discard button, after a token rotation or an import.\<close>

definition settings_loaded :: "string + config \<Rightarrow> settings_page \<Rightarrow> settings_page" where
  "settings_loaded r s = (case r of Inr c \<Rightarrow> s\<lparr>se_cfg := Some c, se_dirty := False\<rparr> | Inl e \<Rightarrow> s\<lparr>se_err := e\<rparr>)"

definition settings_patch :: "config \<Rightarrow> settings_edit \<Rightarrow> settings_page \<Rightarrow> settings_page" where
  "settings_patch c e s = s\<lparr>se_cfg := Some (patch_config e c), se_dirty := True, se_note := ''''\<rparr>"

definition settings_edit_field :: "settings_edit \<Rightarrow> settings_page \<Rightarrow> settings_page" where
  "settings_edit_field e s = (case se_cfg s of None \<Rightarrow> s | Some c \<Rightarrow> settings_patch c e s)"

definition browse_open :: "bool \<Rightarrow> settings_page \<Rightarrow> settings_page" where
  "browse_open city s = (case se_cfg s of None \<Rightarrow> s
   | Some c \<Rightarrow> if se_attached s \<or> city \<in> fst ` set (se_browse s) then s else s\<lparr>se_browse := se_browse s @ [(city, c)]\<rparr>)"

definition browse_pick :: "bool \<Rightarrow> string \<Rightarrow> settings_page \<Rightarrow> settings_page" where
  "browse_pick city p s = (case map_of (se_browse s) city of None \<Rightarrow> s
   | Some c \<Rightarrow> let s' = s\<lparr>se_browse := filter (\<lambda>b. fst b \<noteq> city) (se_browse s)\<rparr> in
       if p = '''' then s' else settings_patch c (if city then EditCityPath p else EditAsnPath p) s')"

definition settings_save :: "settings_page \<Rightarrow> settings_page" where
  "settings_save s = (case se_cfg s of None \<Rightarrow> s
   | Some c \<Rightarrow> if \<not> se_dirty s \<or> se_saving s then s
       else s\<lparr>se_saving := True, se_err := '''', se_note := '''', se_stage := SavingConfig (fold_defaults c),
              se_calls := se_calls s @ [CallSave (fold_defaults c)]\<rparr>)"

definition saved_note :: string where
  "saved_note = ''Saved. The engine reconnected with the new settings.''"

definition save_done :: "settings_page \<Rightarrow> settings_page" where
  "save_done s = s\<lparr>se_dirty := False, se_note := saved_note, se_saving := False, se_stage := NoSave\<rparr>"

definition save_answer :: "string option \<Rightarrow> settings_page \<Rightarrow> settings_page" where
  "save_answer err s = (case se_stage s of
     SavingConfig out \<Rightarrow> (case err of
       Some e \<Rightarrow> s\<lparr>se_err := e, se_saving := False, se_stage := NoSave\<rparr>
     | None \<Rightarrow> let s' = s\<lparr>se_cfg := Some out\<rparr> in
         if se_attached s then save_done s'
         else s'\<lparr>se_stage := RestartingEngine, se_calls := se_calls s @ [CallRestart]\<rparr>)
   | RestartingEngine \<Rightarrow> save_done (case err of Some e \<Rightarrow> s\<lparr>se_err := e\<rparr> | None \<Rightarrow> s)
   | NoSave \<Rightarrow> s)"

datatype settings_event = Loaded "string + config" | GeoLoaded "geo_status option" | Edit settings_edit
  | BrowseOpen bool | BrowsePick bool string | SaveClick | SaveAnswer "string option" | DismissErr

fun settings_step :: "settings_page \<Rightarrow> settings_event \<Rightarrow> settings_page" where
  "settings_step s (Loaded r) = settings_loaded r s"
| "settings_step s (GeoLoaded g) = s\<lparr>se_geo := g\<rparr>"
| "settings_step s (Edit e) = settings_edit_field e s"
| "settings_step s (BrowseOpen city) = browse_open city s"
| "settings_step s (BrowsePick city p) = browse_pick city p s"
| "settings_step s SaveClick = settings_save s"
| "settings_step s (SaveAnswer err) = save_answer err s"
| "settings_step s DismissErr = s\<lparr>se_err := ''''\<rparr>"

definition save_bar_shown :: "settings_page \<Rightarrow> bool" where
  "save_bar_shown s \<longleftrightarrow> se_cfg s \<noteq> None \<and> se_dirty s"

definition note_shown :: "settings_page \<Rightarrow> bool" where
  "note_shown s \<longleftrightarrow> se_cfg s \<noteq> None \<and> se_note s \<noteq> '''' \<and> \<not> se_dirty s"

definition config_numbers :: "config \<Rightarrow> (int \<times> int) list" where
  "config_numbers c = [(acfg_gateway_port (cfg_agent c), def_control_port), (gcfg_control_port (cfg_gateway c), def_control_port),
     (gcfg_max_conns_global (cfg_gateway c), def_max_conns_global), (gcfg_max_conns_per_ip (cfg_gateway c), def_max_conns_per_ip),
     (gcfg_auth_attempts_per_min (cfg_gateway c), def_auth_attempts), (ancfg_retention_days (cfg_analytics c), def_retention_days)]"

text \<open>The text a numeric field shows: its value, or the placeholder of its default.\<close>

definition shown_number :: "int \<times> int \<Rightarrow> string" where
  "shown_number f = (if num_str (fst f) = '''' then show_int (snd f) else num_str (fst f))"

lemma num_str_empty: "num_str n = '''' \<longleftrightarrow> n \<le> 0"
proof -
  have "show_int n \<noteq> ''''" by (simp add: show_int_def)
  then show ?thesis by (simp add: num_str_def)
qed

lemma fold_defaults_numbers:
  "config_numbers (fold_defaults c) = map (\<lambda>(n, d). (or_default n d, d)) (config_numbers c)"
  by (simp add: fold_defaults_def config_numbers_def Let_def)

lemma or_default_shown: "0 \<le> n \<Longrightarrow> 0 < d \<Longrightarrow> show_int (or_default n d) = shown_number (n, d)"
  by (auto simp: or_default_def shown_number_def num_str_empty) (simp add: num_str_def)

lemma default_positive: "(n, d) \<in> set (config_numbers c) \<Longrightarrow> 0 < d"
  by (auto simp: config_numbers_def def_control_port_def def_max_conns_global_def def_max_conns_per_ip_def
      def_auth_attempts_def def_retention_days_def)


section \<open>What is sent\<close>

definition sendable :: "config \<Rightarrow> bool" where
  "sendable c \<longleftrightarrow> (\<forall>(n, d) \<in> set (config_numbers c). n \<noteq> 0)
     \<and> (mcfg_prometheus_enabled (cfg_metrics c) \<longrightarrow> js_trim (mcfg_prometheus_addr (cfg_metrics c)) \<noteq> '''')"

lemma sendable_fold: "sendable (fold_defaults c)"
proof -
  have "or_default n d \<noteq> 0" if "0 < d" for n d using that by (auto simp: or_default_def)
  then have "n \<noteq> 0" if "(n, d) \<in> set (config_numbers (fold_defaults c))" for n d
    using that default_positive unfolding fold_defaults_numbers by (auto simp del: config_numbers_def)
  moreover have "js_trim def_prometheus_addr \<noteq> ''''" by code_simp
  then have "mcfg_prometheus_enabled (cfg_metrics (fold_defaults c)) \<longrightarrow> js_trim (mcfg_prometheus_addr (cfg_metrics (fold_defaults c))) \<noteq> ''''"
    by (simp add: fold_defaults_def Let_def)
  ultimately show ?thesis unfolding sendable_def by blast
qed

definition settings_inv :: "settings_page \<Rightarrow> bool" where
  "settings_inv s \<longleftrightarrow> (se_saving s \<longleftrightarrow> se_stage s \<noteq> NoSave)
     \<and> (\<forall>c. CallSave c \<in> set (se_calls s) \<longrightarrow> sendable c)
     \<and> (se_attached s \<longrightarrow> CallRestart \<notin> set (se_calls s))
     \<and> (\<forall>out. se_stage s = SavingConfig out \<longrightarrow> CallSave out \<in> set (se_calls s))
     \<and> (se_attached s \<longrightarrow> se_stage s \<noteq> RestartingEngine)"

lemma settings_inv_save: "settings_inv s \<Longrightarrow> settings_inv (settings_save s)"
  by (auto simp: settings_inv_def settings_save_def sendable_fold split: option.split)

lemma settings_inv_answer: "settings_inv s \<Longrightarrow> settings_inv (save_answer err s)"
  by (cases "se_stage s"; cases err) (auto simp: settings_inv_def save_answer_def save_done_def Let_def)

lemma settings_inv_step: "settings_inv s \<Longrightarrow> settings_inv (settings_step s e)"
  by (cases e) (auto simp: settings_inv_save settings_inv_answer settings_loaded_def settings_edit_field_def settings_patch_def
      browse_open_def browse_pick_def Let_def split: sum.split option.split, auto simp: settings_inv_def)

lemma settings_inv_mount: "settings_inv (settings_mount attached)"
  by (simp add: settings_inv_def settings_mount_def)

interpretation settings: invariant_machine settings_step settings_inv
  by unfold_locales (rule settings_inv_step)

lemma settings_attached: "se_attached (foldl settings_step s es) = se_attached s"
proof (induction es arbitrary: s)
  case (Cons e es)
  have "se_attached (settings_step s e) = se_attached s"
    by (cases e) (auto simp: settings_loaded_def settings_edit_field_def settings_patch_def browse_open_def browse_pick_def
        settings_save_def save_answer_def save_done_def Let_def split: sum.split option.split save_stage.split)
  with Cons show ?case by simp
qed simp

text \<open>C15. Whatever is typed and whatever answers arrive, a configuration that is sent has no empty number and no
  empty address of an enabled endpoint, and a screen attached to a service never restarts the engine.\<close>

theorem settings_sent_complete:
  "(CallSave c \<in> set (se_calls (foldl settings_step (settings_mount attached) es)) \<longrightarrow>
      (\<forall>(n, d) \<in> set (config_numbers c). n \<noteq> 0) \<and>
      (mcfg_prometheus_enabled (cfg_metrics c) \<longrightarrow> js_trim (mcfg_prometheus_addr (cfg_metrics c)) \<noteq> ''''))
   \<and> (attached \<longrightarrow> CallRestart \<notin> set (se_calls (foldl settings_step (settings_mount attached) es)))"
  using settings.inv_run [OF settings_inv_mount, of attached es] settings_attached [of "settings_mount attached" es]
  unfolding settings_inv_def sendable_def by (simp add: settings_mount_def)

text \<open>The number that is sent is the one its field shows, the greyed default included, unless the staged
  number is negative; the rest of the configuration goes out as staged.\<close>

theorem save_sends_what_is_shown:
  assumes "\<forall>(n, d) \<in> set (config_numbers c). 0 \<le> n"
  shows "map (show_int \<circ> fst) (config_numbers (fold_defaults c)) = map shown_number (config_numbers c)
    \<and> cfg_role (fold_defaults c) = cfg_role c \<and> cfg_logging (fold_defaults c) = cfg_logging c \<and> cfg_ui (fold_defaults c) = cfg_ui c
    \<and> acfg_gateway_host (cfg_agent (fold_defaults c)) = acfg_gateway_host (cfg_agent c)
    \<and> acfg_token (cfg_agent (fold_defaults c)) = acfg_token (cfg_agent c)
    \<and> acfg_tunnels (cfg_agent (fold_defaults c)) = acfg_tunnels (cfg_agent c)
    \<and> gcfg_bind_addr (cfg_gateway (fold_defaults c)) = gcfg_bind_addr (cfg_gateway c)
    \<and> gcfg_token (cfg_gateway (fold_defaults c)) = gcfg_token (cfg_gateway c)"
proof -
  have "show_int (or_default n d) = shown_number (n, d)" if "(n, d) \<in> set (config_numbers c)" for n d
    using or_default_shown assms default_positive that by blast
  then have "map (show_int \<circ> fst) (config_numbers (fold_defaults c)) = map shown_number (config_numbers c)"
    unfolding fold_defaults_numbers by (auto simp: comp_def)
  then show ?thesis by (simp add: fold_defaults_def Let_def)
qed

text \<open>A refused save leaves the draft as it was, still marked, with the error; a save that goes through shows
  what was sent, unmarked, and reports a restart that failed.\<close>

theorem save_outcomes:
  assumes "settings_inv s" and "se_cfg s = Some c" and "se_dirty s" and "\<not> se_saving s"
  shows "(let r = foldl settings_step s [SaveClick, SaveAnswer (Some e)] in se_cfg r = Some c \<and> se_dirty r \<and> se_err r = e \<and> \<not> se_saving r)
    \<and> (let r = foldl settings_step s ([SaveClick, SaveAnswer None] @ (if se_attached s then [] else [SaveAnswer f])) in
        se_cfg r = Some (fold_defaults c) \<and> \<not> se_dirty r \<and> \<not> se_saving r \<and> se_note r = saved_note
        \<and> se_err r = (case f of Some e \<Rightarrow> if se_attached s then '''' else e | None \<Rightarrow> ''''))"
  using assms by (simp add: settings_save_def save_answer_def save_done_def Let_def split: option.split)

text \<open>An edit made while a save is in flight is overwritten by the answer, and the draft is marked as saved.\<close>

theorem edit_during_save_lost:
  assumes "se_cfg s = Some c" and "se_dirty s" and "\<not> se_saving s" and "se_attached s"
  shows "let r = foldl settings_step s [SaveClick, Edit e, SaveAnswer None] in
    se_cfg r = Some (fold_defaults c) \<and> \<not> save_bar_shown r \<and> note_shown r"
  using assms by (simp add: settings_save_def settings_edit_field_def settings_patch_def save_answer_def save_done_def
      save_bar_shown_def note_shown_def saved_note_def Let_def)

text \<open>An edit made while the engine restarts stays in the form, unsaved, with the save bar gone and the note
  that everything is saved.\<close>

theorem edit_during_restart_unmarked:
  assumes "se_cfg s = Some c" and "se_dirty s" and "\<not> se_saving s" and "\<not> se_attached s"
  shows "let r = foldl settings_step s [SaveClick, SaveAnswer None, Edit e, SaveAnswer None] in
    se_cfg r = Some (patch_config e (fold_defaults c)) \<and> \<not> save_bar_shown r \<and> note_shown r
    \<and> (\<forall>d. CallSave d \<in> set (se_calls r) \<longrightarrow> CallSave d \<in> set (se_calls s) \<or> d = fold_defaults c)"
  using assms by (auto simp: settings_save_def settings_edit_field_def settings_patch_def save_answer_def save_done_def
      save_bar_shown_def note_shown_def saved_note_def Let_def)

text \<open>Edits made while a database picker is open are undone by its answer.\<close>

lemma picker_reverts_edits:
  "se_cfg s = Some c \<Longrightarrow> \<not> se_attached s \<Longrightarrow> se_browse s = [] \<Longrightarrow> p \<noteq> '''' \<Longrightarrow>
    se_cfg (foldl settings_step s [BrowseOpen True, Edit e, BrowsePick True p]) = Some (patch_config (EditCityPath p) c)"
  by (simp add: browse_open_def settings_edit_field_def settings_patch_def browse_pick_def Let_def)

text \<open>A negative number is shown as a cleared field, with the default greyed, and sent as it is.\<close>

lemma negative_number_sent:
  "n < 0 \<Longrightarrow> num_str n = '''' \<and> or_default n d = n"
  by (simp add: num_str_def or_default_def)


section \<open>The section rail\<close>

text \<open>What a scroll event measures: the scroller's padding, its top on the screen, its scroll position and
  heights, and the tops of the sections, for those that are in the document.\<close>

record scroll_view =
  sv_chrome :: real
  sv_rect_top :: real
  sv_scroll_top :: real
  sv_scroll_height :: real
  sv_client_height :: real
  sv_tops :: "string \<Rightarrow> real option"

definition scroll_progress :: "scroll_view \<Rightarrow> real" where
  "scroll_progress v = (let max_scroll = sv_scroll_height v - sv_client_height v in
     if 0 < max_scroll then min 1 (sv_scroll_top v / max_scroll) else 0)"

definition line_base :: "scroll_view \<Rightarrow> real" where
  "line_base v = sv_rect_top v + sv_chrome v + 96"

definition line_floor :: "scroll_view \<Rightarrow> real" where
  "line_floor v = sv_rect_top v + sv_client_height v - 24"

definition reading_line :: "scroll_view \<Rightarrow> real" where
  "reading_line v = line_base v + max 0 (line_floor v - line_base v) * scroll_progress v"

definition section_reached :: "scroll_view \<Rightarrow> string \<Rightarrow> bool" where
  "section_reached v i = (case sv_tops v i of None \<Rightarrow> False | Some y \<Rightarrow> y \<le> reading_line v)"

definition spy_current :: "string list \<Rightarrow> scroll_view \<Rightarrow> string" where
  "spy_current secs v = foldl (\<lambda>cur i. if section_reached v i then i else cur) (case secs of [] \<Rightarrow> '''' | i # _ \<Rightarrow> i) secs"

record rail =
  ra_now :: int
  ra_active :: string
  ra_pin :: bool
  ra_settle :: "int option"

definition rail_mount :: "int \<Rightarrow> string list \<Rightarrow> scroll_view \<Rightarrow> rail" where
  "rail_mount now secs v = \<lparr>ra_now = now, ra_active = spy_current secs v, ra_pin = False, ra_settle = None\<rparr>"

definition rail_scroll :: "string list \<Rightarrow> scroll_view \<Rightarrow> rail \<Rightarrow> rail" where
  "rail_scroll secs v s = (if ra_pin s then s\<lparr>ra_settle := Some (ra_now s + 160)\<rparr> else s\<lparr>ra_active := spy_current secs v\<rparr>)"

definition rail_jump :: "string \<Rightarrow> rail \<Rightarrow> rail" where
  "rail_jump i s = s\<lparr>ra_active := i, ra_pin := True, ra_settle := Some (ra_now s + 400)\<rparr>"

definition rail_clock :: "nat \<Rightarrow> rail \<Rightarrow> rail" where
  "rail_clock d s = (let now = ra_now s + int d in case ra_settle s of
     Some due \<Rightarrow> if due \<le> now then s\<lparr>ra_now := now, ra_pin := False, ra_settle := None\<rparr> else s\<lparr>ra_now := now\<rparr>
   | None \<Rightarrow> s\<lparr>ra_now := now\<rparr>)"

text \<open>The sections change with the role: the cleanup drops the timer, and the new effect spies at once.\<close>

definition rail_sections :: "string list \<Rightarrow> scroll_view \<Rightarrow> rail \<Rightarrow> rail" where
  "rail_sections secs v s = rail_scroll secs v (s\<lparr>ra_settle := None\<rparr>)"

datatype rail_event = Scroll "string list" scroll_view | Jump string | Clock nat | Sections "string list" scroll_view

fun rail_step :: "rail \<Rightarrow> rail_event \<Rightarrow> rail" where
  "rail_step s (Scroll secs v) = rail_scroll secs v s"
| "rail_step s (Jump i) = rail_jump i s"
| "rail_step s (Clock d) = rail_clock d s"
| "rail_step s (Sections secs v) = rail_sections secs v s"

definition rail_inv :: "rail \<Rightarrow> bool" where
  "rail_inv s \<longleftrightarrow> (case ra_settle s of None \<Rightarrow> \<not> ra_pin s | Some due \<Rightarrow> ra_pin s \<and> ra_now s < due \<and> due \<le> ra_now s + 400)"

interpretation rail: invariant_machine rail_step rail_inv
proof unfold_locales
  fix s e assume "rail_inv s"
  then show "rail_inv (rail_step s e)"
    by (cases e) (auto simp: rail_inv_def rail_scroll_def rail_jump_def rail_clock_def rail_sections_def Let_def
        split: option.splits if_splits)
qed

lemma foldl_last_reached:
  "p x \<Longrightarrow> \<forall>y \<in> set ys. \<not> p y \<Longrightarrow> foldl (\<lambda>cur i. if p i then i else cur) c (xs @ x # ys) = x"
proof -
  assume "p x" and none: "\<forall>y \<in> set ys. \<not> p y"
  have "foldl (\<lambda>cur i. if p i then i else cur) d ys = d" for d
    using none by (induction ys) auto
  with \<open>p x\<close> show ?thesis by simp
qed

lemma foldl_none_reached: "\<forall>y \<in> set ys. \<not> p y \<Longrightarrow> foldl (\<lambda>cur i. if p i then i else cur) c ys = c"
  by (induction ys) auto

lemma reading_line_bounds:
  assumes "0 \<le> sv_scroll_top v"
  shows "line_base v \<le> reading_line v \<and> reading_line v \<le> max (line_base v) (line_floor v)"
proof -
  have p: "0 \<le> scroll_progress v" "scroll_progress v \<le> 1"
    using assms by (auto simp: scroll_progress_def Let_def)
  let ?m = "max 0 (line_floor v - line_base v)"
  have "0 \<le> ?m * scroll_progress v" using p by simp
  moreover have "?m * scroll_progress v \<le> ?m * 1" using p by (intro mult_left_mono) auto
  ultimately show ?thesis by (auto simp: reading_line_def)
qed

text \<open>The spy highlights the last section whose top has reached the reading line, the first section if none
  has. The line starts below the title bar and, at the end of the scroll, stands at the bottom of the
  view, so that the last section is highlighted there once its top is in view.\<close>

theorem scroll_spy:
  assumes "secs = xs @ i # ys" and "0 \<le> sv_scroll_top v"
  shows "(section_reached v i \<and> (\<forall>j \<in> set ys. \<not> section_reached v j) \<longrightarrow> spy_current secs v = i)
    \<and> ((\<forall>j \<in> set secs. \<not> section_reached v j) \<longrightarrow> spy_current secs v = hd secs)
    \<and> line_base v \<le> reading_line v \<and> reading_line v \<le> max (line_base v) (line_floor v)
    \<and> (ys = [] \<and> sv_scroll_top v = sv_scroll_height v - sv_client_height v \<and> 0 < sv_scroll_top v
        \<and> (\<exists>y \<le> line_floor v. sv_tops v i = Some y) \<longrightarrow> spy_current secs v = i)"
proof -
  have last: "spy_current secs v = i" if "section_reached v i" "\<forall>j \<in> set ys. \<not> section_reached v j"
    using foldl_last_reached [of "section_reached v" i ys] that by (simp add: spy_current_def assms(1))
  moreover have "spy_current secs v = hd secs" if "\<forall>j \<in> set secs. \<not> section_reached v j"
    using foldl_none_reached [OF that] assms(1) by (simp add: spy_current_def split: list.split)
  moreover have "section_reached v i"
    if "sv_scroll_top v = sv_scroll_height v - sv_client_height v" "0 < sv_scroll_top v" "y \<le> line_floor v" "sv_tops v i = Some y" for y
  proof -
    have "scroll_progress v = 1" using that by (simp add: scroll_progress_def Let_def)
    then have "line_floor v \<le> reading_line v" by (simp add: reading_line_def)
    with that show ?thesis by (simp add: section_reached_def)
  qed
  ultimately show ?thesis using reading_line_bounds [OF assms(2)] by auto
qed

text \<open>After a click the highlight stays on the section that was clicked, however the page scrolls, until the
  pin releases, which it does at the latest four tenths of a second after the last event.\<close>

theorem pin_holds_target:
  assumes "\<forall>e \<in> set es. \<forall>j. e \<noteq> Jump j"
  shows "let s = foldl rail_step (rail_step (foldl rail_step (rail_mount now secs v) ds) (Jump i)) es in
    (ra_pin s \<longrightarrow> ra_active s = i) \<and> (400 \<le> d \<longrightarrow> \<not> ra_pin (rail_step s (Clock d)))"
proof -
  let ?s0 = "foldl rail_step (rail_mount now secs v) ds"
  have inv0: "rail_inv (rail_mount now secs v)" by (simp add: rail_inv_def rail_mount_def)
  have inv: "rail_inv (rail_step ?s0 (Jump i))" by (intro rail.inv_step rail.inv_run inv0)
  have keep: "ra_pin (foldl rail_step s es) \<longrightarrow> ra_active (foldl rail_step s es) = i"
    if "ra_pin s \<longrightarrow> ra_active s = i" for s
    using assms that
  proof (induction es arbitrary: s)
    case (Cons e es)
    have "ra_pin (rail_step s e) \<longrightarrow> ra_active (rail_step s e) = i"
      using Cons.prems by (cases e) (auto simp: rail_scroll_def rail_clock_def rail_sections_def Let_def split: option.splits)
    with Cons show ?case by simp
  qed simp
  have "ra_pin (rail_step ?s0 (Jump i)) \<longrightarrow> ra_active (rail_step ?s0 (Jump i)) = i" by (simp add: rail_jump_def)
  note keep [OF this]
  moreover have "rail_inv (foldl rail_step (rail_step ?s0 (Jump i)) es)" by (rule rail.inv_run [OF inv])
  ultimately show ?thesis
    by (auto simp: Let_def rail_inv_def rail_clock_def split: option.splits)
qed

section \<open>The system, token and database rows\<close>

datatype badge_tone = ToneGood | ToneWarn | ToneNeutral | ToneBad

definition svc_key :: "string \<Rightarrow> string" where
  "svc_key s = filter (\<lambda>c. c \<notin> {CHR ''-'', CHR ''_'', CHR '' ''}) (js_lower s)"

definition svc_display :: "string \<Rightarrow> string \<times> badge_tone \<times> bool" where
  "svc_display svc = (let k = svc_key svc in
     if k = ''running'' then (''Running'', ToneGood, True)
     else if k = ''stopped'' then (''Stopped'', ToneWarn, True)
     else if k = ''notinstalled'' then (''Not installed'', ToneNeutral, False)
     else if k = ellipsis then (ellipsis, ToneNeutral, False)
     else (''Unknown'', ToneNeutral, False))"

text \<open>The system section: an action has a key, and what it did is refreshed when it is over.\<close>

record system_row =
  sy_fw :: "bool option"
  sy_svc :: string
  sy_busy :: string
  sy_err :: string
  sy_flight :: "string list"

definition system_mount :: system_row where
  "system_mount = \<lparr>sy_fw = None, sy_svc = ellipsis, sy_busy = '''', sy_err = '''', sy_flight = []\<rparr>"

definition system_wrap :: "string \<Rightarrow> system_row \<Rightarrow> system_row" where
  "system_wrap key s = (if sy_busy s = key then s else s\<lparr>sy_busy := key, sy_err := '''', sy_flight := sy_flight s @ [key]\<rparr>)"

definition system_over :: "string \<Rightarrow> string option \<Rightarrow> system_row \<Rightarrow> system_row" where
  "system_over key err s = (if key \<in> set (sy_flight s)
     then s\<lparr>sy_flight := remove1 key (sy_flight s), sy_err := (case err of Some e \<Rightarrow> e | None \<Rightarrow> sy_err s), sy_busy := ''''\<rparr>
     else s)"

definition system_firewall :: "bool option \<Rightarrow> system_row \<Rightarrow> system_row" where
  "system_firewall r s = s\<lparr>sy_fw := r\<rparr>"

definition system_service :: "string option \<Rightarrow> system_row \<Rightarrow> system_row" where
  "system_service r s = s\<lparr>sy_svc := (case r of Some v \<Rightarrow> v | None \<Rightarrow> ''unknown'')\<rparr>"

definition firewall_badge :: "bool option \<Rightarrow> string \<times> badge_tone" where
  "firewall_badge fw = (case fw of None \<Rightarrow> (''Unknown'', ToneNeutral)
   | Some b \<Rightarrow> if b then (''Present'', ToneGood) else (''Missing'', ToneWarn))"

definition repair_shown :: "bool option \<Rightarrow> bool" where
  "repair_shown fw \<longleftrightarrow> fw \<noteq> Some True"

text \<open>\<open>TokenRotate\<close>: a confirmation, then one rotation at a time; \<open>tr_done\<close> counts the calls of \<open>onDone\<close>.\<close>

record token_row =
  tr_busy :: bool
  tr_confirm :: bool
  tr_err :: string
  tr_done :: nat

definition token_click :: "token_row \<Rightarrow> token_row" where
  "token_click s = (if tr_confirm s then s else s\<lparr>tr_confirm := True\<rparr>)"

definition token_cancel :: "token_row \<Rightarrow> token_row" where
  "token_cancel s = s\<lparr>tr_confirm := False\<rparr>"

definition token_rotate :: "token_row \<Rightarrow> token_row \<times> bool" where
  "token_rotate s = (if tr_confirm s \<and> \<not> tr_busy s then (s\<lparr>tr_busy := True, tr_err := ''''\<rparr>, True) else (s, False))"

definition token_answer :: "string option \<Rightarrow> token_row \<Rightarrow> token_row" where
  "token_answer err s = (case err of
     None \<Rightarrow> s\<lparr>tr_confirm := False, tr_done := Suc (tr_done s), tr_busy := False\<rparr>
   | Some e \<Rightarrow> s\<lparr>tr_err := e, tr_busy := False\<rparr>)"

definition copy_code_shown :: "bool \<Rightarrow> string \<Rightarrow> bool" where
  "copy_code_shown attached code \<longleftrightarrow> \<not> attached \<and> code \<noteq> ''''"

datatype mmdb_badge = MmdbNone | MmdbFailed string | MmdbLoaded | MmdbPending

definition mmdb_badge_of :: "string \<Rightarrow> bool \<Rightarrow> string option \<Rightarrow> mmdb_badge" where
  "mmdb_badge_of path loaded err = (if js_trim path = '''' then MmdbNone
     else case err of Some e \<Rightarrow> if e \<noteq> '''' then MmdbFailed e else if loaded then MmdbLoaded else MmdbPending
     | None \<Rightarrow> if loaded then MmdbLoaded else MmdbPending)"

definition creator_info :: "string \<times> string \<Rightarrow> string \<times> string" where
  "creator_info i = (if fst i = '''' then ''xeri'' else fst i, if snd i = '''' then ''https://github.com/xeri'' else snd i)"

lemma service_spellings:
  "svc_display ''not-installed'' = (''Not installed'', ToneNeutral, False)"
  "svc_display ''Not installed'' = (''Not installed'', ToneNeutral, False)"
  "svc_display ''RUNNING'' = (''Running'', ToneGood, True)"
  by code_simp+

text \<open>When an action is over the busy mark goes, also the mark of an action that is still under way, so that
  action can be started a second time.\<close>

lemma other_action_unblocks:
  "let s = foldl (\<lambda>s f. f s) system_mount [system_wrap ''svc'', system_wrap ''fw'', system_over ''fw'' None, system_wrap ''svc''] in
    sy_flight s = [''svc'', ''svc'']"
  by (simp add: system_mount_def system_wrap_def system_over_def Let_def)


definition default_config :: config where
  "default_config = \<lparr>cfg_role = ''agent'',
     cfg_agent = \<lparr>acfg_agent_id = '''', acfg_gateway_host = ''h'', acfg_gateway_port = 0, acfg_token = ''t'', acfg_cert_fingerprint = '''',
       acfg_transport = ''auto'', acfg_tunnels = [], acfg_enroll_ticket = ''''\<rparr>,
     cfg_gateway = \<lparr>gcfg_bind_addr = '''', gcfg_control_port = 9000, gcfg_token = '''', gcfg_public_host = '''', gcfg_port_allowlist = [],
       gcfg_max_conns_global = 0, gcfg_max_conns_per_ip = 7, gcfg_auth_attempts_per_min = 0, gcfg_quic_enabled = True, gcfg_accept_shared_token = True\<rparr>,
     cfg_metrics = \<lparr>mcfg_prometheus_enabled = True, mcfg_prometheus_addr = ''''\<rparr>,
     cfg_logging = \<lparr>lcfg_level = ''info'', lcfg_file_enabled = True\<rparr>,
     cfg_ui = \<lparr>uicfg_theme = ''dark'', uicfg_minimize_to_tray = True, uicfg_autostart = False\<rparr>,
     cfg_analytics = \<lparr>ancfg_retention_days = 0, ancfg_mojang_lookups = True, ancfg_geo_ip_city_path = '''', ancfg_geo_ipasn_path = ''''\<rparr>\<rparr>"

definition draft_page :: "bool \<Rightarrow> settings_page" where
  "draft_page attached = foldl settings_step (settings_mount attached) [Loaded (Inr default_config), Edit (EditHost ''h'')]"

lemma draft_page_fields:
  "settings_inv (draft_page attached)" "se_cfg (draft_page attached) = Some default_config" "se_dirty (draft_page attached)"
  "\<not> se_saving (draft_page attached)" "se_attached (draft_page attached) = attached"
proof -
  show "settings_inv (draft_page attached)" unfolding draft_page_def by (rule settings.inv_run [OF settings_inv_mount])
qed (simp_all add: draft_page_def settings_mount_def settings_loaded_def settings_edit_field_def settings_patch_def patch_config_def default_config_def)

text \<open>An empty bind address, whose field shows a greyed default too, is sent empty.\<close>

lemma bind_address_not_folded: "gcfg_bind_addr (cfg_gateway (fold_defaults default_config)) = ''''"
  by (simp add: fold_defaults_def default_config_def Let_def)

theorem settings_sent_complete_witness:
  "0 \<notin> fst ` set (config_numbers (fold_defaults default_config))
   \<and> CallRestart \<notin> set (se_calls (foldl settings_step (settings_mount True) [Loaded (Inr default_config), Edit (EditHost ''h''), SaveClick]))"
proof -
  let ?es = "[Loaded (Inr default_config), Edit (EditHost ''h''), SaveClick]"
  have "CallSave (fold_defaults default_config) \<in> set (se_calls (foldl settings_step (settings_mount True) ?es))"
    using draft_page_fields [of True] by (simp add: draft_page_def settings_save_def)
  then show ?thesis using settings_sent_complete [of "fold_defaults default_config" True ?es] by fastforce
qed

theorem save_sends_what_is_shown_witness:
  "map (show_int \<circ> fst) (config_numbers (fold_defaults default_config)) = map shown_number (config_numbers default_config)"
  using save_sends_what_is_shown [of default_config] by (simp add: config_numbers_def default_config_def)

theorem save_outcomes_witness:
  "se_cfg (foldl settings_step (draft_page False) [SaveClick, SaveAnswer (Some ''no'')]) = Some default_config"
  using save_outcomes [OF draft_page_fields(1-4) [of False], of "''no''" None] by (simp add: Let_def)

theorem edit_during_save_lost_witness:
  "se_cfg (foldl settings_step (draft_page True) [SaveClick, Edit (EditHost ''x''), SaveAnswer None]) = Some (fold_defaults default_config)"
  using edit_during_save_lost [of "draft_page True" default_config "EditHost ''x''"] draft_page_fields [of True] by (simp add: Let_def)

theorem edit_during_restart_unmarked_witness:
  "\<not> save_bar_shown (foldl settings_step (draft_page False) [SaveClick, SaveAnswer None, Edit (EditHost ''x''), SaveAnswer None])"
  using edit_during_restart_unmarked [of "draft_page False" default_config "EditHost ''x''"] draft_page_fields [of False] by (simp add: Let_def)

definition scroll_sample :: scroll_view where
  "scroll_sample = \<lparr>sv_chrome = 0, sv_rect_top = 0, sv_scroll_top = 1000, sv_scroll_height = 1600, sv_client_height = 600,
     sv_tops = (\<lambda>i. if i = ''about'' then Some 500 else Some 0)\<rparr>"

theorem scroll_spy_witness: "spy_current [''appearance'', ''about''] scroll_sample = ''about''"
  using scroll_spy [of "[''appearance'', ''about'']" "[''appearance'']" "''about''" "[]" scroll_sample]
  by (simp add: scroll_sample_def line_floor_def)

theorem pin_holds_target_witness:
  "ra_active (foldl rail_step (rail_mount 0 [''about''] scroll_sample) [Jump ''backup'', Scroll [''about''] scroll_sample]) = ''backup''"
proof -
  have "ra_pin (foldl rail_step (rail_mount 0 [''about''] scroll_sample) [Jump ''backup'', Scroll [''about''] scroll_sample])"
    by (simp add: rail_jump_def rail_scroll_def)
  then show ?thesis
    using pin_holds_target [of "[Scroll [''about''] scroll_sample]" 0 "[''about'']" scroll_sample "[]" "''backup''" 0] by (simp add: Let_def)
qed

end
