(* ===== verification/Theme.thy ===== *)
theory Theme
  imports Prefs
begin

text \<open>
  The theme engine (\<open>theme.ts\<close>): the tri-state preference, its resolution against the system,
  \<open>apply\<close>, and \<open>animateSwap\<close>. A swap through a view transition is asynchronous: the browser runs
  the callback later and later still settles \<open>finished\<close>; both are events here, in any order the
  browser may produce. Timers carry their deadline and fire when the clock reaches it.
\<close>

datatype theme_pref = PrefDark | PrefLight | PrefSystem
datatype theme = Dark | Light

fun theme_pref_name :: "theme_pref \<Rightarrow> string" where
  "theme_pref_name PrefDark = ''dark''" | "theme_pref_name PrefLight = ''light''"
| "theme_pref_name PrefSystem = ''system''"

definition theme_key :: string where
  "theme_key = ''pf-theme''"

definition theme_pref_of :: "store \<Rightarrow> theme_pref" where
  "theme_pref_of m = (if m theme_key = Some ''light'' then PrefLight
     else if m theme_key = Some ''system'' then PrefSystem else PrefDark)"

definition save_theme :: "theme_pref \<Rightarrow> store \<Rightarrow> store" where
  "save_theme p m = m(theme_key \<mapsto> theme_pref_name p)"

definition resolve :: "theme_pref \<Rightarrow> bool \<Rightarrow> theme" where
  "resolve p os_dark = (case p of PrefSystem \<Rightarrow> if os_dark then Dark else Light
     | PrefLight \<Rightarrow> Light | PrefDark \<Rightarrow> Dark)"

datatype timer_kind = EndReglaze | EndAnim

record theme_state =
  th_store :: store
  th_os_dark :: bool
  th_reduced :: bool              \<comment> \<open>\<open>prefersReduced()\<close>\<close>
  th_has_vt :: bool               \<comment> \<open>the engine has \<open>startViewTransition\<close>\<close>
  th_shown :: "theme option"      \<comment> \<open>the \<open>data-theme\<close> attribute\<close>
  th_window :: "nat \<times> nat \<times> nat"  \<comment> \<open>native background colour\<close>
  th_backend :: "theme_pref list" \<comment> \<open>\<open>SetTheme\<close> calls\<close>
  th_notified :: nat
  th_token :: nat                 \<comment> \<open>\<open>swapToken\<close>\<close>
  th_snap :: bool                 \<comment> \<open>\<open>pf-theme-snap\<close> and \<open>pf-relight\<close>\<close>
  th_reglaze :: bool
  th_anim :: bool
  th_vts :: "(nat \<times> bool) list"   \<comment> \<open>unfinished transitions: token, callback has run\<close>
  th_timers :: "(int \<times> timer_kind) list"
  th_clock :: int

definition resolved_theme :: "theme_state \<Rightarrow> theme" where
  "resolved_theme s = resolve (theme_pref_of (th_store s)) (th_os_dark s)"

definition apply_theme :: "theme_state \<Rightarrow> theme_state" where
  "apply_theme s = (let t = resolved_theme s in s\<lparr>th_shown := Some t,
     th_window := (if t = Light then (236, 238, 246) else (11, 13, 19)), th_notified := Suc (th_notified s)\<rparr>)"

definition theme_sweep_ms :: int where
  "theme_sweep_ms = 1050"

definition animate_swap :: "theme_state \<Rightarrow> theme_state" where
  "animate_swap s = (if th_reduced s then apply_theme s
     else let s = s\<lparr>th_reglaze := True,
         th_timers := th_timers s @ [(th_clock s + theme_sweep_ms + 100, EndReglaze)]\<rparr> in
       if th_has_vt s then
         let tok = Suc (th_token s) in
         s\<lparr>th_token := tok, th_snap := True, th_vts := th_vts s @ [(tok, False)]\<rparr>
       else apply_theme (s\<lparr>th_anim := True, th_timers := th_timers s @ [(th_clock s + 700, EndAnim)]\<rparr>))"

definition set_theme_pref :: "theme_pref \<Rightarrow> theme_state \<Rightarrow> theme_state" where
  "set_theme_pref p s = (let before = resolved_theme s;
       s = s\<lparr>th_store := save_theme p (th_store s), th_backend := th_backend s @ [p]\<rparr> in
     if resolved_theme s = before then apply_theme s else animate_swap s)"

definition toggle_theme :: "theme_state \<Rightarrow> theme_state" where
  "toggle_theme s = set_theme_pref (if resolved_theme s = Dark then PrefLight else PrefDark) s"

definition os_theme_change :: "bool \<Rightarrow> theme_state \<Rightarrow> theme_state" where
  "os_theme_change dark s = (let s = s\<lparr>th_os_dark := dark\<rparr> in
     if theme_pref_of (th_store s) = PrefSystem then animate_swap s else s)"

text \<open>The browser runs a transition's callback, at most once.\<close>

definition vt_run :: "nat \<Rightarrow> theme_state \<Rightarrow> theme_state" where
  "vt_run tok s = (if (tok, False) \<in> set (th_vts s)
     then apply_theme (s\<lparr>th_vts := map (\<lambda>v. if v = (tok, False) then (tok, True) else v) (th_vts s)\<rparr>)
     else s)"

text \<open>\<open>finished\<close> settles after the callback, either way it settles: \<open>done\<close>.\<close>

definition vt_done :: "nat \<Rightarrow> theme_state \<Rightarrow> theme_state" where
  "vt_done tok s = (if (tok, True) \<in> set (th_vts s)
     then s\<lparr>th_vts := filter (\<lambda>v. fst v \<noteq> tok) (th_vts s),
            th_snap := (if tok = th_token s then False else th_snap s)\<rparr>
     else s)"

definition fire_timers :: "int \<Rightarrow> theme_state \<Rightarrow> theme_state" where
  "fire_timers now s = (let due = filter (\<lambda>(t, _). t \<le> now) (th_timers s) in
     s\<lparr>th_clock := now, th_timers := filter (\<lambda>(t, _). now < t) (th_timers s),
       th_reglaze := (th_reglaze s \<and> EndReglaze \<notin> snd ` set due),
       th_anim := (th_anim s \<and> EndAnim \<notin> snd ` set due)\<rparr>)"

datatype theme_event = SetPref theme_pref | Toggle | OsTheme bool | VtRun nat | VtDone nat | Clock int

fun theme_step :: "theme_state \<Rightarrow> theme_event \<Rightarrow> theme_state" where
  "theme_step s (SetPref p) = set_theme_pref p s"
| "theme_step s Toggle = toggle_theme s"
| "theme_step s (OsTheme dark) = os_theme_change dark s"
| "theme_step s (VtRun tok) = vt_run tok s"
| "theme_step s (VtDone tok) = vt_done tok s"
| "theme_step s (Clock now) = (if th_clock s \<le> now then fire_timers now s else s)"

text \<open>The module's state after \<open>initTheme\<close>: the persisted theme is applied before first paint.\<close>

definition init_theme :: "store \<Rightarrow> bool \<Rightarrow> bool \<Rightarrow> bool \<Rightarrow> theme_state" where
  "init_theme m dark reduced vt = apply_theme \<lparr>th_store = m, th_os_dark = dark, th_reduced = reduced,
     th_has_vt = vt, th_shown = None, th_window = (0, 0, 0), th_backend = [], th_notified = 0, th_token = 0,
     th_snap = False, th_reglaze = False, th_anim = False, th_vts = [], th_timers = [], th_clock = 0\<rparr>"

interpretation theme_store: pref theme_pref_of save_theme theme_key "\<lambda>_. True"
proof unfold_locales
  show "theme_pref_of (save_theme v m) = v" for v m
    by (cases v) (simp_all add: theme_pref_of_def save_theme_def)
qed (auto simp: theme_pref_of_def save_theme_def theme_key_def)

section \<open>The invariant\<close>

text \<open>
  Tokens of unfinished transitions are distinct and never newer than the counter; the freeze
  classes are on exactly while the newest swap is unfinished; what is shown can differ from the
  preference only while a callback has yet to run.
\<close>

definition theme_inv :: "theme_state \<Rightarrow> bool" where
  "theme_inv s \<longleftrightarrow> distinct (map fst (th_vts s)) \<and> (\<forall>t \<in> fst ` set (th_vts s). t \<le> th_token s)
    \<and> (th_snap s \<longleftrightarrow> th_token s \<in> fst ` set (th_vts s))
    \<and> (th_shown s = Some (resolved_theme s) \<or> False \<in> snd ` set (th_vts s))"

lemmas theme_defs = theme_inv_def apply_theme_def Let_def resolved_theme_def

lemma theme_inv_apply: "theme_inv s \<Longrightarrow> theme_inv (apply_theme s)"
  by (simp add: theme_defs)

lemma apply_theme_fields [simp]:
  "th_vts (apply_theme s) = th_vts s" "th_token (apply_theme s) = th_token s"
  "th_snap (apply_theme s) = th_snap s" "th_reglaze (apply_theme s) = th_reglaze s"
  "th_timers (apply_theme s) = th_timers s" "th_clock (apply_theme s) = th_clock s"
  "resolved_theme (apply_theme s) = resolved_theme s" "th_shown (apply_theme s) = Some (resolved_theme s)"
  by (simp_all add: theme_defs)

text \<open>The part of the invariant that does not speak of the theme shown, kept by \<open>animateSwap\<close>
  even when the preference has just changed.\<close>

lemma theme_inv_animate:
  assumes "distinct (map fst (th_vts s))" and "\<forall>t \<in> fst ` set (th_vts s). t \<le> th_token s"
    and "th_snap s \<longleftrightarrow> th_token s \<in> fst ` set (th_vts s)"
  shows "theme_inv (animate_swap s)"
proof -
  from assms(2) have "Suc (th_token s) \<notin> fst ` set (th_vts s)" by force
  moreover have "\<forall>t \<in> fst ` set (th_vts s). t \<le> Suc (th_token s)" using assms(2) by (simp add: le_Suc_eq)
  ultimately show ?thesis using assms by (simp add: animate_swap_def theme_inv_def Let_def)
qed

lemma theme_inv_set_pref: "theme_inv s \<Longrightarrow> theme_inv (set_theme_pref p s)"
proof -
  assume inv: "theme_inv s"
  let ?s = "s\<lparr>th_store := save_theme p (th_store s), th_backend := th_backend s @ [p]\<rparr>"
  have "theme_inv (animate_swap ?s)"
    by (rule theme_inv_animate) (use inv in \<open>auto simp: theme_inv_def\<close>)
  moreover have "theme_inv (apply_theme ?s)"
    using inv by (simp add: theme_inv_def)
  ultimately show ?thesis by (simp add: set_theme_pref_def Let_def)
qed

lemma theme_inv_os: "theme_inv s \<Longrightarrow> theme_inv (os_theme_change d s)"
proof -
  assume inv: "theme_inv s"
  have "theme_inv (animate_swap (s\<lparr>th_os_dark := d\<rparr>))"
    by (rule theme_inv_animate) (use inv in \<open>auto simp: theme_inv_def\<close>)
  moreover have "theme_inv (s\<lparr>th_os_dark := d\<rparr>)" if "theme_pref_of (th_store s) \<noteq> PrefSystem"
    using inv that by (cases "theme_pref_of (th_store s)") (simp_all add: theme_inv_def resolved_theme_def resolve_def)
  ultimately show ?thesis by (simp add: os_theme_change_def Let_def)
qed

lemma theme_inv_run: "theme_inv s \<Longrightarrow> theme_inv (vt_run tok s)"
proof -
  assume inv: "theme_inv s"
  let ?f = "\<lambda>v. if v = (tok, False) then (tok, True) else v"
  have fst: "map fst (map ?f vs) = map fst vs" for vs by (induction vs) auto
  then have "fst ` set (map ?f vs) = fst ` set vs" for vs by (metis list.set_map)
  with inv fst show ?thesis by (simp add: vt_run_def theme_inv_def del: map_map set_map ball_simps)
qed

lemma theme_inv_done: "theme_inv s \<Longrightarrow> theme_inv (vt_done tok s)"
proof -
  assume inv: "theme_inv s"
  show ?thesis
  proof (cases "(tok, True) \<in> set (th_vts s)")
    case True
    with inv have only: "(tok, False) \<notin> set (th_vts s)"
      unfolding theme_inv_def by (metis eq_key_imp_eq_value)
    have img: "fst ` set (filter (\<lambda>v. fst v \<noteq> tok) vs) = fst ` set vs - {tok}" for vs :: "(nat \<times> bool) list"
      by auto
    have keep: "False \<in> snd ` set (filter (\<lambda>v. fst v \<noteq> tok) (th_vts s))" if "False \<in> snd ` set (th_vts s)"
      using that only by force
    have "distinct (map fst (filter (\<lambda>v. fst v \<noteq> tok) (th_vts s)))"
      using inv by (simp add: theme_inv_def distinct_map_filter)
    with inv True keep show ?thesis
      by (auto simp: vt_done_def theme_inv_def resolved_theme_def img simp del: set_filter)
  qed (use inv in \<open>simp add: vt_done_def\<close>)
qed

lemma theme_inv_step: "theme_inv s \<Longrightarrow> theme_inv (theme_step s e)"
  by (cases e) (auto simp: theme_inv_set_pref toggle_theme_def theme_inv_os theme_inv_run theme_inv_done,
      auto simp: fire_timers_def theme_inv_def resolved_theme_def Let_def)

interpretation theme: invariant_machine theme_step theme_inv
  by unfold_locales (rule theme_inv_step)

lemma theme_inv_init: "theme_inv (init_theme m dark reduced vt)"
  by (simp add: init_theme_def theme_inv_def)

section \<open>Properties\<close>

text \<open>C7. However fast the theme is toggled and in whatever order the browser runs and finishes the
  view transitions, once no transition is unfinished the page shows the theme the preference
  resolves to and the freeze classes are gone; and while the newest swap is still unfinished they
  stay on, whatever older swaps have finished.\<close>

theorem theme_settles:
  "let s = foldl theme_step (init_theme m dark reduced vt) es in
     (th_vts s = [] \<longrightarrow> th_shown s = Some (resolved_theme s) \<and> \<not> th_snap s)
   \<and> (th_token s \<in> fst ` set (th_vts s) \<longrightarrow> th_snap s)"
proof -
  have "theme_inv (foldl theme_step (init_theme m dark reduced vt) es)"
    by (rule theme.inv_run [OF theme_inv_init])
  then show ?thesis unfolding theme_inv_def Let_def by (metis empty_iff empty_set image_empty)
qed

theorem theme_settles_witness:
  "th_shown (foldl theme_step (init_theme Map.empty True False True)
     [Toggle, Toggle, VtRun 1, VtRun 2, VtDone 1, VtDone 2]) = Some Dark"
proof -
  let ?s = "foldl theme_step (init_theme Map.empty True False True)
     [Toggle, Toggle, VtRun 1, VtRun 2, VtDone 1, VtDone 2]"
  have "th_vts ?s = [] \<and> resolved_theme ?s = Dark"
    by (simp add: init_theme_def apply_theme_def toggle_theme_def set_theme_pref_def animate_swap_def
        vt_run_def vt_done_def resolved_theme_def resolve_def theme_pref_of_def save_theme_def theme_key_def)
  with theme_settles [of Map.empty True False True "[Toggle, Toggle, VtRun 1, VtRun 2, VtDone 1, VtDone 2]"]
  show ?thesis by (simp only: Let_def)
qed

text \<open>Setting a preference that resolves to the appearance already shown starts no animation:
  no transition, no class, no timer; the preference is still saved, sent to the backend and
  applied.\<close>

theorem silent_theme_change:
  assumes "resolve p (th_os_dark s) = resolved_theme s"
  shows "let s' = set_theme_pref p s in
     theme_pref_of (th_store s') = p \<and> th_backend s' = th_backend s @ [p] \<and> th_shown s' = Some (resolved_theme s)
   \<and> th_vts s' = th_vts s \<and> th_snap s' = th_snap s \<and> th_timers s' = th_timers s \<and> th_reglaze s' = th_reglaze s"
  using assms theme_store.load_save [of p "th_store s"]
  by (simp add: set_theme_pref_def resolved_theme_def Let_def apply_theme_def)

theorem silent_theme_change_witness:
  "th_vts (set_theme_pref PrefSystem (init_theme Map.empty True False True)) = []"
proof -
  have "resolve PrefSystem True = Dark" "resolved_theme (init_theme Map.empty True False True) = Dark"
    "th_os_dark (init_theme Map.empty True False True) = True" "th_vts (init_theme Map.empty True False True) = []"
    by (simp_all add: init_theme_def apply_theme_def resolved_theme_def resolve_def theme_pref_of_def theme_key_def)
  then show ?thesis
    using silent_theme_change [of PrefSystem "init_theme Map.empty True False True"] by (simp add: Let_def)
qed

text \<open>The glaze class has no such guard: when a second swap starts 600 ms after the first, the
  first swap's timer takes \<open>pf-reglaze\<close> off at 1150 ms although the second sweep, which needs it
  until 1750 ms, is still running.\<close>

theorem reglaze_cut_short:
  "let s = foldl theme_step (init_theme Map.empty True False True) [Toggle, Clock 600, Toggle, Clock 1150] in
     \<not> th_reglaze s \<and> th_snap s \<and> (1750, EndReglaze) \<in> set (th_timers s)"
  by (simp add: init_theme_def apply_theme_def toggle_theme_def set_theme_pref_def animate_swap_def
      fire_timers_def resolved_theme_def resolve_def theme_pref_of_def save_theme_def theme_key_def
      theme_sweep_ms_def)

end
