(* ===== verification/Subscriptions.thy ===== *)
theory Subscriptions
  imports Theme Hooks
begin

text \<open>
  The React side of the module stores: \<open>useMotion\<close> (\<open>motion.ts\<close>), \<open>useTheme\<close> (\<open>theme.ts\<close>) and \<open>useTitleContext\<close>
  (\<open>pagecontext.ts\<close>). A component renders what the store holds, subscribes in an effect, and renders again when the store
  notifies its subscribers. \<open>useSyncExternalStore\<close> also compares the store with what was rendered when it subscribes.
\<close>

section \<open>The contract of a store\<close>

text \<open>\<open>cnt\<close> counts the notifications. A store that changes without one owes it: \<open>owed\<close>.\<close>

locale notifying_store = invariant_machine step inv for step :: "'w \<Rightarrow> 'e \<Rightarrow> 'w" and inv +
  fixes read :: "'w \<Rightarrow> 'a" and cnt :: "'w \<Rightarrow> nat" and owed :: "'w \<Rightarrow> bool"
  assumes silent: "inv w \<Longrightarrow> cnt (step w e) = cnt w \<Longrightarrow> owed (step w e) \<or> read (step w e) = read w \<and> \<not> owed w"

section \<open>A hook on a store\<close>

record ('w, 'a) store_hook =
  sh_world :: 'w
  sh_shown :: 'a
  sh_listening :: bool

datatype 'e hook_event =
    World 'e                     \<comment> \<open>something happens to the store\<close>
  | HookEffect                   \<comment> \<open>the effect of the first render subscribes\<close>
  | HookRender                   \<comment> \<open>the component renders for a reason of its own\<close>
  | HookUnmount

definition hook_mount :: "('w \<Rightarrow> 'a) \<Rightarrow> 'w \<Rightarrow> ('w, 'a) store_hook" where
  "hook_mount read w = \<lparr>sh_world = w, sh_shown = read w, sh_listening = False\<rparr>"

definition hook_notice :: "('w \<Rightarrow> 'a) \<Rightarrow> ('w \<Rightarrow> nat) \<Rightarrow> 'w \<Rightarrow> ('w, 'a) store_hook \<Rightarrow> ('w, 'a) store_hook" where
  "hook_notice read cnt w s = s\<lparr>sh_world := w, sh_shown := (if sh_listening s \<and> cnt w \<noteq> cnt (sh_world s) then read w else sh_shown s)\<rparr>"

definition store_hook_step :: "('w \<Rightarrow> 'e \<Rightarrow> 'w) \<Rightarrow> ('w \<Rightarrow> 'a) \<Rightarrow> ('w \<Rightarrow> nat) \<Rightarrow> bool \<Rightarrow> ('w, 'a) store_hook \<Rightarrow> 'e hook_event \<Rightarrow> ('w, 'a) store_hook" where
  "store_hook_step step read cnt sync s e = (case e of
     World w \<Rightarrow> hook_notice read cnt (step (sh_world s) w) s
   | HookEffect \<Rightarrow> s\<lparr>sh_listening := True, sh_shown := (if sync then read (sh_world s) else sh_shown s)\<rparr>
   | HookRender \<Rightarrow> s\<lparr>sh_shown := read (sh_world s)\<rparr>
   | HookUnmount \<Rightarrow> s\<lparr>sh_listening := False\<rparr>)"

text \<open>A run of a component that neither subscribes again nor goes: the store changes, or the component renders (\<open>None\<close>).\<close>

definition mounted_run :: "'e option list \<Rightarrow> 'e hook_event list" where
  "mounted_run es = map (case_option HookRender World) es"

definition subscribes_once :: "'e hook_event list \<Rightarrow> bool" where
  "subscribes_once es \<longleftrightarrow> HookEffect \<notin> set es"

context notifying_store
begin

text \<open>Once subscribed, what is shown is what the store holds, or a notification is owed.\<close>

definition hook_inv :: "('w, 'a) store_hook \<Rightarrow> bool" where
  "hook_inv s \<longleftrightarrow> inv (sh_world s) \<and> (sh_listening s \<longrightarrow> sh_shown s = read (sh_world s) \<or> owed (sh_world s))"

lemma hook_inv_step:
  assumes "hook_inv s" and "e \<noteq> HookEffect \<or> sync"
  shows "hook_inv (store_hook_step step read cnt sync s e)"
proof (cases e)
  case (World w)
  show ?thesis
    using assms(1) inv_step silent [of "sh_world s" w]
    by (auto simp: World store_hook_step_def hook_notice_def hook_inv_def)
qed (use assms in \<open>auto simp: store_hook_step_def hook_inv_def\<close>)

lemma hook_inv_run:
  assumes "hook_inv s" and "subscribes_once es \<or> sync"
  shows "hook_inv (foldl (store_hook_step step read cnt sync) s es)"
  using assms
proof (induction es arbitrary: s)
  case (Cons e es)
  then have "hook_inv (store_hook_step step read cnt sync s e)"
    by (intro hook_inv_step) (auto simp: subscribes_once_def)
  moreover have "subscribes_once es \<or> sync" using Cons.prems(2) by (auto simp: subscribes_once_def)
  ultimately show ?case using Cons.IH by simp
qed simp

lemma mounted_run_once [simp]: "subscribes_once (mounted_run es)"
  by (auto simp: subscribes_once_def mounted_run_def split: option.splits)

lemma listening_run: "sh_listening (foldl (store_hook_step step read cnt sync) s (mounted_run es)) = sh_listening s"
  by (induction es rule: rev_induct) (auto simp: mounted_run_def store_hook_step_def hook_notice_def split: option.splits)

lemma hook_inv_mount: "inv w \<Longrightarrow> hook_inv (hook_mount read w)"
  by (simp add: hook_inv_def hook_mount_def)

lemma shown_after_effect:
  assumes "hook_inv s" and "sync \<or> sh_shown s = read (sh_world s)"
    and s'_def: "s' = foldl (store_hook_step step read cnt sync) (store_hook_step step read cnt sync s HookEffect) (mounted_run es)"
  shows "sh_shown s' = read (sh_world s') \<or> owed (sh_world s')"
proof -
  let ?s1 = "store_hook_step step read cnt sync s HookEffect"
  have "hook_inv ?s1" using assms(1,2) by (auto simp: store_hook_step_def hook_inv_def)
  then have "hook_inv s'" unfolding s'_def by (rule hook_inv_run) simp
  moreover have "sh_listening s'" unfolding s'_def listening_run by (simp add: store_hook_step_def)
  ultimately show ?thesis by (simp add: hook_inv_def)
qed

end

section \<open>The three stores\<close>

datatype motion_event = SetMotion motion_pref | OsMotion bool

fun motion_step :: "document \<Rightarrow> motion_event \<Rightarrow> document" where
  "motion_step d (SetMotion v) = set_motion_pref v d"
| "motion_step d (OsMotion b) = os_motion_change b d"

definition use_motion :: "document \<Rightarrow> motion_pref \<times> bool" where
  "use_motion d = (motion_pref_of (storage d), prefers_reduced d)"

definition use_motion_step :: "(document, motion_pref \<times> bool) store_hook \<Rightarrow> motion_event hook_event \<Rightarrow> (document, motion_pref \<times> bool) store_hook" where
  "use_motion_step = store_hook_step motion_step use_motion notified False"

definition use_theme :: "theme_state \<Rightarrow> theme_pref \<times> theme" where
  "use_theme s = (theme_pref_of (th_store s), resolved_theme s)"

definition use_theme_step :: "(theme_state, theme_pref \<times> theme) store_hook \<Rightarrow> theme_event hook_event \<Rightarrow> (theme_state, theme_pref \<times> theme) store_hook" where
  "use_theme_step = store_hook_step theme_step use_theme th_notified False"

definition use_title_context :: "page_store \<Rightarrow> string option" where
  "use_title_context p = pg_value p"

definition use_title_step :: "(page_store, string option) store_hook \<Rightarrow> string option hook_event \<Rightarrow> (page_store, string option) store_hook" where
  "use_title_step = store_hook_step (\<lambda>p x. page_set x p) use_title_context pg_notified True"

definition transition_pending :: "theme_state \<Rightarrow> bool" where
  "transition_pending s \<longleftrightarrow> False \<in> snd ` set (th_vts s)"

interpretation motion_store: notifying_store motion_step "\<lambda>_. True" use_motion notified "\<lambda>_. False"
proof
  show "False \<or> use_motion (motion_step d e) = use_motion d \<and> \<not> False" if "notified (motion_step d e) = notified d" for d e
    using that by (cases e) (simp_all add: set_motion_pref_def os_motion_change_def)
qed simp

interpretation title_store: notifying_store "\<lambda>p x. page_set x p" "\<lambda>_. True" use_title_context pg_notified "\<lambda>_. False"
  by unfold_locales (auto simp: page_set_def use_title_context_def split: if_splits)

text \<open>A change that waits for a view transition is announced when the transition runs its callback.\<close>

lemma animate_swap_notifies: "th_notified (animate_swap s) = th_notified s \<Longrightarrow> transition_pending (animate_swap s)"
  by (auto simp: animate_swap_def apply_theme_def transition_pending_def Let_def split: if_splits)

lemma animate_swap_count: "th_notified s \<le> th_notified (animate_swap s)"
  by (simp add: animate_swap_def apply_theme_def Let_def)

lemma vt_done_pending:
  assumes "distinct (map fst (th_vts s))" and "transition_pending s"
  shows "transition_pending (vt_done tok s)"
proof -
  obtain t where t: "(t, False) \<in> set (th_vts s)" using assms(2) by (auto simp: transition_pending_def)
  have "t \<noteq> tok" if "(tok, True) \<in> set (th_vts s)"
    using that t assms(1) by (auto dest: eq_key_imp_eq_value)
  with t show ?thesis by (force simp: vt_done_def transition_pending_def)
qed

lemma swap_silent:
  assumes "th_notified s' = th_notified w" and "s' = (if b then apply_theme s else animate_swap s)" and "th_notified s = th_notified w"
  shows "transition_pending s'"
  using assms animate_swap_notifies [of s] by (auto simp: apply_theme_def Let_def split: if_splits)

lemma theme_silent:
  assumes "theme_inv w" and "th_notified (theme_step w e) = th_notified w"
  shows "transition_pending (theme_step w e) \<or> use_theme (theme_step w e) = use_theme w \<and> \<not> transition_pending w"
proof -
  have set_pref: "transition_pending (set_theme_pref p w)" if "th_notified (set_theme_pref p w) = th_notified w" for p
    using swap_silent [OF that] by (simp add: set_theme_pref_def Let_def)
  show ?thesis
  proof (cases e)
    case (OsTheme dark)
    show ?thesis
    proof (cases "theme_pref_of (th_store w) = PrefSystem")
      case True
      with assms(2) animate_swap_notifies [of "w\<lparr>th_os_dark := dark\<rparr>"] show ?thesis by (simp add: OsTheme os_theme_change_def)
    next
      case False
      then show ?thesis
        by (cases "theme_pref_of (th_store w)") (auto simp: OsTheme os_theme_change_def use_theme_def resolved_theme_def resolve_def transition_pending_def)
    qed
  next
    case (VtDone tok)
    have "use_theme (vt_done tok w) = use_theme w" by (simp add: vt_done_def use_theme_def resolved_theme_def)
    moreover have "distinct (map fst (th_vts w))" using assms(1) by (simp add: theme_inv_def)
    ultimately show ?thesis using vt_done_pending [of w tok] VtDone by auto
  next
    case (Clock now)
    then show ?thesis by (auto simp: fire_timers_def Let_def use_theme_def resolved_theme_def transition_pending_def)
  qed (use assms(2) set_pref in \<open>auto simp: toggle_theme_def vt_run_def apply_theme_def Let_def split: if_splits\<close>)
qed

interpretation theme_hook: notifying_store theme_step theme_inv use_theme th_notified transition_pending
  by unfold_locales (rule theme_silent)

section \<open>What the hooks show\<close>


text \<open>A change that falls between the first render and the effect is not seen by the hooks that subscribe by hand: the component shows
  the old value until the next notification.\<close>

theorem change_before_effect_missed:
  "let s = foldl use_motion_step (hook_mount use_motion d) [World (SetMotion v), HookEffect] in
     sh_shown s = use_motion d \<and> use_motion (sh_world s) = (v, if v = MotionSystem then os_reduced d else v = MotionOff)"
  by (cases v) (simp_all add: use_motion_step_def store_hook_step_def hook_notice_def hook_mount_def use_motion_def motion.load_save prefers_reduced_def
      set_motion_pref_def Let_def)

end
