(* ===== verification/Controls.thy ===== *)
theory Controls
  imports Contracts
begin

text \<open>
  The controls that keep state of their own: the popups (\<open>Select\<close>, \<open>Menu\<close>, \<open>Modal\<close> of \<open>ui.tsx\<close>)
  with their placement and their Escape protocol, the draggable \<open>Switch\<close> and \<open>SegmentedControl\<close>,
  \<open>CopyButton\<close> and \<open>copyText\<close>, \<open>NumberTicker\<close>, and \<open>AvatarImg\<close> with \<open>avatarUrl\<close>. Each is the
  component's state (its \<open>useState\<close> and \<open>useRef\<close> cells) with one function per handler or effect;
  the calls of \<open>onChange\<close> a handler makes are the list it returns.
\<close>

section \<open>Popups\<close>

record anchor =
  an_top :: real
  an_bottom :: real
  an_left :: real
  an_right :: real

definition flips_up :: "real \<Rightarrow> anchor \<Rightarrow> bool" where
  "flips_up vh r = (let below = vh - an_bottom r in below < 220 \<and> an_top r > below)"

text \<open>Where the menu's box may lie: its anchored edge, and the greatest height it is given.\<close>

datatype menu_edge = BottomAt real | TopAt real

record menu_box =
  mb_edge :: menu_edge
  mb_left :: "real option"
  mb_right :: "real option"
  mb_max_height :: real

definition menu_place :: "real \<Rightarrow> real \<Rightarrow> bool \<Rightarrow> anchor \<Rightarrow> menu_box" where
  "menu_place vw vh align_right r = (let up = flips_up vh r in
     \<lparr>mb_edge = (if up then BottomAt (vh - an_top r + 4) else TopAt (an_bottom r + 4)),
      mb_left = (if align_right then None else Some (an_left r)),
      mb_right = (if align_right then Some (vw - an_right r) else None),
      mb_max_height = (if up then an_top r - 12 else vh - an_bottom r - 12)\<rparr>)"

definition select_place :: "real \<Rightarrow> anchor \<Rightarrow> menu_box" where
  "select_place vh r = \<lparr>mb_edge = (if flips_up vh r then BottomAt (vh - an_top r + 4) else TopAt (an_bottom r + 4)),
     mb_left = Some (an_left r), mb_right = None, mb_max_height = 240\<rparr>"

text \<open>The vertical extent of a box of the given height, in viewport coordinates.\<close>

fun box_top :: "real \<Rightarrow> real \<Rightarrow> menu_edge \<Rightarrow> real" where
  "box_top vh h (BottomAt b) = vh - b - h" | "box_top vh h (TopAt t) = t"

definition box_bottom :: "real \<Rightarrow> real \<Rightarrow> menu_edge \<Rightarrow> real" where
  "box_bottom vh h e = box_top vh h e + h"

record select =
  so_open :: bool
  so_at :: "menu_box option"

definition select_toggle :: "real \<Rightarrow> anchor option \<Rightarrow> select \<Rightarrow> select" where
  "select_toggle vh r s = (if so_open s then s\<lparr>so_open := False\<rparr>
     else s\<lparr>so_at := (case r of None \<Rightarrow> so_at s | Some r \<Rightarrow> Some (select_place vh r)), so_open := True\<rparr>)"

definition select_pick :: "string \<Rightarrow> select \<Rightarrow> select \<times> string list" where
  "select_pick v s = (s\<lparr>so_open := False\<rparr>, [v])"

definition select_mouse_down :: "bool \<Rightarrow> select \<Rightarrow> select" where
  "select_mouse_down inside s = (if so_open s \<and> \<not> inside then s\<lparr>so_open := False\<rparr> else s)"

definition select_moved :: "real \<Rightarrow> anchor option \<Rightarrow> select \<Rightarrow> select" where
  "select_moved vh r s = (if so_open s then s\<lparr>so_at := (case r of None \<Rightarrow> so_at s | Some r \<Rightarrow> Some (select_place vh r))\<rparr> else s)"

text \<open>Escape: the second result tells whether the event goes on to the window.\<close>

definition select_escape :: "select \<Rightarrow> select \<times> bool" where
  "select_escape s = (if so_open s then (s\<lparr>so_open := False\<rparr>, False) else (s, True))"

text \<open>A dialog: whether it is closing, the deadlines of its close timers, and the number of \<open>onClose\<close> calls.\<close>

record modal =
  mo_closing :: bool
  mo_timers :: "int list"
  mo_closed :: nat

definition modal_begin :: "int \<Rightarrow> modal \<Rightarrow> modal" where
  "modal_begin now m = m\<lparr>mo_closing := True, mo_timers := mo_timers m @ [now + 170]\<rparr>"

definition modal_clock :: "int \<Rightarrow> modal \<Rightarrow> modal" where
  "modal_clock now m = m\<lparr>mo_timers := filter (\<lambda>t. now < t) (mo_timers m),
     mo_closed := mo_closed m + length (filter (\<lambda>t. t \<le> now) (mo_timers m))\<rparr>"

text \<open>Escape pressed in a dialog that holds a select.\<close>

definition dialog_escape :: "int \<Rightarrow> select \<times> modal \<Rightarrow> select \<times> modal" where
  "dialog_escape now sm = (let (s, goes_on) = select_escape (fst sm) in
     (s, if goes_on then modal_begin now (snd sm) else snd sm))"

section \<open>Switch\<close>

record switch =
  sw_drag :: "real option"
  sw_start :: real
  sw_travel :: real
  sw_moved :: bool
  sw_suppress :: bool
  sw_captured :: bool

definition switch_down :: "bool \<Rightarrow> nat \<Rightarrow> real \<Rightarrow> real \<Rightarrow> switch \<Rightarrow> switch" where
  "switch_down disabled button x travel s = (if disabled \<or> button \<noteq> 0 then s
     else s\<lparr>sw_start := x, sw_travel := travel, sw_moved := False, sw_suppress := False, sw_captured := True\<rparr>)"

definition switch_move :: "bool \<Rightarrow> bool \<Rightarrow> real \<Rightarrow> switch \<Rightarrow> switch" where
  "switch_move disabled checked x s = (if disabled \<or> \<not> sw_captured s then s
     else let dx = x - sw_start s in
       if \<not> sw_moved s \<and> \<bar>dx\<bar> < 4 then s
       else s\<lparr>sw_moved := True,
         sw_drag := Some (min 1 (max 0 ((if checked then 1 else 0) + (if sw_travel s > 0 then dx / sw_travel s else 0))))\<rparr>)"

definition switch_up :: "bool \<Rightarrow> switch \<Rightarrow> switch \<times> bool list" where
  "switch_up checked s = (if \<not> sw_captured s then (s, [])
     else if \<not> sw_moved s then (s\<lparr>sw_captured := False\<rparr>, [])
     else let to = (case sw_drag s of Some t \<Rightarrow> t > 1/2 | None \<Rightarrow> checked) in
       (s\<lparr>sw_captured := False, sw_suppress := True, sw_drag := None\<rparr>, if to \<noteq> checked then [to] else []))"

definition switch_cancel :: "switch \<Rightarrow> switch" where
  "switch_cancel s = s\<lparr>sw_drag := None, sw_moved := False\<rparr>"

definition switch_click :: "bool \<Rightarrow> bool \<Rightarrow> switch \<Rightarrow> switch \<times> bool list" where
  "switch_click disabled checked s = (if sw_suppress s then (s\<lparr>sw_suppress := False\<rparr>, [])
     else (s, if disabled then [] else [\<not> checked]))"

definition switch_visual :: "bool \<Rightarrow> switch \<Rightarrow> bool" where
  "switch_visual checked s = (case sw_drag s of Some t \<Rightarrow> t > 1/2 | None \<Rightarrow> checked)"

text \<open>A whole pointer gesture on an enabled switch: press, moves, release, and the click the browser
  sends after it; the result is the calls of \<open>onChange\<close>. The owner's \<open>checked\<close> is what the last
  call set it to by the time of the click.\<close>

definition switch_gesture :: "bool \<Rightarrow> real \<Rightarrow> real \<Rightarrow> real list \<Rightarrow> switch \<Rightarrow> bool list" where
  "switch_gesture checked x0 travel xs s =
     (let s1 = fold (switch_move False checked) xs (switch_down False 0 x0 travel s);
          (s2, out) = switch_up checked s1;
          (s3, out') = switch_click False (last (checked # out)) s2 in out @ out')"

section \<open>Segmented control\<close>

record segmented =
  sg_drag :: "real option"
  sg_start :: real
  sg_moved :: bool
  sg_suppress :: bool
  sg_thumb :: real
  sg_origin :: real
  sg_pad :: real
  sg_captured :: bool

definition seg_index :: "string list \<Rightarrow> string \<Rightarrow> nat" where
  "seg_index opts v = (case find_index (\<lambda>o'. o' = v) opts of Some i \<Rightarrow> i | None \<Rightarrow> 0)"

text \<open>\<open>pad\<close> and \<open>width\<close>: the padding and the client width that \<open>metrics\<close> measures.\<close>

definition seg_down :: "string list \<Rightarrow> string \<Rightarrow> nat \<Rightarrow> real \<Rightarrow> real \<Rightarrow> real \<Rightarrow> segmented \<Rightarrow> segmented" where
  "seg_down opts v button x pad width s = (if button \<noteq> 0 then s
     else let thumb = (width - pad * 2) / of_nat (length opts) in
       s\<lparr>sg_start := x, sg_moved := False, sg_suppress := False, sg_thumb := thumb,
         sg_origin := of_nat (seg_index opts v) * thumb, sg_pad := pad, sg_captured := True\<rparr>)"

definition seg_move :: "string list \<Rightarrow> real \<Rightarrow> segmented \<Rightarrow> segmented" where
  "seg_move opts x s = (if \<not> sg_captured s then s
     else let dx = x - sg_start s in
       if \<not> sg_moved s \<and> \<bar>dx\<bar> < 4 then s
       else s\<lparr>sg_moved := True,
         sg_drag := Some (min ((of_nat (length opts) - 1) * sg_thumb s) (max 0 (sg_origin s + dx)))\<rparr>)"

definition seg_commit :: "string list \<Rightarrow> string \<Rightarrow> int \<Rightarrow> string list" where
  "seg_commit opts v i = (let k = nat (max 0 (min (int (length opts) - 1) i)) in
     if k < length opts \<and> opts ! k \<noteq> v then [opts ! k] else [])"

text \<open>\<open>left\<close>: the track's left edge on the screen.\<close>

definition seg_up :: "string list \<Rightarrow> string \<Rightarrow> real \<Rightarrow> real \<Rightarrow> segmented \<Rightarrow> segmented \<times> string list" where
  "seg_up opts v x left s = (if \<not> sg_captured s then (s, [])
     else let s' = s\<lparr>sg_captured := False, sg_suppress := True\<rparr> in
       if sg_moved s
       then (s'\<lparr>sg_drag := None\<rparr>,
         seg_commit opts v (js_round ((case sg_drag s of Some px \<Rightarrow> px | None \<Rightarrow> sg_origin s) / sg_thumb s)))
       else (s', seg_commit opts v \<lfloor>(x - left - sg_pad s) / sg_thumb s\<rfloor>))"

definition seg_cancel :: "segmented \<Rightarrow> segmented" where
  "seg_cancel s = s\<lparr>sg_drag := None, sg_moved := False\<rparr>"

definition seg_unsuppress :: "segmented \<Rightarrow> segmented" where
  "seg_unsuppress s = s\<lparr>sg_suppress := False\<rparr>"

definition seg_pick :: "string \<Rightarrow> segmented \<Rightarrow> string list" where
  "seg_pick v s = (if sg_suppress s then [] else [v])"

section \<open>Copying\<close>

text \<open>\<open>native\<close>: what the Wails clipboard resolves to, \<open>None\<close> a rejection or an undefined value; the
  result is whether the browser's clipboard is written.\<close>

definition copy_falls_back :: "bool option \<Rightarrow> bool" where
  "copy_falls_back native = (native \<noteq> Some True)"

record copy_button =
  cb_copied :: bool
  cb_timer :: "int option"

definition copy_click :: "int \<Rightarrow> copy_button \<Rightarrow> copy_button" where
  "copy_click now c = (if cb_copied c then c else c\<lparr>cb_copied := True, cb_timer := Some (now + 1500)\<rparr>)"

definition copy_clock :: "int \<Rightarrow> copy_button \<Rightarrow> copy_button" where
  "copy_clock now c = (case cb_timer c of Some t \<Rightarrow> if t \<le> now then c\<lparr>cb_copied := False, cb_timer := None\<rparr> else c | None \<Rightarrow> c)"

section \<open>Number ticker\<close>

record ticker =
  tr_value :: real
  tr_display :: real
  tr_from :: real
  tr_anim :: "(real \<times> real \<times> real) option"  \<comment> \<open>start, from, target of the running animation\<close>

definition ticker_mount :: "real \<Rightarrow> ticker" where
  "ticker_mount v = \<lparr>tr_value = v, tr_display = v, tr_from = v, tr_anim = None\<rparr>"

text \<open>The effect, run when the value has changed; its cleanup cancels the running animation.\<close>

definition ticker_change :: "bool \<Rightarrow> real \<Rightarrow> real \<Rightarrow> ticker \<Rightarrow> ticker" where
  "ticker_change reduced now v s = (if v = tr_value s then s
     else let s = s\<lparr>tr_value := v, tr_anim := None\<rparr> in
       if reduced then s\<lparr>tr_from := v, tr_display := v\<rparr>
       else if tr_from s = v then s
       else s\<lparr>tr_anim := Some (now, tr_from s, v)\<rparr>)"

definition ticker_ease :: "real \<Rightarrow> real" where
  "ticker_ease t = 1 - (1 - t) ^ 3"

definition ticker_frame :: "real \<Rightarrow> real \<Rightarrow> ticker \<Rightarrow> ticker" where
  "ticker_frame duration now s = (case tr_anim s of None \<Rightarrow> s
   | Some (start, from, target) \<Rightarrow> let t = min 1 ((now - start) / duration) in
       if t \<ge> 1 then s\<lparr>tr_display := target, tr_anim := None, tr_from := target\<rparr>
       else s\<lparr>tr_display := from + (target - from) * ticker_ease t\<rparr>)"

definition ticker_rest :: "ticker \<Rightarrow> bool" where
  "ticker_rest s \<longleftrightarrow> tr_anim s = None \<and> tr_display s = tr_value s \<and> tr_from s = tr_value s"

section \<open>Avatars\<close>

text \<open>\<open>avatarUrl\<close>; \<open>dev\<close>: the development mock is installed.\<close>

definition avatar_url :: "bool \<Rightarrow> string \<Rightarrow> string \<Rightarrow> int \<Rightarrow> string" where
  "avatar_url dev offline_svg i px = (if dev then
       if prefix ''offline:'' i then offline_svg else ''https://mc-heads.net/avatar/'' @ i @ ''/'' @ show_int px
     else ''/pf/avatar/'' @ i @ ''.png?size='' @ show_int px)"

record avatar =
  av_id :: string
  av_bump :: nat
  av_failed :: bool
  av_timers :: "(int \<times> nat) list"
  av_settled :: "string set"  \<comment> \<open>the module's \<open>settled\<close>\<close>

definition avatar_effect :: "int \<Rightarrow> avatar \<Rightarrow> avatar" where
  "avatar_effect now a = a\<lparr>av_failed := False,
     av_timers := (if av_id a \<in> av_settled a then [] else [(now + 4000, 1), (now + 12000, 2)])\<rparr>"

definition avatar_mount :: "int \<Rightarrow> string \<Rightarrow> string set \<Rightarrow> avatar" where
  "avatar_mount now i known = avatar_effect now \<lparr>av_id = i, av_bump = 0, av_failed = False, av_timers = [], av_settled = known\<rparr>"

definition avatar_change :: "int \<Rightarrow> string \<Rightarrow> avatar \<Rightarrow> avatar" where
  "avatar_change now i a = (if i = av_id a then a else avatar_effect now (a\<lparr>av_id := i\<rparr>))"

definition avatar_clock :: "int \<Rightarrow> avatar \<Rightarrow> avatar" where
  "avatar_clock now a = (let due = filter (\<lambda>t. fst t \<le> now) (av_timers a) in
     a\<lparr>av_timers := filter (\<lambda>t. now < fst t) (av_timers a), av_bump := last (av_bump a # map snd due)\<rparr>)"

definition avatar_load :: "avatar \<Rightarrow> avatar" where
  "avatar_load a = (if av_bump a \<ge> 2 then a\<lparr>av_settled := insert (av_id a) (av_settled a)\<rparr> else a)"

definition avatar_error :: "avatar \<Rightarrow> avatar" where
  "avatar_error a = a\<lparr>av_failed := True\<rparr>"

section \<open>Properties\<close>

text \<open>A menu, whatever its height up to the one it is given, lies inside the viewport with at least
  4 px to spare, and never over the trigger it is anchored to.\<close>

theorem menu_in_viewport:
  assumes "0 \<le> an_top r" and "an_top r \<le> an_bottom r" and "an_bottom r \<le> vh"
    and "m = menu_place vw vh right r" and "0 \<le> h" and "h \<le> mb_max_height m"
  shows "4 \<le> box_top vh h (mb_edge m) \<and> box_bottom vh h (mb_edge m) \<le> vh - 4
    \<and> (box_bottom vh h (mb_edge m) < an_top r \<or> an_bottom r < box_top vh h (mb_edge m))"
  using assms by (cases "flips_up vh r") (auto simp: menu_place_def Let_def box_bottom_def)

theorem menu_in_viewport_witness:
  "4 \<le> box_top 600 100 (mb_edge (menu_place 800 600 False \<lparr>an_top = 500, an_bottom = 540, an_left = 10, an_right = 90\<rparr>))"
  using menu_in_viewport [of "\<lparr>an_top = 500, an_bottom = 540, an_left = 10, an_right = 90\<rparr>" 600 _ 800 False 100, OF _ _ _ refl]
  by (simp add: menu_place_def flips_up_def Let_def)

text \<open>Escape in a dialog closes an open select first and leaves the dialog; a second Escape closes the dialog.\<close>

lemma escape_one_layer:
  assumes "so_open s"
  shows "snd (dialog_escape now (s, m)) = m"
    and "snd (dialog_escape now' (dialog_escape now (s, m))) = modal_begin now' m"
  using assms by (simp_all add: dialog_escape_def select_escape_def)

lemma switch_move_far:
  assumes "sw_captured t" and far: "\<not> (\<not> sw_moved t \<and> \<bar>x - sw_start t\<bar> < 4)"
  shows "switch_move False checked x t = t\<lparr>sw_moved := True,
    sw_drag := Some (min 1 (max 0 ((if checked then 1 else 0) + (if sw_travel t > 0 then (x - sw_start t) / sw_travel t else 0))))\<rparr>"
  unfolding switch_move_def Let_def if_not_P [OF far] using assms(1) by simp

lemma switch_moves:
  assumes "sw_captured s" and "s' = fold (switch_move False checked) xs s"
  shows "sw_captured s' \<and> sw_start s' = sw_start s \<and> sw_travel s' = sw_travel s \<and> sw_suppress s' = sw_suppress s
    \<and> (sw_moved s' \<longleftrightarrow> sw_moved s \<or> (\<exists>x \<in> set xs. 4 \<le> \<bar>x - sw_start s\<bar>))
    \<and> (xs \<noteq> [] \<and> sw_moved s' \<longrightarrow> sw_drag s' = Some (min 1 (max 0 ((if checked then 1 else 0)
            + (if sw_travel s > 0 then (last xs - sw_start s) / sw_travel s else 0)))))"
  unfolding assms(2)
proof (induction xs rule: rev_induct)
  case (snoc x xs)
  let ?s = "fold (switch_move False checked) xs s"
  from snoc have IH: "sw_captured ?s" "sw_start ?s = sw_start s" "sw_travel ?s = sw_travel s" "sw_suppress ?s = sw_suppress s"
    "sw_moved ?s \<longleftrightarrow> sw_moved s \<or> (\<exists>x \<in> set xs. 4 \<le> \<bar>x - sw_start s\<bar>)" by blast+
  show ?case
  proof (cases "\<not> sw_moved ?s \<and> \<bar>x - sw_start s\<bar> < 4")
    case True
    then have "fold (switch_move False checked) (xs @ [x]) s = ?s" using IH(1,2) by (simp add: switch_move_def Let_def)
    with IH True show ?thesis by auto
  next
    case False
    have "fold (switch_move False checked) (xs @ [x]) s = ?s\<lparr>sw_moved := True,
        sw_drag := Some (min 1 (max 0 ((if checked then 1 else 0) + (if sw_travel s > 0 then (x - sw_start s) / sw_travel s else 0))))\<rparr>"
      using switch_move_far [OF IH(1), of x checked, unfolded IH(2,3), OF False] by simp
    with IH False show ?thesis by auto
  qed
qed (use assms in simp)

text \<open>A gesture on a switch calls \<open>onChange\<close> at most once. A drag, any move of 4 px or more from the
  press, commits the side of the travel the last move is nearest to, and calls only if that is not
  the side it was on; a press that never moves that far is a click and flips the switch.\<close>

theorem switch_gesture_commits:
  assumes "travel > 0"
  shows "switch_gesture checked x0 travel xs s =
    (if \<exists>x \<in> set xs. 4 \<le> \<bar>x - x0\<bar>
     then let side = ((if checked then 1 else 0) + (last xs - x0) / travel > 1/2) in if side \<noteq> checked then [side] else []
     else [\<not> checked])"
proof -
  let ?s0 = "switch_down False 0 x0 travel s"
  let ?s1 = "fold (switch_move False checked) xs ?s0"
  have s0: "sw_captured ?s0" "sw_start ?s0 = x0" "sw_travel ?s0 = travel" "\<not> sw_suppress ?s0" "\<not> sw_moved ?s0"
    by (simp_all add: switch_down_def)
  have mv: "sw_captured ?s1" "\<not> sw_suppress ?s1" "sw_moved ?s1 \<longleftrightarrow> (\<exists>x \<in> set xs. 4 \<le> \<bar>x - x0\<bar>)"
    "xs \<noteq> [] \<Longrightarrow> sw_moved ?s1 \<Longrightarrow> sw_drag ?s1 = Some (min 1 (max 0 ((if checked then 1 else 0) + (last xs - x0) / travel)))"
    using switch_moves [OF s0(1) refl, of checked xs] s0 assms by simp_all
  show ?thesis
  proof (cases "\<exists>x \<in> set xs. 4 \<le> \<bar>x - x0\<bar>")
    case True
    then have xs: "xs \<noteq> []" by auto
    with mv True assms have m: "sw_moved ?s1"
      and d: "sw_drag ?s1 = Some (min 1 (max 0 ((if checked then 1 else 0) + (last xs - x0) / travel)))" by auto
    have "(min 1 (max 0 z) > (1/2 :: real)) = (z > 1/2)" for z by linarith
    then show ?thesis
      using True mv m d by (simp add: switch_gesture_def switch_up_def switch_click_def Let_def)
  next
    case False
    with mv have "\<not> sw_moved ?s1" "sw_captured ?s1" "\<not> sw_suppress ?s1" by auto
    then show ?thesis
      using False by (simp add: switch_gesture_def switch_up_def switch_click_def Let_def)
  qed
qed

theorem switch_gesture_commits_witness:
  "switch_gesture False 100 16 [103, 120, 107] \<lparr>sw_drag = None, sw_start = 0, sw_travel = 0, sw_moved = False, sw_suppress = True, sw_captured = False\<rparr> = []"
  by (subst switch_gesture_commits) simp_all


text \<open>Releasing the thumb of a segmented control commits a segment no other segment's seat is nearer to,
  however far the pointer went; a tap commits the segment under the pointer. \<open>onChange\<close> is called
  at most once, with an option, and only if it is not the current one.\<close>

lemma nearest_index:
  fixes px w :: real
  assumes "0 < w" and "j < n" and "k = nat (max 0 (min (int n - 1) (js_round (px / w))))"
  shows "\<bar>px - of_nat k * w\<bar> \<le> \<bar>px - of_nat j * w\<bar>"
proof -
  let ?q = "px / w"
  have close: "\<bar>?q - of_nat k\<bar> \<le> \<bar>?q - of_nat j\<bar>"
  proof -
    have r: "real_of_int (js_round ?q) \<le> ?q + 1/2" "?q - 1/2 < real_of_int (js_round ?q)"
      unfolding js_round_def by linarith+
    have k: "int k = max 0 (min (int n - 1) (js_round ?q))" using assms(3) by simp
    consider "js_round ?q < 0" "k = 0" | "int n - 1 < js_round ?q" "int k = int n - 1" | "int k = js_round ?q"
      using k assms(2) by linarith
    then show ?thesis
    proof cases
      case 1
      then have "real_of_int (js_round ?q) \<le> -1" by simp
      with r have "?q < 0" by linarith
      with 1 show ?thesis by simp
    next
      case 2
      then have "real n \<le> real_of_int (js_round ?q)" by linarith
      moreover have "real j \<le> real k" "real k = real n - 1" using 2 assms(2) by linarith+
      ultimately show ?thesis using r by linarith
    next
      case 3
      then have "real k = real_of_int (js_round ?q)" by (metis of_int_of_nat_eq)
      moreover have "j = k \<or> real j \<ge> real k + 1 \<or> real j \<le> real k - 1" by linarith
      ultimately show ?thesis using r by (elim disjE) (simp, linarith+)
    qed
  qed
  have "px - of_nat i * w = (?q - of_nat i) * w" for i using assms(1) by (simp add: field_simps)
  then show ?thesis using close assms(1) by (simp add: abs_mult)
qed

theorem segmented_commits_nearest:
  assumes "0 < sg_thumb s" and "sg_captured s" and "opts \<noteq> []" and "(s', out) = seg_up opts v x left s"
  shows "\<exists>k < length opts. out = (if opts ! k \<noteq> v then [opts ! k] else [])
    \<and> (sg_moved s \<longrightarrow> (\<forall>j < length opts. let px = (case sg_drag s of Some px \<Rightarrow> px | None \<Rightarrow> sg_origin s) in
         \<bar>px - of_nat k * sg_thumb s\<bar> \<le> \<bar>px - of_nat j * sg_thumb s\<bar>))
    \<and> (\<not> sg_moved s \<longrightarrow> (\<forall>j < length opts. left + sg_pad s + of_nat j * sg_thumb s \<le> x
         \<and> x < left + sg_pad s + (of_nat j + 1) * sg_thumb s \<longrightarrow> k = j))"
proof -
  let ?n = "length opts"
  let ?px = "case sg_drag s of Some px \<Rightarrow> px | None \<Rightarrow> sg_origin s"
  let ?i = "if sg_moved s then js_round (?px / sg_thumb s) else \<lfloor>(x - left - sg_pad s) / sg_thumb s\<rfloor>"
  define k where "k = nat (max 0 (min (int ?n - 1) ?i))"
  have "?n > 0" using assms(3) by simp
  then have k: "k < ?n" unfolding k_def by linarith
  have "out = seg_commit opts v ?i" using assms(2,4) by (auto simp: seg_up_def Let_def split: if_splits)
  then have "out = (if opts ! k \<noteq> v then [opts ! k] else [])" using k by (simp add: seg_commit_def k_def Let_def)
  moreover have "\<bar>?px - of_nat k * sg_thumb s\<bar> \<le> \<bar>?px - of_nat j * sg_thumb s\<bar>" if "sg_moved s" "j < ?n" for j
    by (rule nearest_index [OF assms(1) that(2)]) (simp add: k_def that(1))
  moreover have "k = j" if "\<not> sg_moved s" "j < ?n" "left + sg_pad s + of_nat j * sg_thumb s \<le> x" "x < left + sg_pad s + (of_nat j + 1) * sg_thumb s" for j
  proof -
    have "\<lfloor>(x - left - sg_pad s) / sg_thumb s\<rfloor> = int j"
      by (rule floor_unique) (use that(3,4) assms(1) in \<open>simp_all add: field_simps\<close>)
    then show ?thesis using that(1,2) by (simp add: k_def)
  qed
  ultimately have "k < ?n \<and> out = (if opts ! k \<noteq> v then [opts ! k] else [])
    \<and> (sg_moved s \<longrightarrow> (\<forall>j < ?n. let px = ?px in \<bar>px - of_nat k * sg_thumb s\<bar> \<le> \<bar>px - of_nat j * sg_thumb s\<bar>))
    \<and> (\<not> sg_moved s \<longrightarrow> (\<forall>j < ?n. left + sg_pad s + of_nat j * sg_thumb s \<le> x
         \<and> x < left + sg_pad s + (of_nat j + 1) * sg_thumb s \<longrightarrow> k = j))"
    unfolding Let_def using k by (intro conjI impI allI) (assumption | elim conjE)+
  then show ?thesis by (rule exI)
qed

definition sample_segmented :: segmented where
  "sample_segmented = \<lparr>sg_drag = Some 130, sg_start = 0, sg_moved = True, sg_suppress = False, sg_thumb = 50, sg_origin = 0, sg_pad = 2, sg_captured = True\<rparr>"

theorem segmented_commits_nearest_witness:
  "\<exists>k < 3. snd (seg_up [''a'', ''b'', ''c''] ''a'' 0 0 sample_segmented) = (if [''a'', ''b'', ''c''] ! k \<noteq> ''a'' then [[''a'', ''b'', ''c''] ! k] else [])"
proof -
  obtain s' out where up: "(s', out) = seg_up [''a'', ''b'', ''c''] ''a'' 0 0 sample_segmented" by (metis surj_pair)
  have "\<exists>k < length [''a'', ''b'', ''c'']. out = (if [''a'', ''b'', ''c''] ! k \<noteq> ''a'' then [[''a'', ''b'', ''c''] ! k] else [])"
  proof -
    have "0 < sg_thumb sample_segmented" "sg_captured sample_segmented" "[''a'', ''b'', ''c''] \<noteq> []"
      by (simp_all add: sample_segmented_def)
    from segmented_commits_nearest [OF this up] show ?thesis by blast
  qed
  then show ?thesis using up by (metis (no_types, lifting) snd_conv length_Cons list.size(3) numeral_3_eq_3)
qed

lemma ticker_ease_bounds: "0 \<le> t \<Longrightarrow> t \<le> 1 \<Longrightarrow> 0 \<le> ticker_ease t \<and> ticker_ease t \<le> 1"
proof -
  assume t: "0 \<le> t" "t \<le> 1"
  then have "0 \<le> (1 - t) ^ 3" "(1 - t) ^ 3 \<le> 1" by (auto intro: zero_le_power power_le_one)
  then show ?thesis by (simp add: ticker_ease_def)
qed

lemma ticker_frame_rest: "tr_anim s = None \<Longrightarrow> ticker_frame d now s = s"
  by (simp add: ticker_frame_def)

lemma ticker_frames_rest: "tr_anim s = None \<Longrightarrow> fold (ticker_frame d) ts s = s"
  by (induction ts) (simp_all add: ticker_frame_rest)

lemma ticker_running:
  "tr_anim s = Some (start, from, v) \<Longrightarrow> tr_value s = v \<Longrightarrow> 0 < d \<Longrightarrow> \<forall>t \<in> set ts. start \<le> t \<Longrightarrow>
    (if \<exists>t \<in> set ts. start + d \<le> t then ticker_rest (fold (ticker_frame d) ts s) \<and> tr_display (fold (ticker_frame d) ts s) = v
     else tr_anim (fold (ticker_frame d) ts s) = Some (start, from, v))"
proof (induction ts arbitrary: s)
  case (Cons t ts)
  show ?case
  proof (cases "start + d \<le> t")
    case True
    then have "(t - start) / d \<ge> 1" using Cons.prems(3) by (simp add: le_divide_eq)
    then have "ticker_frame d t s = s\<lparr>tr_display := v, tr_anim := None, tr_from := v\<rparr>"
      using Cons.prems(1) by (simp add: ticker_frame_def Let_def)
    with True Cons.prems(2) show ?thesis by (simp add: ticker_frames_rest ticker_rest_def)
  next
    case False
    then have "\<not> (t - start) / d \<ge> 1" using Cons.prems(3) by (simp add: le_divide_eq)
    then have "ticker_frame d t s = s\<lparr>tr_display := from + (v - from) * ticker_ease ((t - start) / d)\<rparr>"
      using Cons.prems(1) by (simp add: ticker_frame_def Let_def min_def)
    then have "tr_anim (ticker_frame d t s) = Some (start, from, v)" "tr_value (ticker_frame d t s) = v"
      using Cons.prems(1,2) by simp_all
    from Cons.IH [OF this Cons.prems(3)] Cons.prems(4) False show ?thesis by simp
  qed
qed simp

text \<open>A ticker at rest that is given a new value arrives: once a frame comes at or after the duration,
  the display is the value and the ticker is at rest again, and it stays there.\<close>

theorem ticker_arrives:
  assumes "ticker_rest s" and "0 < d" and "\<forall>t \<in> set ts. now \<le> t" and "\<exists>t \<in> set ts. now + d \<le> t"
  shows "let s' = fold (ticker_frame d) ts (ticker_change reduced now v s) in
    ticker_rest s' \<and> tr_display s' = v \<and> ticker_frame d later s' = s'"
proof (cases "v = tr_value s \<or> reduced")
  case True
  then have r: "ticker_rest (ticker_change reduced now v s)" "tr_display (ticker_change reduced now v s) = v"
    using assms(1) by (auto simp: ticker_rest_def ticker_change_def Let_def)
  then show ?thesis by (simp add: ticker_rest_def ticker_frames_rest ticker_frame_rest)
next
  case False
  let ?s = "ticker_change reduced now v s"
  have "tr_anim ?s = Some (now, tr_from s, v)" "tr_value ?s = v"
    using False assms(1) by (auto simp: ticker_change_def ticker_rest_def Let_def)
  from ticker_running [OF this assms(2,3)] assms(4)
  show ?thesis by (simp add: ticker_rest_def ticker_frame_rest)
qed

theorem ticker_arrives_witness:
  "tr_display (fold (ticker_frame 500) [16, 300, 510] (ticker_change False 0 7 (ticker_mount 3))) = 7"
  by (rule ticker_arrives [of "ticker_mount 3" 500 "[16, 300, 510]" 0 False 7, unfolded Let_def, THEN conjunct2, THEN conjunct1])
    (simp_all add: ticker_rest_def ticker_mount_def)

text \<open>A value that comes back to where it was while the ticker is on its way leaves the display stuck in
  between: the running animation is cancelled, no new one starts, and no later frame moves it.\<close>

theorem ticker_stuck:
  assumes "a \<noteq> b" and "0 < t" and "t < d"
  shows "let s = ticker_change False t a (ticker_frame d t (ticker_change False 0 b (ticker_mount a))) in
    tr_value s = a \<and> tr_display s \<noteq> a \<and> fold (ticker_frame d) ts s = s"
proof -
  have lt: "t / d < 1" "0 < t / d" using assms by simp_all
  have "0 < (1 - t / d)" using lt by simp
  moreover have "(1 - t / d) ^ 3 < 1" using lt by (simp add: power_less_one_iff)
  ultimately have "ticker_ease (t / d) \<noteq> 0" by (simp add: ticker_ease_def)
  with assms lt show ?thesis
    by (simp add: Let_def ticker_change_def ticker_mount_def ticker_frame_def min_def ticker_frames_rest)
qed

theorem ticker_stuck_witness:
  "tr_display (ticker_change False 100 3 (ticker_frame 500 100 (ticker_change False 0 4 (ticker_mount 3)))) \<noteq> 3"
  using ticker_stuck [of 3 4 100 500 "[]"] by (simp add: Let_def)

text \<open>The retry counter of a player head is not reset when the component is given another player: the
  new head counts as settled as soon as anything loads for it, the placeholder included, and a
  remount then never asks for the real render again.\<close>

theorem avatar_settles_early:
  assumes "av_bump a = 2" and "i \<noteq> av_id a"
  shows "let a' = avatar_load (avatar_change now i a) in i \<in> av_settled a' \<and> av_timers (avatar_mount later i (av_settled a')) = []"
  using assms by (simp add: Let_def avatar_load_def avatar_change_def avatar_effect_def avatar_mount_def)

theorem avatar_settles_early_witness:
  "''b'' \<in> av_settled (avatar_load (avatar_change 12001 ''b'' (avatar_clock 12000 (avatar_mount 0 ''a'' {}))))"
  using avatar_settles_early [of "avatar_clock 12000 (avatar_mount 0 ''a'' {})" "''b''" 12001]
  by (simp add: Let_def avatar_clock_def avatar_mount_def avatar_effect_def)

text \<open>A head that keeps its player settles only after the last retry.\<close>

lemma avatar_settles_late:
  "a = foldl (\<lambda>a t. avatar_load (avatar_clock t a)) (avatar_mount 0 i {}) ts \<Longrightarrow> \<forall>t \<in> set ts. t < 12000 \<Longrightarrow> av_settled a = {}"
proof -
  have "av_settled (foldl (\<lambda>a t. avatar_load (avatar_clock t a)) b ts) = {}"
    if "av_settled b = {}" "av_bump b < 2" "\<forall>(t, n) \<in> set (av_timers b). n = 1 \<or> t = 12000" "\<forall>t \<in> set ts. t < 12000" for b ts
    using that
  proof (induction ts arbitrary: b)
    case (Cons t ts)
    let ?due = "filter (\<lambda>u. fst u \<le> t) (av_timers b)"
    have "n = 1" if "n \<in> set (map snd ?due)" for n using that Cons.prems(3,4) by auto
    then have "last (av_bump b # map snd ?due) < 2"
      using Cons.prems(2) by (cases "map snd ?due" rule: rev_cases) (auto, metis One_nat_def lessI numeral_2_eq_2)
    then show ?case
      using Cons.prems by (simp, intro Cons.IH) (auto simp: avatar_clock_def avatar_load_def Let_def)
  qed simp
  then show "a = foldl (\<lambda>a t. avatar_load (avatar_clock t a)) (avatar_mount 0 i {}) ts \<Longrightarrow> \<forall>t \<in> set ts. t < 12000 \<Longrightarrow> av_settled a = {}"
    by (simp add: avatar_mount_def avatar_effect_def)
qed

end
