(* ===== verification/Widgets.thy ===== *)
theory Widgets
  imports Controls Management
begin

text \<open>
  The remaining shared components of \<open>components/ui.tsx\<close>, and \<open>components/DataTable.tsx\<close>: what each shows of its properties and
  what its events do. A rendered node is a text; a property that is not given is \<open>None\<close>, and one that is given empty is not
  shown either where the code tests it for truth. Class names are left out.
\<close>

section \<open>Headings and cards\<close>

definition truthy :: "string option \<Rightarrow> string option" where
  "truthy x = (case x of Some t \<Rightarrow> if t = '''' then None else Some t | None \<Rightarrow> None)"

record heading =
  hd_title :: "string option"
  hd_overline :: "string option"
  hd_subtitle :: "string option"
  hd_action :: "string option"

definition page_header :: "string \<Rightarrow> string option \<Rightarrow> string option \<Rightarrow> heading" where
  "page_header title subtitle action = \<lparr>hd_title = Some title, hd_overline = None, hd_subtitle = truthy subtitle, hd_action = truthy action\<rparr>"

text \<open>A card without title, label and action has no heading at all, whatever its subtitle says.\<close>

definition card_heading :: "string option \<Rightarrow> string option \<Rightarrow> string option \<Rightarrow> string option \<Rightarrow> heading option" where
  "card_heading title lbl subtitle action = (if truthy title = None \<and> truthy lbl = None \<and> truthy action = None then None
     else Some \<lparr>hd_title = truthy title, hd_overline = (if truthy title = None then truthy lbl else None), hd_subtitle = truthy subtitle, hd_action = truthy action\<rparr>)"

definition signal_heading :: "string option \<Rightarrow> string option \<Rightarrow> string option \<Rightarrow> heading option" where
  "signal_heading title subtitle action = card_heading title None subtitle action"

definition section_heading :: "string \<Rightarrow> string option \<Rightarrow> string option \<Rightarrow> string option \<Rightarrow> string \<times> string option \<times> string option \<times> string option" where
  "section_heading title hint cnt action = (title, cnt, truthy hint, truthy action)"

text \<open>The colour of a headline figure, as the name of a custom property: the status tone before the accent.\<close>

definition stat_color :: "string option \<Rightarrow> bool \<Rightarrow> string option" where
  "stat_color tone accent = (case truthy tone of Some t \<Rightarrow> Some t | None \<Rightarrow> if accent then Some ''accent'' else None)"

section \<open>Status, badges, banners\<close>

datatype dot_state = DotGood | DotWarn | DotBad | DotUnknown

definition dot_color :: "dot_state \<Rightarrow> string" where
  "dot_color d = (case d of DotGood \<Rightarrow> ''good'' | DotWarn \<Rightarrow> ''warn'' | DotBad \<Rightarrow> ''bad'' | DotUnknown \<Rightarrow> ''text-3'')"

text \<open>Colour, whether it breathes, and the label if there is one.\<close>

definition status_dot :: "dot_state \<Rightarrow> string \<Rightarrow> bool \<Rightarrow> string \<times> bool \<times> string option" where
  "status_dot d lbl pulse = (dot_color d, pulse \<and> d = DotGood, if lbl = '''' then None else Some lbl)"

datatype banner_tone = BannerInfo | BannerGood | BannerWarn | BannerBad
datatype banner_icon = InfoIcon | CheckIcon | AlertIcon

record banner =
  bn_color :: string
  bn_icon :: banner_icon
  bn_bleeds :: bool
  bn_text :: string
  bn_dismiss :: bool

definition banner_of :: "banner_tone \<Rightarrow> string \<Rightarrow> bool \<Rightarrow> banner" where
  "banner_of tone t dismiss = (let (c, icon) = (case tone of BannerInfo \<Rightarrow> (''accent'', InfoIcon) | BannerGood \<Rightarrow> (''good'', CheckIcon)
       | BannerWarn \<Rightarrow> (''warn'', AlertIcon) | BannerBad \<Rightarrow> (''bad'', AlertIcon)) in
     \<lparr>bn_color = c, bn_icon = icon, bn_bleeds = (tone = BannerWarn \<or> tone = BannerBad), bn_text = t, bn_dismiss = dismiss\<rparr>)"

definition error_banner :: "string \<Rightarrow> bool \<Rightarrow> banner" where
  "error_banner message dismiss = banner_of BannerBad message dismiss"

text \<open>\<open>WarnWash\<close> wraps its children only when on; \<open>Kbd\<close> makes a chip of each key.\<close>

definition warn_wash :: "bool \<Rightarrow> 'a \<Rightarrow> 'a + 'a" where
  "warn_wash on c = (if on then Inl c else Inr c)"

definition kbd_chips :: "string \<Rightarrow> string list" where
  "kbd_chips keys = split_on (CHR '' '') keys"

section \<open>Inputs\<close>

record text_input =
  ti_value :: string
  ti_reveal :: bool
  ti_entered :: nat               \<comment> \<open>calls of \<open>onEnter\<close>\<close>

datatype text_event = TypeText string | TypeKey string | ClickReveal

definition is_password :: "string \<Rightarrow> bool" where
  "is_password typ \<longleftrightarrow> typ = ''password''"

definition effective_type :: "string \<Rightarrow> text_input \<Rightarrow> string" where
  "effective_type typ s = (if is_password typ \<and> ti_reveal s then ''text'' else typ)"

text \<open>The button that reveals exists for passwords only.\<close>

definition text_input_step :: "string \<Rightarrow> bool \<Rightarrow> text_input \<Rightarrow> text_event \<Rightarrow> text_input" where
  "text_input_step typ on_enter s e = (case e of
     TypeText t \<Rightarrow> s\<lparr>ti_value := t\<rparr>
   | TypeKey k \<Rightarrow> if k = ''Enter'' \<and> on_enter then s\<lparr>ti_entered := Suc (ti_entered s)\<rparr> else s
   | ClickReveal \<Rightarrow> if is_password typ then s\<lparr>ti_reveal := \<not> ti_reveal s\<rparr> else s)"

definition checkbox_click :: "bool \<Rightarrow> bool" where
  "checkbox_click checked = (\<not> checked)"

definition disclosure_click :: "bool \<Rightarrow> bool" where
  "disclosure_click opened = (\<not> opened)"

definition menu_item_shows :: "string option \<Rightarrow> string \<Rightarrow> string option \<Rightarrow> bool \<Rightarrow> string option \<times> string \<times> string option \<times> bool" where
  "menu_item_shows lead title hint on = (truthy lead, title, truthy hint, on)"

text \<open>A field whose content is not revealed shows no text, whatever is typed; only the button reveals it.\<close>

lemma password_stays_hidden:
  assumes "ClickReveal \<notin> set es" and "\<not> ti_reveal s"
  shows "effective_type ''password'' (foldl (text_input_step ''password'' on_enter) s es) = ''password''"
proof -
  have "\<not> ti_reveal (foldl (text_input_step ''password'' on_enter) s es)"
    using assms
  proof (induction es arbitrary: s)
    case (Cons e es)
    then have "\<not> ti_reveal (text_input_step ''password'' on_enter s e)" by (cases e) (auto simp: text_input_step_def)
    with Cons show ?case by simp
  qed simp
  then show ?thesis by (simp add: effective_type_def is_password_def)
qed

section \<open>The pill group\<close>

text \<open>\<open>boxes\<close> is where the layout has put each pill; the effect of \<open>[value, optionsKey]\<close> measures the active one.\<close>

type_synonym pill_box = "real \<times> real \<times> real \<times> real"

record pill_group =
  pl_value :: string
  pl_options :: "string list"
  pl_ind :: "pill_box option"
  pl_armed :: bool
  pl_deps :: "(string \<times> string) option"

definition options_key :: "string list \<Rightarrow> string" where
  "options_key os = join_with '','' os"

definition pill_layout :: "(string \<Rightarrow> pill_box) \<Rightarrow> pill_group \<Rightarrow> pill_group" where
  "pill_layout boxes s = (let deps = Some (pl_value s, options_key (pl_options s)) in
     if pl_deps s = deps then s
     else s\<lparr>pl_deps := deps, pl_ind := (if pl_value s \<in> set (pl_options s) then Some (boxes (pl_value s)) else pl_ind s)\<rparr>)"

datatype pill_event = PillRender string "string list" "string \<Rightarrow> pill_box" | PillArm

definition pill_mount :: "string \<Rightarrow> string list \<Rightarrow> (string \<Rightarrow> pill_box) \<Rightarrow> pill_group" where
  "pill_mount v os boxes = pill_layout boxes \<lparr>pl_value = v, pl_options = os, pl_ind = None, pl_armed = False, pl_deps = None\<rparr>"

definition pill_step :: "pill_group \<Rightarrow> pill_event \<Rightarrow> pill_group" where
  "pill_step s e = (case e of
     PillRender v os boxes \<Rightarrow> pill_layout boxes (s\<lparr>pl_value := v, pl_options := os\<rparr>)
   | PillArm \<Rightarrow> s\<lparr>pl_armed := True\<rparr>)"

definition pill_checked :: "pill_group \<Rightarrow> (string \<times> bool) list" where
  "pill_checked s = map (\<lambda>o'. (o', o' = pl_value s)) (pl_options s)"

text \<open>With a layout that does not move, the indicator rests on the active pill whenever the active value is one of the pills, and it is
  invisible until one has been active.\<close>

definition pill_inv :: "(string \<Rightarrow> pill_box) \<Rightarrow> string list \<Rightarrow> pill_group \<Rightarrow> bool" where
  "pill_inv boxes os s \<longleftrightarrow> pl_options s = os \<and> pl_deps s = Some (pl_value s, options_key os) \<and> (pl_value s \<in> set os \<longrightarrow> pl_ind s = Some (boxes (pl_value s)))"

lemma pill_inv_step: "pill_inv boxes os s \<Longrightarrow> e = PillArm \<or> (\<exists>v. e = PillRender v os boxes) \<Longrightarrow> pill_inv boxes os (pill_step s e)"
  by (auto simp: pill_inv_def pill_step_def pill_layout_def Let_def split: if_splits)

theorem indicator_on_active:
  assumes "\<forall>e \<in> set es. e = PillArm \<or> (\<exists>v. e = PillRender v os boxes)" and "pl_value (foldl pill_step (pill_mount v0 os boxes) es) \<in> set os"
  shows "pl_ind (foldl pill_step (pill_mount v0 os boxes) es) = Some (boxes (pl_value (foldl pill_step (pill_mount v0 os boxes) es)))
    \<and> map fst (filter snd (pill_checked (foldl pill_step (pill_mount v0 os boxes) es))) = filter (\<lambda>x. x = pl_value (foldl pill_step (pill_mount v0 os boxes) es)) os"
proof -
  have "pill_inv boxes os (foldl pill_step (pill_mount v0 os boxes) es)"
    using assms(1)
  proof (induction es rule: rev_induct)
    case Nil
    show ?case by (auto simp: pill_inv_def pill_mount_def pill_layout_def Let_def)
  next
    case (snoc e es)
    then show ?case by (auto intro: pill_inv_step)
  qed
  with assms(2) show ?thesis by (simp add: pill_inv_def pill_checked_def filter_map comp_def)
qed

text \<open>The key of the options leaves their labels out, so a pill that grows under an unchanged value is not measured again.\<close>

lemma indicator_not_remeasured:
  assumes "pl_deps s = Some (v, options_key os)" and "pl_value s = v" and "pl_options s = os"
  shows "pl_ind (pill_step s (PillRender v os boxes)) = pl_ind s"
  using assms by (simp add: pill_step_def pill_layout_def)

section \<open>The table\<close>

record ('r, 'c) column =
  co_key :: string
  co_header :: string
  co_right :: bool
  co_pin :: bool
  co_render :: "'r \<Rightarrow> 'c"

datatype 'c table_view = EmptyTable string "string option" | FilledTable "(string \<times> bool) list" "(string \<times> ('c \<times> bool \<times> bool) list) list"

definition table_cells :: "('r, 'c) column list \<Rightarrow> 'r \<Rightarrow> ('c \<times> bool \<times> bool) list" where
  "table_cells cols r = map (\<lambda>c. (co_render c r, co_right c, co_pin c)) cols"

definition data_table :: "('r, 'c) column list \<Rightarrow> ('r \<Rightarrow> string) \<Rightarrow> string \<times> string option \<Rightarrow> 'r list \<Rightarrow> 'c table_view" where
  "data_table cols key msg rows = (if rows = [] then EmptyTable (fst msg) (truthy (snd msg))
     else FilledTable (map (\<lambda>c. (co_header c, co_right c)) cols) (map (\<lambda>r. (key r, table_cells cols r)) rows))"

datatype 'r row_event = RowClick 'r | RowKey string 'r

text \<open>What is handed to \<open>onRowClick\<close>, and whether the page is kept from scrolling.\<close>

definition table_event :: "bool \<Rightarrow> 'r row_event \<Rightarrow> 'r option \<times> bool" where
  "table_event clickable e = (if \<not> clickable then (None, False) else case e of
     RowClick r \<Rightarrow> (Some r, False)
   | RowKey k r \<Rightarrow> if k = ''Enter'' \<or> k = '' '' then (Some r, True) else (None, False))"

text \<open>A table has a cell for every row and column, in the order of both, under the alignment of its column; it is never drawn empty; and a
  row opens by keyboard exactly where it opens by pointer.\<close>

theorem table_shows_rows:
  "(case data_table cols key msg rows of
      EmptyTable t h \<Rightarrow> rows = [] \<and> t = fst msg
    | FilledTable hs body \<Rightarrow> rows \<noteq> [] \<and> map fst body = map key rows \<and> length hs = length cols
        \<and> map (\<lambda>b. map fst (snd b)) body = map (\<lambda>r. map (\<lambda>c. co_render c r) cols) rows
        \<and> (\<forall>b. b \<notin> set body \<or> map (\<lambda>c. fst (snd c)) (snd b) = map snd hs))
    \<and> fst (table_event clickable (RowKey k r)) = (if k \<in> {''Enter'', '' ''} then fst (table_event clickable (RowClick r)) else None)"
  by (auto simp: data_table_def table_cells_def table_event_def comp_def)

section \<open>Copying\<close>

text \<open>The confirmation of a copy button does not wait for the clipboard: it says copied also when both clipboards refuse.\<close>

definition copy_text :: "bool option \<Rightarrow> bool \<Rightarrow> bool" where
  "copy_text native browser = (if copy_falls_back native then browser else True)"

theorem copied_without_copy:
  "\<not> copy_text None False \<and> cb_copied (copy_click now \<lparr>cb_copied = False, cb_timer = None\<rparr>)"
  by (simp add: copy_text_def copy_falls_back_def copy_click_def)

theorem indicator_on_active_witness:
  "pl_ind (foldl pill_step (pill_mount ''a'' [''a'', ''b''] (\<lambda>v. if v = ''a'' then (0, 0, 40, 26) else (46, 0, 50, 26)))
     [PillArm, PillRender ''b'' [''a'', ''b''] (\<lambda>v. if v = ''a'' then (0, 0, 40, 26) else (46, 0, 50, 26))]) = Some (46, 0, 50, 26)"
proof -
  define boxes :: "string \<Rightarrow> pill_box" where "boxes = (\<lambda>v. if v = ''a'' then (0, 0, 40, 26) else (46, 0, 50, 26))"
  let ?es = "[PillArm, PillRender ''b'' [''a'', ''b''] boxes]"
  have "\<forall>e \<in> set ?es. e = PillArm \<or> (\<exists>v. e = PillRender v [''a'', ''b''] boxes)" by simp
  moreover have v: "pl_value (foldl pill_step (pill_mount ''a'' [''a'', ''b''] boxes) ?es) = ''b''"
    by (simp add: pill_step_def pill_layout_def Let_def)
  ultimately have "pl_ind (foldl pill_step (pill_mount ''a'' [''a'', ''b''] boxes) ?es) = Some (boxes ''b'')"
    using indicator_on_active [of ?es "[''a'', ''b'']" boxes "''a''"] by simp
  then show ?thesis by (simp add: boxes_def)
qed

end
