(* ===== verification/Console.thy ===== *)
theory Console
  imports Format Theme Model
begin

text \<open>
  The application shell: the rail and its shortcuts (\<open>nav.ts\<close>), the root component (\<open>App.tsx\<close>: which
  screen is up, the wizard hold, deep links, the ambient light with its three second hold, the
  \<open>data-role\<close> attribute), the command palette (\<open>commands.tsx\<close>, \<open>CommandPalette.tsx\<close>) and what the title
  bar and sidebar say about the link (\<open>ConnectionPill.tsx\<close>, \<open>TitleBar.tsx\<close>, \<open>Sidebar.tsx\<close>).
\<close>

section \<open>The rail\<close>

datatype nav_id = NavOverview | NavAgents | NavTraffic | NavPlayers | NavAnalytics | NavTunnels | NavActivity | NavSettings

record nav_item =
  ni_id :: nav_id
  ni_label :: string
  ni_shortcut :: string

text \<open>The rail definition: identity, label, and the roles it is limited to.\<close>

definition main_defs :: "(nav_id \<times> string \<times> string list option) list" where
  "main_defs = [(NavOverview, ''Overview'', None), (NavAgents, ''Agents'', Some [''gateway'']), (NavTraffic, ''Traffic'', None),
     (NavPlayers, ''Players'', None), (NavAnalytics, ''Analytics'', None), (NavTunnels, ''Tunnels'', None), (NavActivity, ''Activity'', None)]"

definition main_nav :: "string \<Rightarrow> nav_item list" where
  "main_nav role = map (\<lambda>(i, n, label, _). \<lparr>ni_id = n, ni_label = label, ni_shortcut = show_nat (Suc i)\<rparr>)
     (enumerate 0 (filter (\<lambda>(_, _, roles). case roles of None \<Rightarrow> True | Some rs \<Rightarrow> role \<in> set rs) main_defs))"

definition settings_nav :: "string \<Rightarrow> nav_item" where
  "settings_nav role = \<lparr>ni_id = NavSettings, ni_label = ''Settings'', ni_shortcut = show_nat (length (main_nav role) + 1)\<rparr>"

definition nav_for :: "string \<Rightarrow> nav_item list" where
  "nav_for role = main_nav role @ [settings_nav role]"

definition label_of :: "nav_id \<Rightarrow> string" where
  "label_of n = (case find (\<lambda>(m, _). m = n) (map (\<lambda>(m, l, _). (m, l)) main_defs @ [(NavSettings, ''Settings'')]) of
     Some (_, l) \<Rightarrow> l | None \<Rightarrow> '''')"

definition reachable_nav :: "string \<Rightarrow> nav_id \<Rightarrow> bool" where
  "reachable_nav role n \<longleftrightarrow> n = NavSettings \<or> n \<in> set (map ni_id (main_nav role))"

section \<open>The root component\<close>

datatype ambient = AmbOk | AmbWarn | AmbBad

definition ambient_of :: "ui_status option \<Rightarrow> ambient" where
  "ambient_of st = (case st of None \<Rightarrow> AmbOk | Some s \<Rightarrow>
     if st_mode s = ''wizard'' \<or> st_role s = '''' then AmbOk
     else if st_engine_fatal s \<notin> {None, Some ''''} then AmbBad
     else let up = (if st_role s = ''agent'' then st_link_up s else st_agent_connected s) in
       if \<not> up then (if st_role s = ''agent'' then AmbBad else AmbWarn)
       else if st_health_score s = ''bad'' then AmbBad
       else if st_health_score s = ''warn'' then AmbWarn else AmbOk)"

text \<open>\<open>ap_applied\<close> is the \<open>data-ambient\<close> attribute and \<open>ap_role_attr\<close> the \<open>data-role\<close> one; \<open>ap_switcher\<close>
  is, while the sidebar with its \<open>RoleSwitcher\<close> is mounted, the role that component's first render saw,
  which its cleanup closes over. \<open>ap_since\<close> is a ghost: when the reading of the link last changed.\<close>

record app =
  ap_status :: "ui_status option"
  ap_nav :: nav_id
  ap_palette :: bool
  ap_hold :: bool
  ap_deep_link :: string
  ap_role_attr :: string
  ap_applied :: ambient
  ap_pending :: "ambient option"
  ap_timer :: "(int \<times> ambient) option"
  ap_switcher :: "string option"
  ap_resets :: nat
  ap_since :: int

definition role_of :: "app \<Rightarrow> string" where
  "role_of s = (case ap_status s of None \<Rightarrow> '''' | Some st \<Rightarrow> st_role st)"

definition role_stamp :: "string \<Rightarrow> string" where
  "role_stamp r = (if r = '''' then ''unset'' else r)"

definition backend_wizard :: "ui_status option \<Rightarrow> bool" where
  "backend_wizard st = (case st of None \<Rightarrow> False | Some s \<Rightarrow> st_mode s = ''wizard'' \<or> st_role s = '''')"

datatype screen = Splash | WizardScreen | ConsoleScreen nav_id

definition app_screen :: "app \<Rightarrow> screen" where
  "app_screen s = (if ap_status s = None then Splash
     else if backend_wizard (ap_status s) \<or> ap_hold s then WizardScreen else ConsoleScreen (ap_nav s))"

text \<open>The sidebar's \<open>RoleSwitcher\<close> mounts with the console and unmounts with it.\<close>

definition remount_switcher :: "app \<Rightarrow> app" where
  "remount_switcher s = (case (app_screen s, ap_switcher s) of
     (ConsoleScreen _, None) \<Rightarrow> s\<lparr>ap_switcher := Some (role_of s)\<rparr>
   | (ConsoleScreen _, Some _) \<Rightarrow> s
   | (_, None) \<Rightarrow> s
   | (_, Some r) \<Rightarrow> s\<lparr>ap_switcher := None, ap_role_attr := role_stamp r\<rparr>)"

definition ambient_effect :: "int \<Rightarrow> app \<Rightarrow> app" where
  "ambient_effect now s = (let to = ambient_of (ap_status s) in
     if to = ap_applied s then (if ap_pending s \<noteq> None then s\<lparr>ap_timer := None, ap_pending := None\<rparr> else s)
     else if ap_pending s = Some to then s
     else s\<lparr>ap_pending := Some to, ap_timer := Some (now + 3000, to)\<rparr>)"

definition role_fallback :: "app \<Rightarrow> app" where
  "role_fallback s = (if ap_nav s \<noteq> NavSettings \<and> ap_nav s \<notin> set (map ni_id (main_nav (role_of s))) then s\<lparr>ap_nav := NavOverview\<rparr> else s)"

text \<open>The state after the first render and its effects: no status yet.\<close>

definition app_mount :: app where
  "app_mount = \<lparr>ap_status = None, ap_nav = NavOverview, ap_palette = False, ap_hold = False, ap_deep_link = '''',
     ap_role_attr = ''unset'', ap_applied = ambient_of None, ap_pending = None, ap_timer = None, ap_switcher = None,
     ap_resets = 0, ap_since = 0\<rparr>"

definition app_status :: "int \<Rightarrow> ui_status \<Rightarrow> app \<Rightarrow> app" where
  "app_status now st s = (let
     s1 = remount_switcher (s\<lparr>ap_status := Some st,
       ap_since := (if ambient_of (Some st) = ambient_of (ap_status s) then ap_since s else now)\<rparr>);
     s2 = (if st_role st \<noteq> role_of s then s1\<lparr>ap_role_attr := role_stamp (st_role st)\<rparr> else s1);
     s3 = role_fallback (ambient_effect now s2);
     s4 = (if backend_wizard (Some st) \<and> \<not> backend_wizard (ap_status s) then s3\<lparr>ap_hold := True\<rparr> else s3)
     in remount_switcher s4)"

definition app_clock :: "int \<Rightarrow> app \<Rightarrow> app" where
  "app_clock now s = (case ap_timer s of None \<Rightarrow> s
   | Some (t, to) \<Rightarrow> if t \<le> now then s\<lparr>ap_applied := to, ap_pending := None, ap_timer := None\<rparr> else s)"

definition app_go :: "nav_id \<Rightarrow> app \<Rightarrow> app" where
  "app_go n s = (if n = ap_nav s then s else role_fallback (s\<lparr>ap_nav := n, ap_resets := Suc (ap_resets s)\<rparr>))"

definition app_key :: "bool \<Rightarrow> bool \<Rightarrow> bool \<Rightarrow> string \<Rightarrow> app \<Rightarrow> app" where
  "app_key ctrl alt meta k s = (if \<not> ctrl \<or> alt \<or> meta then s
     else if js_lower k = ''k'' then s\<lparr>ap_palette := \<not> ap_palette s\<rparr>
     else case find (\<lambda>n. ni_shortcut n = k) (nav_for (role_of s)) of None \<Rightarrow> s | Some n \<Rightarrow> app_go (ni_id n) s)"

definition app_deep_link :: "string \<Rightarrow> app \<Rightarrow> app" where
  "app_deep_link url s = remount_switcher (s\<lparr>ap_deep_link := url, ap_hold := True\<rparr>)"

definition app_pending_link :: "string \<Rightarrow> app \<Rightarrow> app" where
  "app_pending_link url s = (if url = '''' then s else app_deep_link url s)"

definition app_pair :: "app \<Rightarrow> app" where
  "app_pair s = remount_switcher (s\<lparr>ap_hold := True\<rparr>)"

definition finish_wizard :: "app \<Rightarrow> app" where
  "finish_wizard s = remount_switcher (s\<lparr>ap_deep_link := '''', ap_hold := False\<rparr>)"

text \<open>\<open>preview\<close>: of the role switcher's menu, and of the wizard's role cards.\<close>

definition switcher_preview :: "string option \<Rightarrow> app \<Rightarrow> app" where
  "switcher_preview r s = (if ap_switcher s = None then s
     else s\<lparr>ap_role_attr := (case r of Some r \<Rightarrow> r | None \<Rightarrow> role_stamp (role_of s))\<rparr>)"

definition wizard_preview :: "string \<Rightarrow> app \<Rightarrow> app" where
  "wizard_preview r s = (if app_screen s = WizardScreen then s\<lparr>ap_role_attr := role_stamp r\<rparr> else s)"

datatype app_event = Tick int ui_status | Now int | Go nav_id | Key bool bool bool string | DeepLink string
  | PendingLink string | Pair | WizardDone | SwitcherPreview "string option" | WizardPreview string

fun app_step :: "app \<Rightarrow> app_event \<Rightarrow> app" where
  "app_step s (Tick now st) = app_status now st s"
| "app_step s (Now now) = app_clock now s"
| "app_step s (Go n) = app_go n s"
| "app_step s (Key c a m k) = app_key c a m k s"
| "app_step s (DeepLink url) = app_deep_link url s"
| "app_step s (PendingLink url) = app_pending_link url s"
| "app_step s Pair = app_pair s"
| "app_step s WizardDone = finish_wizard s"
| "app_step s (SwitcherPreview r) = switcher_preview r s"
| "app_step s (WizardPreview r) = wizard_preview r s"

text \<open>The shell never shows a screen that the role cannot reach, and a pending ambient change counts down
  from the moment the link's reading last changed.\<close>

definition timer_ok :: "(int \<times> ambient) option \<Rightarrow> ambient option \<Rightarrow> ambient \<Rightarrow> ambient \<Rightarrow> int \<Rightarrow> bool" where
  "timer_ok timer pending applied reading since = (case timer of None \<Rightarrow> pending = None \<and> reading = applied
     | Some (t, to) \<Rightarrow> pending = Some to \<and> to \<noteq> applied \<and> reading = to \<and> t = since + 3000)"

definition app_inv :: "app \<Rightarrow> bool" where
  "app_inv s \<longleftrightarrow> reachable_nav (role_of s) (ap_nav s)
    \<and> timer_ok (ap_timer s) (ap_pending s) (ap_applied s) (ambient_of (ap_status s)) (ap_since s)"

lemma overview_reachable: "reachable_nav role NavOverview"
  by (simp add: reachable_nav_def main_nav_def main_defs_def)

lemma role_fallback_reaches: "reachable_nav (role_of (role_fallback s)) (ap_nav (role_fallback s))"
  using overview_reachable by (auto simp: role_fallback_def reachable_nav_def role_of_def)

text \<open>What each part of an update leaves alone.\<close>

lemma remount_keeps [simp]:
  "ap_nav (remount_switcher s) = ap_nav s" "ap_status (remount_switcher s) = ap_status s"
  "ap_timer (remount_switcher s) = ap_timer s" "ap_pending (remount_switcher s) = ap_pending s"
  "ap_applied (remount_switcher s) = ap_applied s" "ap_since (remount_switcher s) = ap_since s"
  "ap_hold (remount_switcher s) = ap_hold s" "role_of (remount_switcher s) = role_of s"
  by (simp_all add: remount_switcher_def role_of_def split: screen.splits option.splits)

lemma fallback_keeps [simp]:
  "ap_status (role_fallback s) = ap_status s" "ap_timer (role_fallback s) = ap_timer s"
  "ap_pending (role_fallback s) = ap_pending s" "ap_applied (role_fallback s) = ap_applied s" "ap_since (role_fallback s) = ap_since s"
  by (simp_all add: role_fallback_def)

lemma effect_keeps [simp]:
  "ap_status (ambient_effect now s) = ap_status s" "ap_applied (ambient_effect now s) = ap_applied s"
  "ap_since (ambient_effect now s) = ap_since s" "ap_nav (ambient_effect now s) = ap_nav s"
  by (simp_all add: ambient_effect_def Let_def)

lemma inv_cong:
  assumes "app_inv s" and "ap_nav s' = ap_nav s" and "ap_status s' = ap_status s" and "ap_timer s' = ap_timer s"
    and "ap_pending s' = ap_pending s" and "ap_applied s' = ap_applied s" and "ap_since s' = ap_since s"
  shows "app_inv s'"
  using assms by (simp add: app_inv_def role_of_def)

lemma inv_go: "app_inv s \<Longrightarrow> app_inv (app_go n s)"
  using role_fallback_reaches [of "s\<lparr>ap_nav := n, ap_resets := Suc (ap_resets s)\<rparr>"]
  by (simp add: app_inv_def app_go_def)

lemma inv_status:
  assumes "app_inv s"
  shows "app_inv (app_status now st s)"
proof -
  define s1 where "s1 = remount_switcher (s\<lparr>ap_status := Some st,
       ap_since := (if ambient_of (Some st) = ambient_of (ap_status s) then ap_since s else now)\<rparr>)"
  define s2 where "s2 = (if st_role st \<noteq> role_of s then s1\<lparr>ap_role_attr := role_stamp (st_role st)\<rparr> else s1)"
  define s3 where "s3 = role_fallback (ambient_effect now s2)"
  have s2: "ap_status s2 = Some st" "ap_timer s2 = ap_timer s" "ap_pending s2 = ap_pending s" "ap_applied s2 = ap_applied s"
    "ap_since s2 = (if ambient_of (Some st) = ambient_of (ap_status s) then ap_since s else now)"
    by (simp_all add: s2_def s1_def)
  have "timer_ok (ap_timer s) (ap_pending s) (ap_applied s) (ambient_of (ap_status s)) (ap_since s)"
    using assms by (simp add: app_inv_def)
  then have "timer_ok (ap_timer s3) (ap_pending s3) (ap_applied s3) (ambient_of (ap_status s3)) (ap_since s3)"
    using s2 by (auto simp: s3_def ambient_effect_def Let_def timer_ok_def split: option.splits)
  moreover have "reachable_nav (role_of s3) (ap_nav s3)" unfolding s3_def by (rule role_fallback_reaches)
  ultimately have "app_inv s3" unfolding app_inv_def by blast
  then show ?thesis
    by (rule inv_cong) (simp_all add: app_status_def Let_def s3_def s2_def s1_def)
qed

lemma app_inv_step: "app_inv s \<Longrightarrow> app_inv (app_step s e)"
proof (cases e)
  case (Now now)
  assume "app_inv s"
  with Now show ?thesis by (auto simp: app_inv_def timer_ok_def app_clock_def role_of_def split: option.splits)
next
  case (Key c a m k)
  assume "app_inv s"
  with Key inv_go show ?thesis by (auto simp: app_key_def intro: inv_cong split: option.splits)
next
  case (PendingLink url)
  assume "app_inv s"
  with PendingLink show ?thesis by (auto simp: app_pending_link_def app_deep_link_def elim: inv_cong)
qed (auto simp: inv_status inv_go app_deep_link_def app_pair_def finish_wizard_def switcher_preview_def wizard_preview_def elim: inv_cong)

lemma app_inv_mount: "app_inv app_mount"
  using overview_reachable by (simp add: app_inv_def timer_ok_def app_mount_def)

interpretation shell: invariant_machine app_step app_inv
  by unfold_locales (rule app_inv_step)



section \<open>Commands\<close>

datatype command_action = GoTo nav_id | SetTheme theme_pref | CopyPairing | CopyPublicIp | CopyPeer
  | RestartEngine | ExportDiagnostics | OpenConfigDir

record command =
  cm_id :: string
  cm_title :: string
  cm_hint :: "string option"
  cm_section :: string
  cm_when :: "ui_status \<Rightarrow> bool"
  cm_run :: command_action

definition nav_commands :: "string \<Rightarrow> command list" where
  "nav_commands role = map (\<lambda>n. \<lparr>cm_id = ''nav-'' @ js_lower (ni_label n), cm_title = ''Go to '' @ ni_label n, cm_hint = None,
     cm_section = ''Navigate'', cm_when = (\<lambda>_. True), cm_run = GoTo (ni_id n)\<rparr>) (nav_for role)"

definition always :: "ui_status \<Rightarrow> bool" where
  "always _ = True"

definition static_commands :: "command list" where
  "static_commands =
    [\<lparr>cm_id = ''theme-light'', cm_title = ''Theme: Light'', cm_hint = None, cm_section = ''Appearance'', cm_when = always, cm_run = SetTheme PrefLight\<rparr>,
     \<lparr>cm_id = ''theme-dark'', cm_title = ''Theme: Dark'', cm_hint = None, cm_section = ''Appearance'', cm_when = always, cm_run = SetTheme PrefDark\<rparr>,
     \<lparr>cm_id = ''theme-system'', cm_title = ''Theme: System'', cm_hint = Some ''Follow Windows'', cm_section = ''Appearance'', cm_when = always, cm_run = SetTheme PrefSystem\<rparr>,
     \<lparr>cm_id = ''copy-pairing'', cm_title = ''Copy pairing code'', cm_hint = Some ''Hand to your agent'', cm_section = ''Actions'',
       cm_when = (\<lambda>s. st_role s = ''gateway'' \<and> st_mode s = ''engine''), cm_run = CopyPairing\<rparr>,
     \<lparr>cm_id = ''copy-public-ip'', cm_title = ''Copy public address'', cm_hint = None, cm_section = ''Actions'', cm_when = (\<lambda>s. st_public_ip s \<noteq> ''''), cm_run = CopyPublicIp\<rparr>,
     \<lparr>cm_id = ''copy-peer'', cm_title = ''Copy peer address'', cm_hint = None, cm_section = ''Actions'', cm_when = (\<lambda>s. st_peer_addr s \<noteq> ''''), cm_run = CopyPeer\<rparr>,
     \<lparr>cm_id = ''restart-engine'', cm_title = ''Restart engine'', cm_hint = Some ''Reconnects with current settings'', cm_section = ''Actions'',
       cm_when = (\<lambda>s. st_mode s = ''engine''), cm_run = RestartEngine\<rparr>,
     \<lparr>cm_id = ''export-diagnostics'', cm_title = ''Export diagnostics'', cm_hint = Some ''Redacted support bundle'', cm_section = ''Actions'', cm_when = always, cm_run = ExportDiagnostics\<rparr>,
     \<lparr>cm_id = ''open-config'', cm_title = ''Open config folder'', cm_hint = None, cm_section = ''Actions'', cm_when = always, cm_run = OpenConfigDir\<rparr>]"

text \<open>The scorer's loop over the query: position, total, streak; \<open>None\<close> when a character is not found.\<close>

fun fuzzy_from :: "string \<Rightarrow> string \<Rightarrow> nat \<Rightarrow> int \<Rightarrow> int \<Rightarrow> int option" where
  "fuzzy_from t [] ti score streak = Some score"
| "fuzzy_from t (c # q) ti score streak = (case index_from c t ti of None \<Rightarrow> None
   | Some pos \<Rightarrow> let streak = (if pos = ti then streak + 1 else 1);
        word_start = (pos = 0 \<or> t ! (pos - 1) = CHR '' '' \<or> t ! (pos - 1) = CHR '':'') in
      fuzzy_from t q (Suc pos) (score + streak * 2 + (if word_start then 3 else 0)) streak)"

definition fuzzy_query :: "string \<Rightarrow> string" where
  "fuzzy_query q = filter (\<lambda>c. \<not> is_space c) (js_lower q)"

definition fuzzy_score :: "string \<Rightarrow> string \<Rightarrow> real" where
  "fuzzy_score s q = (let t = js_lower s; q = fuzzy_query q in
     if q = [] then 0
     else case fuzzy_from t q 0 0 0 of None \<Rightarrow> -1 | Some score \<Rightarrow> of_int score - of_nat (length t) * (1/100))"

section \<open>The palette\<close>

definition available_commands :: "ui_status \<Rightarrow> command list" where
  "available_commands st = filter (\<lambda>c. cm_when c st) (nav_commands (st_role st) @ static_commands)"

definition command_text :: "command \<Rightarrow> string" where
  "command_text c = cm_title c @ '' '' @ (case cm_hint c of Some h \<Rightarrow> h | None \<Rightarrow> '''')"

definition score_cmp :: "string \<Rightarrow> command \<Rightarrow> command \<Rightarrow> int" where
  "score_cmp q a b = \<lfloor>sgn (fuzzy_score (command_text b) q - fuzzy_score (command_text a) q)\<rfloor>"

definition palette_results :: "ui_status \<Rightarrow> string \<Rightarrow> command list" where
  "palette_results st q = (if js_trim q = '''' then available_commands st
     else js_sort (score_cmp q) (filter (\<lambda>c. fuzzy_score (command_text c) q \<ge> 0) (available_commands st)))"

definition section_add :: "command \<Rightarrow> (string \<times> command list) list \<Rightarrow> (string \<times> command list) list" where
  "section_add c m = AList.update (cm_section c) ((case map_of m (cm_section c) of Some l \<Rightarrow> l | None \<Rightarrow> []) @ [c]) m"

definition palette_groups :: "ui_status \<Rightarrow> string \<Rightarrow> (string \<times> command list) list option" where
  "palette_groups st q = (if js_trim q \<noteq> '''' then None else Some (fold section_add (palette_results st q) []))"

text \<open>The rows as rendered, top to bottom: \<open>flatIndex\<close> counts them.\<close>

definition palette_rows :: "ui_status \<Rightarrow> string \<Rightarrow> command list" where
  "palette_rows st q = (case palette_groups st q of None \<Rightarrow> palette_results st q | Some gs \<Rightarrow> concat (map snd gs))"

record palette =
  pl_query :: string
  pl_idx :: int
  pl_closing :: bool
  pl_timers :: "int list"
  pl_ran :: "command_action list"

definition palette_mount :: palette where
  "palette_mount = \<lparr>pl_query = '''', pl_idx = 0, pl_closing = False, pl_timers = [], pl_ran = []\<rparr>"

definition palette_type :: "string \<Rightarrow> palette \<Rightarrow> palette" where
  "palette_type q p = (if q = pl_query p then p else p\<lparr>pl_query := q, pl_idx := 0\<rparr>)"

definition palette_close :: "int \<Rightarrow> palette \<Rightarrow> palette" where
  "palette_close now p = p\<lparr>pl_closing := True, pl_timers := pl_timers p @ [now + 150]\<rparr>"

definition palette_run :: "int \<Rightarrow> command \<Rightarrow> palette \<Rightarrow> palette" where
  "palette_run now c p = (palette_close now p)\<lparr>pl_ran := pl_ran p @ [cm_run c]\<rparr>"

definition palette_key :: "ui_status \<Rightarrow> int \<Rightarrow> string \<Rightarrow> palette \<Rightarrow> palette" where
  "palette_key st now k p = (let rs = palette_results st (pl_query p) in
     if k = ''ArrowDown'' then p\<lparr>pl_idx := min (int (length rs) - 1) (pl_idx p + 1)\<rparr>
     else if k = ''ArrowUp'' then p\<lparr>pl_idx := max 0 (pl_idx p - 1)\<rparr>
     else if k = ''Enter'' then (if 0 \<le> pl_idx p \<and> pl_idx p < int (length rs) then palette_run now (rs ! nat (pl_idx p)) p else p)
     else if k = ''Escape'' then palette_close now p
     else p)"

section \<open>What the chrome says about the link\<close>

datatype pill_tone = PillGood | PillWarn | PillBad

fun pill_of :: "tone \<Rightarrow> pill_tone" where
  "pill_of Good = PillGood" | "pill_of Warn = PillWarn" | "pill_of Bad = PillBad"

record pill =
  pi_label :: string
  pi_tone :: pill_tone
  pi_rtt :: "string option"
  pi_loss :: "string option"
  pi_uptime :: "string option"

definition connection_pill :: "int \<Rightarrow> bool \<Rightarrow> ui_status \<Rightarrow> pill option" where
  "connection_pill now stale s = (if stale then None else let
     is_agent = (st_role s = ''agent'');
     agents = (case st_agents s of Some a \<Rightarrow> a | None \<Rightarrow> []); n = length agents;
     up = (if is_agent then st_link_up s else st_agent_connected s);
     tail_shown = (up \<and> (is_agent \<or> n = 1)) in Some
     \<lparr>pi_label = (if is_agent then if up then ''Connected'' else ''Reconnecting'' @ ellipsis
        else if n = 0 then ''Waiting for agents'' else if n = 1 then ''Agent online'' else show_nat n @ '' agents online''),
      pi_tone = (if \<not> up then (if is_agent then PillBad else PillWarn)
        else if is_agent then (if st_health_score s = ''warn'' then PillWarn else if st_health_score s = ''bad'' then PillBad else PillGood)
        else pill_of (worst_health (map agent_health_score agents))),
      pi_rtt = (if tail_shown then Some (show_int (st_rtt_millis s) @ '' ms'') else None),
      pi_loss = (if tail_shown \<and> st_packet_loss_pct s > 0
        then Some (to_fixed (if st_packet_loss_pct s < 10 then 1 else 0) (st_packet_loss_pct s) @ ''% loss'') else None),
      pi_uptime = (if tail_shown \<and> st_link_up_since_ms s \<noteq> 0 then Some (fmt_uptime (now - st_link_up_since_ms s)) else None)\<rparr>)"

definition default_context :: "ui_status \<Rightarrow> string option" where
  "default_context s = (let peer = (if st_peer_hostname s \<noteq> '''' then st_peer_hostname s
       else if st_peer_public_ip s \<noteq> '''' then st_peer_public_ip s else st_peer_addr s) in
     if peer = '''' then None else Some ((if st_role s = ''agent'' then ''gateway'' else ''agent'') @ mid_dot @ peer))"

text \<open>The title bar's left strip: the screen's label and context, when it is not the brand.\<close>

definition title_strip :: "bool \<Rightarrow> nav_id option \<Rightarrow> string option \<Rightarrow> ui_status option \<Rightarrow> (string \<times> string option) option" where
  "title_strip brand nav ctx st = (case nav of None \<Rightarrow> None | Some n \<Rightarrow>
     if brand then None
     else Some (label_of n, case ctx of Some c \<Rightarrow> Some c | None \<Rightarrow> (case st of Some s \<Rightarrow> default_context s | None \<Rightarrow> None)))"

definition active_index :: "string \<Rightarrow> nav_id \<Rightarrow> nat option" where
  "active_index role n = find_index (\<lambda>i. ni_id i = n) (main_nav role)"

text \<open>The sliding indicator: shown, and its offset in px.\<close>

definition nav_indicator :: "string \<Rightarrow> nav_id \<Rightarrow> bool \<times> nat" where
  "nav_indicator role n = (case active_index role n of None \<Rightarrow> (False, 0) | Some i \<Rightarrow> (True, i * (36 + 2)))"

definition host_pair :: "ui_status \<Rightarrow> ((string \<times> string) \<times> (string \<times> string \<times> bool)) option" where
  "host_pair s = (if st_hostname s = '''' then None else let is_agent = (st_role s = ''agent''); peer = st_peer_hostname s in
     Some ((if is_agent then ''agent'' else ''gateway'', st_hostname s),
       (if is_agent then ''gateway'' else ''agent'',
        if peer \<noteq> '''' then peer else if is_agent then ''gateway offline'' else ''no agent yet'', peer = '''')))"

section \<open>Properties\<close>


text \<open>The ambient light changes only when a countdown fires, to the current reading of the link, and
  only after that reading has stood for three seconds.\<close>

theorem ambient_holds:
  assumes "s = foldl app_step app_mount es" and "ap_applied (app_step s e) \<noteq> ap_applied s"
  shows "\<exists>now. e = Now now \<and> ap_applied (app_step s e) = ambient_of (ap_status s) \<and> ap_since s + 3000 \<le> now"
proof -
  have inv: "timer_ok (ap_timer s) (ap_pending s) (ap_applied s) (ambient_of (ap_status s)) (ap_since s)"
    using shell.inv_run [OF app_inv_mount, of es] assms(1) by (simp add: app_inv_def)
  show ?thesis
  proof (cases e)
    case (Now now)
    with assms(2) inv show ?thesis by (auto simp: app_clock_def timer_ok_def split: option.splits if_splits)
  qed (use assms(2) in \<open>auto simp: app_status_def Let_def app_go_def app_key_def app_deep_link_def app_pending_link_def app_pair_def
      finish_wizard_def switcher_preview_def wizard_preview_def role_fallback_def split: option.splits if_splits\<close>)
qed

text \<open>The greedy scan finds the query as a subsequence whenever it is one.\<close>

lemma index_from_split:
  "index_from c t ti = Some k \<Longrightarrow> ti \<le> k \<and> k < length t \<and> drop ti t = take (k - ti) (drop ti t) @ c # drop (Suc k) t
    \<and> c \<notin> set (take (k - ti) (drop ti t))"
proof -
  assume "index_from c t ti = Some k"
  then obtain i where i: "find_index (\<lambda>x. x = c) (drop ti t) = Some i" and k: "k = ti + i" by (auto simp: index_from_def)
  then have i': "i < length t - ti" "drop ti t ! i = c" "\<forall>j<i. drop ti t ! j \<noteq> c" by (simp_all add: find_index_Some)
  then have "drop ti t = take i (drop ti t) @ c # drop (Suc i) (drop ti t)"
    using id_take_nth_drop [of i "drop ti t"] by simp
  moreover have "c \<notin> set (take i (drop ti t))" using i' by (auto simp: in_set_conv_nth)
  ultimately show ?thesis using i' k by (simp add: add.commute)
qed

lemma subseq_skip: "c \<notin> set u \<Longrightarrow> subseq (c # q) (u @ v) \<longleftrightarrow> subseq (c # q) v"
  by (induction u) auto

lemma fuzzy_from_subseq: "fuzzy_from t q ti sc st \<noteq> None \<longleftrightarrow> subseq q (drop ti t)"
proof (induction t q ti sc st rule: fuzzy_from.induct)
  case (2 t c q ti sc st)
  show ?case
  proof (cases "index_from c t ti")
    case None
    then have "c \<notin> set (drop ti t)" by (auto simp: index_from_def find_index_None)
    then have "\<not> subseq (c # q) (drop ti t)" using subseq_skip [of c "drop ti t" q "[]"] by simp
    with None show ?thesis by simp
  next
    case (Some k)
    with index_from_split [OF Some] have d: "drop ti t = take (k - ti) (drop ti t) @ c # drop (Suc k) t"
      and n: "c \<notin> set (take (k - ti) (drop ti t))" by blast+
    have "subseq (c # q) (drop ti t) \<longleftrightarrow> subseq q (drop (Suc k) t)"
      by (subst d) (simp add: subseq_skip [OF n])
    with 2 [OF Some refl refl] Some show ?thesis by (simp add: Let_def)
  qed
qed simp

lemma fuzzy_from_score: "fuzzy_from t q ti sc st = Some r \<Longrightarrow> 0 \<le> st \<Longrightarrow> sc + 2 * int (length q) \<le> r"
proof (induction t q ti sc st rule: fuzzy_from.induct)
  case (2 t c q ti sc st)
  from "2.prems"(1) obtain k where k: "index_from c t ti = Some k" by (auto split: option.splits)
  define st' where "st' = (if k = ti then st + 1 else 1)"
  define ws where "ws = (k = 0 \<or> t ! (k - 1) = CHR '' '' \<or> t ! (k - 1) = CHR '':'')"
  have "fuzzy_from t q (Suc k) (sc + st' * 2 + (if ws then 3 else 0)) st' = Some r"
    using "2.prems"(1) k by (simp add: Let_def st'_def ws_def)
  moreover have "1 \<le> st'" using "2.prems"(2) by (simp add: st'_def)
  ultimately have "sc + st' * 2 + (if ws then 3 else 0) + 2 * int (length q) \<le> r"
    using "2.IH" [OF k st'_def ws_def] by simp
  with \<open>1 \<le> st'\<close> show ?case by (simp split: if_splits)
qed simp

text \<open>C37. The palette's search keeps exactly the commands whose text contains the query as a subsequence, case
  and blanks aside, for any text of at most 200 characters (past that the length penalty can
  outweigh a match).\<close>

theorem fuzzy_matches_subsequences:
  assumes "length s \<le> 200"
  shows "0 \<le> fuzzy_score s q \<longleftrightarrow> subseq (fuzzy_query q) (js_lower s)"
proof (cases "fuzzy_query q = []")
  case True
  then show ?thesis by (simp add: fuzzy_score_def Let_def)
next
  case False
  have match: "subseq (fuzzy_query q) (js_lower s) \<longleftrightarrow> fuzzy_from (js_lower s) (fuzzy_query q) 0 0 0 \<noteq> None"
    using fuzzy_from_subseq [of "js_lower s" "fuzzy_query q" 0 0 0] by simp
  show ?thesis
  proof (cases "fuzzy_from (js_lower s) (fuzzy_query q) 0 0 0")
    case None
    with match False show ?thesis by (simp add: fuzzy_score_def Let_def)
  next
    case (Some r)
    have "1 \<le> length (fuzzy_query q)" using False by (cases "fuzzy_query q") simp_all
    with fuzzy_from_score [OF Some] have "2 \<le> r" by simp
    then have "2 \<le> real_of_int r" by simp
    moreover have "real (length (js_lower s)) \<le> 200" using assms by (simp add: js_lower_def)
    ultimately have "0 \<le> fuzzy_score s q" using Some False by (simp add: fuzzy_score_def Let_def)
    with match Some show ?thesis by simp
  qed
qed

theorem fuzzy_matches_subsequences_witness:
  "0 \<le> fuzzy_score ''Go to Traffic'' ''G tr'' \<and> \<not> 0 \<le> fuzzy_score ''Go to Traffic'' ''zz''"
proof -
  have "js_lower ''Go to Traffic'' = ''go to traffic''" "fuzzy_query ''G tr'' = ''gtr''" "fuzzy_query ''zz'' = ''zz''" by code_simp+
  then show ?thesis
    using fuzzy_matches_subsequences [of "''Go to Traffic''" "''G tr''"] fuzzy_matches_subsequences [of "''Go to Traffic''" "''zz''"]
    by simp
qed

lemma section_add_new: "\<lbrakk>k \<notin> fst ` set m; xs \<noteq> []; \<forall>c \<in> set xs. cm_section c = k\<rbrakk> \<Longrightarrow> fold section_add xs m = m @ [(k, xs)]"
proof (induction xs rule: rev_induct)
  case (snoc c xs)
  have upd: "AList.update k v (m @ [(k, w)]) = m @ [(k, v)]" for v w
    using snoc.prems(1) by (induction m) auto
  have new: "AList.update k v m = m @ [(k, v)]" for v using snoc.prems(1) by (induction m) auto
  have none: "map_of m k = None" using snoc.prems(1) by (simp add: map_of_eq_None_iff)
  show ?case
  proof (cases "xs = []")
    case True
    with snoc.prems none new show ?thesis by (simp add: section_add_def)
  next
    case False
    with snoc have "fold section_add xs m = m @ [(k, xs)]" by simp
    have "map_of (m @ [(k, xs)]) k = Some xs" using none by (simp add: map_add_Some_iff)
    moreover have "cm_section c = k" using snoc.prems(3) by simp
    ultimately have "section_add c (m @ [(k, xs)]) = m @ [(k, xs @ [c])]" by (simp add: section_add_def upd)
    with \<open>fold section_add xs m = m @ [(k, xs)]\<close> show ?thesis by simp
  qed
qed simp

lemma section_add_block:
  assumes "k \<notin> fst ` set m" and "\<forall>c \<in> set xs. cm_section c = k"
  shows "concat (map snd (fold section_add xs m)) = concat (map snd m) @ xs"
    and "fst ` set (fold section_add xs m) \<subseteq> insert k (fst ` set m)"
proof -
  have "fold section_add xs m = m @ (if xs = [] then [] else [(k, xs)])"
    using section_add_new [of k m xs] assms by (cases "xs = []") simp_all
  then show "concat (map snd (fold section_add xs m)) = concat (map snd m) @ xs"
    and "fst ` set (fold section_add xs m) \<subseteq> insert k (fst ` set m)" by auto
qed

text \<open>The highlighted row is the one Enter runs: the rows as drawn, in their sections while browsing and
  ranked while searching, are in the order of the results the index counts.\<close>

theorem palette_rows_are_results: "palette_rows st q = palette_results st q"
proof (cases "js_trim q = ''''")
  case True
  let ?P = "\<lambda>c. cm_when c st"
  let ?nav = "filter ?P (nav_commands (st_role st))"
  let ?app = "filter ?P (filter (\<lambda>c. cm_section c = ''Appearance'') static_commands)"
  let ?act = "filter ?P (filter (\<lambda>c. cm_section c = ''Actions'') static_commands)"
  have "static_commands = filter (\<lambda>c. cm_section c = ''Appearance'') static_commands @ filter (\<lambda>c. cm_section c = ''Actions'') static_commands"
    by (simp add: static_commands_def del: list.inject)
  then have av: "available_commands st = ?nav @ ?app @ ?act"
    unfolding available_commands_def by (metis filter_append)
  have sec: "\<forall>c \<in> set ?nav. cm_section c = ''Navigate''" "\<forall>c \<in> set ?app. cm_section c = ''Appearance''" "\<forall>c \<in> set ?act. cm_section c = ''Actions''"
    by (auto simp: nav_commands_def)
  let ?m1 = "fold section_add ?nav []"
  let ?m2 = "fold section_add ?app ?m1"
  have m1: "concat (map snd ?m1) = ?nav" "fst ` set ?m1 \<subseteq> {''Navigate''}"
    using section_add_block [of "''Navigate''" "[]" ?nav] sec(1) by simp_all
  have m2: "concat (map snd ?m2) = ?nav @ ?app" "fst ` set ?m2 \<subseteq> {''Appearance'', ''Navigate''}"
  proof -
    have "''Appearance'' \<noteq> ''Navigate''" by simp
    then have new: "''Appearance'' \<notin> fst ` set ?m1" using m1(2) by blast
    show "concat (map snd ?m2) = ?nav @ ?app" using section_add_block(1) [OF new sec(2)] m1(1) by simp
    show "fst ` set ?m2 \<subseteq> {''Appearance'', ''Navigate''}" using section_add_block(2) [OF new sec(2)] m1(2) by blast
  qed
  have "''Actions'' \<noteq> ''Appearance''" "''Actions'' \<noteq> ''Navigate''" by simp_all
  then have "''Actions'' \<notin> fst ` set ?m2" using m2(2) by blast
  from section_add_block(1) [OF this sec(3)] m2(1)
  have "concat (map snd (fold section_add ?act ?m2)) = ?nav @ ?app @ ?act" by simp
  then show ?thesis using True av by (simp add: palette_rows_def palette_groups_def palette_results_def)
qed (simp add: palette_rows_def palette_groups_def)

text \<open>The palette has no guard against running while it closes: a second Enter inside the closing
  animation runs the command again.\<close>

theorem palette_runs_twice:
  assumes "0 \<le> pl_idx p" and "pl_idx p < int (length (palette_results st (pl_query p)))"
  shows "pl_ran (palette_key st now' ''Enter'' (palette_key st now ''Enter'' p))
    = pl_ran p @ replicate 2 (cm_run (palette_results st (pl_query p) ! nat (pl_idx p)))"
  using assms by (simp add: palette_key_def palette_run_def palette_close_def Let_def numeral_2_eq_2)

text \<open>The shortcut digits run from 1 without gaps, in the order of the rail, Settings last.\<close>

lemma main_nav_eval:
  "map ni_id (main_nav role) = (if role = ''gateway'' then [NavOverview, NavAgents, NavTraffic, NavPlayers, NavAnalytics, NavTunnels, NavActivity]
     else [NavOverview, NavTraffic, NavPlayers, NavAnalytics, NavTunnels, NavActivity])"
  "map ni_shortcut (main_nav role) = map show_nat [1..<Suc (length (main_nav role))]"
  by (simp_all add: main_nav_def main_defs_def enumerate_eq_zip upt_rec)

lemma nav_shortcuts: "map ni_shortcut (nav_for role) = map show_nat [1..<Suc (length (nav_for role))]"
  by (simp add: nav_for_def settings_nav_def main_nav_eval(2))

lemma find_shortcut:
  assumes "1 \<le> d" and "d \<le> length (nav_for role)"
  shows "find (\<lambda>n. ni_shortcut n = show_nat d) (nav_for role) = Some (nav_for role ! (d - 1))"
proof -
  have sc: "ni_shortcut (nav_for role ! i) = show_nat (Suc i)" if "i < length (nav_for role)" for i
  proof -
    have "map ni_shortcut (nav_for role) ! i = map show_nat [1..<Suc (length (nav_for role))] ! i" by (simp only: nav_shortcuts)
    with that show ?thesis by (simp del: upt_Suc)
  qed
  show ?thesis
    unfolding find_Some_iff using assms sc by (intro exI [of _ "d - 1"]) auto
qed

text \<open>Ctrl and a digit jump to the screen at that place of the rail of the role the app runs as, Settings
  counted last; Ctrl+K toggles the palette.\<close>

theorem ctrl_digit_jumps:
  assumes "1 \<le> d" and "d \<le> length (nav_for (role_of s))"
  shows "app_key True False False (show_nat d) s = app_go (map ni_id (nav_for (role_of s)) ! (d - 1)) s"
proof -
  have "show_nat d \<noteq> ''k'' \<and> js_lower (show_nat d) \<noteq> ''k''"
  proof -
    have "CHR ''k'' \<notin> set (js_lower (show_nat d))"
    proof
      assume "CHR ''k'' \<in> set (js_lower (show_nat d))"
      then obtain c where c: "c \<in> set (show_nat d)" "lower_char c = CHR ''k''" by (auto simp: js_lower_def)
      from show_nat_digits [OF c(1)] have "48 \<le> (of_char c :: nat)" "(of_char c :: nat) \<le> 57" by simp_all
      with c(2) have "(of_char (CHR ''k'') :: nat) \<le> 57" by (simp add: lower_char_def Let_def)
      then show False by simp
    qed
    moreover from this have "CHR ''k'' \<notin> set (show_nat d)"
      by (auto dest: show_nat_digits)
    ultimately show ?thesis by (metis list.set_intros(1))
  qed
  then show ?thesis using find_shortcut [OF assms] assms by (simp add: app_key_def)
qed

theorem ctrl_digit_jumps_witness:
  "app_key True False False (show_nat 2) app_mount = app_go NavTraffic app_mount"
proof -
  have "role_of app_mount = ''''" by (simp add: role_of_def app_mount_def)
  moreover have "map ni_id (nav_for '''') = [NavOverview, NavTraffic, NavPlayers, NavAnalytics, NavTunnels, NavActivity, NavSettings]"
    by (simp add: nav_for_def main_nav_eval settings_nav_def)
  moreover have "length (nav_for '''') = 7" by (simp add: nav_for_def main_nav_def main_defs_def)
  ultimately show ?thesis using ctrl_digit_jumps [of 2 app_mount] by simp
qed

section \<open>Where the shell and its comments part\<close>

definition sample_status :: "string \<Rightarrow> bool \<Rightarrow> ui_status" where
  "sample_status role up = \<lparr>st_mode = ''engine'', st_role = role, st_version = '''', st_hostname = '''', st_pid = 1, st_config_path = '''',
     st_link_up = up, st_rtt_millis = 20, st_agent_connected = up, st_transport = '''', st_jitter_millis = 0, st_packet_loss_pct = 0,
     st_health_score = ''good'', st_peer_hostname = '''', st_public_ip = '''', st_peer_public_ip = '''', st_local_lan_ips = [],
     st_peer_lan_ips = [], st_agents = None, st_tunnels = None, st_connections = None, st_total_bytes_in = 0, st_total_bytes_out = 0,
     st_link_up_since_ms = 0, st_process_start_ms = 0, st_peer_addr = '''', st_link_bytes_in = 0, st_link_bytes_out = 0,
     st_all_time_bytes_in = 0, st_all_time_bytes_out = 0, st_cumulative_uptime_ms = 0, st_link_sessions = 0,
     st_history_unsupported = None, st_analytics_unsupported = None, st_connections_truncated = None, st_connections_total = None,
     st_engine_fatal = None\<rparr>"

lemmas sample_shell = sample_status_def app_mount_def app_status_def remount_switcher_def app_screen_def backend_wizard_def
  ambient_effect_def ambient_of_def role_of_def role_stamp_def role_fallback_def main_nav_def main_defs_def
  app_deep_link_def app_pair_def wizard_preview_def finish_wizard_def Let_def

text \<open>The role switcher's cleanup closes over the role of its first render: after a live switch from gateway
  to agent, a clicked invite that opens the wizard repaints the agent in the gateway's colours, until
  the role changes again.\<close>

theorem stale_role_on_unmount:
  "let s = foldl app_step app_mount [Tick 0 (sample_status ''gateway'' True), Tick 500 (sample_status ''agent'' True), DeepLink url] in
    role_of s = ''agent'' \<and> ap_role_attr s = ''gateway''"
  by (simp add: sample_shell)

text \<open>Setup reopened from a gateway's console: leaving a role card takes the role off the whole app, and it
  stays off when the wizard hands back a gateway.\<close>

lemma wizard_hover_unsets_role:
  "let s = foldl app_step app_mount [Tick 0 (sample_status ''gateway'' True), Pair, WizardPreview ''agent'', WizardPreview '''', WizardDone,
      Tick 500 (sample_status ''gateway'' True)] in
    app_screen s = ConsoleScreen NavOverview \<and> role_of s = ''gateway'' \<and> ap_role_attr s = ''unset''"
  by (simp add: sample_shell)

text \<open>The first reading of a link that is down does not apply at once: the empty state before it did.\<close>

lemma first_reading_waits:
  "let s = foldl app_step app_mount [Tick 0 (sample_status ''agent'' False)] in
    ambient_of (ap_status s) = AmbBad \<and> ap_applied s = AmbOk \<and> ap_timer s = Some (3000, AmbBad)"
  by (simp add: sample_shell)


theorem ambient_holds_witness:
  "\<exists>now. Now 3000 = Now now \<and> ap_since (foldl app_step app_mount [Tick 0 (sample_status ''agent'' False)]) + 3000 \<le> now"
  using ambient_holds [OF refl, of "[Tick 0 (sample_status ''agent'' False)]" "Now 3000"]
  by (simp add: sample_shell app_clock_def)

theorem palette_runs_twice_witness:
  "pl_ran (palette_key (sample_status ''agent'' True) 1 ''Enter'' (palette_key (sample_status ''agent'' True) 0 ''Enter'' palette_mount))
    = replicate 2 (cm_run (palette_results (sample_status ''agent'' True) '''' ! 0))"
  by (subst palette_runs_twice)
    (simp_all add: palette_mount_def palette_results_def js_trim_def available_commands_def nav_commands_def nav_for_def)

end
