(* ===== verification/Settings_Form.thy ===== *)
theory Settings_Form
  imports Settings Subscriptions Widgets Console
begin

text \<open>
  What the Settings screen shows (\<open>screens/Settings.tsx\<close>): the rows of its sections as controls over the staged configuration, each with
  the edit its change handler makes; the appearance rows over the stored preferences; the system, token and about rows; and the page around
  them. The long hints under the labels are left out.
\<close>

section \<open>Rows\<close>

datatype form_control =
    TextBox string string "string \<Rightarrow> settings_edit"            \<comment> \<open>value and placeholder\<close>
  | NumberBox int int "string \<Rightarrow> settings_edit"                \<comment> \<open>value and default\<close>
  | Choice string "(string \<times> string) list" "string \<Rightarrow> settings_edit"
  | Tick bool "bool \<Rightarrow> settings_edit"
  | PathBox string mmdb_badge bool "string \<Rightarrow> settings_edit"   \<comment> \<open>path, badge, whether it can be browsed for\<close>

record form_row =
  fr_section :: string
  fr_label :: string
  fr_control :: form_control

definition transport_options :: "(string \<times> string) list" where
  "transport_options = [(''auto'', ''Automatic (recommended) '' @ em_dash @ '' prefer QUIC, fall back''),
     (''quic'', ''QUIC '' @ em_dash @ '' one connection, no head-of-line blocking''),
     (''per-conn'', ''Per-connection '' @ em_dash @ '' one per player''),
     (''mux'', ''Multiplexed '' @ em_dash @ '' one shared connection'')]"

definition log_level_options :: "(string \<times> string) list" where
  "log_level_options = [(''debug'', ''Debug''), (''info'', ''Info''), (''warn'', ''Warn''), (''error'', ''Error'')]"

definition agent_rows :: "agent_config \<Rightarrow> form_row list" where
  "agent_rows a =
    [\<lparr>fr_section = ''connection'', fr_label = ''Gateway address'', fr_control = TextBox (acfg_gateway_host a) ''play.example.com'' EditHost\<rparr>,
     \<lparr>fr_section = ''connection'', fr_label = ''Control port'', fr_control = NumberBox (acfg_gateway_port a) def_control_port EditPort\<rparr>,
     \<lparr>fr_section = ''connection'', fr_label = ''Transport'', fr_control = Choice (acfg_transport a) transport_options EditTransport\<rparr>]"

definition gateway_rows :: "gateway_config \<Rightarrow> form_row list" where
  "gateway_rows g =
    [\<lparr>fr_section = ''connection'', fr_label = ''Public address'', fr_control = TextBox (gcfg_public_host g) ''play.example.com'' EditPublicHost\<rparr>,
     \<lparr>fr_section = ''connection'', fr_label = ''Control port'', fr_control = NumberBox (gcfg_control_port g) def_control_port EditControlPort\<rparr>,
     \<lparr>fr_section = ''connection'', fr_label = ''Bind address'', fr_control = TextBox (gcfg_bind_addr g) def_bind_addr EditBindAddr\<rparr>]"

definition limit_rows :: "gateway_config \<Rightarrow> form_row list" where
  "limit_rows g =
    [\<lparr>fr_section = ''security'', fr_label = ''Max connections'', fr_control = NumberBox (gcfg_max_conns_global g) def_max_conns_global EditMaxConns\<rparr>,
     \<lparr>fr_section = ''security'', fr_label = ''Max per client IP'', fr_control = NumberBox (gcfg_max_conns_per_ip g) def_max_conns_per_ip EditMaxPerIp\<rparr>,
     \<lparr>fr_section = ''security'', fr_label = ''Auth attempts / min'', fr_control = NumberBox (gcfg_auth_attempts_per_min g) def_auth_attempts EditAuthAttempts\<rparr>]"

definition analytics_rows :: "bool \<Rightarrow> geo_status option \<Rightarrow> analytics_config \<Rightarrow> form_row list" where
  "analytics_rows attached geo a =
    [\<lparr>fr_section = ''analytics'', fr_label = ''History retention'', fr_control = NumberBox (ancfg_retention_days a) def_retention_days EditRetention\<rparr>,
     \<lparr>fr_section = ''analytics'', fr_label = ''Resolve player identities'', fr_control = Tick (ancfg_mojang_lookups a) EditMojang\<rparr>,
     \<lparr>fr_section = ''analytics'', fr_label = ''City database (country)'', fr_control = PathBox (ancfg_geo_ip_city_path a)
        (mmdb_badge_of (ancfg_geo_ip_city_path a) (case geo of Some g \<Rightarrow> geo_city_loaded g | None \<Rightarrow> False) (case geo of Some g \<Rightarrow> geo_city_error g | None \<Rightarrow> None))
        (\<not> attached) EditCityPath\<rparr>,
     \<lparr>fr_section = ''analytics'', fr_label = ''ASN database (network)'', fr_control = PathBox (ancfg_geo_ipasn_path a)
        (mmdb_badge_of (ancfg_geo_ipasn_path a) (case geo of Some g \<Rightarrow> geo_asn_loaded g | None \<Rightarrow> False) (case geo of Some g \<Rightarrow> geo_asn_error g | None \<Rightarrow> None))
        (\<not> attached) EditAsnPath\<rparr>]"

definition telemetry_rows :: "logging_config \<Rightarrow> metrics_config \<Rightarrow> form_row list" where
  "telemetry_rows l m =
    [\<lparr>fr_section = ''telemetry'', fr_label = ''Log level'', fr_control = Choice (lcfg_level l) log_level_options EditLevel\<rparr>,
     \<lparr>fr_section = ''telemetry'', fr_label = ''Write to log file'', fr_control = Tick (lcfg_file_enabled l) EditLogFile\<rparr>,
     \<lparr>fr_section = ''telemetry'', fr_label = ''Prometheus endpoint'', fr_control = Tick (mcfg_prometheus_enabled m) EditPrometheus\<rparr>]
    @ (if mcfg_prometheus_enabled m
       then [\<lparr>fr_section = ''telemetry'', fr_label = ''Listen address'', fr_control = TextBox (mcfg_prometheus_addr m) def_prometheus_addr EditPrometheusAddr\<rparr>]
       else [])"

definition form_rows :: "bool \<Rightarrow> bool \<Rightarrow> geo_status option \<Rightarrow> config \<Rightarrow> form_row list" where
  "form_rows is_agent attached geo c = (if is_agent then agent_rows (cfg_agent c) else gateway_rows (cfg_gateway c) @ limit_rows (cfg_gateway c))
     @ analytics_rows attached geo (cfg_analytics c) @ telemetry_rows (cfg_logging c) (cfg_metrics c)"

text \<open>What a row shows, what may be put into it, and the edit that makes.\<close>

datatype form_value = Shown string | Ticked bool

definition row_shows :: "form_control \<Rightarrow> form_value" where
  "row_shows k = (case k of TextBox v _ _ \<Rightarrow> Shown v | NumberBox n _ _ \<Rightarrow> Shown (num_str n) | Choice v _ _ \<Rightarrow> Shown v | Tick b _ \<Rightarrow> Ticked b
     | PathBox v _ _ _ \<Rightarrow> Shown v)"

definition row_edit :: "form_control \<Rightarrow> form_value \<Rightarrow> settings_edit option" where
  "row_edit k x = (case (k, x) of
     (TextBox _ _ f, Shown v) \<Rightarrow> Some (f v)
   | (NumberBox _ _ f, Shown v) \<Rightarrow> Some (f v)
   | (Choice _ os f, Shown v) \<Rightarrow> if v \<in> fst ` set os then Some (f v) else None
   | (Tick b f, Ticked b') \<Rightarrow> if b' = (\<not> b) then Some (f b') else None
   | (PathBox _ _ _ f, Shown v) \<Rightarrow> Some (f v)
   | _ \<Rightarrow> None)"

text \<open>What it is to show afterwards: the text that was typed, or the number read from it.\<close>

definition row_takes :: "form_control \<Rightarrow> form_value \<Rightarrow> form_value" where
  "row_takes k x = (case (k, x) of (NumberBox _ _ _, Shown v) \<Rightarrow> Shown (num_str (int_or_zero v)) | _ \<Rightarrow> x)"

definition shown_at :: "form_row list \<Rightarrow> string \<Rightarrow> form_value option" where
  "shown_at rows l = map_option row_shows (map_of (map (\<lambda>r. (fr_label r, fr_control r)) rows) l)"

lemmas form_defs = form_rows_def agent_rows_def gateway_rows_def limit_rows_def analytics_rows_def telemetry_rows_def

lemma form_labels_distinct: "distinct (map fr_label (form_rows is_agent attached geo c))"
  by (simp add: form_defs)

text \<open>Every row stands in a section that the rail lists.\<close>

lemma rows_in_rail: "fr_section ` set (form_rows is_agent attached geo c) \<subseteq> fst ` set (settings_sections is_agent)"
  by (auto simp: form_defs settings_sections_def)


text \<open>What no row edits.\<close>

definition untouched :: "config \<Rightarrow> string \<times> (string \<times> string \<times> string \<times> tunnel list \<times> string) \<times> (string \<times> int list \<times> bool \<times> bool) \<times> ui_config" where
  "untouched c = (cfg_role c,
     (acfg_agent_id (cfg_agent c), acfg_token (cfg_agent c), acfg_cert_fingerprint (cfg_agent c), acfg_tunnels (cfg_agent c), acfg_enroll_ticket (cfg_agent c)),
     (gcfg_token (cfg_gateway c), gcfg_port_allowlist (cfg_gateway c), gcfg_quic_enabled (cfg_gateway c), gcfg_accept_shared_token (cfg_gateway c)), cfg_ui c)"

lemma patch_untouched: "untouched (patch_config e c) = untouched c"
  by (cases e) (simp_all add: untouched_def patch_config_def)

text \<open>The field an edit is of, by its label, with what the field shows afterwards; and whether the form has it.\<close>

definition edit_field :: "settings_edit \<Rightarrow> string \<times> form_value" where
  "edit_field e = (case e of
     EditHost v \<Rightarrow> (''Gateway address'', Shown v) | EditPort v \<Rightarrow> (''Control port'', Shown (num_str (int_or_zero v)))
   | EditTransport v \<Rightarrow> (''Transport'', Shown v) | EditPublicHost v \<Rightarrow> (''Public address'', Shown v)
   | EditControlPort v \<Rightarrow> (''Control port'', Shown (num_str (int_or_zero v))) | EditBindAddr v \<Rightarrow> (''Bind address'', Shown v)
   | EditMaxConns v \<Rightarrow> (''Max connections'', Shown (num_str (int_or_zero v))) | EditMaxPerIp v \<Rightarrow> (''Max per client IP'', Shown (num_str (int_or_zero v)))
   | EditAuthAttempts v \<Rightarrow> (''Auth attempts / min'', Shown (num_str (int_or_zero v))) | EditRetention v \<Rightarrow> (''History retention'', Shown (num_str (int_or_zero v)))
   | EditMojang b \<Rightarrow> (''Resolve player identities'', Ticked b) | EditCityPath v \<Rightarrow> (''City database (country)'', Shown v)
   | EditAsnPath v \<Rightarrow> (''ASN database (network)'', Shown v) | EditLevel v \<Rightarrow> (''Log level'', Shown v) | EditLogFile b \<Rightarrow> (''Write to log file'', Ticked b)
   | EditPrometheus b \<Rightarrow> (''Prometheus endpoint'', Ticked b) | EditPrometheusAddr v \<Rightarrow> (''Listen address'', Shown v))"

definition edit_here :: "bool \<Rightarrow> config \<Rightarrow> settings_edit \<Rightarrow> bool" where
  "edit_here is_agent c e = (case e of
     EditHost _ \<Rightarrow> is_agent | EditPort _ \<Rightarrow> is_agent | EditTransport _ \<Rightarrow> is_agent
   | EditPublicHost _ \<Rightarrow> \<not> is_agent | EditControlPort _ \<Rightarrow> \<not> is_agent | EditBindAddr _ \<Rightarrow> \<not> is_agent
   | EditMaxConns _ \<Rightarrow> \<not> is_agent | EditMaxPerIp _ \<Rightarrow> \<not> is_agent | EditAuthAttempts _ \<Rightarrow> \<not> is_agent
   | EditPrometheusAddr _ \<Rightarrow> mcfg_prometheus_enabled (cfg_metrics c) | _ \<Rightarrow> True)"

lemma row_edit_field:
  assumes "row \<in> set (form_rows is_agent attached geo c)" and "row_edit (fr_control row) x = Some e"
  shows "edit_field e = (fr_label row, row_takes (fr_control row) x)" and "edit_here is_agent c e"
  using assms by (cases x; auto simp: form_defs row_edit_def row_takes_def edit_field_def edit_here_def split: if_splits)+

section \<open>An edit is of one field\<close>

lemma shown_at_Nil: "shown_at [] l = None"
  by (simp add: shown_at_def)

lemma shown_at_Cons: "shown_at (r # rs) l = (if l = fr_label r then Some (row_shows (fr_control r)) else shown_at rs l)"
  by (simp add: shown_at_def)

text \<open>The form, read by label: the rows of the role before the common ones.\<close>

definition common_shows :: "config \<Rightarrow> string \<Rightarrow> form_value option" where
  "common_shows c l = (if l = ''History retention'' then Some (Shown (num_str (ancfg_retention_days (cfg_analytics c))))
    else if l = ''Resolve player identities'' then Some (Ticked (ancfg_mojang_lookups (cfg_analytics c)))
    else if l = ''City database (country)'' then Some (Shown (ancfg_geo_ip_city_path (cfg_analytics c)))
    else if l = ''ASN database (network)'' then Some (Shown (ancfg_geo_ipasn_path (cfg_analytics c)))
    else if l = ''Log level'' then Some (Shown (lcfg_level (cfg_logging c)))
    else if l = ''Write to log file'' then Some (Ticked (lcfg_file_enabled (cfg_logging c)))
    else if l = ''Prometheus endpoint'' then Some (Ticked (mcfg_prometheus_enabled (cfg_metrics c)))
    else if l = ''Listen address'' \<and> mcfg_prometheus_enabled (cfg_metrics c) then Some (Shown (mcfg_prometheus_addr (cfg_metrics c))) else None)"

definition agent_shows :: "config \<Rightarrow> string \<Rightarrow> form_value option" where
  "agent_shows c l = (if l = ''Gateway address'' then Some (Shown (acfg_gateway_host (cfg_agent c)))
    else if l = ''Control port'' then Some (Shown (num_str (acfg_gateway_port (cfg_agent c))))
    else if l = ''Transport'' then Some (Shown (acfg_transport (cfg_agent c))) else common_shows c l)"

definition gateway_shows :: "config \<Rightarrow> string \<Rightarrow> form_value option" where
  "gateway_shows c l = (if l = ''Public address'' then Some (Shown (gcfg_public_host (cfg_gateway c)))
    else if l = ''Control port'' then Some (Shown (num_str (gcfg_control_port (cfg_gateway c))))
    else if l = ''Bind address'' then Some (Shown (gcfg_bind_addr (cfg_gateway c)))
    else if l = ''Max connections'' then Some (Shown (num_str (gcfg_max_conns_global (cfg_gateway c))))
    else if l = ''Max per client IP'' then Some (Shown (num_str (gcfg_max_conns_per_ip (cfg_gateway c))))
    else if l = ''Auth attempts / min'' then Some (Shown (num_str (gcfg_auth_attempts_per_min (cfg_gateway c)))) else common_shows c l)"

lemma shown_common: "shown_at (analytics_rows attached geo (cfg_analytics c) @ telemetry_rows (cfg_logging c) (cfg_metrics c)) l = common_shows c l"
  by (simp add: analytics_rows_def telemetry_rows_def shown_at_Nil shown_at_Cons row_shows_def common_shows_def)

lemma shown_at_form: "shown_at (form_rows is_agent attached geo c) l = (if is_agent then agent_shows c l else gateway_shows c l)"
  by (simp add: form_rows_def agent_rows_def gateway_rows_def limit_rows_def shown_at_Cons row_shows_def agent_shows_def gateway_shows_def shown_common)

lemma common_stays:
  "common_shows (patch_config e c) l = (case e of
     EditRetention v \<Rightarrow> if l = ''History retention'' then Some (Shown (num_str (int_or_zero v))) else common_shows c l
   | EditMojang b \<Rightarrow> if l = ''Resolve player identities'' then Some (Ticked b) else common_shows c l
   | EditCityPath v \<Rightarrow> if l = ''City database (country)'' then Some (Shown v) else common_shows c l
   | EditAsnPath v \<Rightarrow> if l = ''ASN database (network)'' then Some (Shown v) else common_shows c l
   | EditLevel v \<Rightarrow> if l = ''Log level'' then Some (Shown v) else common_shows c l
   | EditLogFile b \<Rightarrow> if l = ''Write to log file'' then Some (Ticked b) else common_shows c l
   | EditPrometheus b \<Rightarrow> if l = ''Prometheus endpoint'' then Some (Ticked b)
       else if l = ''Listen address'' then (if b then Some (Shown (mcfg_prometheus_addr (cfg_metrics c))) else None) else common_shows c l
   | EditPrometheusAddr v \<Rightarrow> if l = ''Listen address'' \<and> mcfg_prometheus_enabled (cfg_metrics c) then Some (Shown v) else common_shows c l
   | _ \<Rightarrow> common_shows c l)"
  by (cases e) (simp_all add: common_shows_def patch_config_def)


lemma agent_stays:
  "agent_shows (patch_config e c) l = (case e of
     EditHost v \<Rightarrow> if l = ''Gateway address'' then Some (Shown v) else agent_shows c l
   | EditPort v \<Rightarrow> if l = ''Control port'' then Some (Shown (num_str (int_or_zero v))) else agent_shows c l
   | EditTransport v \<Rightarrow> if l = ''Transport'' then Some (Shown v) else agent_shows c l
   | _ \<Rightarrow> if l \<in> {''Gateway address'', ''Control port'', ''Transport''} then agent_shows c l else common_shows (patch_config e c) l)"
proof -
  have "common_shows (patch_config e c) l = common_shows c l" if "e = EditHost v \<or> e = EditPort v \<or> e = EditTransport v" for v
    using that by (auto simp: common_stays)
  then show ?thesis by (cases e) (simp_all add: agent_shows_def, simp_all add: patch_config_def)
qed

lemma gateway_stays:
  "gateway_shows (patch_config e c) l = (case e of
     EditPublicHost v \<Rightarrow> if l = ''Public address'' then Some (Shown v) else gateway_shows c l
   | EditControlPort v \<Rightarrow> if l = ''Control port'' then Some (Shown (num_str (int_or_zero v))) else gateway_shows c l
   | EditBindAddr v \<Rightarrow> if l = ''Bind address'' then Some (Shown v) else gateway_shows c l
   | EditMaxConns v \<Rightarrow> if l = ''Max connections'' then Some (Shown (num_str (int_or_zero v))) else gateway_shows c l
   | EditMaxPerIp v \<Rightarrow> if l = ''Max per client IP'' then Some (Shown (num_str (int_or_zero v))) else gateway_shows c l
   | EditAuthAttempts v \<Rightarrow> if l = ''Auth attempts / min'' then Some (Shown (num_str (int_or_zero v))) else gateway_shows c l
   | _ \<Rightarrow> if l \<in> {''Public address'', ''Control port'', ''Bind address'', ''Max connections'', ''Max per client IP'', ''Auth attempts / min''}
       then gateway_shows c l else common_shows (patch_config e c) l)"
proof -
  have "common_shows (patch_config e c) l = common_shows c l"
    if "e = EditPublicHost v \<or> e = EditControlPort v \<or> e = EditBindAddr v \<or> e = EditMaxConns v \<or> e = EditMaxPerIp v \<or> e = EditAuthAttempts v" for v
    using that by (auto simp: common_stays)
  then show ?thesis by (cases e) (simp_all add: gateway_shows_def, simp_all add: patch_config_def)
qed


lemma edited_field_shows:
  assumes "edit_here is_agent c e"
  shows "shown_at (form_rows is_agent attached geo (patch_config e c)) (fst (edit_field e)) = Some (snd (edit_field e))"
  using assms by (cases e) (auto simp: shown_at_form agent_stays gateway_stays common_stays edit_field_def edit_here_def)

lemma other_fields_stay:
  assumes "edit_here is_agent c e" and "l \<noteq> fst (edit_field e)" and "l \<noteq> ''Listen address'' \<or> fst (edit_field e) \<noteq> ''Prometheus endpoint''"
  shows "shown_at (form_rows is_agent attached geo (patch_config e c)) l = shown_at (form_rows is_agent attached geo c) l"
proof -
  have common: "common_shows (patch_config e c) l = common_shows c l"
    using assms by (cases e; simp add: common_stays edit_field_def edit_here_def)
  have "agent_shows (patch_config e c) l = agent_shows c l" if is_agent
  proof -
    have "l \<notin> {''Gateway address'', ''Control port'', ''Transport''} \<longrightarrow> common_shows c l = agent_shows c l" by (simp add: agent_shows_def)
    then show ?thesis unfolding agent_stays using assms(1,2) common that by (cases e) (simp_all add: edit_field_def edit_here_def)
  qed
  moreover have "gateway_shows (patch_config e c) l = gateway_shows c l" if "\<not> is_agent"
  proof -
    have "l \<notin> {''Public address'', ''Control port'', ''Bind address'', ''Max connections'', ''Max per client IP'', ''Auth attempts / min''}
        \<longrightarrow> common_shows c l = gateway_shows c l" by (simp add: gateway_shows_def)
    then show ?thesis unfolding gateway_stays using assms(1,2) common that by (cases e) (simp_all add: edit_field_def edit_here_def)
  qed
  ultimately show ?thesis by (simp add: shown_at_form)
qed


section \<open>Appearance\<close>

definition theme_options :: "(theme_pref \<times> string) list" where
  "theme_options = [(PrefLight, ''Light''), (PrefDark, ''Dark''), (PrefSystem, ''System'')]"

definition motion_options :: "(motion_pref \<times> string) list" where
  "motion_options = [(MotionOn, ''On''), (MotionOff, ''Off''), (MotionSystem, ''System'')]"

text \<open>\<open>FxRow\<close> keeps its own copy of the preference.\<close>

record fx_row =
  fx_low :: bool
  fx_document :: document

definition fx_row_mount :: "document \<Rightarrow> fx_row" where
  "fx_row_mount d = \<lparr>fx_low = (fx_pref (storage d) = ''low''), fx_document = d\<rparr>"

definition fx_row_toggle :: "bool \<Rightarrow> fx_row \<Rightarrow> fx_row" where
  "fx_row_toggle v s = s\<lparr>fx_low := v, fx_document := set_fx_pref (if v then ''low'' else '''') (fx_document s)\<rparr>"

definition fx_row_ok :: "fx_row \<Rightarrow> bool" where
  "fx_row_ok s \<longleftrightarrow> (fx_low s \<longleftrightarrow> fx_pref (storage (fx_document s)) = ''low'')"

lemma fx_row_ok_toggle: "fx_row_ok s \<Longrightarrow> fx_row_ok (fx_row_toggle v s)"
  by (simp add: fx_row_ok_def fx_row_toggle_def set_fx_pref_def fx.load_save)

interpretation fx_row: invariant_machine "\<lambda>s v. fx_row_toggle v s" fx_row_ok
  by unfold_locales (rule fx_row_ok_toggle)

text \<open>Every preference is one of the options, so the highlight is always on one of them; and the switch shows the stored level.\<close>

lemma appearance_options: "p \<in> fst ` set theme_options" "m \<in> fst ` set motion_options"
  by (cases p; simp add: theme_options_def) (cases m; simp add: motion_options_def)

lemma fx_row_shows_stored: "fx_row_ok (foldl (\<lambda>s v. fx_row_toggle v s) (fx_row_mount d) vs)"
  by (rule fx_row.inv_run) (simp add: fx_row_ok_def fx_row_mount_def)

section \<open>System, token, about\<close>

text \<open>A button: its label and whether it is disabled.\<close>

definition busy_button :: "string \<Rightarrow> bool \<Rightarrow> string \<times> bool" where
  "busy_button lbl busy = (if busy then ellipsis else lbl, busy)"

record system_view =
  sv_firewall :: "bool \<times> (string \<times> badge_tone) \<times> (string \<times> bool) option"     \<comment> \<open>washed, badge, repair\<close>
  sv_service :: "bool \<times> (string \<times> badge_tone) \<times> (string \<times> bool)"
  sv_path :: string
  sv_err :: "string option"

definition system_shows :: "string \<Rightarrow> system_row \<Rightarrow> system_view" where
  "system_shows path s = (let (lbl, tone, installed) = svc_display (sy_svc s) in
     \<lparr>sv_firewall = (sy_fw s = Some False, firewall_badge (sy_fw s),
        if repair_shown (sy_fw s) then Some (busy_button ''Add rule'' (sy_busy s = ''fw'')) else None),
      sv_service = (tone = ToneWarn, (lbl, tone), busy_button (if installed then ''Uninstall'' else ''Install'') (sy_busy s = ''svc'')),
      sv_path = path, sv_err = truthy (Some (sy_err s))\<rparr>)"

datatype token_view = ServiceOwnsToken | RotateButton "string option" | RotateConfirm "string \<times> bool" "string option"

definition token_shows :: "bool \<Rightarrow> token_row \<Rightarrow> token_view" where
  "token_shows attached s = (if attached then ServiceOwnsToken
     else if tr_confirm s then RotateConfirm (busy_button ''Rotate'' (tr_busy s)) (truthy (Some (tr_err s)))
     else RotateButton (truthy (Some (tr_err s))))"

datatype creator_face = CreatorImage string | CreatorInitial string

text \<open>The initial is the first byte of the name, which is its first character where the name begins with an ASCII one.\<close>

definition creator_shows :: "string \<Rightarrow> string \<times> string \<Rightarrow> creator_face" where
  "creator_shows avatar info = (if avatar \<noteq> '''' then CreatorImage avatar else CreatorInitial (js_upper (take 1 (fst info))))"

definition about_version :: "ui_status \<Rightarrow> string" where
  "about_version st = st_version st @ mid_dot @ ''pid '' @ show_int (st_pid st) @ mid_dot @ st_mode st"


section \<open>The page\<close>

definition transport_note :: "ui_status \<Rightarrow> string option" where
  "transport_note st = (if st_role st = ''agent'' \<and> st_link_up st \<and> st_transport st \<noteq> '''' then Some (transport_label (st_transport st)) else None)"

record settings_form =
  sf_err :: "string option"
  sf_service_banner :: bool
  sf_rail :: "(string \<times> string \<times> bool) list"      \<comment> \<open>section, label, whether it is the active one\<close>
  sf_rows :: "form_row list"
  sf_transport :: "string option"
  sf_token :: "token_view option"
  sf_note :: "string option"
  sf_save :: "(string \<times> bool) option"              \<comment> \<open>the save button of the save bar\<close>

datatype settings_view = SettingsSkeleton nat | SettingsForm settings_form

definition settings_shows :: "ui_status \<Rightarrow> settings_page \<Rightarrow> token_row \<Rightarrow> string \<Rightarrow> settings_view" where
  "settings_shows st s tok active = (let is_agent = (st_role st = ''agent'') in case se_cfg s of
     None \<Rightarrow> SettingsSkeleton (length (settings_sections is_agent))
   | Some c \<Rightarrow> SettingsForm \<lparr>sf_err = truthy (Some (se_err s)), sf_service_banner = se_attached s,
       sf_rail = map (\<lambda>(i, lbl). (i, lbl, active = i)) (settings_sections is_agent),
       sf_rows = form_rows is_agent (se_attached s) (se_geo s) c, sf_transport = transport_note st,
       sf_token = (if is_agent then None else Some (token_shows (se_attached s) tok)),
       sf_note = (if note_shown s then Some (se_note s) else None),
       sf_save = (if save_bar_shown s then Some (if se_saving s then ''Saving'' @ ellipsis else ''Save & apply'', se_saving s) else None)\<rparr>)"

definition settings_rows :: "settings_view \<Rightarrow> form_row list" where
  "settings_rows v = (case v of SettingsForm f \<Rightarrow> sf_rows f | SettingsSkeleton _ \<Rightarrow> [])"

text \<open>The save bar is the way to tell what is staged: while nothing is marked, what is typed into a row makes it appear.\<close>

lemma edit_raises_save_bar:
  assumes "se_cfg s = Some c"
  shows "save_bar_shown (settings_step s (Edit e)) \<and> \<not> note_shown (settings_step s (Edit e))"
  using assms by (simp add: settings_edit_field_def settings_patch_def save_bar_shown_def note_shown_def)

section \<open>Properties\<close>


section \<open>Witnesses\<close>


end
