(* ===== verification/Scales.thy ===== *)
theory Scales
  imports Contracts
begin

text \<open>
  The chart primitives of \<open>components/charts/util.ts\<close> and the tick placement of
  \<open>BandwidthChart.tsx\<close>: the binary and the decimal axis scale (both interpret the locale
  \<open>axis_scale\<close>), wall-clock ticks, the measured width, and the refresh tween. The local time zone
  is a parameter: the offset of a time, the local midnight before a time, the date label of a time.
\<close>

section \<open>Axis scales\<close>

definition nice_step :: "real \<Rightarrow> real" where
  "nice_step raw = 2 powr of_int \<lceil>log 2 (max 1 raw)\<rceil>"

definition nice_scale :: "real \<Rightarrow> real \<times> real list" where
  "nice_scale m = (let divisions = 4; raw = m / divisions; step = nice_step raw in
     (step * divisions, map (\<lambda>i. of_nat i * step) [0, 1, 2, 3, 4]))"

definition nice_norm :: "real \<Rightarrow> real" where
  "nice_norm q = (if q \<le> 1 then 1 else if q \<le> 2 then 2 else if q \<le> 5 then 5 else 10)"

definition nice_linear :: "nat \<Rightarrow> real \<Rightarrow> real \<times> real list" where
  "nice_linear divisions m = (let raw = max 1 m / of_nat divisions; mag = 10 powr of_int \<lfloor>log 10 raw\<rfloor>;
       step = nice_norm (raw / mag) * mag in
     (step * of_nat divisions, map (\<lambda>i. of_nat i * step) [0..<Suc divisions]))"

lemma nice_step_bounds:
  "max 1 raw \<le> nice_step raw" "nice_step raw < 2 * max 1 raw" "0 < nice_step raw"
proof -
  let ?r = "max 1 raw"
  have r: "0 < ?r" by simp
  then have pow: "2 powr log 2 ?r = ?r" by simp
  have "log 2 ?r \<le> of_int \<lceil>log 2 ?r\<rceil>" by (rule le_of_int_ceiling)
  then have "2 powr log 2 ?r \<le> 2 powr of_int \<lceil>log 2 ?r\<rceil>" by (rule powr_mono) simp
  then show "?r \<le> nice_step raw" unfolding nice_step_def pow .
  have "of_int \<lceil>log 2 ?r\<rceil> < log 2 ?r + 1" by linarith
  then have "2 powr of_int \<lceil>log 2 ?r\<rceil> < 2 powr (log 2 ?r + 1)" by simp
  also have "\<dots> = 2 * ?r" using pow by (simp add: powr_add)
  finally show "nice_step raw < 2 * ?r" by (simp add: nice_step_def)
  show "0 < nice_step raw" by (simp add: nice_step_def)
qed

text \<open>Evaluation: a step is the power of two its argument falls under.\<close>

lemma nice_step_eval:
  assumes "2 ^ k < raw" and "raw \<le> 2 ^ Suc k"
  shows "nice_step raw = 2 ^ Suc k"
proof -
  have "1 \<le> (2 :: real) ^ k" by simp
  with assms(1) have r: "1 < raw" by linarith
  have "real k < log 2 raw" using assms(1) r by (simp add: less_log_iff powr_realpow)
  moreover have "log 2 raw \<le> real (Suc k)"
    using assms(2) r by (subst log_le_iff) (simp_all add: powr_add powr_realpow)
  ultimately have c: "\<lceil>log 2 raw\<rceil> = int (Suc k)" by linarith
  have "max 1 raw = raw" using r by simp
  then have "nice_step raw = 2 powr real (Suc k)" unfolding nice_step_def using c by simp
  also have "\<dots> = 2 ^ Suc k" by (rule powr_realpow) simp
  finally show ?thesis .
qed

lemma nice_linear_step:
  assumes "0 < divisions"
  shows "\<exists>step. nice_linear divisions m = (step * of_nat divisions, map (\<lambda>i. of_nat i * step) [0..<Suc divisions])
    \<and> max 1 m / of_nat divisions \<le> step \<and> step \<le> 5 / 2 * (max 1 m / of_nat divisions)"
proof -
  define raw where "raw = max 1 m / of_nat divisions"
  define mag where "mag = (10 :: real) powr of_int \<lfloor>log 10 raw\<rfloor>"
  have raw: "0 < raw" using assms by (simp add: raw_def less_max_iff_disj)
  have pow: "10 powr log 10 raw = raw" using raw by simp
  have mag: "0 < mag" by (simp add: mag_def)
  have "of_int \<lfloor>log 10 raw\<rfloor> \<le> log 10 raw" by (rule of_int_floor_le)
  then have "mag \<le> 10 powr log 10 raw" unfolding mag_def by (rule powr_mono) simp
  then have norm1: "1 \<le> raw / mag" unfolding pow using mag by (simp add: le_divide_eq)
  have "log 10 raw < of_int \<lfloor>log 10 raw\<rfloor> + 1" by linarith
  then have "10 powr log 10 raw < 10 powr (of_int \<lfloor>log 10 raw\<rfloor> + 1)" by (rule powr_less_mono) simp
  then have "raw < 10 * mag" unfolding pow mag_def by (simp add: powr_add)
  then have norm10: "raw / mag < 10" using mag by (simp add: divide_less_eq)
  let ?n = "nice_norm (raw / mag)"
  have "raw / mag \<le> ?n" "?n \<le> 5 / 2 * (raw / mag)" using norm1 norm10 by (auto simp: nice_norm_def)
  then have "raw \<le> ?n * mag" "?n * mag \<le> 5 / 2 * raw"
    using mag by (simp_all add: divide_le_eq le_divide_eq ac_simps)
  then show ?thesis
    by (intro exI [of _ "?n * mag"]) (simp add: nice_linear_def Let_def raw_def [symmetric] mag_def [symmetric] del: upt_Suc)
qed

interpretation binary_axis: axis_scale nice_scale
proof
  fix m :: real
  have "m / 4 \<le> nice_step (m / 4)" "0 < nice_step (m / 4)" using nice_step_bounds [of "m / 4"] by auto
  then show "m \<le> fst (nice_scale m)" "0 < fst (nice_scale m)" by (simp_all add: nice_scale_def Let_def)
qed

interpretation decimal_axis: axis_scale "nice_linear 4"
proof
  fix m :: real
  obtain step where "fst (nice_linear 4 m) = step * 4" "max 1 m / 4 \<le> step"
    using nice_linear_step [of 4 m] by auto
  then show "m \<le> fst (nice_linear 4 m)" "0 < fst (nice_linear 4 m)" by auto
qed

section \<open>Wall-clock ticks\<close>

record zone =
  zone_offset :: "int \<Rightarrow> int"      \<comment> \<open>milliseconds to add for local time\<close>
  zone_midnight :: "int \<Rightarrow> int"    \<comment> \<open>\<open>setHours(0, 0, 0, 0)\<close>\<close>
  zone_day :: "int \<Rightarrow> string"      \<comment> \<open>\<open>toLocaleDateString\<close>\<close>

datatype tick_kind = Second | Minute | Day

definition two_digits :: "int \<Rightarrow> string" where
  "two_digits n = pad_start 2 (CHR ''0'') (show_int n)"

definition fmt_tick_time :: "zone \<Rightarrow> int \<Rightarrow> tick_kind \<Rightarrow> string" where
  "fmt_tick_time z t kind = (let l = t + zone_offset z t; hours = l div 3600000 mod 24;
       minutes = l div 60000 mod 60; seconds = l div 1000 mod 60 in
     case kind of Day \<Rightarrow> zone_day z t
     | Second \<Rightarrow> two_digits hours @ '':'' @ two_digits minutes @ '':'' @ two_digits seconds
     | Minute \<Rightarrow> two_digits hours @ '':'' @ two_digits minutes)"

definition tick_steps :: "int list" where
  "tick_steps = [1000, 2000, 5000, 10000, 15000, 30000, 60000, 120000, 300000, 600000, 900000, 1800000,
     3600000, 7200000, 10800000, 21600000, 43200000, 86400000, 172800000]"

definition pick_step :: "int list \<Rightarrow> int \<Rightarrow> int" where
  "pick_step steps extent = (case find (\<lambda>s. extent \<le> 7 * s) steps of Some s \<Rightarrow> s | None \<Rightarrow> last steps)"

text \<open>\<open>Math.ceil(t / step) * step\<close>.\<close>

definition ceil_to :: "int \<Rightarrow> int \<Rightarrow> int" where
  "ceil_to t step = - ((- t) div step) * step"

definition wall_ticks :: "zone \<Rightarrow> int \<Rightarrow> int \<Rightarrow> int \<Rightarrow> (int \<times> string) list" where
  "wall_ticks z step t0 t1 =
     (if step \<ge> 86400000
      then map (\<lambda>t. (t, fmt_tick_time z t Day)) (filter (\<lambda>t. t \<ge> t0) (loop_values (zone_midnight z t0) t1 step))
      else map (\<lambda>t. (t, fmt_tick_time z t (if step < 60000 then Second else Minute)))
        (loop_values (ceil_to t0 step) t1 step))"

definition time_ticks :: "zone \<Rightarrow> int \<Rightarrow> int \<Rightarrow> (int \<times> string) list" where
  "time_ticks z t0 t1 = wall_ticks z (pick_step (tick_steps @ [604800000]) (max 1 (t1 - t0))) t0 t1"

text \<open>\<open>ticksFor\<close>: daily bars take their ticks from the bucket starts.\<close>

definition ticks_for :: "zone \<Rightarrow> int \<Rightarrow> int \<Rightarrow> int \<Rightarrow> int list \<Rightarrow> (int \<times> string) list" where
  "ticks_for z t0 t1 bucket_ms starts =
     (if bucket_ms \<ge> 86400000
      then let every = max 1 (nat \<lceil>real (length starts) / 6\<rceil>) in
        map (\<lambda>i. let t = starts ! i in (t, fmt_tick_time z (t + bucket_ms div 2) Day))
          (filter (\<lambda>i. i mod every = 0) [0..<length starts])
      else wall_ticks z (pick_step tick_steps (t1 - t0)) t0 t1)"

lemma pick_step_pos:
  "steps \<noteq> [] \<Longrightarrow> \<forall>s \<in> set steps. 0 < s \<Longrightarrow> 0 < pick_step steps extent"
  by (auto simp: pick_step_def find_Some_iff split: option.splits)

lemma pick_step_fits:
  "steps \<noteq> [] \<Longrightarrow> extent \<le> 7 * last steps \<Longrightarrow> extent \<le> 7 * pick_step steps extent"
  by (auto simp: pick_step_def find_Some_iff split: option.splits)

lemma ceil_to_bounds: "0 < step \<Longrightarrow> t \<le> ceil_to t step \<and> ceil_to t step < t + step \<and> step dvd ceil_to t step"
proof -
  assume s: "0 < step"
  have "ceil_to t step = t + (- t) mod step"
    unfolding ceil_to_def minus_div_mult_eq_mod [symmetric] by simp
  moreover have "0 \<le> (- t) mod step" "(- t) mod step < step" using s by simp_all
  moreover have "step dvd ceil_to t step" by (simp add: ceil_to_def)
  ultimately show ?thesis by linarith
qed

text \<open>However early the loop starts, at most \<open>(b - t0) div d + 1\<close> of its values are in \<open>[t0, b]\<close>.\<close>

lemma length_loop_window:
  assumes "0 < d" and "t0 \<le> b"
  shows "int (length (filter (\<lambda>t. t0 \<le> t) (loop_values a b d))) \<le> (b - t0) div d + 1"
proof (induction "nat (t0 - a)" arbitrary: a rule: less_induct)
  case less
  have nn: "0 \<le> (b - t0) div d" using assms by (simp add: pos_imp_zdiv_nonneg_iff)
  consider "b < a" | "a \<le> b" "t0 \<le> a" | "a \<le> b" "a < t0" by linarith
  then show ?case
  proof cases
    case 1
    with nn show ?thesis by (simp add: loop_values_def)
  next
    case 2
    have "(b - a) div d \<le> (b - t0) div d" using 2 assms by (simp add: zdiv_mono1)
    moreover have "int (length (filter (\<lambda>t. t0 \<le> t) (loop_values a b d))) \<le> int (length (loop_values a b d))" by simp
    ultimately show ?thesis using 2 assms length_loop_values [of d a b] by linarith
  next
    case 3
    have "nat (t0 - (a + d)) < nat (t0 - a)" using 3 assms by simp
    from less [OF this] 3 assms show ?thesis by (simp add: loop_values_step)
  qed
qed

lemma wall_ticks_bounded:
  assumes "0 < step" and "t0 \<le> t1" and "t1 - t0 \<le> 7 * step"
  shows "length (wall_ticks z step t0 t1) \<le> 8
    \<and> (\<forall>(t, _) \<in> set (wall_ticks z step t0 t1). t0 \<le> t \<and> t \<le> t1)
    \<and> sorted_wrt (<) (map fst (wall_ticks z step t0 t1))"
proof -
  have le8: "(t1 - t0) div step + 1 \<le> 8"
  proof -
    have "(t1 - t0) div step \<le> (7 * step) div step" using assms by (intro zdiv_mono1) auto
    with assms(1) show ?thesis by simp
  qed
  let ?a = "ceil_to t0 step" and ?m = "zone_midnight z t0"
  have "filter (\<lambda>t. t0 \<le> t) (loop_values ?a t1 step) = loop_values ?a t1 step"
    using ceil_to_bounds [OF assms(1), of t0] set_loop_values [OF _ assms(1)] by (fastforce simp: filter_id_conv)
  then have "length (loop_values ?a t1 step) \<le> 8" "length (filter (\<lambda>t. t0 \<le> t) (loop_values ?m t1 step)) \<le> 8"
    using length_loop_window [OF assms(1,2), of ?a] length_loop_window [OF assms(1,2), of ?m] le8 by simp_all
  moreover have "\<forall>t \<in> set (loop_values ?a t1 step). t0 \<le> t \<and> t \<le> t1"
    using ceil_to_bounds [OF assms(1), of t0] set_loop_values [OF _ assms(1)] by fastforce
  moreover have "\<forall>t \<in> set (loop_values ?m t1 step). t \<le> t1"
    using set_loop_values [OF _ assms(1)] by blast
  moreover have "sorted_wrt (<) (loop_values ?a t1 step)" "sorted_wrt (<) (filter (\<lambda>t. t0 \<le> t) (loop_values ?m t1 step))"
    using sorted_loop_values [OF assms(1)] sorted_wrt_filter by blast+
  ultimately show ?thesis by (auto simp: wall_ticks_def comp_def)
qed

section \<open>Measured width\<close>

definition apply_width :: "real \<Rightarrow> int \<Rightarrow> int" where
  "apply_width width w = (if width > 0 then max 160 (js_round width) else w)"

section \<open>The refresh tween\<close>

text \<open>
  \<open>disp\<close> is \<open>dispRef.current\<close>, a map from timestamps. An effect run captures it as \<open>from\<close>; a frame
  \<open>elapsed\<close> milliseconds later replaces it by the eased values of the target; what is shown for a
  target row is the displayed one, or the row itself. With reduced motion the target is displayed
  at once.
\<close>

definition ease :: "real \<Rightarrow> real" where
  "ease elapsed = (let p = min 1 (elapsed / 220) in 1 - (1 - p) ^ 3)"

definition lerp :: "real \<Rightarrow> real \<Rightarrow> real \<Rightarrow> real" where
  "lerp a b e = a + (b - a) * e"

definition lerp_gauge :: "real option \<Rightarrow> real option \<Rightarrow> real \<Rightarrow> real option" where
  "lerp_gauge a b e = (case (a, b) of (Some x, Some y) \<Rightarrow> Some (lerp x y e) | _ \<Rightarrow> b)"

record plot =
  pt_t :: int
  pt_dn :: real
  pt_up :: real
  pt_conn :: "real option"
  pt_rtt :: "real option"

definition tween_plot :: "plot \<Rightarrow> plot \<Rightarrow> real \<Rightarrow> plot" where
  "tween_plot f s e = \<lparr>pt_t = pt_t s, pt_dn = lerp (pt_dn f) (pt_dn s) e, pt_up = lerp (pt_up f) (pt_up s) e,
     pt_conn = lerp_gauge (pt_conn f) (pt_conn s) e, pt_rtt = lerp_gauge (pt_rtt f) (pt_rtt s) e\<rparr>"

definition tween_plots_frame :: "(int \<rightharpoonup> plot) \<Rightarrow> plot list \<Rightarrow> real \<Rightarrow> (int \<rightharpoonup> plot)" where
  "tween_plots_frame from target elapsed = map_of (rev (map (\<lambda>s. (pt_t s,
     case from (pt_t s) of Some f \<Rightarrow> tween_plot f s (ease elapsed) | None \<Rightarrow> s)) target))"

definition shown_plots :: "(int \<rightharpoonup> plot) \<Rightarrow> plot list \<Rightarrow> plot list" where
  "shown_plots disp target = map (\<lambda>p. case disp (pt_t p) of Some d \<Rightarrow> d | None \<Rightarrow> p) target"

type_synonym value_row = "int \<times> real option list"

definition tween_values_frame :: "(int \<rightharpoonup> real option list) \<Rightarrow> value_row list \<Rightarrow> real \<Rightarrow> (int \<rightharpoonup> real option list)" where
  "tween_values_frame from target elapsed = map_of (rev (map (\<lambda>(t, vs). (t,
     case from t of
       Some f \<Rightarrow> map (\<lambda>(i, v). lerp_gauge (if i < length f then f ! i else None) v (ease elapsed)) (enumerate 0 vs)
     | None \<Rightarrow> vs)) target))"

definition shown_values :: "(int \<rightharpoonup> real option list) \<Rightarrow> value_row list \<Rightarrow> value_row list" where
  "shown_values disp target = map (\<lambda>(t, vs). (t, case disp t of Some d \<Rightarrow> d | None \<Rightarrow> vs)) target"

lemma ease_bounds: "0 \<le> elapsed \<Longrightarrow> 0 \<le> ease elapsed \<and> ease elapsed \<le> 1"
proof -
  assume "0 \<le> elapsed"
  then have "0 \<le> 1 - min 1 (elapsed / 220)" "1 - min 1 (elapsed / 220) \<le> 1" by auto
  then have "0 \<le> (1 - min 1 (elapsed / 220)) ^ 3" "(1 - min 1 (elapsed / 220)) ^ 3 \<le> 1"
    by (auto intro: power_le_one)
  then show ?thesis by (simp add: ease_def Let_def)
qed

lemma ease_done: "220 \<le> elapsed \<Longrightarrow> ease elapsed = 1"
  by (simp add: ease_def min_def)

lemma lerp_done [simp]: "lerp a b 1 = b" "lerp_gauge g h 1 = h"
  by (auto simp: lerp_def lerp_gauge_def split: option.splits)

lemma lerp_between: "0 \<le> e \<Longrightarrow> e \<le> 1 \<Longrightarrow> min a b \<le> lerp a b e \<and> lerp a b e \<le> max a b"
proof -
  assume e: "0 \<le> e" "e \<le> 1"
  have eq: "lerp a b e = (1 - e) * a + e * b" by (simp add: lerp_def algebra_simps)
  have "(1 - e) * min a b + e * min a b \<le> (1 - e) * a + e * b"
    using e by (intro add_mono mult_left_mono) auto
  moreover have "(1 - e) * a + e * b \<le> (1 - e) * max a b + e * max a b"
    using e by (intro add_mono mult_left_mono) auto
  ultimately show ?thesis unfolding eq by (simp add: algebra_simps)
qed

lemma map_of_rev_key:
  assumes "distinct (map f xs)" and "x \<in> set xs"
  shows "map_of (rev (map (\<lambda>s. (f s, g s)) xs)) (f x) = Some (g x)"
  using assms by (intro map_of_is_SomeI) (auto simp: rev_map comp_def distinct_map)

lemma tween_plots_lookup:
  assumes "distinct (map pt_t target)" and "s \<in> set target"
  shows "tween_plots_frame from target elapsed (pt_t s)
    = Some (case from (pt_t s) of Some f \<Rightarrow> tween_plot f s (ease elapsed) | None \<Rightarrow> s)"
  unfolding tween_plots_frame_def by (rule map_of_rev_key [OF assms])

section \<open>Properties\<close>

text \<open>The binary axis has five evenly spaced ticks from zero to its top, the top is at least the
  maximum asked for and, above four units, less than twice it; the decimal axis likewise with a
  top at most two and a half times the maximum.\<close>

theorem axis_scales:
  assumes "4 \<le> m"
  shows "\<exists>s u. nice_scale m = (4 * s, [0, s, 2 * s, 3 * s, 4 * s]) \<and> m \<le> 4 * s \<and> 4 * s < 2 * m
    \<and> nice_linear 4 m = (4 * u, [0, u, 2 * u, 3 * u, 4 * u]) \<and> m \<le> 4 * u \<and> 4 * u \<le> 5 / 2 * m"
proof -
  obtain u where u: "nice_linear 4 m = (u * 4, map (\<lambda>i. of_nat i * u) [0..<5])" "max 1 m / 4 \<le> u" "u \<le> 5 / 2 * (max 1 m / 4)"
    using nice_linear_step [of 4 m] by auto
  have "max 1 (m / 4) = m / 4" "max 1 m = m" using assms by auto
  with nice_step_bounds [of "m / 4"] u show ?thesis
    by (intro exI [of _ "nice_step (m / 4)"] exI [of _ u]) (simp add: nice_scale_def Let_def upt_rec numeral_eq_Suc)
qed

theorem axis_scales_witness: "fst (nice_scale 100) = 128"
proof -
  have "nice_step 25 = 2 ^ Suc 4" by (rule nice_step_eval) auto
  moreover obtain s where "fst (nice_scale 100) = 4 * s" "100 \<le> 4 * s" "4 * s < 200"
    using axis_scales [of 100] by auto
  ultimately show ?thesis by (simp add: nice_scale_def Let_def)
qed

text \<open>The time axis never has more than eight ticks, all inside the window and in ascending order,
  for any window of up to seven weeks on the general axis and up to a fortnight on the bandwidth
  chart, in any time zone; daily bars get at most six.\<close>

theorem time_axis_ticks:
  assumes "t0 \<le> t1" and "t1 - t0 \<le> 7 * 604800000"
  shows "length (time_ticks z t0 t1) \<le> 8 \<and> (\<forall>(t, _) \<in> set (time_ticks z t0 t1). t0 \<le> t \<and> t \<le> t1)
    \<and> sorted_wrt (<) (map fst (time_ticks z t0 t1))
    \<and> (bucket_ms < 86400000 \<and> t1 - t0 \<le> 7 * 172800000 \<longrightarrow>
         length (ticks_for z t0 t1 bucket_ms starts) \<le> 8
       \<and> (\<forall>(t, _) \<in> set (ticks_for z t0 t1 bucket_ms starts). t0 \<le> t \<and> t \<le> t1))"
proof -
  let ?s = "pick_step (tick_steps @ [604800000]) (max 1 (t1 - t0))"
  have "0 < ?s" by (rule pick_step_pos) (simp_all add: tick_steps_def)
  moreover have "max 1 (t1 - t0) \<le> 7 * ?s" by (rule pick_step_fits) (use assms in simp_all)
  ultimately have a: "length (time_ticks z t0 t1) \<le> 8 \<and> (\<forall>(t, _) \<in> set (time_ticks z t0 t1). t0 \<le> t \<and> t \<le> t1)
      \<and> sorted_wrt (<) (map fst (time_ticks z t0 t1))"
    unfolding time_ticks_def using wall_ticks_bounded [of ?s t0 t1 z] assms(1) by auto
  have b: "length (ticks_for z t0 t1 bucket_ms starts) \<le> 8
       \<and> (\<forall>(t, _) \<in> set (ticks_for z t0 t1 bucket_ms starts). t0 \<le> t \<and> t \<le> t1)"
    if h: "bucket_ms < 86400000 \<and> t1 - t0 \<le> 7 * 172800000"
  proof -
    let ?u = "pick_step tick_steps (t1 - t0)"
    have "0 < ?u" by (rule pick_step_pos) (simp_all add: tick_steps_def)
    moreover have "t1 - t0 \<le> 7 * ?u" by (rule pick_step_fits) (use h in \<open>simp_all add: tick_steps_def\<close>)
    ultimately show ?thesis
      unfolding ticks_for_def using wall_ticks_bounded [of ?u t0 t1 z] assms(1) h by auto
  qed
  from a b show ?thesis by blast
qed

theorem time_axis_ticks_witness:
  "length (time_ticks \<lparr>zone_offset = \<lambda>_. 0, zone_midnight = \<lambda>t. t - t mod 86400000, zone_day = \<lambda>_. []\<rparr> 0 3600000) \<le> 8"
  using time_axis_ticks [of 0 3600000] by simp

text \<open>A refresh glides and arrives: during the tween every value shown lies between what was shown
  before and its target, and from 220 ms on exactly the target is shown.\<close>

theorem tween_arrives:
  assumes "distinct (map pt_t target)" and "0 \<le> elapsed"
  shows "let shown = shown_plots (tween_plots_frame from target elapsed) target in
     (220 \<le> elapsed \<longrightarrow> shown = target)
   \<and> (\<forall>i < length target. \<forall>f. from (pt_t (target ! i)) = Some f \<longrightarrow>
        min (pt_dn f) (pt_dn (target ! i)) \<le> pt_dn (shown ! i) \<and> pt_dn (shown ! i) \<le> max (pt_dn f) (pt_dn (target ! i)))"
proof -
  have "220 \<le> elapsed \<longrightarrow> shown_plots (tween_plots_frame from target elapsed) target = target"
    using assms tween_plots_lookup [OF assms(1)]
    by (auto simp: shown_plots_def tween_plot_def ease_done intro!: map_idI split: option.splits)
  moreover have "\<forall>i < length target. \<forall>f. from (pt_t (target ! i)) = Some f \<longrightarrow>
        min (pt_dn f) (pt_dn (target ! i)) \<le> pt_dn (shown_plots (tween_plots_frame from target elapsed) target ! i)
      \<and> pt_dn (shown_plots (tween_plots_frame from target elapsed) target ! i) \<le> max (pt_dn f) (pt_dn (target ! i))"
    using tween_plots_lookup [OF assms(1)] lerp_between ease_bounds [OF assms(2)]
    by (simp add: shown_plots_def tween_plot_def)
  ultimately show ?thesis by (simp add: Let_def)
qed

theorem tween_arrives_witness:
  "shown_plots (tween_plots_frame [5 \<mapsto> \<lparr>pt_t = 5, pt_dn = 0, pt_up = 0, pt_conn = None, pt_rtt = None\<rparr>]
      [\<lparr>pt_t = 5, pt_dn = 8, pt_up = 0, pt_conn = Some 1, pt_rtt = None\<rparr>] 250)
    [\<lparr>pt_t = 5, pt_dn = 8, pt_up = 0, pt_conn = Some 1, pt_rtt = None\<rparr>]
   = [\<lparr>pt_t = 5, pt_dn = 8, pt_up = 0, pt_conn = Some 1, pt_rtt = None\<rparr>]"
  using tween_arrives [of "[\<lparr>pt_t = 5, pt_dn = 8, pt_up = 0, pt_conn = Some 1, pt_rtt = None\<rparr>]" 250]
  by (simp add: Let_def)

end
