(* ===== verification/Chart.thy ===== *)
theory Chart
  imports Format Scales Prefs Model
begin

text \<open>
  The bandwidth chart (\<open>components/BandwidthChart.tsx\<close>): the panel's pickers and labels, the statistics
  row, plotted samples, candle coalescing, geometry and scales, the hover lookup, the uptime
  coverage, and the segment builders. Times and byte counts are integers; rates, gauges and pixels
  are reals. A gauge of \<open>-1\<close> is unknown.
\<close>

section \<open>Series visibility and the panel\<close>

record visibility =
  vis_dl :: bool
  vis_ul :: bool
  vis_conn :: bool
  vis_rtt :: bool

datatype series = SeriesDl | SeriesUl | SeriesConn | SeriesRtt

fun toggle_series :: "series \<Rightarrow> visibility \<Rightarrow> visibility" where
  "toggle_series SeriesDl v = v\<lparr>vis_dl := \<not> vis_dl v\<rparr>"
| "toggle_series SeriesUl v = v\<lparr>vis_ul := \<not> vis_ul v\<rparr>"
| "toggle_series SeriesConn v = v\<lparr>vis_conn := \<not> vis_conn v\<rparr>"
| "toggle_series SeriesRtt v = v\<lparr>vis_rtt := \<not> vis_rtt v\<rparr>"

record panel =
  pn_range :: string
  pn_candles :: bool
  pn_uptime :: bool
  pn_store :: store

definition panel_mount :: "store \<Rightarrow> panel" where
  "panel_mount m = \<lparr>pn_range = load_range_pref m, pn_candles = load_candle_pref m, pn_uptime = load_uptime_pref m, pn_store = m\<rparr>"

definition pick_range :: "string \<Rightarrow> panel \<Rightarrow> panel" where
  "pick_range r p = p\<lparr>pn_range := r, pn_store := save_range_pref r (pn_store p)\<rparr>"

definition pick_candles :: "bool \<Rightarrow> panel \<Rightarrow> panel" where
  "pick_candles on p = p\<lparr>pn_candles := on, pn_store := save_candle_pref on (pn_store p)\<rparr>"

definition pick_uptime :: "bool \<Rightarrow> panel \<Rightarrow> panel" where
  "pick_uptime on p = p\<lparr>pn_uptime := on, pn_store := save_uptime_pref on (pn_store p)\<rparr>"

definition panel_range :: "bool \<Rightarrow> panel \<Rightarrow> string" where
  "panel_range teaser p = (if teaser then ''1h'' else pn_range p)"

definition strip_zero :: "real \<Rightarrow> string" where
  "strip_zero v = (if v = of_int \<lfloor>v\<rfloor> then show_int \<lfloor>v\<rfloor> else to_fixed 1 v)"

definition label_duration :: "int \<Rightarrow> string" where
  "label_duration ms =
     (if ms < 1000 then show_int ms @ ''ms''
      else if ms < 60000 then strip_zero (of_int ms / 1000) @ ''s''
      else if ms < 3600000 then strip_zero (of_int ms / 60000) @ ''m''
      else if ms < 86400000 then strip_zero (of_int ms / 3600000) @ ''h''
      else strip_zero (of_int ms / 86400000) @ ''d'')"

definition subtitle_for :: "string \<Rightarrow> history_result option \<Rightarrow> string option" where
  "subtitle_for r data = map_option (\<lambda>spec.
     (if window_ms spec = 0
      then (case data of Some h \<Rightarrow> if hist_window_ms h \<noteq> 0 then ''Since first run'' else ''All time'' | None \<Rightarrow> ''All time'')
      else ''Last '' @ label_duration (window_ms spec))
     @ (case data of Some h \<Rightarrow> if hist_bucket_ms h \<noteq> 0 then mid_dot @ label_duration (hist_bucket_ms h) @ '' buckets'' else ''''
        | None \<Rightarrow> '''')) (map_of ranges r)"

section \<open>Statistics\<close>

datatype stats = Totals int int int | Rates real real real real

definition rate :: "int \<Rightarrow> int \<Rightarrow> real" where
  "rate bytes bucket_ms = of_int (bytes * 1000) / of_int bucket_ms"

definition stats_row :: "bucket list \<Rightarrow> chart_mode \<Rightarrow> int \<Rightarrow> stats option" where
  "stats_row bs mode bucket_ms =
     (if bs = [] \<or> bucket_ms = 0 then None
      else if mode = ModeBars
      then Some (Totals (sum_list (map b_out bs)) (sum_list (map b_in bs)) (foldl (\<lambda>m b. max m (b_out b)) 0 bs))
      else let rates = map (\<lambda>b. rate (b_out b) bucket_ms) bs in
        Some (Rates (min_of (hd rates) (tl rates)) (sum_list rates / of_nat (length rates))
          (max_of (hd rates) (tl rates)) (last rates)))"

definition avg_gauge :: "bucket list \<Rightarrow> (bucket \<Rightarrow> real) \<Rightarrow> real option" where
  "avg_gauge bs get = (let known = filter (\<lambda>v. v \<ge> 0) (map get bs) in
     if known = [] then None else Some (sum_list known / of_nat (length known)))"

section \<open>Plotted samples\<close>

definition partial_bucket :: "bucket list \<Rightarrow> int \<Rightarrow> int \<Rightarrow> nat \<Rightarrow> bool" where
  "partial_bucket bs bucket_ms now i \<longleftrightarrow> Suc i = length bs \<and> b_t (bs ! i) + bucket_ms > now"

definition gauge :: "real \<Rightarrow> real option" where
  "gauge v = (if v \<ge> 0 then Some v else None)"

definition to_plots :: "bucket list \<Rightarrow> int \<Rightarrow> chart_mode \<Rightarrow> int \<Rightarrow> plot list" where
  "to_plots bs bucket_ms mode now = map (\<lambda>(i, b). let partial = partial_bucket bs bucket_ms now i in
     \<lparr>pt_t = b_t b, pt_dn = (if partial then b_oc b else rate (b_out b) bucket_ms),
      pt_up = (if mode = ModeCandles then b_ic b else if partial then b_ic b else rate (b_in b) bucket_ms),
      pt_conn = gauge (b_cc b), pt_rtt = gauge (b_rc b)\<rparr>) (enumerate 0 bs)"

definition zero_bucket :: "int \<Rightarrow> bucket" where
  "zero_bucket t = \<lparr>b_t = t, b_in = 0, b_out = 0, b_io = 0, b_ih = 0, b_il = 0, b_ic = 0,
     b_oo = 0, b_oh = 0, b_ol = 0, b_oc = 0, b_co = -1, b_ch = -1, b_cl = -1, b_cc = -1,
     b_ro = -1, b_rh = -1, b_rl = -1, b_rc = -1, b_po = -1, b_ph = -1, b_pl = -1, b_pc = -1,
     b_lo = -1, b_lh = -1, b_ll = -1, b_lc = -1\<rparr>"

section \<open>Candles\<close>

definition merge_gauge_close :: "real list \<Rightarrow> real" where
  "merge_gauge_close vs = (case filter (\<lambda>v. v \<ge> 0) vs of [] \<Rightarrow> -1 | ws \<Rightarrow> last ws)"

fun chunks :: "nat \<Rightarrow> 'a list \<Rightarrow> 'a list list" where
  "chunks k xs = (if xs = [] \<or> k = 0 then [] else take k xs # chunks k (drop k xs))"

declare chunks.simps [simp del]

definition merge_buckets :: "bucket list \<Rightarrow> bucket" where
  "merge_buckets grp = (hd grp)\<lparr>b_in := sum_list (map b_in grp), b_out := sum_list (map b_out grp),
     b_oh := max_of (b_oh (hd grp)) (map b_oh (tl grp)), b_ol := min_of (b_ol (hd grp)) (map b_ol (tl grp)),
     b_oc := b_oc (last grp),
     b_ih := max_of (b_ih (hd grp)) (map b_ih (tl grp)), b_il := min_of (b_il (hd grp)) (map b_il (tl grp)),
     b_ic := b_ic (last grp),
     b_cc := merge_gauge_close (map b_cc grp), b_rc := merge_gauge_close (map b_rc grp)\<rparr>"

definition coalesce :: "chart_mode \<Rightarrow> bucket list \<Rightarrow> int \<Rightarrow> bucket list \<times> int" where
  "coalesce mode raw raw_ms = (if mode \<noteq> ModeCandles \<or> length raw \<le> 150 then (raw, raw_ms)
     else let k = nat \<lceil>real (length raw) / 150\<rceil> in (map merge_buckets (chunks k raw), raw_ms * int k))"

section \<open>Geometry\<close>

record chart_geometry =
  ge_w :: real
  ge_pad_l :: real
  ge_pad_r :: real
  ge_pad_t :: real
  ge_pad_b :: real
  ge_plot_w :: real
  ge_plot_h :: real
  ge_base_y :: real
  ge_plot_right :: real

record overlay_flags =
  ov_conn :: bool
  ov_rtt :: bool
  ov_dn :: bool
  ov_up :: bool

definition overlays :: "chart_mode \<Rightarrow> visibility \<Rightarrow> bucket list \<Rightarrow> overlay_flags" where
  "overlays mode vis bs =
     (let has_conn = (mode \<noteq> ModeBars \<and> (\<exists>b \<in> set bs. b_cc b \<ge> 0));
          has_rtt = (mode \<noteq> ModeBars \<and> (\<exists>b \<in> set bs. b_rc b \<ge> 0)) in
      \<lparr>ov_conn = (vis_conn vis \<and> has_conn), ov_rtt = (vis_rtt vis \<and> has_rtt),
       ov_dn = (mode = ModeCandles \<or> vis_dl vis), ov_up = (mode \<noteq> ModeBars \<and> vis_ul vis)\<rparr>)"

definition outboard :: "chart_mode \<Rightarrow> overlay_flags \<Rightarrow> nat" where
  "outboard mode ov = (if mode = ModeBars then 0 else of_bool (ov_conn ov) + of_bool (ov_rtt ov))"

definition geometry :: "chart_mode \<Rightarrow> nat \<Rightarrow> real \<Rightarrow> chart_geometry" where
  "geometry mode cols height = (let w = 720 + of_nat cols * 54; l = 68; t = 10; b = 22;
       r = (if mode = ModeBars then 16 else 68) + of_nat cols * 54; pw = w - l - r; ph = height - t - b in
     \<lparr>ge_w = w, ge_pad_l = l, ge_pad_r = r, ge_pad_t = t, ge_pad_b = b, ge_plot_w = pw, ge_plot_h = ph,
      ge_base_y = t + ph, ge_plot_right = l + pw\<rparr>)"

definition axis_x :: "chart_mode \<Rightarrow> chart_geometry \<Rightarrow> nat \<Rightarrow> real" where
  "axis_x mode g idx = ge_plot_right g + (if mode = ModeBars then 16 else 68) + of_nat idx * 54 + 6"

record chart_view =
  vw_t0 :: int
  vw_t1 :: int
  vw_span :: int
  vw_left :: "real \<times> real list"
  vw_right :: "real \<times> real list"
  vw_conn :: "(real \<times> real list) option"
  vw_rtt :: "(real \<times> real list) option"

definition dn_value :: "chart_mode \<Rightarrow> int \<Rightarrow> bucket \<Rightarrow> real" where
  "dn_value mode bucket_ms b = (if mode = ModeBars then of_int (b_out b)
     else if mode = ModeCandles then b_oh b else rate (b_out b) bucket_ms)"

definition up_value :: "chart_mode \<Rightarrow> int \<Rightarrow> bucket \<Rightarrow> real" where
  "up_value mode bucket_ms b = (if mode = ModeBars then of_int (b_in b)
     else if mode = ModeCandles then b_ih b else rate (b_in b) bucket_ms)"

definition view :: "chart_mode \<Rightarrow> overlay_flags \<Rightarrow> int \<Rightarrow> bucket list \<Rightarrow> int \<Rightarrow> chart_view option" where
  "view mode ov window bs bucket_ms = (if bs = [] \<or> bucket_ms = 0 then None
     else let t1 = b_t (last bs) + bucket_ms;
            t0 = (if mode = ModeBars then b_t (hd bs) else if window > 0 then min (b_t (hd bs)) (t1 - window) else b_t (hd bs)) in
       Some \<lparr>vw_t0 = t0, vw_t1 = t1, vw_span = max 1 (t1 - t0),
         vw_left = nice_scale (max_of 1 (map (dn_value mode bucket_ms) bs)),
         vw_right = nice_scale (max_of 1 (map (up_value mode bucket_ms) bs)),
         vw_conn = (if ov_conn ov then Some (nice_linear 4 (max_of 1 (map b_cc (filter (\<lambda>b. b_cc b \<ge> 0) bs)))) else None),
         vw_rtt = (if ov_rtt ov then Some (nice_linear 4 (max_of 1 (map b_rc (filter (\<lambda>b. b_rc b \<ge> 0) bs)))) else None)\<rparr>)"

definition x_at :: "chart_geometry \<Rightarrow> chart_view \<Rightarrow> real \<Rightarrow> real" where
  "x_at g v t = ge_pad_l g + ((t - of_int (vw_t0 v)) / of_int (vw_span v)) * ge_plot_w g"

definition y_at :: "chart_geometry \<Rightarrow> real \<times> real list \<Rightarrow> real \<Rightarrow> real" where
  "y_at g scale v = ge_base_y g - (v / fst scale) * ge_plot_h g"

definition cx_at :: "chart_geometry \<Rightarrow> chart_view \<Rightarrow> int \<Rightarrow> int \<Rightarrow> real" where
  "cx_at g v bucket_ms t = x_at g v (of_int t + of_int bucket_ms / 2)"

definition dn_idle :: "plot list \<Rightarrow> bool" where
  "dn_idle ps \<longleftrightarrow> ps \<noteq> [] \<and> list_all (\<lambda>p. pt_dn p \<le> 0) ps"

definition up_idle :: "plot list \<Rightarrow> bool" where
  "up_idle ps \<longleftrightarrow> ps \<noteq> [] \<and> list_all (\<lambda>p. pt_up p \<le> 0) ps"

section \<open>Hover\<close>

definition resolve_hover :: "real \<Rightarrow> bucket list \<Rightarrow> int \<Rightarrow> chart_geometry \<Rightarrow> chart_view \<Rightarrow> (bucket \<times> real) option" where
  "resolve_hover hx bs bucket_ms g v = (if bs = [] then None
     else case find (\<lambda>b. hx \<ge> x_at g v (of_int (b_t b)) \<and> hx < x_at g v (of_int (b_t b + bucket_ms))) bs of
       Some b \<Rightarrow> Some (b, cx_at g v bucket_ms (b_t b))
     | None \<Rightarrow>
         let ht = min (of_int (vw_t1 v) - 1) (max (of_int (vw_t0 v))
               (of_int (vw_t0 v) + ((hx - ge_pad_l g) / ge_plot_w g) * of_int (vw_span v)));
             slot = \<lfloor>ht / of_int bucket_ms\<rfloor> * bucket_ms in
         Some (zero_bucket slot, cx_at g v bucket_ms slot))"

section \<open>Coverage and segments\<close>

fun coverage_from :: "int \<Rightarrow> (int \<times> int) option \<Rightarrow> bucket list \<Rightarrow> (int \<times> int) list" where
  "coverage_from ms run [] = (case run of Some r \<Rightarrow> [r] | None \<Rightarrow> [])"
| "coverage_from ms run (b # bs) = (case run of
     Some (a, e) \<Rightarrow> if of_int (b_t b - e) \<le> of_int ms * (1/2 :: real)
        then coverage_from ms (Some (a, b_t b + ms)) bs
        else (a, e) # coverage_from ms (Some (b_t b, b_t b + ms)) bs
   | None \<Rightarrow> coverage_from ms (Some (b_t b, b_t b + ms)) bs)"

definition coverage_runs :: "bucket list \<Rightarrow> int \<Rightarrow> (int \<times> int) list" where
  "coverage_runs bs ms = coverage_from ms None bs"

text \<open>Runs of known values, each element with its value; a path is drawn per run.\<close>

fun known_runs :: "('a \<Rightarrow> 'v option) \<Rightarrow> ('a \<times> 'v) list \<Rightarrow> 'a list \<Rightarrow> ('a \<times> 'v) list list" where
  "known_runs get cur [] = (if cur = [] then [] else [cur])"
| "known_runs get cur (x # xs) = (case get x of
     None \<Rightarrow> (if cur = [] then [] else [cur]) @ known_runs get [] xs
   | Some v \<Rightarrow> known_runs get (cur @ [(x, v)]) xs)"

definition point :: "real \<Rightarrow> real \<Rightarrow> string" where
  "point x y = to_fixed 1 x @ '','' @ to_fixed 1 y"

definition path_of :: "('a \<Rightarrow> string) \<Rightarrow> 'a list \<Rightarrow> string" where
  "path_of f xs = concat (map (\<lambda>(i, x). (if i = 0 then ''M'' else ''L'') @ f x) (enumerate 0 xs))"

definition step_segments :: "(int \<Rightarrow> real) \<Rightarrow> int \<Rightarrow> (real \<Rightarrow> real) \<Rightarrow> (bucket \<Rightarrow> real) \<Rightarrow> bucket list \<Rightarrow> string list" where
  "step_segments x ms y get bs = map (path_of (\<lambda>(b, v). point (x (b_t b)) (y v) @ ''L'' @ point (x (b_t b + ms)) (y v)))
     (known_runs (\<lambda>b. gauge (get b)) [] bs)"

definition gapped_segments :: "(int \<Rightarrow> real) \<Rightarrow> (real \<Rightarrow> real) \<Rightarrow> (plot \<Rightarrow> real option) \<Rightarrow> plot list \<Rightarrow> string list" where
  "gapped_segments cx y get ps = map (path_of (\<lambda>(p, v). point (cx (pt_t p)) (y v))) (known_runs get [] ps)"

definition line_path :: "(int \<Rightarrow> real) \<Rightarrow> (real \<Rightarrow> real) \<Rightarrow> (plot \<Rightarrow> real) \<Rightarrow> plot list \<Rightarrow> string" where
  "line_path cx y get ps = path_of (\<lambda>p. point (cx (pt_t p)) (y (get p))) ps"

section \<open>Lemmas\<close>

text \<open>The overlays' columns widen the drawing, never the plot.\<close>

lemma geometry_plot_width: "ge_plot_w (geometry mode cols h) = (if mode = ModeBars then 636 else 584)"
  by (simp add: geometry_def Let_def)

lemma geometry_fields:
  "ge_pad_l (geometry mode cols h) = 68" "ge_pad_t (geometry mode cols h) = 10"
  "ge_plot_h (geometry mode cols h) = h - 32" "ge_base_y (geometry mode cols h) = h - 22"
  "ge_plot_right (geometry mode cols h) = 68 + ge_plot_w (geometry mode cols h)"
  by (simp_all add: geometry_def Let_def)

lemma view_Some:
  assumes "view mode ov window bs ms = Some v"
  shows "bs \<noteq> []" "vw_t1 v = b_t (last bs) + ms" "vw_t0 v \<le> b_t (hd bs)" "vw_span v = max 1 (vw_t1 v - vw_t0 v)"
    "vw_left v = nice_scale (max_of 1 (map (dn_value mode ms) bs))"
    "vw_right v = nice_scale (max_of 1 (map (up_value mode ms) bs))"
    "vw_conn v = Some sc \<Longrightarrow> sc = nice_linear 4 (max_of 1 (map b_cc (filter (\<lambda>b. b_cc b \<ge> 0) bs)))"
    "vw_rtt v = Some sr \<Longrightarrow> sr = nice_linear 4 (max_of 1 (map b_rc (filter (\<lambda>b. b_rc b \<ge> 0) bs)))"
  using assms by (auto simp: view_def Let_def split: if_splits)

lemma x_at_in_plot:
  assumes "of_int (vw_t0 v) \<le> t" and "t \<le> of_int (vw_t1 v)" and "vw_span v = max 1 (vw_t1 v - vw_t0 v)"
    and "0 \<le> ge_plot_w g"
  shows "ge_pad_l g \<le> x_at g v t \<and> x_at g v t \<le> ge_pad_l g + ge_plot_w g"
proof -
  have sp: "0 < real_of_int (vw_span v)" "t - of_int (vw_t0 v) \<le> of_int (vw_span v)"
    using assms(1,2,3) by (auto simp: max_def)
  have "0 \<le> (t - of_int (vw_t0 v)) / of_int (vw_span v)" using assms(1) sp by simp
  moreover have "(t - of_int (vw_t0 v)) / of_int (vw_span v) \<le> 1" using sp by (simp add: divide_le_eq)
  ultimately have "0 \<le> (t - of_int (vw_t0 v)) / of_int (vw_span v) * ge_plot_w g"
    and "(t - of_int (vw_t0 v)) / of_int (vw_span v) * ge_plot_w g \<le> 1 * ge_plot_w g"
    using assms(4) by (blast intro: mult_nonneg_nonneg, blast intro: mult_right_mono)
  then show ?thesis unfolding x_at_def by linarith
qed

lemma x_at_le_iff:
  assumes "0 < vw_span v" and "0 < ge_plot_w g"
  shows "x_at g v s \<le> x_at g v t \<longleftrightarrow> s \<le> t"
  using assms by (simp add: x_at_def mult_le_cancel_right divide_le_cancel)

text \<open>The time under a pixel.\<close>

definition time_at :: "chart_geometry \<Rightarrow> chart_view \<Rightarrow> real \<Rightarrow> real" where
  "time_at g v hx = of_int (vw_t0 v) + ((hx - ge_pad_l g) / ge_plot_w g) * of_int (vw_span v)"

lemma x_at_time_at: "0 < vw_span v \<Longrightarrow> 0 < ge_plot_w g \<Longrightarrow> x_at g v (time_at g v hx) = hx"
  by (simp add: x_at_def time_at_def)

lemma under_cursor:
  assumes "0 < vw_span v" and "0 < ge_plot_w g"
  shows "x_at g v s \<le> hx \<longleftrightarrow> s \<le> time_at g v hx" "hx < x_at g v t \<longleftrightarrow> time_at g v hx < t"
  using x_at_le_iff [OF assms, of s "time_at g v hx"] x_at_le_iff [OF assms, of t "time_at g v hx"]
    x_at_time_at [OF assms, of hx] by auto

lemma concat_chunks: "0 < k \<Longrightarrow> concat (chunks k xs) = xs"
  by (induction k xs rule: chunks.induct) (subst chunks.simps, simp)

lemma chunks_nonempty: "c \<in> set (chunks k xs) \<Longrightarrow> c \<noteq> []"
  by (induction k xs rule: chunks.induct) (subst (asm) (2) chunks.simps, auto split: if_splits)

lemma length_chunks: "0 < k \<Longrightarrow> length xs \<le> k * n \<Longrightarrow> length (chunks k xs) \<le> n"
proof (induction k xs arbitrary: n rule: chunks.induct)
  case (1 k xs)
  show ?case
  proof (cases "xs = []")
    case True
    then show ?thesis by (subst chunks.simps) simp
  next
    case False
    with "1.prems" obtain m where n: "n = Suc m" by (cases n) auto
    with "1.prems" have "length (drop k xs) \<le> k * m" by simp
    with "1.IH" [of m] False "1.prems" n show ?thesis by (subst chunks.simps) simp
  qed
qed

lemma sum_chunks:
  fixes f :: "'a \<Rightarrow> int"
  shows "sum_list (map (\<lambda>c. sum_list (map f c)) cs) = sum_list (map f (concat cs))"
  by (induction cs) simp_all

lemma avg_gauge_bounds:
  assumes "avg_gauge bs get = Some a"
  shows "\<exists>b \<in> set bs. \<exists>c \<in> set bs. 0 \<le> get b \<and> get b \<le> a \<and> a \<le> get c"
proof -
  define k where "k = filter (\<lambda>v. v \<ge> 0) (map get bs)"
  have ne: "k \<noteq> []" and a: "a = sum_list k / of_nat (length k)"
    using assms by (auto simp: avg_gauge_def Let_def k_def split: if_splits)
  let ?lo = "Min (set k)" and ?hi = "Max (set k)"
  have mem: "?lo \<in> set k" "?hi \<in> set k" using ne by simp_all
  have "of_nat (length k) * ?lo \<le> sum_list k"
    using sum_list_mono [of k "\<lambda>_. ?lo" "\<lambda>v. v"] by (simp add: sum_list_triv)
  moreover have "sum_list k \<le> of_nat (length k) * ?hi"
    using sum_list_mono [of k "\<lambda>v. v" "\<lambda>_. ?hi"] by (simp add: sum_list_triv)
  moreover have "0 < real (length k)" using ne by simp
  ultimately have "?lo \<le> a" "a \<le> ?hi" unfolding a by (simp_all add: le_divide_eq divide_le_eq mult.commute)
  moreover obtain b c where "b \<in> set bs" "get b = ?lo" "0 \<le> get b" "c \<in> set bs" "get c = ?hi"
    using mem unfolding k_def by force
  ultimately show ?thesis by metis
qed

lemma concat_known_runs:
  "concat (known_runs get cur xs) = cur @ List.map_filter (\<lambda>x. map_option (Pair x) (get x)) xs"
  by (induction get cur xs rule: known_runs.induct) (auto simp: List.map_filter_simps split: option.splits)

text \<open>The coverage loop, with the run being extended as its accumulator.\<close>

definition starts :: "bucket list \<Rightarrow> int set" where
  "starts bs = b_t ` set bs"

lemma coverage_from_hd:
  "coverage_from ms (Some (a, e)) bs \<noteq> [] \<and> fst (hd (coverage_from ms (Some (a, e)) bs)) = a"
  by (induction bs arbitrary: a e) auto

lemma coverage_from_correct:
  assumes "0 < ms" and "sorted_wrt (<) (map b_t bs)" and "a + ms \<le> e" and "\<forall>b \<in> set bs. e - ms < b_t b"
  shows "(\<exists>e'. (a, e') \<in> set (coverage_from ms (Some (a, e)) bs) \<and> e \<le> e')
    \<and> (\<forall>b \<in> set bs. \<exists>(a', e') \<in> set (coverage_from ms (Some (a, e)) bs). a' \<le> b_t b \<and> b_t b + ms \<le> e')
    \<and> (\<forall>(a', e') \<in> set (coverage_from ms (Some (a, e)) bs). a' < e' \<and> a \<le> a'
         \<and> (a' = a \<or> a' \<in> starts bs) \<and> (e' = e \<or> e' - ms \<in> starts bs))
    \<and> sorted_wrt (\<lambda>r r'. of_int (snd r) + of_int ms / 2 < (of_int (fst r') :: real)) (coverage_from ms (Some (a, e)) bs)"
  using assms
proof (induction bs arbitrary: a e)
  case Nil
  then show ?case by (simp add: starts_def)
next
  case (Cons b bs)
  have tail: "sorted_wrt (<) (map b_t bs)" "\<forall>c \<in> set bs. b_t b + ms - ms < b_t c" using Cons.prems by auto
  show ?case
  proof (cases "of_int (b_t b - e) \<le> of_int ms * (1/2 :: real)")
    case True
    have ab: "a + ms \<le> b_t b + ms" "e \<le> b_t b + ms" "a \<le> b_t b" using Cons.prems by auto
    let ?rs = "coverage_from ms (Some (a, b_t b + ms)) bs"
    have eq: "coverage_from ms (Some (a, e)) (b # bs) = ?rs" using True by simp
    note ih = Cons.IH [OF Cons.prems(1) tail(1) ab(1) tail(2)]
    then obtain e' where e': "(a, e') \<in> set ?rs" "b_t b + ms \<le> e'" by blast
    have "\<forall>(a', e') \<in> set ?rs. a' < e' \<and> a \<le> a' \<and> (a' = a \<or> a' \<in> starts (b # bs)) \<and> (e' = e \<or> e' - ms \<in> starts (b # bs))"
      using ih by (auto simp: starts_def)
    moreover have "\<exists>(a', e') \<in> set ?rs. a' \<le> b_t b \<and> b_t b + ms \<le> e'" using e' ab by blast
    moreover have "\<exists>e'. (a, e') \<in> set ?rs \<and> e \<le> e'" using e' ab by force
    ultimately show ?thesis unfolding eq using ih by auto
  next
    case False
    then have gap: "of_int e + of_int ms / 2 < (of_int (b_t b) :: real)" by simp
    have "e < b_t b" using gap Cons.prems(1) by linarith
    have ab: "b_t b + ms \<le> b_t b + ms" by simp
    let ?rs = "coverage_from ms (Some (b_t b, b_t b + ms)) bs"
    note ih = Cons.IH [OF Cons.prems(1) tail(1) ab tail(2)]
    have later: "\<forall>r \<in> set ?rs. of_int e + of_int ms / 2 < (of_int (fst r) :: real)"
      using ih gap by fastforce
    have eq: "coverage_from ms (Some (a, e)) (b # bs) = (a, e) # ?rs" using False by simp
    have "\<forall>(a', e') \<in> set ?rs. a' < e' \<and> a \<le> a' \<and> (a' = a \<or> a' \<in> starts (b # bs)) \<and> (e' = e \<or> e' - ms \<in> starts (b # bs))"
      using ih \<open>e < b_t b\<close> Cons.prems(1,3) by (fastforce simp: starts_def)
    moreover have "\<exists>(a', e') \<in> set ?rs. a' \<le> b_t b \<and> b_t b + ms \<le> e'" using ih by blast
    ultimately show ?thesis
      unfolding eq using ih later Cons.prems(1,3) by auto
  qed
qed

section \<open>Properties\<close>

text \<open>Everything the chart draws for a bucket lies inside the plot: its centre between the left pad
  and the plot's right edge, its download, upload and gauge marks between the top pad and the base
  line, whatever overlays are shown; and the overlays never change the plot's width.\<close>

theorem marks_in_plot:
  assumes "view mode ov window bs ms = Some v" and "0 < ms" and "b \<in> set bs"
    and "\<forall>c \<in> set bs. b_t (hd bs) \<le> b_t c \<and> b_t c \<le> b_t (last bs)" and "32 \<le> h"
    and "g = geometry mode cols h" and "0 \<le> dn_value mode ms b" and "0 \<le> up_value mode ms b"
  shows "ge_pad_l g \<le> cx_at g v ms (b_t b) \<and> cx_at g v ms (b_t b) \<le> ge_plot_right g
    \<and> ge_pad_t g \<le> y_at g (vw_left v) (dn_value mode ms b) \<and> y_at g (vw_left v) (dn_value mode ms b) \<le> ge_base_y g
    \<and> ge_pad_t g \<le> y_at g (vw_right v) (up_value mode ms b) \<and> y_at g (vw_right v) (up_value mode ms b) \<le> ge_base_y g
    \<and> (\<forall>sc. vw_conn v = Some sc \<and> 0 \<le> b_cc b \<longrightarrow> ge_pad_t g \<le> y_at g sc (b_cc b) \<and> y_at g sc (b_cc b) \<le> ge_base_y g)
    \<and> ge_plot_w g = ge_plot_w (geometry mode 0 h)"
proof -
  note vw = view_Some [OF assms(1)]
  have g: "ge_plot_right g = ge_pad_l g + ge_plot_w g" "0 \<le> ge_plot_w g" "ge_base_y g - ge_plot_h g = ge_pad_t g"
    "0 \<le> ge_plot_h g" "ge_plot_w g = ge_plot_w (geometry mode 0 h)"
    using assms(5) by (simp_all add: assms(6) geometry_fields geometry_plot_width)
  have t: "vw_t0 v \<le> b_t b" "b_t b + ms \<le> vw_t1 v" using assms(2-4) vw(2,3) by force+
  have "real_of_int (vw_t0 v) \<le> of_int (b_t b) + of_int ms / 2" "of_int (b_t b) + of_int ms / 2 \<le> real_of_int (vw_t1 v)"
    using t assms(2) by linarith+
  then have cx: "ge_pad_l g \<le> cx_at g v ms (b_t b) \<and> cx_at g v ms (b_t b) \<le> ge_plot_right g"
    unfolding cx_at_def g(1) by (rule x_at_in_plot [OF _ _ vw(4) g(2)])
  have dn: "dn_value mode ms b \<le> max_of 1 (map (dn_value mode ms) bs)"
    and up: "up_value mode ms b \<le> max_of 1 (map (up_value mode ms) bs)" using assms(3) by (auto intro: max_of_ge)
  have conn: "ge_pad_t g \<le> y_at g sc (b_cc b) \<and> y_at g sc (b_cc b) \<le> ge_base_y g"
    if "vw_conn v = Some sc" "0 \<le> b_cc b" for sc
  proof -
    have "b_cc b \<le> max_of 1 (map b_cc (filter (\<lambda>b. b_cc b \<ge> 0) bs))" using assms(3) that(2) by (intro max_of_ge) auto
    from decimal_axis.y_in_plot [OF that(2) this g(4), of "ge_base_y g"] show ?thesis
      using vw(7) [OF that(1)] g(3) by (simp add: y_at_def)
  qed
  show ?thesis
    using cx conn g(5) binary_axis.y_in_plot [OF assms(7) dn g(4), of "ge_base_y g"]
      binary_axis.y_in_plot [OF assms(8) up g(4), of "ge_base_y g"]
    unfolding y_at_def vw(5,6) g(3) by blast
qed

definition sample_bucket :: "int \<Rightarrow> int \<Rightarrow> real \<Rightarrow> bucket" where
  "sample_bucket t bytes oc = (zero_bucket t)\<lparr>b_out := bytes, b_oc := oc\<rparr>"

theorem marks_in_plot_witness:
  "\<exists>v. view ModeLine \<lparr>ov_conn = False, ov_rtt = False, ov_dn = True, ov_up = True\<rparr> 0 [sample_bucket 0 100 1] 1000 = Some v
    \<and> cx_at (geometry ModeLine 0 260) v 1000 0 \<le> ge_plot_right (geometry ModeLine 0 260)"
proof -
  let ?ov = "\<lparr>ov_conn = False, ov_rtt = False, ov_dn = True, ov_up = True\<rparr>"
  obtain v where v: "view ModeLine ?ov 0 [sample_bucket 0 100 1] 1000 = Some v" by (simp add: view_def Let_def)
  have "0 \<le> dn_value ModeLine 1000 (sample_bucket 0 100 1)" "0 \<le> up_value ModeLine 1000 (sample_bucket 0 100 1)"
    "b_t (sample_bucket 0 100 1) = 0"
    by (simp_all add: dn_value_def up_value_def rate_def sample_bucket_def zero_bucket_def)
  with marks_in_plot [OF v, of "sample_bucket 0 100 1" 260 "geometry ModeLine 0 260" 0] v show ?thesis by simp
qed

text \<open>The in-progress bucket is the exception: it is plotted at its close rate while the scale is
  taken from average rates, so a burst in it is drawn above the plot, here at 57 000 pixels above.\<close>

theorem partial_bucket_leaves_plot:
  "let bs = [sample_bucket 0 0 1000]; g = geometry ModeLine 0 260 in
   \<exists>v. view ModeLine \<lparr>ov_conn = False, ov_rtt = False, ov_dn = True, ov_up = True\<rparr> 0 bs 1000 = Some v
     \<and> map pt_dn (to_plots bs 1000 ModeLine 500) = [1000]
     \<and> y_at g (vw_left v) 1000 < ge_pad_t g - 56000"
proof -
  let ?bs = "[sample_bucket 0 0 1000]" and ?ov = "\<lparr>ov_conn = False, ov_rtt = False, ov_dn = True, ov_up = True\<rparr>"
  obtain v where v: "view ModeLine ?ov 0 ?bs 1000 = Some v" by (simp add: view_def Let_def)
  have "dn_value ModeLine 1000 (sample_bucket 0 0 1000) = 0"
    by (simp add: dn_value_def rate_def sample_bucket_def)
  then have "vw_left v = nice_scale 1" using view_Some(5) [OF v] by (simp add: max_of_def)
  then have "fst (vw_left v) = 4" by (simp add: nice_scale_def nice_step_def Let_def)
  then have "y_at (geometry ModeLine 0 260) (vw_left v) 1000 < ge_pad_t (geometry ModeLine 0 260) - 56000"
    by (simp add: y_at_def geometry_fields)
  moreover have "map pt_dn (to_plots ?bs 1000 ModeLine 500) = [1000]"
    by (simp add: to_plots_def partial_bucket_def sample_bucket_def zero_bucket_def)
  ultimately show ?thesis using v by (simp add: Let_def)
qed

text \<open>C28. Coalescing candles leaves at most 150, loses no byte, and every raw bucket's high and low stay
  inside the candle that absorbed it.\<close>

theorem coalesce_candles:
  assumes "coalesce ModeCandles raw ms = (out, ms')"
  shows "length out \<le> 150 \<and> sum_list (map b_in out) = sum_list (map b_in raw)
    \<and> sum_list (map b_out out) = sum_list (map b_out raw)
    \<and> (\<forall>b \<in> set raw. \<exists>c \<in> set out. b_ol c \<le> b_ol b \<and> b_oh b \<le> b_oh c \<and> b_il c \<le> b_il b \<and> b_ih b \<le> b_ih c)"
proof (cases "length raw \<le> 150")
  case True
  with assms show ?thesis by (auto simp: coalesce_def)
next
  case False
  define k where "k = nat \<lceil>real (length raw) / 150\<rceil>"
  have "real (length raw) / 150 \<le> of_int \<lceil>real (length raw) / 150\<rceil>" by (rule le_of_int_ceiling)
  moreover have "0 < length raw" using False by linarith
  then have "0 < real (length raw) / 150" by simp
  ultimately have k: "real (length raw) / 150 \<le> real k" "0 < k" unfolding k_def by linarith+
  then have "length raw \<le> k * 150" by (simp add: divide_le_eq)
  with k(2) have len: "length (chunks k raw) \<le> 150" by (rule length_chunks)
  have out: "out = map merge_buckets (chunks k raw)"
    using assms False by (simp add: coalesce_def Let_def k_def)
  have "sum_list (map b_in out) = sum_list (map b_in raw)" "sum_list (map b_out out) = sum_list (map b_out raw)"
    using sum_chunks [of b_in "chunks k raw"] sum_chunks [of b_out "chunks k raw"]
    by (simp_all add: out merge_buckets_def comp_def concat_chunks [OF k(2)])
  moreover have "\<exists>c \<in> set out. b_ol c \<le> b_ol b \<and> b_oh b \<le> b_oh c \<and> b_il c \<le> b_il b \<and> b_ih b \<le> b_ih c" if "b \<in> set raw" for b
  proof -
    from that obtain grp where grp: "grp \<in> set (chunks k raw)" "b \<in> set grp"
      using concat_chunks [OF k(2), of raw] by (metis UN_iff set_concat)
    obtain c cs where "grp = c # cs" using chunks_nonempty [OF grp(1)] by (cases grp) auto
    with grp have "b_ol (merge_buckets grp) \<le> b_ol b \<and> b_oh b \<le> b_oh (merge_buckets grp)
        \<and> b_il (merge_buckets grp) \<le> b_il b \<and> b_ih b \<le> b_ih (merge_buckets grp)"
      by (auto simp: merge_buckets_def intro!: max_of_ge min_of_le)
    with grp out show ?thesis by auto
  qed
  ultimately show ?thesis using len by (simp add: out)
qed

theorem coalesce_candles_witness:
  "length (fst (coalesce ModeCandles (replicate 300 (sample_bucket 0 1 1)) 1000)) \<le> 150"
  using coalesce_candles [of "replicate 300 (sample_bucket 0 1 1)" 1000]
  by (metis prod.collapse)

text \<open>Every cursor position inside the plot reads out: either the recorded bucket whose slot is under
  the cursor, or an all-quiet bucket at a slot of the grid under the cursor that is not recorded.\<close>

theorem hover_in_plot:
  assumes "view mode ov window bs ms = Some v" and "0 < ms" and "\<forall>b \<in> set bs. ms dvd b_t b"
    and "\<forall>b \<in> set bs. b_t (hd bs) \<le> b_t b \<and> b_t b \<le> b_t (last bs)"
    and "0 < ge_plot_w g" and "ge_pad_l g \<le> hx" and "hx < ge_pad_l g + ge_plot_w g"
  shows "\<exists>b cx. resolve_hover hx bs ms g v = Some (b, cx)
    \<and> (b \<in> set bs \<or> b = zero_bucket (b_t b) \<and> b_t b \<notin> b_t ` set bs \<and> ms dvd b_t b)
    \<and> of_int (b_t b) \<le> time_at g v hx \<and> time_at g v hx < of_int (b_t b) + of_int ms"
proof -
  note vw = view_Some [OF assms(1)]
  have "b_t (hd bs) \<le> b_t (last bs)" using assms(4) vw(1) by auto
  then have span: "vw_span v = vw_t1 v - vw_t0 v" "0 < vw_span v" using vw(2,3,4) assms(2) by auto

  have q: "0 \<le> (hx - ge_pad_l g) / ge_plot_w g" "(hx - ge_pad_l g) / ge_plot_w g < 1"
    using assms(5-7) by (simp_all add: divide_less_eq)
  have "0 \<le> (hx - ge_pad_l g) / ge_plot_w g * of_int (vw_span v)"
    using q(1) span(2) by (intro mult_nonneg_nonneg) auto
  then have T0: "of_int (vw_t0 v) \<le> time_at g v hx" unfolding time_at_def by simp
  have "(hx - ge_pad_l g) / ge_plot_w g * of_int (vw_span v) < 1 * of_int (vw_span v)"
    using q span(2) by (intro mult_strict_right_mono) auto
  then have T1: "time_at g v hx < of_int (vw_t1 v)" unfolding time_at_def using span(1) by simp
  let ?P = "\<lambda>b. hx \<ge> x_at g v (of_int (b_t b)) \<and> hx < x_at g v (of_int (b_t b + ms))"
  have P: "?P b \<longleftrightarrow> of_int (b_t b) \<le> time_at g v hx \<and> time_at g v hx < of_int (b_t b) + of_int ms" for b
    using under_cursor(1) [OF span(2) assms(5), of "of_int (b_t b)" hx]
      under_cursor(2) [OF span(2) assms(5), of hx "of_int (b_t b + ms)"] by simp
  show ?thesis
  proof (cases "find ?P bs")
    case (Some b)
    then have "b \<in> set bs" "?P b" by (auto simp: find_Some_iff)
    with P [of b] Some vw(1) show ?thesis by (auto simp: resolve_hover_def)
  next
    case None
    then have none: "\<forall>b \<in> set bs. \<not> ?P b" by (simp add: find_None_iff)
    define ht where "ht = min (of_int (vw_t1 v) - 1) (max (of_int (vw_t0 v)) (time_at g v hx))"
    define s where "s = \<lfloor>ht / of_int ms\<rfloor> * ms"
    have s: "ms dvd s" by (simp add: s_def)
    have "of_int \<lfloor>ht / of_int ms\<rfloor> * of_int ms \<le> ht"
      using assms(2) by (intro floor_divide_lower) simp
    moreover have "ht < (of_int \<lfloor>ht / of_int ms\<rfloor> + 1) * of_int ms"
      using assms(2) by (intro floor_divide_upper) simp
    ultimately have sh: "of_int s \<le> ht" "ht < of_int (s + ms)"
      unfolding s_def by (simp_all add: algebra_simps)
    have htT: "ht \<le> time_at g v hx" using T0 unfolding ht_def by linarith
    have last: "ms dvd vw_t1 v" using assms(3) vw(1,2) by simp
    have "time_at g v hx < of_int (s + ms)"
    proof (cases "time_at g v hx \<le> of_int (vw_t1 v) - 1")
      case True
      then show ?thesis using sh(2) T0 by (simp add: ht_def)
    next
      case False
      then have "ht = of_int (vw_t1 v) - 1" using T0 by (simp add: ht_def)
      with sh(2) have "vw_t1 v - 1 < s + ms" by linarith
      with s last have "vw_t1 v \<le> s + ms" by linarith
      with T1 show ?thesis by linarith
    qed
    then have under: "of_int s \<le> time_at g v hx" "time_at g v hx < of_int s + of_int ms" using sh(1) htT by auto
    have "s \<notin> b_t ` set bs" using none P under by force
    moreover have "resolve_hover hx bs ms g v = Some (zero_bucket s, cx_at g v ms s)"
      using None vw(1) by (simp add: resolve_hover_def Let_def s_def ht_def time_at_def)
    moreover have "b_t (zero_bucket s) = s" by (simp add: zero_bucket_def)
    ultimately show ?thesis using s under by (intro exI [of _ "zero_bucket s"]) simp
  qed
qed

theorem hover_in_plot_witness:
  "\<exists>v b cx. view ModeBars \<lparr>ov_conn = False, ov_rtt = False, ov_dn = True, ov_up = False\<rparr> 0 [sample_bucket 0 5 0, sample_bucket 3000 5 0] 1000 = Some v
    \<and> resolve_hover 100 [sample_bucket 0 5 0, sample_bucket 3000 5 0] 1000 (geometry ModeBars 0 260) v = Some (b, cx)"
proof -
  let ?bs = "[sample_bucket 0 5 0, sample_bucket 3000 5 0]" and ?ov = "\<lparr>ov_conn = False, ov_rtt = False, ov_dn = True, ov_up = False\<rparr>"
  obtain v where v: "view ModeBars ?ov 0 ?bs 1000 = Some v" by (simp add: view_def Let_def)
  from hover_in_plot [OF v, of "geometry ModeBars 0 260" 100] v show ?thesis
    by (auto simp: sample_bucket_def zero_bucket_def geometry_fields geometry_plot_width)
qed

text \<open>To the right of the plot, over the value axes, the read-out is wrong: it names the newest
  recorded bucket's slot but shows it as quiet, whatever that bucket recorded.\<close>

theorem hover_right_of_plot:
  assumes "view mode ov window bs ms = Some v" and "0 < ms" and "\<forall>b \<in> set bs. ms dvd b_t b"
    and "\<forall>b \<in> set bs. b_t (hd bs) \<le> b_t b \<and> b_t b \<le> b_t (last bs)"
    and "0 < ge_plot_w g" and "ge_pad_l g + ge_plot_w g \<le> hx"
  shows "\<exists>cx. resolve_hover hx bs ms g v = Some (zero_bucket (b_t (last bs)), cx)"
proof -
  note vw = view_Some [OF assms(1)]
  have "b_t (hd bs) \<le> b_t (last bs)" using assms(4) vw(1) by auto
  then have span: "vw_span v = vw_t1 v - vw_t0 v" "0 < vw_span v" using vw(2,3,4) assms(2) by auto
  have q: "1 \<le> (hx - ge_pad_l g) / ge_plot_w g" using assms(5,6) by (simp add: le_divide_eq)
  have "1 * of_int (vw_span v) \<le> (hx - ge_pad_l g) / ge_plot_w g * of_int (vw_span v)"
    using q span(2) by (intro mult_right_mono) auto
  then have T: "of_int (vw_t1 v) \<le> time_at g v hx" unfolding time_at_def using span(1) by simp
  have "\<not> (hx < x_at g v (of_int (b_t b + ms)))" if "b \<in> set bs" for b
  proof -
    have "b_t b + ms \<le> vw_t1 v" using assms(4) that vw(2) by simp
    with T have "\<not> time_at g v hx < of_int (b_t b + ms)" by linarith
    then show ?thesis using under_cursor(2) [OF span(2) assms(5), of hx "of_int (b_t b + ms)"] by simp
  qed
  then have none: "find (\<lambda>b. hx \<ge> x_at g v (of_int (b_t b)) \<and> hx < x_at g v (of_int (b_t b + ms))) bs = None"
    by (auto simp: find_None_iff)
  have ht: "min (of_int (vw_t1 v) - 1) (max (of_int (vw_t0 v)) (time_at g v hx)) = (of_int (vw_t1 v - 1) :: real)"
    using T by simp
  obtain n where n: "b_t (last bs) = ms * n" using assms(3) vw(1) by (metis dvdE last_in_set)
  have "(vw_t1 v - 1) div ms = n"
  proof -
    have eq: "vw_t1 v - 1 = n * ms + (ms - 1)" using vw(2) n by (simp add: algebra_simps)
    have "(n * ms + (ms - 1)) div ms = n + (ms - 1) div ms" using assms(2) by (intro div_mult_self3) simp
    moreover have "(ms - 1) div ms = 0" using assms(2) by (intro div_pos_pos_trivial) auto
    ultimately show ?thesis unfolding eq by linarith
  qed
  then have "\<lfloor>(of_int (vw_t1 v - 1) :: real) / of_int ms\<rfloor> = n" by (simp only: floor_divide_of_int_eq)
  then have "\<lfloor>(of_int (vw_t1 v - 1) :: real) / of_int ms\<rfloor> * ms = b_t (last bs)"
    unfolding n by (simp only: mult.commute)
  then show ?thesis
    unfolding resolve_hover_def Let_def none time_at_def [symmetric] ht using vw(1) by simp
qed

theorem hover_right_of_plot_witness:
  "\<exists>v cx. view ModeLine \<lparr>ov_conn = False, ov_rtt = False, ov_dn = True, ov_up = True\<rparr> 0 [sample_bucket 0 5000 0] 1000 = Some v
    \<and> resolve_hover 700 [sample_bucket 0 5000 0] 1000 (geometry ModeLine 0 260) v = Some (zero_bucket 0, cx)"
proof -
  let ?ov = "\<lparr>ov_conn = False, ov_rtt = False, ov_dn = True, ov_up = True\<rparr>"
  obtain v where v: "view ModeLine ?ov 0 [sample_bucket 0 5000 0] 1000 = Some v" by (simp add: view_def Let_def)
  from hover_right_of_plot [OF v, of "geometry ModeLine 0 260" 700] v show ?thesis
    by (auto simp: sample_bucket_def zero_bucket_def geometry_fields geometry_plot_width)
qed

text \<open>The uptime strip is a list of disjoint spans in time order, more than half a slot apart, that
  begin and end with recorded slots and together cover every recorded slot.\<close>

theorem coverage_runs_correct:
  assumes "0 < ms" and "sorted_wrt (<) (map b_t bs)"
  shows "(\<forall>b \<in> set bs. \<exists>(a, e) \<in> set (coverage_runs bs ms). a \<le> b_t b \<and> b_t b + ms \<le> e)
    \<and> (\<forall>(a, e) \<in> set (coverage_runs bs ms). a < e \<and> a \<in> starts bs \<and> e - ms \<in> starts bs)
    \<and> sorted_wrt (\<lambda>r r'. of_int (snd r) + of_int ms / 2 < (of_int (fst r') :: real)) (coverage_runs bs ms)"
proof (cases bs)
  case Nil
  then show ?thesis by (simp add: coverage_runs_def)
next
  case (Cons b bs')
  have pre: "sorted_wrt (<) (map b_t bs')" "\<forall>c \<in> set bs'. b_t b + ms - ms < b_t c"
    using assms(2) Cons by auto
  let ?rs = "coverage_from ms (Some (b_t b, b_t b + ms)) bs'"
  note run = coverage_from_correct [OF assms(1) pre(1) order_refl pre(2)]
  have eq: "coverage_runs bs ms = ?rs" by (simp add: coverage_runs_def Cons)
  from run obtain e' where "(b_t b, e') \<in> set ?rs" "b_t b + ms \<le> e'" by blast
  then have "\<exists>(a, e) \<in> set ?rs. a \<le> b_t b \<and> b_t b + ms \<le> e" by blast
  with run show ?thesis unfolding eq by (auto simp: Cons starts_def)
qed

theorem coverage_runs_correct_witness:
  "coverage_runs [sample_bucket 0 1 1, sample_bucket 1000 1 1, sample_bucket 5000 1 1] 1000 = [(0, 2000), (5000, 6000)]
   \<and> (\<exists>(a, e) \<in> set (coverage_runs [sample_bucket 0 1 1, sample_bucket 1000 1 1, sample_bucket 5000 1 1] 1000). a \<le> 5000 \<and> 6000 \<le> e)"
proof
  show "coverage_runs [sample_bucket 0 1 1, sample_bucket 1000 1 1, sample_bucket 5000 1 1] 1000 = [(0, 2000), (5000, 6000)]"
    by (simp add: coverage_runs_def sample_bucket_def zero_bucket_def)
  show "\<exists>(a, e) \<in> set (coverage_runs [sample_bucket 0 1 1, sample_bucket 1000 1 1, sample_bucket 5000 1 1] 1000). a \<le> 5000 \<and> 6000 \<le> e"
    using coverage_runs_correct [of 1000 "[sample_bucket 0 1 1, sample_bucket 1000 1 1, sample_bucket 5000 1 1]"]
    by (simp add: sample_bucket_def zero_bucket_def)
qed

end
