(* ===== verification/Json.thy ===== *)
theory Json
  imports Prelude
begin

text \<open>
  \<open>JSON.stringify\<close> of the flat query objects that key the page caches of \<open>players.ts\<close> and
  \<open>analytics.ts\<close>: strings, whole numbers, and objects of them in the order their fields were written.
  Encoded strings delimit themselves, so that an encoded query determines its fields.
\<close>

definition quote_char :: char where "quote_char = CHR 0x22"
definition backslash :: char where "backslash = CHR 0x5C"

definition hex_char :: "nat \<Rightarrow> char" where
  "hex_char d = (if d < 10 then char_of (48 + d) else char_of (87 + d))"

text \<open>The short escapes, in the order of their characters.\<close>

definition short_escapes :: "(char \<times> char) list" where
  "short_escapes = [(quote_char, quote_char), (backslash, backslash), (CHR 0x08, CHR ''b''), (CHR 0x0C, CHR ''f''),
     (CHR 0x0A, CHR ''n''), (CHR 0x0D, CHR ''r''), (CHR 0x09, CHR ''t'')]"

definition json_esc :: "char \<Rightarrow> string" where
  "json_esc c = (case map_of short_escapes c of
     Some e \<Rightarrow> [backslash, e]
   | None \<Rightarrow> let n = of_char c :: nat in
       if n < 32 then [backslash, CHR ''u'', CHR ''0'', CHR ''0'', hex_char (n div 16), hex_char (n mod 16)] else [c])"

definition json_string :: "string \<Rightarrow> string" where
  "json_string s = quote_char # concat (map json_esc s) @ [quote_char]"

definition json_member :: "string \<Rightarrow> string \<Rightarrow> string" where
  "json_member name v = quote_char # name @ quote_char # CHR '':'' # v"

definition json_object :: "(string \<times> string) list \<Rightarrow> string" where
  "json_object ms = ''{'' @ join_with '','' (map (\<lambda>(n, v). json_member n v) ms) @ ''}''"

lemma hex_char_inj: "i < 16 \<Longrightarrow> j < 16 \<Longrightarrow> hex_char i = hex_char j \<longleftrightarrow> i = j"
proof -
  assume ij: "i < 16" "j < 16"
  have code: "(of_char (hex_char k) :: nat) = (if k < 10 then 48 + k else 87 + k)" if "k < 16" for k
    using that by (simp add: hex_char_def)
  show ?thesis
  proof
    assume "hex_char i = hex_char j"
    then have "(of_char (hex_char i) :: nat) = of_char (hex_char j)" by simp
    with code ij show "i = j" by (auto split: if_splits)
  qed simp
qed

lemma short_escape_inj: "map_of short_escapes c = Some e \<Longrightarrow> map_of short_escapes d = Some e \<Longrightarrow> c = d"
  by (auto simp: short_escapes_def quote_char_def backslash_def split: if_splits)

lemma short_escape_not_u: "map_of short_escapes c = Some e \<Longrightarrow> e \<noteq> CHR ''u''"
  by (auto simp: short_escapes_def quote_char_def backslash_def split: if_splits)

lemma json_esc_cases:
  obtains e where "map_of short_escapes c = Some e" "json_esc c = [backslash, e]"
  | n where "map_of short_escapes c = None" "n = (of_char c :: nat)" "n < 32"
      "json_esc c = [backslash, CHR ''u'', CHR ''0'', CHR ''0'', hex_char (n div 16), hex_char (n mod 16)]"
  | "json_esc c = [c]" "c \<noteq> backslash" "c \<noteq> quote_char"
proof (cases "map_of short_escapes c")
  case None
  then have "c \<noteq> backslash" "c \<noteq> quote_char" by (auto simp: short_escapes_def split: if_splits)
  with None that(2,3) show ?thesis by (cases "(of_char c :: nat) < 32") (auto simp: json_esc_def Let_def)
qed (use that(1) in \<open>simp add: json_esc_def\<close>)

lemma json_esc_not_quote: "json_esc c @ x \<noteq> quote_char # y"
  by (rule json_esc_cases [of c]) (auto simp: quote_char_def backslash_def)

lemma json_esc_prefix_free: "json_esc c @ x = json_esc d @ y \<Longrightarrow> c = d \<and> x = y"
proof -
  assume eq: "json_esc c @ x = json_esc d @ y"
  show ?thesis
  proof (rule json_esc_cases [of c]; rule json_esc_cases [of d])
    fix m n assume m: "m = (of_char c :: nat)" "m < 32" and n: "n = (of_char d :: nat)" "n < 32"
      and esc: "json_esc c = [backslash, CHR ''u'', CHR ''0'', CHR ''0'', hex_char (m div 16), hex_char (m mod 16)]"
        "json_esc d = [backslash, CHR ''u'', CHR ''0'', CHR ''0'', hex_char (n div 16), hex_char (n mod 16)]"
    from eq esc have "hex_char (m div 16) = hex_char (n div 16)" "hex_char (m mod 16) = hex_char (n mod 16)" and xy: "x = y"
      by simp_all
    with m(2) n(2) have "m div 16 = n div 16" "m mod 16 = n mod 16" by (simp_all add: hex_char_inj)
    then have "m = n" by (metis div_mult_mod_eq)
    with m(1) n(1) xy show ?thesis by simp
  qed (use eq in \<open>auto dest: short_escape_inj short_escape_not_u\<close>)
qed

text \<open>An encoded string ends where its closing quote stands.\<close>

lemma json_string_delimits: "json_string s @ x = json_string t @ y \<Longrightarrow> s = t \<and> x = y"
proof -
  have "concat (map json_esc s) @ quote_char # x = concat (map json_esc t) @ quote_char # y \<Longrightarrow> s = t \<and> x = y"
  proof (induction s arbitrary: t)
    case Nil
    then show ?case using json_esc_not_quote [symmetric] by (cases t) auto
  next
    case (Cons c s)
    show ?case
    proof (cases t)
      case Nil
      with Cons.prems show ?thesis using json_esc_not_quote [of c] by auto
    next
      case (Cons d t')
      with Cons.prems have "json_esc c @ concat (map json_esc s) @ quote_char # x = json_esc d @ concat (map json_esc t') @ quote_char # y"
        by simp
      from json_esc_prefix_free [OF this] Cons.IH [of t'] Cons show ?thesis by auto
    qed
  qed
  then show "json_string s @ x = json_string t @ y \<Longrightarrow> ?thesis" by (simp add: json_string_def)
qed

text \<open>A number ends before the first comma or brace.\<close>

lemma show_int_delimits:
  assumes "show_int i @ c # x = show_int j @ d # y" and "c \<in> {CHR '','', CHR ''}''}" and "d \<in> {CHR '','', CHR ''}''}"
  shows "i = j \<and> c # x = d # y"
proof -
  let ?p = "\<lambda>c. c \<noteq> CHR '','' \<and> c \<noteq> CHR ''}''"
  have all: "\<forall>c \<in> set (show_int k). ?p c" for k
  proof
    fix c assume "c \<in> set (show_int k)"
    then have "c = CHR ''-'' \<or> (48 \<le> (of_char c :: nat) \<and> (of_char c :: nat) \<le> 57)" by (rule show_int_chars)
    then show "?p c" by auto
  qed
  have take: "takeWhile ?p (show_int k @ e # z) = show_int k" if "e \<in> {CHR '','', CHR ''}''}" for k e z
    using all [of k] that by (subst takeWhile_append2) auto
  have "show_int i = show_int j" using take [OF assms(2)] take [OF assms(3)] assms(1) by metis
  with assms(1) show ?thesis by simp
qed


lemma show_int_comma: "show_int i @ CHR '','' # x = show_int j @ CHR '','' # y \<Longrightarrow> i = j \<and> x = y"
  using show_int_delimits [of i "CHR '',''" x j "CHR '',''" y] by simp

lemma show_int_brace: "show_int i @ [CHR ''}''] = show_int j @ [CHR ''}''] \<Longrightarrow> i = j"
  by simp

lemmas json_delimits = json_string_delimits show_int_comma show_int_brace

end
