(* ===== verification/Players.thy ===== *)
theory Players
  imports Format Model Hooks Json
begin

text \<open>
  The Players screen (\<open>screens/Players.tsx\<close>) and its hooks (\<open>players.ts\<close>): the keys of the page caches,
  the wall with its filters and its pager, the tiles, the country ranking (\<open>GeoRank.tsx\<close>) and the
  dossier. The clock and the locale's date label are parameters. The pager, which the connection
  history of \<open>Analytics.tsx\<close> repeats, is stated for any page size.
\<close>

section \<open>Cache keys\<close>

definition players_page_size :: int where "players_page_size = 60"

definition players_key :: "players_query \<Rightarrow> string" where
  "players_key q = json_object [(''search'', json_string (pq_search q)), (''sort'', json_string (pq_sort q)),
     (''tunnelId'', json_string (pq_tunnel_id q)), (''cc'', json_string (pq_cc q)),
     (''offset'', show_int (pq_offset q)), (''limit'', show_int (pq_limit q))]"

text \<open>\<open>PlayersQuery\<close> of the screen has no agent; two queries of the screen differ in a field that is keyed.\<close>

definition screen_query :: "players_query \<Rightarrow> bool" where
  "screen_query q \<longleftrightarrow> pq_agent_id q = ''''"

lemma players_key_inj:
  assumes "players_key q = players_key r" and "screen_query q" and "screen_query r"
  shows "q = r"
  using assms by (cases q; cases r)
    (auto simp: players_key_def json_object_def json_member_def screen_query_def dest!: json_delimits)


section \<open>The pager\<close>

definition pager_prev :: "int \<Rightarrow> int \<Rightarrow> int" where
  "pager_prev page o' = max 0 (o' - page)"

definition pager_next :: "int \<Rightarrow> int \<Rightarrow> int" where
  "pager_next page o' = o' + page"

definition prev_disabled :: "int \<Rightarrow> bool" where
  "prev_disabled o' \<longleftrightarrow> o' = 0"

definition next_disabled :: "int \<Rightarrow> int \<Rightarrow> int \<Rightarrow> bool" where
  "next_disabled page tot o' \<longleftrightarrow> o' + page \<ge> tot"

definition pager_shown :: "int \<Rightarrow> int \<Rightarrow> bool" where
  "pager_shown page tot \<longleftrightarrow> tot > page"

definition en_dash :: string where
  "en_dash = [CHR 0xE2, CHR 0x80, CHR 0x93]"

definition pager_label :: "int \<Rightarrow> int \<Rightarrow> int \<Rightarrow> string" where
  "pager_label page tot o' = show_int (o' + 1) @ en_dash @ show_int (min (o' + page) tot) @ '' of '' @ show_int tot"

datatype pager_event = PagePrev | PageNext

fun pager_step :: "int \<Rightarrow> int \<Rightarrow> int \<Rightarrow> pager_event \<Rightarrow> int" where
  "pager_step page tot o' PagePrev = (if prev_disabled o' then o' else pager_prev page o')"
| "pager_step page tot o' PageNext = (if next_disabled page tot o' then o' else pager_next page o')"

text \<open>The rows a page query returns from the store's list.\<close>

definition page_rows :: "int \<Rightarrow> int \<Rightarrow> 'a list \<Rightarrow> 'a list" where
  "page_rows page o' xs = take (nat page) (drop (nat o') xs)"

definition pager_ok :: "int \<Rightarrow> int \<Rightarrow> int \<Rightarrow> bool" where
  "pager_ok page tot o' \<longleftrightarrow> 0 < page \<longrightarrow> 0 \<le> o' \<and> o' mod page = 0 \<and> (o' = 0 \<or> o' < tot)"

lemma mod_zero_less: "0 \<le> (o'::int) \<Longrightarrow> o' mod page = 0 \<Longrightarrow> o' \<noteq> 0 \<Longrightarrow> page \<le> o'"
  by (metis dual_order.strict_trans2 linorder_not_le mod_pos_pos_trivial nle_le)

interpretation pager: invariant_machine "pager_step page tot" "pager_ok page tot"
proof unfold_locales
  fix o' e assume ok: "pager_ok page tot o'"
  show "pager_ok page tot (pager_step page tot o' e)"
  proof (cases "0 < page")
    case True
    then have "o' \<noteq> 0 \<Longrightarrow> page \<le> o'" using ok mod_zero_less by (auto simp: pager_ok_def)
    with ok True show ?thesis
      by (cases e) (auto simp: pager_ok_def prev_disabled_def next_disabled_def pager_prev_def pager_next_def)
  qed (simp add: pager_ok_def)
qed

lemma pager_ok_0: "pager_ok page tot 0"
  by (simp add: pager_ok_def)

lemma pager_nexts:
  assumes "0 < page" and "int k * page < tot"
  shows "foldl (pager_step page tot) 0 (replicate k PageNext) = int k * page"
  using assms(2)
proof (induction k)
  case (Suc k)
  have "int k * page < tot" using Suc.prems assms(1) by (simp add: algebra_simps)
  with Suc.IH have "foldl (pager_step page tot) 0 (replicate k PageNext) = int k * page" by simp
  then have "foldl (pager_step page tot) 0 (replicate k PageNext @ [PageNext]) = int k * page + page"
    using Suc.prems by (simp add: next_disabled_def pager_next_def algebra_simps)
  then show ?case by (simp add: replicate_append_same [symmetric] algebra_simps)
qed simp

lemma concat_pages: "0 < p \<Longrightarrow> length xs \<le> n * p \<Longrightarrow> concat (map (\<lambda>k. take p (drop (k * p) xs)) [0..<n]) = xs"
proof (induction n arbitrary: xs)
  case (Suc n)
  have shift: "map (\<lambda>k. take p (drop (k * p) xs)) [1..<Suc n] = map (\<lambda>k. take p (drop (k * p) (drop p xs))) [0..<n]"
    unfolding One_nat_def map_Suc_upt [symmetric] by (simp add: add.commute comp_def del: upt_Suc)
  have "concat (map (\<lambda>k. take p (drop (k * p) xs)) [0..<Suc n])
      = take p xs @ concat (map (\<lambda>k. take p (drop (k * p) xs)) [1..<Suc n])"
    by (simp add: upt_conv_Cons del: upt_Suc)
  also have "\<dots> = take p xs @ drop p xs" unfolding shift using Suc by (subst Suc.IH) auto
  finally show ?case by simp
qed simp

section \<open>The wall\<close>

record wall =
  wa_search :: string          \<comment> \<open>the debounced search\<close>
  wa_sort :: string
  wa_chip :: string
  wa_cc :: string
  wa_offset :: int
  wa_asked :: "players_query list"

definition wall_query :: "wall \<Rightarrow> players_query" where
  "wall_query w = \<lparr>pq_search = wa_search w, pq_sort = wa_sort w, pq_agent_id = '''',
     pq_tunnel_id = (if wa_chip w = ''all'' \<or> wa_chip w = ''online'' then '''' else wa_chip w),
     pq_cc = wa_cc w, pq_offset = wa_offset w, pq_limit = players_page_size\<rparr>"

text \<open>A render asks for the page of its query.\<close>

definition wall_render :: "wall \<Rightarrow> wall" where
  "wall_render w = w\<lparr>wa_asked := wa_asked w @ [wall_query w]\<rparr>"

definition wall_deps :: "wall \<Rightarrow> string \<times> string \<times> string \<times> string" where
  "wall_deps w = (wa_search w, wa_sort w, wa_chip w, wa_cc w)"

definition set_offset :: "int \<Rightarrow> wall \<Rightarrow> wall" where
  "set_offset o' w = (if o' = wa_offset w then w else wall_render (w\<lparr>wa_offset := o'\<rparr>))"

text \<open>A filter changes: a render with the old offset, then the effect that restarts paging.\<close>

definition wall_filter :: "wall \<Rightarrow> wall \<Rightarrow> wall" where
  "wall_filter w' w = (if wall_deps w' = wall_deps w then w else set_offset 0 (wall_render w'))"

definition wall_mount :: wall where
  "wall_mount = wall_render \<lparr>wa_search = '''', wa_sort = ''recent'', wa_chip = ''all'', wa_cc = '''', wa_offset = 0, wa_asked = []\<rparr>"

datatype wall_event = SearchSettles string | PickSort string | PickChip string | ClearCountry | SelectCountry string
  | WallPrev | WallNext int

fun wall_step :: "wall \<Rightarrow> wall_event \<Rightarrow> wall" where
  "wall_step w (SearchSettles v) = wall_filter (w\<lparr>wa_search := v\<rparr>) w"
| "wall_step w (PickSort v) = wall_filter (w\<lparr>wa_sort := v\<rparr>) w"
| "wall_step w (PickChip v) = wall_filter (w\<lparr>wa_chip := v\<rparr>) w"
| "wall_step w ClearCountry = wall_filter (w\<lparr>wa_cc := ''''\<rparr>) w"
| "wall_step w (SelectCountry cc) = wall_filter (w\<lparr>wa_cc := (if wa_cc w = cc then '''' else cc)\<rparr>) w"
| "wall_step w WallPrev = (if prev_disabled (wa_offset w) then w else set_offset (pager_prev players_page_size (wa_offset w)) w)"
| "wall_step w (WallNext n) = (if next_disabled players_page_size n (wa_offset w) then w
     else set_offset (pager_next players_page_size (wa_offset w)) w)"

definition live_uuids :: "ui_status \<Rightarrow> string set" where
  "live_uuids st = {u. \<exists>c \<in> set (case st_connections st of None \<Rightarrow> [] | Some cs \<Rightarrow> cs). conn_player_uuid c = Some u \<and> u \<noteq> ''''}"

definition card_live :: "string set \<Rightarrow> player_card \<Rightarrow> bool" where
  "card_live live p \<longleftrightarrow> card_online p \<or> card_uuid p \<in> live"

definition wall_players :: "string set \<Rightarrow> players_page option \<Rightarrow> wall \<Rightarrow> player_card list" where
  "wall_players live pg w = (let rows = (case pg of None \<Rightarrow> [] | Some p \<Rightarrow> ppage_players p) in
     if wa_chip w \<noteq> ''online'' then rows else filter (card_live live) rows)"

definition wall_can_page :: "players_page option \<Rightarrow> wall \<Rightarrow> bool" where
  "wall_can_page pg w \<longleftrightarrow> wa_chip w \<noteq> ''online'' \<and> pager_shown players_page_size (case pg of None \<Rightarrow> 0 | Some p \<Rightarrow> ppage_total p)"

definition wall_empty_title :: "wall \<Rightarrow> string" where
  "wall_empty_title w = (if wa_search w \<noteq> '''' then ''No players match''
     else if wa_cc w \<noteq> '''' then ''Nobody from '' @ wa_cc w @ '' yet''
     else if wa_chip w = ''online'' then ''Nobody is online right now'' else ''No players seen yet'')"

text \<open>What the wall shows: skeletons, an empty state, or tiles with the pager's label and its enabled
  buttons.\<close>

datatype wall_view = WallLoading | WallEmpty string | WallTiles "player_card list" "(string \<times> bool \<times> bool) option"

definition wall_shows :: "string set \<Rightarrow> players_page option \<Rightarrow> wall \<Rightarrow> wall_view" where
  "wall_shows live pg w = (case pg of None \<Rightarrow> WallLoading
   | Some p \<Rightarrow> if wall_players live pg w = [] then WallEmpty (wall_empty_title w)
       else WallTiles (wall_players live pg w) (if wall_can_page pg w
         then Some (pager_label players_page_size (ppage_total p) (wa_offset w), \<not> prev_disabled (wa_offset w),
                    \<not> next_disabled players_page_size (ppage_total p) (wa_offset w)) else None))"

definition tunnel_chips :: "tunnel_ui list \<Rightarrow> string list" where
  "tunnel_chips ts = [''all'', ''online''] @ (if length ts > 1 then map tun_id ts else [])"

section \<open>Tiles\<close>

definition rtt_tone :: "real \<Rightarrow> string" where
  "rtt_tone ms = (if ms < 60 then ''good'' else if ms < 130 then ''warn'' else ''bad'')"

definition ping_badge :: "real \<Rightarrow> (string \<times> string) option" where
  "ping_badge ms = (if has_rtt ms then Some (show_int (js_round ms) @ ''ms'', rtt_tone ms) else None)"

definition tile_line :: "int \<Rightarrow> bool \<Rightarrow> bool \<Rightarrow> player_card \<Rightarrow> string" where
  "tile_line now live show_data p = (if show_data then fmt_bytes (of_int (card_bytes_in p + card_bytes_out p))
     else fmt_last_seen now (card_last_seen p) live)"

section \<open>Countries\<close>

text \<open>A numeric comparator on reals, as the sign of its difference.\<close>

definition real_desc :: "('a \<Rightarrow> real) \<Rightarrow> 'a \<Rightarrow> 'a \<Rightarrow> int" where
  "real_desc key a b = (if key a < key b then 1 else if key b < key a then -1 else 0)"

lemma comparator_real_desc: "comparator (real_desc key) ok"
  by unfold_locales (auto simp: real_desc_def split: if_splits)

definition country_latency :: "country_agg \<Rightarrow> real" where
  "country_latency a = (if has_rtt (cag_rtt_avg a) then cag_rtt_avg a else -1)"

definition by_latency :: "country_agg list \<Rightarrow> country_agg list" where
  "by_latency rows = js_sort (real_desc country_latency) rows"

text \<open>The wall's ranking is hidden without rows, and while the engine says that it has no city database.\<close>

definition latency_card_shown :: "country_agg list option \<Rightarrow> geo_status option \<Rightarrow> bool" where
  "latency_card_shown rows geo \<longleftrightarrow> (case rows of None \<Rightarrow> False | Some r \<Rightarrow> r \<noteq> [])
     \<and> (case geo of None \<Rightarrow> True | Some g \<Rightarrow> geo_city_loaded g)"

datatype geo_metric = GeoActivity | GeoLatency

definition rank_value :: "geo_metric \<Rightarrow> country_agg \<Rightarrow> real" where
  "rank_value m r = (case m of GeoLatency \<Rightarrow> cag_rtt_avg r | GeoActivity \<Rightarrow> of_int (cag_sessions r))"

definition rank_shown :: "bool \<Rightarrow> country_agg list \<Rightarrow> country_agg list" where
  "rank_shown few rows = (if few then take 8 rows else rows)"

definition rank_max :: "geo_metric \<Rightarrow> country_agg list \<Rightarrow> real" where
  "rank_max m rows = foldl (\<lambda>x r. max x (rank_value m r)) 0 rows"

definition rank_frac :: "geo_metric \<Rightarrow> country_agg list \<Rightarrow> country_agg \<Rightarrow> real" where
  "rank_frac m rows r = (if rank_max m rows > 0 \<and> rank_value m r > 0 then rank_value m r / rank_max m rows else 0)"

definition rank_width :: "geo_metric \<Rightarrow> country_agg list \<Rightarrow> country_agg \<Rightarrow> real" where
  "rank_width m rows r = max 3 (rank_frac m rows r * 100)"

definition rank_bar_color :: "geo_metric \<Rightarrow> country_agg \<Rightarrow> string" where
  "rank_bar_color m r = (case m of GeoActivity \<Rightarrow> ''accent''
   | GeoLatency \<Rightarrow> if has_rtt (cag_rtt_avg r) then rtt_tone (cag_rtt_avg r) else ''text-3'')"

definition rank_text :: "geo_metric \<Rightarrow> country_agg \<Rightarrow> string" where
  "rank_text m r = (case m of GeoActivity \<Rightarrow> show_int (cag_sessions r)
   | GeoLatency \<Rightarrow> if has_rtt (cag_rtt_avg r) then fmt_rtt (cag_rtt_avg r) else em_dash)"

definition rank_on :: "string option \<Rightarrow> string option \<Rightarrow> country_agg \<Rightarrow> bool" where
  "rank_on hover selected r \<longleftrightarrow> hover = Some (cag_cc r) \<or> selected = Some (cag_cc r)"

definition country_name :: "country_agg \<Rightarrow> string" where
  "country_name r = (if cag_country r = '''' then cag_cc r else cag_country r)"

lemma rank_max_bounds:
  "0 \<le> foldl (\<lambda>x r. max x (rank_value m r)) 0 rows \<and> (\<forall>r \<in> set rows. rank_value m r \<le> foldl (\<lambda>x r. max x (rank_value m r)) 0 rows)"
proof -
  have "a \<le> foldl (\<lambda>x r. max x (rank_value m r)) a rows \<and> (\<forall>r \<in> set rows. rank_value m r \<le> foldl (\<lambda>x r. max x (rank_value m r)) a rows)" for a
  proof (induction rows arbitrary: a)
    case (Cons r rows)
    from Cons.IH [of "max a (rank_value m r)"] show ?case by auto
  qed simp
  then show ?thesis .
qed

lemma rank_frac_bounds: "r \<in> set rows \<Longrightarrow> 0 \<le> rank_frac m rows r \<and> rank_frac m rows r \<le> 1"
  using rank_max_bounds [of m rows] by (auto simp: rank_frac_def rank_max_def)

lemma rank_frac_mono: "rank_value m a \<le> rank_value m b \<Longrightarrow> rank_frac m rows a \<le> rank_frac m rows b"
  by (auto simp: rank_frac_def divide_right_mono)


section \<open>The screen and the dossier\<close>

datatype players_view = PlayersUnavailable | DossierView string bool | WallView

definition players_screen :: "ui_status \<Rightarrow> string option \<Rightarrow> players_view" where
  "players_screen st detail = (if st_analytics_unsupported st = Some True then PlayersUnavailable
     else case detail of None \<Rightarrow> WallView
       | Some u \<Rightarrow> if u = '''' then WallView else DossierView u (u \<in> live_uuids st))"

definition dossier_missing :: "player_detail option \<Rightarrow> bool" where
  "dossier_missing det \<longleftrightarrow> (case det of None \<Rightarrow> False | Some d \<Rightarrow> card_uuid (det_card d) = '''')"

record dossier_cells =
  sl_started :: string
  sl_duration :: "string option"     \<comment> \<open>\<open>None\<close> is the live badge\<close>
  sl_tunnel :: string
  sl_flag :: "nat list option"
  sl_ip :: string
  sl_dl :: string
  sl_ul :: string
  sl_ping :: string

definition or_dash :: "string \<Rightarrow> string" where
  "or_dash s = (if s = '''' then em_dash else s)"

definition dossier_cells_of :: "int \<Rightarrow> session_meta \<Rightarrow> dossier_cells" where
  "dossier_cells_of now s = \<lparr>sl_started = fmt_last_seen now (sess_started_ms s) False,
     sl_duration = (if sess_ended_ms s \<noteq> 0 then Some (fmt_duration (sess_ended_ms s - sess_started_ms s)) else None),
     sl_tunnel = or_dash (sess_tunnel_name s), sl_flag = flag_emoji (Some (sess_cc s)), sl_ip = sess_client_ip s,
     sl_dl = fmt_bytes (of_int (sess_bytes_out s)), sl_ul = fmt_bytes (of_int (sess_bytes_in s)),
     sl_ping = (if has_rtt (sess_rtt_avg s) then fmt_rtt (sess_rtt_avg s) else em_dash)\<rparr>"

definition dossier_stats :: "player_card option \<Rightarrow> string \<times> string \<times> string \<times> string option" where
  "dossier_stats c = (case c of None \<Rightarrow> (em_dash, em_dash, em_dash, None)
   | Some c \<Rightarrow> (show_int (card_sessions c), fmt_playtime (card_play_ms c), fmt_bytes (of_int (card_bytes_in c + card_bytes_out c)),
       Some ([CHR 0xE2, CHR 0x86, CHR 0x93, CHR '' ''] @ fmt_bytes (of_int (card_bytes_out c)) @ mid_dot
         @ [CHR 0xE2, CHR 0x86, CHR 0x91, CHR '' ''] @ fmt_bytes (of_int (card_bytes_in c)))))"

definition short_uuid :: "string \<Rightarrow> string" where
  "short_uuid u = (if length u > 13 then take 8 u @ ellipsis @ last_n 4 u else u)"

definition fmt_span :: "(int \<Rightarrow> string) \<Rightarrow> int \<Rightarrow> int \<Rightarrow> string" where
  "fmt_span day a b = (if day a = day b then day a else day a @ '' '' @ en_dash @ '' '' @ day b)"

section \<open>Properties\<close>

lemma wall_filter_kept:
  "wa_offset (wall_filter w' w) = (if wall_deps w' = wall_deps w then wa_offset w else 0)"
  "wall_filter w' w = w \<or> wall_deps (wall_filter w' w) = wall_deps w'"
  by (simp_all add: wall_filter_def set_offset_def wall_render_def wall_deps_def)

text \<open>The wall's last request is the one for what it shows, and its offset is a whole number of pages.\<close>

definition wall_inv :: "wall \<Rightarrow> bool" where
  "wall_inv w \<longleftrightarrow> wa_asked w \<noteq> [] \<and> last (wa_asked w) = wall_query w \<and> 0 \<le> wa_offset w \<and> wa_offset w mod 60 = 0"

lemma wall_inv_offset: "wall_inv w \<Longrightarrow> 0 \<le> n \<Longrightarrow> n mod 60 = 0 \<Longrightarrow> wall_inv (set_offset n w)"
  by (simp add: set_offset_def wall_inv_def wall_render_def wall_query_def)

lemma wall_inv_filter: "wall_inv w \<Longrightarrow> wa_offset w' = wa_offset w \<Longrightarrow> wall_inv (wall_filter w' w)"
  unfolding wall_filter_def by (auto intro!: wall_inv_offset) (simp add: wall_inv_def wall_render_def wall_query_def)

lemma wall_inv_step: "wall_inv w \<Longrightarrow> wall_inv (wall_step w e)"
proof (cases e)
  case WallPrev
  assume inv: "wall_inv w"
  then have o': "0 \<le> wa_offset w" "wa_offset w mod 60 = 0" by (simp_all add: wall_inv_def)
  show ?thesis
  proof (cases "wa_offset w = 0")
    case False
    then have "60 \<le> wa_offset w" by (rule mod_zero_less [OF o'])
    moreover from o' have "(wa_offset w - 60) mod 60 = 0" by presburger
    ultimately have "wall_inv (set_offset (wa_offset w - 60) w)" by (intro wall_inv_offset inv) simp_all
    with \<open>60 \<le> wa_offset w\<close> WallPrev False show ?thesis by (simp add: prev_disabled_def pager_prev_def players_page_size_def)
  qed (use inv WallPrev in \<open>simp add: prev_disabled_def\<close>)
next
  case (WallNext n)
  assume inv: "wall_inv w"
  then have "wall_inv (set_offset (wa_offset w + 60) w)" by (intro wall_inv_offset) (simp_all add: wall_inv_def)
  with inv WallNext show ?thesis by (simp add: pager_next_def players_page_size_def)
qed (auto intro: wall_inv_filter)

interpretation wall: invariant_machine wall_step wall_inv
  by unfold_locales (rule wall_inv_step)

lemma wall_inv_mount: "wall_inv wall_mount"
  by (simp add: wall_inv_def wall_mount_def wall_render_def wall_query_def)


text \<open>The page on screen is an answer to the query on screen: the key it is cached under names that query
  and no other.\<close>

theorem shown_page_answers_query:
  assumes "s = foldl poll_step (poll_mount [] k0) es" and "po_key s = Some (players_key q)" and "po_data s = Some v"
  shows "(players_key q, v) \<in> set (po_served s) \<and> (\<forall>r. screen_query q \<and> screen_query r \<and> players_key r = players_key q \<longrightarrow> r = q)"
proof -
  have "poll_inv (foldl poll_step (poll_mount [] k0) es)"
    by (rule invariant_machine.inv_run) (unfold_locales, auto simp: poll_inv_step intro: poll_inv_mount)
  with assms have "(players_key q, v) \<in> set (po_served s)" by (auto simp: poll_inv_def)
  then show ?thesis using players_key_inj by blast
qed

text \<open>While the store does not change, pressing Next walks through all of it: the pages are the list, no row
  missing and none twice. However the two buttons are pressed, the page on screen starts at a whole
  number of pages and is not empty unless the list is.\<close>

theorem paging_complete:
  assumes "0 < page" and "int (length xs) \<le> int n * page" and "n = 0 \<or> int (n - 1) * page < int (length xs)"
  shows "concat (map (\<lambda>k. page_rows page (foldl (pager_step page (int (length xs))) 0 (replicate k PageNext)) xs) [0..<n]) = xs
    \<and> (let o' = foldl (pager_step page (int (length xs))) 0 es in
        0 \<le> o' \<and> o' mod page = 0 \<and> (xs \<noteq> [] \<longrightarrow> page_rows page o' xs \<noteq> []))"
proof -
  have at: "foldl (pager_step page (int (length xs))) 0 (replicate k PageNext) = int k * page" if "k < n" for k
  proof (rule pager_nexts [OF assms(1)])
    have "int k * page \<le> int (n - 1) * page" using that assms(1) by (intro mult_right_mono) auto
    with assms(3) that show "int k * page < int (length xs)" by auto
  qed
  have "nat (int k * page) = k * nat page" for k using assms(1) by (simp add: nat_mult_distrib)
  with at have pages: "map (\<lambda>k. page_rows page (foldl (pager_step page (int (length xs))) 0 (replicate k PageNext)) xs) [0..<n]
      = map (\<lambda>k. take (nat page) (drop (k * nat page) xs)) [0..<n]"
    by (auto simp: page_rows_def)
  have "int (length xs) \<le> int (n * nat page)" using assms(1,2) by simp
  then have "length xs \<le> n * nat page" by (simp only: of_nat_le_iff)
  then have "concat (map (\<lambda>k. take (nat page) (drop (k * nat page) xs)) [0..<n]) = xs"
    using assms(1) by (intro concat_pages) auto
  then have "concat (map (\<lambda>k. page_rows page (foldl (pager_step page (int (length xs))) 0 (replicate k PageNext)) xs) [0..<n]) = xs"
    unfolding pages .
  moreover have "pager_ok page (int (length xs)) (foldl (pager_step page (int (length xs))) 0 es)"
    by (rule pager.inv_run [OF pager_ok_0])
  then have "let o' = foldl (pager_step page (int (length xs))) 0 es in
      0 \<le> o' \<and> o' mod page = 0 \<and> (xs \<noteq> [] \<longrightarrow> page_rows page o' xs \<noteq> [])"
    using assms(1) by (auto simp: pager_ok_def Let_def page_rows_def)
  ultimately show ?thesis by blast
qed

text \<open>A change of a filter puts the wall back on its first page, and the last request is always the one for
  what the wall shows.\<close>

theorem filter_restarts_paging:
  "let w = foldl wall_step wall_mount es in
    last (wa_asked w) = wall_query w \<and> 0 \<le> wa_offset w \<and> wa_offset w mod players_page_size = 0
    \<and> (\<forall>e. wall_deps (wall_step w e) \<noteq> wall_deps w \<longrightarrow> wa_offset (wall_step w e) = 0)"
proof -
  let ?w = "foldl wall_step wall_mount es"
  have "wall_inv ?w" by (rule wall.inv_run [OF wall_inv_mount])
  moreover have "wa_offset (wall_filter w' w) = 0" if "wall_deps (wall_filter w' w) \<noteq> wall_deps w" for w' w
    using that unfolding wall_filter_kept(1) by (auto simp: wall_filter_def)
  moreover have "wall_deps (set_offset n w) = wall_deps w" for n w
    by (simp add: set_offset_def wall_render_def wall_deps_def)
  ultimately have "wa_offset (wall_step ?w e) = 0" if "wall_deps (wall_step ?w e) \<noteq> wall_deps ?w" for e
    using that by (cases e) (auto split: if_splits)
  with \<open>wall_inv ?w\<close> show ?thesis by (auto simp: Let_def wall_inv_def players_page_size_def)
qed

text \<open>When the store shrinks while a later page is up, the wall says that nobody was ever seen, and shows no
  button that leads back.\<close>

theorem wall_loses_first_page:
  assumes "wa_offset w = 60" and "wa_chip w = ''all''" and "wa_search w = ''''" and "wa_cc w = ''''"
    and "ppage_total p = int (length xs)" and "ppage_players p = page_rows 60 60 xs" and "length xs \<le> 60"
  shows "wall_shows live (Some p) w = WallEmpty ''No players seen yet''"
  using assms by (simp add: wall_shows_def wall_players_def wall_empty_title_def page_rows_def)

text \<open>The bars of the country ranking are between three and a hundred percent wide and, in the order in which
  the ranking is shown, never grow.\<close>

theorem country_bars:
  assumes "rows = rank_shown few (by_latency snap)"
  shows "(\<forall>r \<in> set rows. 3 \<le> rank_width GeoLatency rows r \<and> rank_width GeoLatency rows r \<le> 100)
    \<and> sorted_wrt (\<lambda>a b. rank_width GeoLatency rows b \<le> rank_width GeoLatency rows a) rows"
proof -
  have "sorted_wrt (\<lambda>a b. real_desc country_latency a b \<le> 0) (by_latency snap)"
    unfolding by_latency_def by (rule comparator.sorted_js_sort [OF comparator_real_desc [where ok = "\<lambda>_. True"]]) simp
  then have "sorted_wrt (\<lambda>a b. real_desc country_latency a b \<le> 0) rows"
    unfolding assms rank_shown_def by (simp add: sorted_wrt_take)
  moreover have "rank_width GeoLatency rows b \<le> rank_width GeoLatency rows a" if "real_desc country_latency a b \<le> 0" for a b
  proof (cases "has_rtt (cag_rtt_avg b)")
    case True
    with that have "rank_value GeoLatency b \<le> rank_value GeoLatency a"
      by (auto simp: real_desc_def country_latency_def has_rtt_def rank_value_def split: if_splits)
    then have "rank_frac GeoLatency rows b \<le> rank_frac GeoLatency rows a" by (rule rank_frac_mono)
    then have "rank_frac GeoLatency rows b * 100 \<le> rank_frac GeoLatency rows a * 100" by simp
    then show ?thesis unfolding rank_width_def by (rule max.mono [OF order_refl])
  next
    case False
    then show ?thesis by (simp add: rank_width_def rank_frac_def rank_value_def has_rtt_def)
  qed
  ultimately have "sorted_wrt (\<lambda>a b. rank_width GeoLatency rows b \<le> rank_width GeoLatency rows a) rows"
    by (rule sorted_wrt_mono_rel [rotated])
  moreover have "3 \<le> rank_width GeoLatency rows r \<and> rank_width GeoLatency rows r \<le> 100" if "r \<in> set rows" for r
    using rank_frac_bounds [OF that, of GeoLatency] by (auto simp: rank_width_def)
  ultimately show ?thesis by blast
qed

theorem shown_page_answers_query_witness:
  "let q = \<lparr>pq_search = ''a'', pq_sort = ''name'', pq_agent_id = '''', pq_tunnel_id = '''', pq_cc = '''', pq_offset = 0, pq_limit = 60\<rparr> in
    (players_key q, 7::int) \<in> set (po_served (foldl poll_step (poll_mount [] (Some (players_key q))) [Resolve 0 7]))"
proof -
  let ?q = "\<lparr>pq_search = ''a'', pq_sort = ''name'', pq_agent_id = '''', pq_tunnel_id = '''', pq_cc = '''', pq_offset = 0, pq_limit = 60\<rparr>"
  let ?s = "foldl poll_step (poll_mount [] (Some (players_key ?q))) [Resolve 0 (7::int)]"
  have "po_key ?s = Some (players_key ?q)" "po_data ?s = Some 7"
    by (simp_all add: poll_mount_def poll_fetch_once_def poll_resolve_def poll_alive_def Let_def)
  from shown_page_answers_query [OF refl this] show ?thesis by (simp only: Let_def)
qed

theorem paging_complete_witness: "concat (map (\<lambda>k. page_rows 2 (int k * 2) [1::nat, 2, 3]) [0..<2]) = [1, 2, 3]"
  using paging_complete [of 2 "[1::nat, 2, 3]" 2 "[]"] by (simp add: upt_rec numeral_2_eq_2 next_disabled_def pager_next_def)

theorem filter_restarts_paging_witness:
  "wa_offset (foldl wall_step wall_mount [WallNext 100, PickSort ''name'']) = 0"
proof -
  let ?w = "foldl wall_step wall_mount [WallNext 100]"
  have "wall_deps (wall_step ?w (PickSort ''name'')) \<noteq> wall_deps ?w"
    by (simp add: wall_mount_def wall_render_def next_disabled_def pager_next_def players_page_size_def set_offset_def
        wall_filter_def wall_deps_def)
  with filter_restarts_paging [of "[WallNext 100]"] have "wa_offset (wall_step ?w (PickSort ''name'')) = 0"
    unfolding Let_def by blast
  then show ?thesis by (simp only: foldl_Cons foldl_Nil)
qed

theorem wall_loses_first_page_witness:
  "wall_shows {} (Some \<lparr>ppage_total = 0, ppage_players = []\<rparr>) (foldl wall_step wall_mount [WallNext 61]) = WallEmpty ''No players seen yet''"
  by (rule wall_loses_first_page [where xs = "[]"])
     (simp_all add: wall_mount_def wall_render_def next_disabled_def pager_next_def players_page_size_def set_offset_def page_rows_def)

theorem country_bars_witness:
  "let r = \<lparr>cag_cc = ''NZ'', cag_country = '''', cag_players = 1, cag_sessions = 2, cag_bytes_in = 0, cag_bytes_out = 0, cag_rtt_avg = 30\<rparr> in
    rank_width GeoLatency [r] r \<le> 100"
  using country_bars [of "[\<lparr>cag_cc = ''NZ'', cag_country = '''', cag_players = 1, cag_sessions = 2, cag_bytes_in = 0, cag_bytes_out = 0, cag_rtt_avg = 30\<rparr>]"
      True "[\<lparr>cag_cc = ''NZ'', cag_country = '''', cag_players = 1, cag_sessions = 2, cag_bytes_in = 0, cag_bytes_out = 0, cag_rtt_avg = 30\<rparr>]"]
  by (simp add: rank_shown_def by_latency_def Let_def)

end
