(* ===== verification/Dashboard.thy ===== *)
theory Dashboard
  imports Players
begin

text \<open>
  The Analytics screen (\<open>screens/Analytics.tsx\<close>) and its hooks (\<open>analytics.ts\<close>): the summary tiles and
  records, the geography card with its flash, the peak-hours grid, the uptime bands, the loss points,
  the connection history with its query and pager, and the session replay. The clock and the
  locale's time label are parameters.
\<close>

section \<open>Ranges and keys\<close>

definition sessions_page_size :: int where "sessions_page_size = 50"
definition peak_weeks :: int where "peak_weeks = 8"

definition range_ms :: "string \<Rightarrow> int" where
  "range_ms r = (if r = ''24h'' then 86400000 else if r = ''7d'' then 604800000 else if r = ''30d'' then 2592000000 else 0)"

definition sessions_key :: "sessions_query \<Rightarrow> string" where
  "sessions_key q = json_object [(''playerUuid'', json_string (sq_player_uuid q)), (''tunnelId'', json_string (sq_tunnel_id q)),
     (''cc'', json_string (sq_cc q)), (''sinceMs'', show_int (sq_since_ms q)), (''offset'', show_int (sq_offset q)),
     (''limit'', show_int (sq_limit q))]"

lemma sessions_key_inj:
  assumes "sessions_key q = sessions_key r" and "sq_agent_id q = ''''" and "sq_agent_id r = ''''"
  shows "q = r"
  using assms by (cases q; cases r) (auto simp: sessions_key_def json_object_def json_member_def dest!: json_delimits)

definition range_cache_key :: "int \<Rightarrow> string" where
  "range_cache_key ms = show_int ms"

definition fmt_when :: "(int \<Rightarrow> string) \<Rightarrow> int \<Rightarrow> string" where
  "fmt_when label t = (if t = 0 then '''' else label t)"

section \<open>Tiles and records\<close>

record stat_tile =
  stl_label :: string
  stl_value :: string
  stl_sub :: "string option"
  stl_tone :: "string option"

definition arrow_down :: string where "arrow_down = [CHR 0xE2, CHR 0x86, CHR 0x93]"
definition arrow_up :: string where "arrow_up = [CHR 0xE2, CHR 0x86, CHR 0x91]"

definition traffic_sub :: "int \<Rightarrow> int \<Rightarrow> string" where
  "traffic_sub out inn = arrow_down @ '' '' @ fmt_bytes (of_int out) @ mid_dot @ arrow_up @ '' '' @ fmt_bytes (of_int inn)"

definition summary_tiles :: "(int \<Rightarrow> string) \<Rightarrow> summary \<Rightarrow> stat_tile list" where
  "summary_tiles label s = (let rtt = smy_avg_rtt_ms s; peak = max (smy_peak_in_bps s) (smy_peak_out_bps s);
       peak_at = (if smy_peak_out_bps s \<ge> smy_peak_in_bps s then smy_peak_out_at s else smy_peak_in_at s) in
     [\<lparr>stl_label = ''Data moved'', stl_value = fmt_bytes (of_int (smy_bytes_in s + smy_bytes_out s)),
        stl_sub = Some (traffic_sub (smy_bytes_out s) (smy_bytes_in s)), stl_tone = None\<rparr>,
      \<lparr>stl_label = ''Sessions'', stl_value = show_int (smy_sessions s), stl_sub = None, stl_tone = None\<rparr>,
      \<lparr>stl_label = ''Unique players'', stl_value = show_int (smy_unique_players s), stl_sub = None, stl_tone = None\<rparr>,
      \<lparr>stl_label = ''Peak players'', stl_value = (if smy_peak_players s \<ge> 0 then show_int (smy_peak_players s) else em_dash),
        stl_sub = (if smy_peak_players s \<ge> 0 \<and> smy_peak_players_at s \<noteq> 0 then Some (fmt_when label (smy_peak_players_at s)) else None),
        stl_tone = None\<rparr>,
      \<lparr>stl_label = ''Peak throughput'', stl_value = (if peak > 0 then fmt_rate peak else em_dash),
        stl_sub = (if peak > 0 \<and> peak_at \<noteq> 0 then Some (fmt_when label peak_at) else None), stl_tone = None\<rparr>,
      \<lparr>stl_label = ''Avg latency'', stl_value = (if rtt \<ge> 0 then fmt_rtt rtt else em_dash), stl_sub = None,
        stl_tone = (if rtt \<ge> 0 then Some (rtt_tone rtt) else None)\<rparr>])"

definition records_shown :: "summary \<Rightarrow> bool" where
  "records_shown s \<longleftrightarrow> \<not> (smy_rec_out_bps s \<le> 0 \<and> smy_rec_in_bps s \<le> 0 \<and> smy_rec_players s < 0)"

definition record_items :: "summary \<Rightarrow> (string \<times> string \<times> int) list" where
  "record_items s = (if \<not> records_shown s then [] else
     (if smy_rec_out_bps s > 0 then [(''Peak '' @ arrow_down, fmt_rate (smy_rec_out_bps s), smy_rec_out_at s)] else [])
   @ (if smy_rec_in_bps s > 0 then [(''Peak '' @ arrow_up, fmt_rate (smy_rec_in_bps s), smy_rec_in_at s)] else [])
   @ (if smy_rec_players s \<ge> 0 then [(''Most players'', show_int (smy_rec_players s), smy_rec_players_at s)] else [])
   @ (if smy_rec_conns s \<ge> 0 then [(''Most connections'', show_int (smy_rec_conns s), smy_rec_conns_at s)] else []))"

section \<open>Geography\<close>

definition geo_rows :: "geo_metric \<Rightarrow> country_agg list \<Rightarrow> country_agg list" where
  "geo_rows m snap = (case m of GeoLatency \<Rightarrow> by_latency snap
   | GeoActivity \<Rightarrow> js_sort (\<lambda>a b. cag_sessions b - cag_sessions a) snap)"

datatype geo_body = GeoLoading | GeoUnconfigured | GeoNothing | GeoMap "country_agg list"

definition geo_body_of :: "geo_metric \<Rightarrow> country_agg list option \<Rightarrow> geo_status option \<Rightarrow> geo_body" where
  "geo_body_of m snap st = (case snap of None \<Rightarrow> GeoLoading
   | Some rows \<Rightarrow> if geo_rows m rows = [] then
         (case st of Some g \<Rightarrow> if geo_city_loaded g then GeoNothing else GeoUnconfigured | None \<Rightarrow> GeoNothing)
       else GeoMap (geo_rows m rows))"

definition select_country :: "string \<Rightarrow> string \<Rightarrow> string" where
  "select_country cc prev = (if prev = cc then '''' else cc)"

text \<open>The flash of a country whose session count has grown since the snapshot before.\<close>

record geo_flash =
  gf_prev :: "(string \<times> int) list option"
  gf_flash :: "string list"
  gf_timer :: "int option"

definition session_counts :: "country_agg list \<Rightarrow> (string \<times> int) list" where
  "session_counts snap = fold (\<lambda>a m. AList.update (js_upper (cag_cc a)) (cag_sessions a) m) snap []"

definition grown_countries :: "(string \<times> int) list \<Rightarrow> (string \<times> int) list \<Rightarrow> string list" where
  "grown_countries prev cur = map fst (filter (\<lambda>(cc, n). n > (case map_of prev cc of Some p \<Rightarrow> p | None \<Rightarrow> 0)) cur)"

text \<open>A new snapshot: the cleanup of the effect before clears its timer.\<close>

definition flash_snapshot :: "bool \<Rightarrow> int \<Rightarrow> country_agg list \<Rightarrow> geo_flash \<Rightarrow> geo_flash" where
  "flash_snapshot reduced now snap s = (let cur = session_counts snap; s' = s\<lparr>gf_prev := Some cur, gf_timer := None\<rparr> in
     case gf_prev s of None \<Rightarrow> s'
     | Some prev \<Rightarrow> if reduced \<or> grown_countries prev cur = [] then s'
         else s'\<lparr>gf_flash := grown_countries prev cur, gf_timer := Some (now + 1400)\<rparr>)"

definition flash_clock :: "int \<Rightarrow> geo_flash \<Rightarrow> geo_flash" where
  "flash_clock now s = (case gf_timer s of Some t \<Rightarrow> if t \<le> now then s\<lparr>gf_flash := [], gf_timer := None\<rparr> else s | None \<Rightarrow> s)"

definition flash_mount :: geo_flash where
  "flash_mount = \<lparr>gf_prev = None, gf_flash = [], gf_timer = None\<rparr>"

section \<open>Peak hours\<close>

definition day_order :: "nat list" where "day_order = [1, 2, 3, 4, 5, 6, 0]"

definition day_labels :: "string list" where
  "day_labels = [''Mon'', ''Tue'', ''Wed'', ''Thu'', ''Fri'', ''Sat'', ''Sun'']"

definition max_avg :: "peak_matrix \<Rightarrow> real" where
  "max_avg m = foldl (\<lambda>mx c. if cell_avg c > mx then cell_avg c else mx) 0 (concat (pmx_cells m))"

definition peak_has_data :: "peak_matrix \<Rightarrow> bool" where
  "peak_has_data m \<longleftrightarrow> (\<exists>row \<in> set (pmx_cells m). \<exists>c \<in> set row. cell_avg c \<ge> 0)"

definition cell_ratio :: "peak_matrix \<Rightarrow> peak_cell \<Rightarrow> real" where
  "cell_ratio m c = (if cell_avg c \<ge> 0 \<and> max_avg m > 0 then cell_avg c / max_avg m else 0)"

text \<open>The share of the accent in a cell's colour; \<open>None\<close> is the panel colour of an unknown cell.\<close>

definition cell_percent :: "peak_matrix \<Rightarrow> peak_cell \<Rightarrow> int option" where
  "cell_percent m c = (if cell_avg c \<ge> 0 then Some (js_round (7 + 85 * cell_ratio m c)) else None)"

definition cell_title :: "nat \<Rightarrow> nat \<Rightarrow> peak_cell \<Rightarrow> string" where
  "cell_title row h c = day_labels ! row @ '' '' @ pad_start 2 (CHR ''0'') (show_nat h) @ '':00 '' @ em_dash @ '' '' @
     (if cell_avg c \<ge> 0 then ''avg '' @ to_fixed 1 (cell_avg c) @ '', peak '' @ show_int (js_round (max 0 (cell_max c))) else ''no data'')"

definition hour_label :: "nat \<Rightarrow> string" where
  "hour_label h = (if h mod 6 = 0 then show_nat h else '''')"

lemma max_avg_bounds: "0 \<le> max_avg m \<and> (\<forall>row \<in> set (pmx_cells m). \<forall>c \<in> set row. cell_avg c \<le> max_avg m)"
proof -
  have "a \<le> foldl (\<lambda>mx c. if cell_avg c > mx then cell_avg c else mx) a cs
      \<and> (\<forall>c \<in> set cs. cell_avg c \<le> foldl (\<lambda>mx c. if cell_avg c > mx then cell_avg c else mx) a cs)" for a cs
  proof (induction cs arbitrary: a)
    case (Cons c cs)
    from Cons.IH [of "if cell_avg c > a then cell_avg c else a"] show ?case by (auto split: if_splits)
  qed simp
  from this [of 0 "concat (pmx_cells m)"] show ?thesis by (auto simp: max_avg_def)
qed

section \<open>Uptime bands\<close>

definition uptime_domain :: "int \<Rightarrow> int \<Rightarrow> tunnel_uptime list \<Rightarrow> int" where
  "uptime_domain now window rows = (if window > 0 then now - window
     else case concat (map (\<lambda>r. case tup_events r of [] \<Rightarrow> [] | e # _ \<Rightarrow> [usp_t e]) rows) of
       [] \<Rightarrow> now - 86400000 | t # ts \<Rightarrow> foldl min t ts)"

definition band_pct :: "int \<Rightarrow> int \<Rightarrow> int \<Rightarrow> real" where
  "band_pct t0 now t = real_of_int (min now (max t0 t) - t0) / real_of_int (max 1 (now - t0)) * 100"

type_synonym band_seg = "real \<times> real \<times> bool option"

fun band_from :: "int \<Rightarrow> int \<Rightarrow> uptime_span list \<Rightarrow> band_seg list" where
  "band_from t0 now [] = []"
| "band_from t0 now (e # es) = (let a = max (usp_t e) t0; b = (case es of [] \<Rightarrow> now | f # _ \<Rightarrow> usp_t f) in
     if b \<le> a then band_from t0 now es
     else (band_pct t0 now a, band_pct t0 now b - band_pct t0 now a, Some (usp_up e)) # band_from t0 now es)"

definition band_segs :: "int \<Rightarrow> int \<Rightarrow> uptime_span list \<Rightarrow> band_seg list" where
  "band_segs t0 now events = (let clipped = filter (\<lambda>e. usp_t e < now) events in
     (case clipped of
        [] \<Rightarrow> [(0, band_pct t0 now now, None)]
      | e # _ \<Rightarrow> if usp_t e > t0 then [(0, band_pct t0 now (usp_t e), None)] else [])
     @ band_from t0 now clipped)"

definition uptime_badge :: "real \<Rightarrow> string \<times> string" where
  "uptime_badge p = (if p < 0 then (''unknown'', ''neutral'')
     else (fmt_pct p 2 @ '' up'', if p \<ge> 995/10 then ''good'' else if p \<ge> 97 then ''warn'' else ''bad''))"

definition uptime_rows :: "uptime_report \<Rightarrow> tunnel_uptime list" where
  "uptime_rows r = urep_link r # urep_tunnels r"

definition uptime_has_any :: "uptime_report \<Rightarrow> bool" where
  "uptime_has_any r \<longleftrightarrow> (\<exists>t \<in> set (uptime_rows r). tup_events t \<noteq> [])"

text \<open>The right edge is frozen to half a minute.\<close>

definition now_bucket :: "int \<Rightarrow> int" where
  "now_bucket now = now div 30000 * 30000"

definition loss_points :: "bucket list \<Rightarrow> (int \<times> real option) list" where
  "loss_points bs = map (\<lambda>b. (b_t b, if b_lh b \<ge> 0 then Some (b_lh b) else None)) bs"

definition loss_has_data :: "bucket list option \<Rightarrow> bool" where
  "loss_has_data bs \<longleftrightarrow> (case bs of None \<Rightarrow> False | Some bs \<Rightarrow> \<exists>b \<in> set bs. b_lh b \<ge> 0)"

text \<open>The specification of a band: its segments follow one another from the left edge to the right, and a
  time shows the state of the last event up to it.\<close>

fun tiles :: "real \<Rightarrow> band_seg list \<Rightarrow> real \<Rightarrow> bool" where
  "tiles x [] y = (x = y)"
| "tiles x ((l, w, u) # ss) y = (l = x \<and> 0 < w \<and> tiles (x + w) ss y)"

definition state_at :: "uptime_span list \<Rightarrow> int \<Rightarrow> bool option" where
  "state_at es t = (let xs = filter (\<lambda>e. usp_t e \<le> t) es in if xs = [] then None else Some (usp_up (last xs)))"

lemma band_pct_edges: "t0 < now \<Longrightarrow> band_pct t0 now t0 = 0" "t0 < now \<Longrightarrow> band_pct t0 now now = 100"
  by (simp_all add: band_pct_def)

lemma band_pct_mono: "t0 < now \<Longrightarrow> t0 \<le> s \<Longrightarrow> s < t \<Longrightarrow> t \<le> now \<Longrightarrow> band_pct t0 now s < band_pct t0 now t"
  by (simp add: band_pct_def divide_strict_right_mono)

lemma band_pct_less: "t0 < now \<Longrightarrow> t0 \<le> s \<Longrightarrow> s \<le> now \<Longrightarrow> t0 \<le> t \<Longrightarrow> t \<le> now \<Longrightarrow> band_pct t0 now s < band_pct t0 now t \<longleftrightarrow> s < t"
  using band_pct_mono [of t0 now s t] band_pct_mono [of t0 now t s] by (cases s t rule: linorder_cases) auto

lemma band_from_tiles:
  assumes "t0 < now" and "sorted (map usp_t (e # es))" and "\<forall>e \<in> set (e # es). usp_t e < now"
  shows "tiles (band_pct t0 now (max (usp_t e) t0)) (band_from t0 now (e # es)) 100"
  using assms
proof (induction es arbitrary: e)
  case Nil
  then have "max (usp_t e) t0 < now" by auto
  with Nil show ?case using band_pct_mono [of t0 now "max (usp_t e) t0" now] by (auto simp: band_pct_edges Let_def)
next
  case (Cons f es)
  then have f: "usp_t e \<le> usp_t f" "usp_t f < now" by auto
  have IH: "tiles (band_pct t0 now (max (usp_t f) t0)) (band_from t0 now (f # es)) 100"
    using Cons by (intro Cons.IH) auto
  show ?case
  proof (cases "usp_t f \<le> max (usp_t e) t0")
    case True
    with f have "max (usp_t f) t0 = max (usp_t e) t0" by auto
    with IH True show ?thesis by (simp del: band_from.simps(2) add: band_from.simps(2) [of t0 now e] Let_def)
  next
    case False
    then have "max (usp_t f) t0 = usp_t f" "max (usp_t e) t0 < usp_t f" by auto
    with IH f Cons.prems(1) band_pct_mono [of t0 now "max (usp_t e) t0" "usp_t f"] show ?thesis
      by (auto simp del: band_from.simps(2) simp: band_from.simps(2) [of t0 now e] Let_def)
  qed
qed


lemma state_at_before: "sorted (map usp_t (e # es)) \<Longrightarrow> t < usp_t e \<Longrightarrow> state_at (e # es) t = None"
  by (fastforce simp: state_at_def filter_empty_conv Let_def)

lemma state_at_last:
  assumes "sorted (map usp_t (es @ e # fs))" and "usp_t e \<le> t" and "\<forall>f \<in> set fs. t < usp_t f"
  shows "state_at (es @ e # fs) t = Some (usp_up e)"
proof -
  have "filter (\<lambda>e. usp_t e \<le> t) fs = []" using assms(3) by (auto simp: filter_empty_conv)
  with assms(2) show ?thesis by (simp add: state_at_def)
qed

lemma band_from_state:
  assumes "t0 < now" and "sorted (map usp_t (es @ fs))" and "\<forall>e \<in> set (es @ fs). usp_t e < now"
    and "(l, w, u) \<in> set (band_from t0 now fs)" and "t0 \<le> t" and "t < now"
    and "l \<le> band_pct t0 now t" and "band_pct t0 now t < l + w"
  shows "u = state_at (es @ fs) t"
  using assms(2-4)
proof (induction fs arbitrary: es)
  case (Cons e fs)
  let ?a = "max (usp_t e) t0" and ?b = "case fs of [] \<Rightarrow> now | f # _ \<Rightarrow> usp_t f"
  have rest: "u = state_at (es @ e # fs) t" if "(l, w, u) \<in> set (band_from t0 now fs)"
    using Cons.IH [of "es @ [e]"] Cons.prems that by simp
  show ?case
  proof (cases "?b \<le> ?a \<or> (l, w, u) \<in> set (band_from t0 now fs)")
    case True
    with rest Cons.prems(3) show ?thesis by (auto simp: Let_def)
  next
    case False
    with Cons.prems(3) have seg: "l = band_pct t0 now ?a" "l + w = band_pct t0 now ?b" "u = Some (usp_up e)" and ab: "?a < ?b"
      by (auto simp: Let_def)
    have a: "t0 \<le> ?a" "?a < now" using Cons.prems(2) assms(1) by auto
    have b: "?b \<le> now" using Cons.prems(2) by (auto split: list.split)
    have "\<not> t < ?a" using assms(5-8) a seg(1) band_pct_less [OF assms(1), of t ?a] by auto
    moreover have "t < ?b" using assms(5-8) a b ab seg(2) band_pct_less [OF assms(1), of t ?b] by auto
    moreover have "\<forall>f \<in> set fs. ?b \<le> usp_t f" using Cons.prems(1) by (cases fs) (auto simp: sorted_append)
    ultimately have "state_at (es @ e # fs) t = Some (usp_up e)" using Cons.prems(1) by (intro state_at_last) auto
    with seg(3) show ?thesis by simp
  qed
qed simp

section \<open>Connection history\<close>

record history_list =
  hl_chip :: string
  hl_offset :: int
  hl_now_min :: int
  hl_cc :: string            \<comment> \<open>a prop: the country filter of the screen\<close>
  hl_range_ms :: int         \<comment> \<open>a prop\<close>

definition history_query :: "history_list \<Rightarrow> sessions_query" where
  "history_query h = \<lparr>sq_player_uuid = '''', sq_agent_id = '''', sq_tunnel_id = (if hl_chip h = ''all'' then '''' else hl_chip h),
     sq_cc = hl_cc h, sq_since_ms = (if hl_range_ms h > 0 then hl_now_min h * 60000 - hl_range_ms h else 0),
     sq_offset = hl_offset h, sq_limit = sessions_page_size\<rparr>"

definition history_mount :: "int \<Rightarrow> int \<Rightarrow> string \<Rightarrow> history_list" where
  "history_mount now win cc = \<lparr>hl_chip = ''all'', hl_offset = 0, hl_now_min = now div 60000, hl_cc = cc, hl_range_ms = win\<rparr>"

datatype history_event = HistoryMinute int | HistoryChip string | HistoryCountry string | HistoryPrev | HistoryNext int

fun history_step :: "history_list \<Rightarrow> history_event \<Rightarrow> history_list" where
  "history_step h (HistoryMinute now) = h\<lparr>hl_now_min := now div 60000\<rparr>"
| "history_step h (HistoryChip c) = (if c = hl_chip h then h else h\<lparr>hl_chip := c, hl_offset := 0\<rparr>)"
| "history_step h (HistoryCountry cc) = (if cc = hl_cc h then h else h\<lparr>hl_cc := cc, hl_offset := 0\<rparr>)"
| "history_step h HistoryPrev = h\<lparr>hl_offset := pager_step sessions_page_size 0 (hl_offset h) PagePrev\<rparr>"
| "history_step h (HistoryNext n) = h\<lparr>hl_offset := pager_step sessions_page_size n (hl_offset h) PageNext\<rparr>"

datatype history_view = HistoryLoading | HistoryEmpty string "(string \<times> bool \<times> bool) option"
  | HistoryRows "session_meta list" "(string \<times> bool \<times> bool) option"

definition history_pager :: "int \<Rightarrow> history_list \<Rightarrow> (string \<times> bool \<times> bool) option" where
  "history_pager n h = (if pager_shown sessions_page_size n
     then Some (pager_label sessions_page_size n (hl_offset h), \<not> prev_disabled (hl_offset h), \<not> next_disabled sessions_page_size n (hl_offset h))
     else None)"

definition history_shows :: "sessions_page option \<Rightarrow> history_list \<Rightarrow> history_view" where
  "history_shows pg h = (case pg of None \<Rightarrow> HistoryLoading
   | Some p \<Rightarrow> if spage_sessions p = []
       then HistoryEmpty (if hl_cc h \<noteq> '''' then ''No sessions from '' @ hl_cc h @ '' in this range'' else ''No sessions in this range'')
              (history_pager (spage_total p) h)
       else HistoryRows (spage_sessions p) (history_pager (spage_total p) h))"

section \<open>Session replay\<close>

record replay_domain =
  rd_min :: int
  rd_max :: int
  rd_step :: int

definition replay_times :: "session_timeline \<Rightarrow> int list" where
  "replay_times tln = map trf_t (stl_traffic tln) @ map lat_t (stl_rtt tln)"

text \<open>The smallest gap of an ascending list; \<open>None\<close> is infinity.\<close>

fun min_gap :: "int list \<Rightarrow> int option" where
  "min_gap (a # b # ts) = Some (case min_gap (b # ts) of None \<Rightarrow> b - a | Some g \<Rightarrow> min (b - a) g)"
| "min_gap _ = None"

definition replay_domain_of :: "session_timeline option \<Rightarrow> replay_domain option" where
  "replay_domain_of tln = (case tln of None \<Rightarrow> None
   | Some tln \<Rightarrow> let ts = replay_times tln in
       if length ts < 2 then None
       else let sorted = sort (remdups ts) in
         Some \<lparr>rd_min = hd sorted, rd_max = last sorted, rd_step = (case min_gap sorted of Some g \<Rightarrow> g | None \<Rightarrow> 15000)\<rparr>)"

text \<open>\<open>nearest\<close>: the first of the samples closest to the cursor.\<close>

fun nearest_from :: "('a \<Rightarrow> int) \<Rightarrow> int \<Rightarrow> 'a option \<Rightarrow> 'a list \<Rightarrow> 'a option" where
  "nearest_from time c best [] = best"
| "nearest_from time c best (p # ps) = nearest_from time c
     (case best of None \<Rightarrow> Some p | Some b \<Rightarrow> if \<bar>time p - c\<bar> < \<bar>time b - c\<bar> then Some p else Some b) ps"

definition nearest :: "('a \<Rightarrow> int) \<Rightarrow> int \<Rightarrow> 'a list \<Rightarrow> 'a option" where
  "nearest time c ps = nearest_from time c None ps"

record replay_readout =
  ro_t :: int
  ro_dl :: "real option"
  ro_ul :: "real option"
  ro_rtt :: "real option"

definition replay_readout_of :: "int option \<Rightarrow> session_timeline option \<Rightarrow> replay_readout option" where
  "replay_readout_of cursor tln = (case (cursor, tln) of
     (Some c, Some s) \<Rightarrow> let tp = nearest trf_t c (stl_traffic s); rp = nearest lat_t c (stl_rtt s);
         step = (case replay_domain_of tln of Some d \<Rightarrow> rd_step d | None \<Rightarrow> 15000); secs = real_of_int step / 1000 in
       Some \<lparr>ro_t = c, ro_dl = map_option (\<lambda>p. real_of_int (trf_out p) / secs) tp,
         ro_ul = map_option (\<lambda>p. real_of_int (trf_in p) / secs) tp, ro_rtt = map_option lat_avg rp\<rparr>
   | _ \<Rightarrow> None)"

lemma nearest_from_Some:
  "nearest_from time c (Some b) ps \<noteq> None
    \<and> (\<forall>q. nearest_from time c (Some b) ps = Some q \<longrightarrow> q \<in> insert b (set ps) \<and> (\<forall>p \<in> insert b (set ps). \<bar>time q - c\<bar> \<le> \<bar>time p - c\<bar>))"
proof (induction ps arbitrary: b)
  case (Cons p ps)
  show ?case
  proof (cases "\<bar>time p - c\<bar> < \<bar>time b - c\<bar>")
    case True
    with Cons.IH [of p] show ?thesis by fastforce
  next
    case False
    with Cons.IH [of b] show ?thesis by fastforce
  qed
qed simp

lemma nearest_spec:
  "(nearest time c ps = None \<longleftrightarrow> ps = []) \<and> (\<forall>q. nearest time c ps = Some q \<longrightarrow> q \<in> set ps \<and> (\<forall>p \<in> set ps. \<bar>time q - c\<bar> \<le> \<bar>time p - c\<bar>))"
proof (cases ps)
  case (Cons p ps')
  with nearest_from_Some [of time c p ps'] show ?thesis by (simp add: nearest_def)
qed (simp add: nearest_def)

lemma nearest_at:
  assumes "distinct (map time ps)" and "p \<in> set ps"
  shows "nearest time (time p) ps = Some p"
proof (cases "nearest time (time p) ps")
  case None
  with nearest_spec [of time "time p" ps] assms(2) show ?thesis by auto
next
  case (Some q)
  with nearest_spec [of time "time p" ps] assms(2) have "q \<in> set ps" "\<bar>time q - time p\<bar> \<le> \<bar>time p - time p\<bar>" by blast+
  with assms Some show ?thesis by (auto simp: distinct_map dest: inj_onD)
qed

lemma min_gap_spec:
  "sorted_wrt (<) ts \<Longrightarrow> (min_gap ts = None \<longleftrightarrow> length ts < 2)
    \<and> (\<forall>g. min_gap ts = Some g \<longrightarrow> 0 < g \<and> (\<forall>i. Suc i < length ts \<longrightarrow> g \<le> ts ! Suc i - ts ! i))"
proof (induction ts rule: min_gap.induct)
  case (1 a b ts)
  then have IH: "(min_gap (b # ts) = None \<longleftrightarrow> ts = [])"
    "\<And>g i. min_gap (b # ts) = Some g \<Longrightarrow> 0 < g \<and> (Suc i < length (b # ts) \<longrightarrow> g \<le> (b # ts) ! Suc i - (b # ts) ! i)"
    by auto
  have "0 < g \<and> (Suc i < length (a # b # ts) \<longrightarrow> g \<le> (a # b # ts) ! Suc i - (a # b # ts) ! i)"
    if g: "min_gap (a # b # ts) = Some g" for g i
  proof (cases "min_gap (b # ts)")
    case None
    with g IH(1) "1.prems" show ?thesis by auto
  next
    case (Some h)
    with g have gh: "g = min (b - a) h" by simp
    have "0 < h" using IH(2) [OF Some] by blast
    moreover have "a < b" using "1.prems" by simp
    moreover have "Suc j < length (b # ts) \<longrightarrow> h \<le> (b # ts) ! Suc j - (b # ts) ! j" for j
      using IH(2) [OF Some, of j] by blast
    ultimately show ?thesis by (cases i) (auto simp: gh min_le_iff_disj)
  qed
  then show ?case by simp
qed auto


section \<open>Properties\<close>

interpretation by_sessions: key_comparator "\<lambda>a b. cag_sessions b - cag_sessions a" "\<lambda>a. - cag_sessions a"
  by unfold_locales simp

text \<open>C18. An uptime band fills its row from the left edge to the right with no gap and no overlap, and at every
  moment of the window it shows the state of the last event up to it, unknown before the first.\<close>

theorem uptime_band_correct:
  assumes "t0 < now" and "sorted (map usp_t events)" and "\<forall>e \<in> set events. usp_t e < now"
  shows "tiles 0 (band_segs t0 now events) 100
    \<and> (\<forall>(l, w, u) \<in> set (band_segs t0 now events). \<forall>t. t0 \<le> t \<and> t < now \<and> l \<le> band_pct t0 now t \<and> band_pct t0 now t < l + w
        \<longrightarrow> u = state_at events t)"
proof -
  have clip: "filter (\<lambda>e. usp_t e < now) events = events" using assms(3) by simp
  have state: "u = state_at events t"
    if "(l, w, u) \<in> set (band_from t0 now events)" "t0 \<le> t" "t < now" "l \<le> band_pct t0 now t" "band_pct t0 now t < l + w" for l w u t
    using band_from_state [OF assms(1), of "[]" events] assms(2,3) that by simp
  show ?thesis
  proof (cases events)
    case Nil
    then show ?thesis using assms(1) by (auto simp: band_segs_def band_pct_edges state_at_def)
  next
    case (Cons e es)
    note edge = band_pct_edges [OF assms(1)]
    have tile: "tiles (band_pct t0 now (max (usp_t e) t0)) (band_from t0 now events) 100"
      using band_from_tiles assms unfolding Cons by blast
    show ?thesis
    proof (cases "usp_t e > t0")
      case True
      have head: "state_at events t = None" if "t0 \<le> t" "t < now" "band_pct t0 now t < band_pct t0 now (usp_t e)" for t
      proof -
        have "t < usp_t e" using that True assms(3) band_pct_less [OF assms(1), of t "usp_t e"] by (simp add: Cons)
        then show ?thesis using state_at_before assms(2) unfolding Cons by blast
      qed
      have "0 < band_pct t0 now (usp_t e)" using True assms(3) band_pct_mono [OF assms(1), of t0 "usp_t e"] by (simp add: edge Cons)
      moreover have "band_segs t0 now events = (0, band_pct t0 now (usp_t e), None) # band_from t0 now events"
        using True clip by (simp add: band_segs_def Let_def Cons)
      ultimately show ?thesis using tile state head True by (auto simp: max_def)
    next
      case False
      then have "band_segs t0 now events = band_from t0 now events" using clip by (simp add: band_segs_def Let_def Cons)
      with tile state False edge show ?thesis by (auto simp: max_def)
    qed
  qed
qed

text \<open>A known cell of the peak-hours grid takes between 7 and 92 percent of the accent, the busiest cell 92,
  and the grid has a row for every weekday.\<close>

theorem peak_cells_coloured:
  assumes "row \<in> set (pmx_cells m)" and "c \<in> set row" and "0 \<le> cell_avg c"
  shows "(\<exists>p. cell_percent m c = Some p \<and> 7 \<le> p \<and> p \<le> 92) \<and> (0 < cell_avg c \<and> cell_avg c = max_avg m \<longrightarrow> cell_percent m c = Some 92)
    \<and> set day_order = {..<7} \<and> distinct day_order"
proof -
  have le: "cell_avg c \<le> max_avg m" using max_avg_bounds assms(1,2) by blast
  then have "0 \<le> cell_ratio m c" "cell_ratio m c \<le> 1" using assms(3) by (auto simp: cell_ratio_def)
  then have "js_round 7 \<le> js_round (7 + 85 * cell_ratio m c)" "js_round (7 + 85 * cell_ratio m c) \<le> js_round 92"
    by (intro js_round_mono; simp)+
  moreover have "js_round 7 = 7" "js_round 92 = 92" using js_round_int [of 7] js_round_int [of 92] by simp_all
  ultimately have "7 \<le> js_round (7 + 85 * cell_ratio m c)" "js_round (7 + 85 * cell_ratio m c) \<le> 92" by simp_all
  moreover have "set day_order = {..<7}" by (auto simp: day_order_def)
  ultimately show ?thesis
    using assms(3) \<open>js_round 92 = 92\<close> by (auto simp: cell_percent_def cell_ratio_def day_order_def)
qed

lemma sorted_times: "sorted_wrt (<) (sort (remdups ts))" for ts :: "int list"
  by (simp add: strict_sorted_iff)

lemma min_gap_pair:
  assumes "sorted_wrt (<) ts" and "min_gap ts = Some g" and "x \<in> set ts" and "y \<in> set ts" and "x < y"
  shows "g \<le> y - x"
proof -
  from assms(3,4) obtain i j where ij: "i < length ts" "x = ts ! i" "j < length ts" "y = ts ! j"
    by (auto simp: in_set_conv_nth)
  have "i < j"
  proof (rule ccontr)
    assume "\<not> i < j"
    then have "j < i \<or> j = i" by auto
    then have "ts ! j \<le> ts ! i" using sorted_wrt_nth_less [OF assms(1) _ ij(1), of j] by auto
    with assms(5) ij show False by simp
  qed
  then have "Suc i < length ts" using ij(3) by simp
  then have "g \<le> ts ! Suc i - ts ! i" using min_gap_spec [OF assms(1)] assms(2) by blast
  moreover have "ts ! Suc i \<le> ts ! j"
    using \<open>i < j\<close> sorted_wrt_nth_less [OF assms(1) _ ij(3), of "Suc i"] by (cases "Suc i = j") auto
  ultimately show ?thesis using ij by simp
qed

lemma replay_domain_Some:
  assumes "replay_domain_of (Some tln) = Some d"
  shows "\<exists>ts. ts = sort (remdups (replay_times tln)) \<and> ts \<noteq> [] \<and> rd_min d = hd ts \<and> rd_max d = last ts
    \<and> rd_step d = (case min_gap ts of Some g \<Rightarrow> g | None \<Rightarrow> 15000)"
proof -
  let ?ts = "sort (remdups (replay_times tln))"
  have "\<not> length (replay_times tln) < 2" "d = \<lparr>rd_min = hd ?ts, rd_max = last ?ts, rd_step = (case min_gap ?ts of Some g \<Rightarrow> g | None \<Rightarrow> 15000)\<rparr>"
    using assms by (auto simp: replay_domain_of_def Let_def split: if_splits)
  then have "replay_times tln \<noteq> []" by auto
  then have "set ?ts \<noteq> {}" by simp
  then have "?ts \<noteq> []" by (metis set_empty)
  with \<open>d = _\<close> show ?thesis by auto
qed

text \<open>The scrubber runs over exactly the span of the samples, with a step that is positive; the readout shows
  samples that no other sample is closer to the playhead than.\<close>

theorem replay_scrubs:
  assumes "replay_domain_of (Some tln) = Some d"
  shows "(\<forall>t \<in> set (replay_times tln). rd_min d \<le> t \<and> t \<le> rd_max d) \<and> rd_min d \<in> set (replay_times tln) \<and> rd_max d \<in> set (replay_times tln)
    \<and> 0 < rd_step d
    \<and> (\<forall>p. nearest trf_t c (stl_traffic tln) = Some p \<longrightarrow> p \<in> set (stl_traffic tln) \<and> (\<forall>q \<in> set (stl_traffic tln). \<bar>trf_t p - c\<bar> \<le> \<bar>trf_t q - c\<bar>))"
proof -
  let ?ts = "sort (remdups (replay_times tln))"
  from replay_domain_Some [OF assms] have ne: "?ts \<noteq> []" and d: "rd_min d = hd ?ts" "rd_max d = last ?ts"
    "rd_step d = (case min_gap ?ts of Some g \<Rightarrow> g | None \<Rightarrow> 15000)" by auto
  have set: "set ?ts = set (replay_times tln)" by simp
  have "0 < rd_step d" using min_gap_spec [OF sorted_times [of "replay_times tln"]] by (auto simp: d(3) split: option.split)
  moreover have "hd ?ts \<le> t \<and> t \<le> last ?ts" if "t \<in> set ?ts" for t
  proof -
    from that obtain i where i: "i < length ?ts" "t = ?ts ! i" by (metis in_set_conv_nth)
    then show ?thesis using ne sorted_nth_mono [OF sorted_sort [of "remdups (replay_times tln)"], of 0 i]
        sorted_nth_mono [OF sorted_sort [of "remdups (replay_times tln)"], of i "length ?ts - 1"]
      by (simp add: hd_conv_nth last_conv_nth del: length_sort)
  qed
  moreover have "hd ?ts \<in> set ?ts" "last ?ts \<in> set ?ts" using ne by (auto intro: hd_in_set last_in_set simp del: set_sort)
  ultimately show ?thesis unfolding d(1,2) using nearest_spec [of trf_t c "stl_traffic tln"] unfolding set by blast
qed

text \<open>The rate of the readout divides a bucket's bytes by the smallest gap between any two samples of either
  chart: when a latency bucket starts a moment after a traffic bucket, the rate is that much too high.\<close>

theorem replay_rate_overstated:
  assumes "p \<in> set (stl_traffic s)" and "r \<in> set (stl_rtt s)" and "trf_t p < lat_t r" and "0 \<le> trf_out p"
    and "\<forall>q \<in> set (stl_traffic s). q \<noteq> p \<longrightarrow> trf_t q \<noteq> trf_t p"
  shows "\<exists>o' dl. replay_readout_of (Some (trf_t p)) (Some s) = Some o' \<and> ro_dl o' = Some dl
    \<and> real_of_int (trf_out p) / (real_of_int (lat_t r - trf_t p) / 1000) \<le> dl"
proof -
  let ?ts = "sort (remdups (replay_times s))"
  from assms(1,2) have mem: "trf_t p \<in> set (replay_times s)" "lat_t r \<in> set (replay_times s)" by (auto simp: replay_times_def)
  from assms(1,2) have "\<not> length (replay_times s) < 2"
    by (cases "stl_traffic s"; cases "stl_rtt s") (auto simp: replay_times_def)
  then obtain d where d: "replay_domain_of (Some s) = Some d" by (auto simp: replay_domain_of_def Let_def)
  have pos: "0 < rd_step d" using replay_scrubs [OF d, where c = 0] by blast
  obtain g where g: "min_gap ?ts = Some g"
  proof (cases "min_gap ?ts")
    case None
    then have "length ?ts < 2" using min_gap_spec [OF sorted_times] by blast
    then have "card (set (replay_times s)) < 2" by (simp add: length_remdups_card_conv)
    moreover have "{trf_t p, lat_t r} \<subseteq> set (replay_times s)" using mem by simp
    then have "card {trf_t p, lat_t r} \<le> card (set (replay_times s))" by (intro card_mono) auto
    ultimately show ?thesis using assms(3) by simp
  qed
  have "rd_step d \<le> lat_t r - trf_t p"
    using replay_domain_Some [OF d] g min_gap_pair [OF sorted_times [of "replay_times s"], of g "trf_t p" "lat_t r"] mem assms(3) by auto
  have "nearest trf_t (trf_t p) (stl_traffic s) = Some p"
  proof (cases "nearest trf_t (trf_t p) (stl_traffic s)")
    case None
    with nearest_spec [of trf_t "trf_t p" "stl_traffic s"] assms(1) show ?thesis by auto
  next
    case (Some q)
    with nearest_spec [of trf_t "trf_t p" "stl_traffic s"] assms(1) have "q \<in> set (stl_traffic s)" "\<bar>trf_t q - trf_t p\<bar> \<le> \<bar>trf_t p - trf_t p\<bar>"
      by blast+
    with assms(5) Some show ?thesis by auto
  qed
  moreover have "real_of_int (trf_out p) / (real_of_int (lat_t r - trf_t p) / 1000) \<le> real_of_int (trf_out p) / (real_of_int (rd_step d) / 1000)"
    using pos \<open>rd_step d \<le> _\<close> assms(4) by (intro divide_left_mono) (auto intro: mult_pos_pos)
  ultimately show ?thesis by (simp add: replay_readout_of_def d Let_def)
qed

text \<open>When sessions age out of the window while the second page is up, the list claims that there are none
  and offers no way back to the first page, although there are fifty.\<close>

theorem history_loses_first_page:
  assumes "length xs = 50" and "hl_offset h = 50" and "hl_cc h = ''''"
  shows "history_shows (Some \<lparr>spage_total = int (length xs), spage_sessions = page_rows sessions_page_size (hl_offset h) xs\<rparr>) h
    = HistoryEmpty ''No sessions in this range'' None"
  using assms by (simp add: history_shows_def page_rows_def history_pager_def pager_shown_def sessions_page_size_def)

text \<open>Two snapshots in quick succession: the cleanup drops the timer of the first flash, which then stays lit.\<close>

lemma flash_stays_lit:
  "gf_flash (flash_clock 100000 (flash_snapshot False 200 [a] (flash_snapshot False 100 [a] (flash_mount\<lparr>gf_prev := Some []\<rparr>))))
    = (if 0 < cag_sessions a then [js_upper (cag_cc a)] else [])"
  by (simp add: flash_snapshot_def flash_clock_def flash_mount_def session_counts_def grown_countries_def Let_def)


theorem uptime_band_correct_witness:
  "tiles 0 (band_segs 0 100 [\<lparr>usp_t = 10, usp_up = True\<rparr>, \<lparr>usp_t = 50, usp_up = False\<rparr>]) 100"
  using uptime_band_correct [of 0 100 "[\<lparr>usp_t = 10, usp_up = True\<rparr>, \<lparr>usp_t = 50, usp_up = False\<rparr>]"] by simp

theorem peak_cells_coloured_witness: "\<exists>p. cell_percent \<lparr>pmx_cells = [[\<lparr>cell_avg = 3, cell_max = 4\<rparr>]]\<rparr> \<lparr>cell_avg = 3, cell_max = 4\<rparr> = Some p \<and> 7 \<le> p \<and> p \<le> 92"
  using peak_cells_coloured [of "[\<lparr>cell_avg = 3, cell_max = 4\<rparr>]" "\<lparr>pmx_cells = [[\<lparr>cell_avg = 3, cell_max = 4\<rparr>]]\<rparr>" "\<lparr>cell_avg = 3, cell_max = 4\<rparr>"]
  by simp

definition sample_timeline :: session_timeline where
  "sample_timeline = \<lparr>stl_traffic = [\<lparr>trf_t = 0, trf_in = 10, trf_out = 15000\<rparr>, \<lparr>trf_t = 15000, trf_in = 10, trf_out = 15000\<rparr>],
     stl_rtt = [\<lparr>lat_t = 15010, lat_avg = 20, lat_min = 10, lat_max = 30\<rparr>]\<rparr>"

lemma sample_domain: "replay_domain_of (Some sample_timeline) = Some \<lparr>rd_min = 0, rd_max = 15010, rd_step = 10\<rparr>"
  by (simp add: replay_domain_of_def replay_times_def sample_timeline_def Let_def)

theorem replay_scrubs_witness: "(0::int) < rd_step \<lparr>rd_min = 0, rd_max = 15010, rd_step = 10\<rparr>"
  using replay_scrubs [OF sample_domain, where c = 0] by blast

theorem replay_rate_overstated_witness:
  "\<exists>o' dl. replay_readout_of (Some 15000) (Some sample_timeline) = Some o' \<and> ro_dl o' = Some dl \<and> 1500000 \<le> dl"
  using replay_rate_overstated [of "\<lparr>trf_t = 15000, trf_in = 10, trf_out = 15000\<rparr>" sample_timeline
      "\<lparr>lat_t = 15010, lat_avg = 20, lat_min = 10, lat_max = 30\<rparr>"]
  by (simp add: sample_timeline_def)

definition sample_session :: session_meta where
  "sample_session = \<lparr>sess_id = 1, sess_tunnel_name = '''', sess_client_ip = '''', sess_player_name = '''', sess_player_uuid = '''',
     sess_started_ms = 0, sess_ended_ms = 0, sess_bytes_in = 0, sess_bytes_out = 0, sess_cc = '''', sess_rtt_avg = 0\<rparr>"

theorem history_loses_first_page_witness:
  "history_shows (Some \<lparr>spage_total = 50, spage_sessions = page_rows sessions_page_size 50 (replicate 50 sample_session)\<rparr>)
      (foldl history_step (history_mount 0 86400000 '''') [HistoryNext 51])
    = HistoryEmpty ''No sessions in this range'' None"
  using history_loses_first_page [of "replicate 50 sample_session" "foldl history_step (history_mount 0 86400000 '''') [HistoryNext 51]"]
  by (simp add: history_mount_def sessions_page_size_def next_disabled_def pager_next_def)

end
