(* ===== verification/Line_Chart.thy ===== *)
theory Line_Chart
  imports Chart Dashboard
begin

text \<open>
  The generic line chart of \<open>charts/LineChart.tsx\<close>: the shared scales, the rows keyed by timestamp, the crosshair
  with its two owners, and the paths. Pixels are reals; the width is measured (\<open>apply_width\<close>), the height a prop.
\<close>

section \<open>Props\<close>

record line_point =
  lp_t :: int
  lp_v :: "real option"

record line_series =
  ls_points :: "line_point list"
  ls_css_var :: string
  ls_label :: string
  ls_fill :: bool
  ls_format :: "(real \<Rightarrow> string) option"

record line_props =
  lc_series :: "line_series list"
  lc_height :: int
  lc_binary :: bool
  lc_format_y :: "(real \<Rightarrow> string) option"
  lc_stepped :: bool

text \<open>The paddings are 56, 10, 12 and 20 on the left, right, top and bottom.\<close>

definition line_plot_w :: "int \<Rightarrow> real" where
  "line_plot_w w = of_int w - 56 - 10"

definition line_base_y :: "line_props \<Rightarrow> int" where
  "line_base_y c = lc_height c - 20"

definition line_plot_h :: "line_props \<Rightarrow> real" where
  "line_plot_h c = of_int (line_base_y c) - 12"

section \<open>Domain and scale\<close>

record line_view =
  lv_t0 :: int
  lv_t1 :: int
  lv_span :: int
  lv_scale :: "real \<times> real list"

definition line_times :: "line_series list \<Rightarrow> int list" where
  "line_times ss = concat (map (\<lambda>s. map lp_t (ls_points s)) ss)"

definition known_or_zero :: "line_point \<Rightarrow> real" where
  "known_or_zero p = (case lp_v p of Some v \<Rightarrow> v | None \<Rightarrow> 0)"

definition line_vmax :: "line_series list \<Rightarrow> real" where
  "line_vmax ss = max_of 1 (concat (map (\<lambda>s. map known_or_zero (ls_points s)) ss))"

definition line_scale :: "line_props \<Rightarrow> real \<times> real list" where
  "line_scale c = (if lc_binary c then nice_scale (line_vmax (lc_series c)) else nice_linear 4 (line_vmax (lc_series c)))"

definition line_view_of :: "line_props \<Rightarrow> line_view option" where
  "line_view_of c = (let ts = line_times (lc_series c) in
     if ts = [] then None
     else let t0 = Min (set ts); t1 = Max (set ts) in
       Some \<lparr>lv_t0 = t0, lv_t1 = t1, lv_span = max 1 (t1 - t0), lv_scale = line_scale c\<rparr>)"

definition line_x :: "int \<Rightarrow> line_view \<Rightarrow> int \<Rightarrow> real" where
  "line_x w v t = 56 + (of_int (t - lv_t0 v) / of_int (lv_span v)) * line_plot_w w"

definition line_y :: "line_props \<Rightarrow> line_view \<Rightarrow> real \<Rightarrow> real" where
  "line_y c v x = of_int (line_base_y c) - (x / fst (lv_scale v)) * line_plot_h c"

definition line_ticks :: "zone \<Rightarrow> int \<Rightarrow> line_view \<Rightarrow> (int \<times> string \<times> real) list" where
  "line_ticks z w v = map (\<lambda>(t, label). (t, label, line_x w v t)) (time_ticks z (lv_t0 v) (lv_t1 v))"

section \<open>Rows\<close>

text \<open>\<open>byT\<close>, in its insertion order: a row per timestamp, a value per series.\<close>

definition put_point :: "nat \<Rightarrow> nat \<Rightarrow> value_row list \<Rightarrow> line_point \<Rightarrow> value_row list" where
  "put_point n i m p = AList.update (lp_t p)
     ((case map_of m (lp_t p) of Some row \<Rightarrow> row | None \<Rightarrow> replicate n None)[i := lp_v p]) m"

definition put_series :: "nat \<Rightarrow> value_row list \<Rightarrow> nat \<times> line_series \<Rightarrow> value_row list" where
  "put_series n m e = foldl (put_point n (fst e)) m (ls_points (snd e))"

definition rows_target :: "line_series list \<Rightarrow> value_row list" where
  "rows_target ss = js_sort (\<lambda>a b. fst a - fst b) (foldl (put_series (length ss)) [] (enumerate 0 ss))"

section \<open>The crosshair\<close>

text \<open>\<open>cursorT\<close> is undefined, null or a time; so it wins over the local one, null included.\<close>

definition line_cursor :: "int option option \<Rightarrow> int option \<Rightarrow> int option" where
  "line_cursor controlled local = (case controlled of Some c \<Rightarrow> c | None \<Rightarrow> local)"

text \<open>The first of the rows with the least distance.\<close>

fun closest_from :: "('a \<Rightarrow> real) \<Rightarrow> 'a \<Rightarrow> 'a list \<Rightarrow> 'a" where
  "closest_from far best [] = best"
| "closest_from far best (r # rs) = closest_from far (if far r < far best then r else best) rs"

definition closest :: "('a \<Rightarrow> real) \<Rightarrow> 'a list \<Rightarrow> 'a option" where
  "closest far rs = (case rs of [] \<Rightarrow> None | r # rs \<Rightarrow> Some (closest_from far r rs))"

definition line_hover :: "int option \<Rightarrow> value_row list \<Rightarrow> value_row option" where
  "line_hover cursor rows = (case cursor of None \<Rightarrow> None | Some t \<Rightarrow> closest (\<lambda>r. \<bar>of_int (fst r) - of_int t\<bar>) rows)"

definition nearest_t :: "int \<Rightarrow> line_view \<Rightarrow> value_row list \<Rightarrow> real \<Rightarrow> int option" where
  "nearest_t w v rows px = map_option fst (closest (\<lambda>r. \<bar>line_x w v (fst r) - px\<bar>) rows)"

text \<open>The handlers of the pointer: the time goes to \<open>onCursor\<close>, or to the state of the chart.\<close>

record line_state =
  li_local :: "int option"
  li_reported :: "int option list"

datatype line_event = PointerAt real | PointerLeaves

definition line_tell :: "bool \<Rightarrow> int option \<Rightarrow> line_state \<Rightarrow> line_state" where
  "line_tell listening t s = (if listening then s\<lparr>li_reported := li_reported s @ [t]\<rparr> else s\<lparr>li_local := t\<rparr>)"

definition line_step :: "bool \<Rightarrow> int \<Rightarrow> line_view \<Rightarrow> value_row list \<Rightarrow> line_state \<Rightarrow> line_event \<Rightarrow> line_state" where
  "line_step listening w v rows s e = (case e of
     PointerAt px \<Rightarrow> line_tell listening (nearest_t w v rows px) s
   | PointerLeaves \<Rightarrow> line_tell listening None s)"

text \<open>\<open>clientX\<close> in units of the drawing.\<close>

definition pointer_px :: "real \<Rightarrow> real \<Rightarrow> real \<Rightarrow> int \<Rightarrow> real" where
  "pointer_px client_x left width w = ((client_x - left) / width) * of_int w"

section \<open>Paths\<close>

definition value_at :: "nat \<Rightarrow> value_row \<Rightarrow> real option" where
  "value_at i r = (if i < length (snd r) then snd r ! i else None)"

text \<open>A run: a move to its first point, then lines, by way of the height before when the chart is stepped.\<close>

fun lines_from :: "bool \<Rightarrow> string \<Rightarrow> (string \<times> string) list \<Rightarrow> string" where
  "lines_from stepped prev [] = []"
| "lines_from stepped prev ((x, y) # ps) =
     (if stepped then ''L'' @ x @ '','' @ prev else []) @ ''L'' @ x @ '','' @ y @ lines_from stepped y ps"

definition run_path :: "bool \<Rightarrow> (string \<times> string) list \<Rightarrow> string" where
  "run_path stepped ps = (case ps of [] \<Rightarrow> [] | (x, y) # ps \<Rightarrow> ''M'' @ x @ '','' @ y @ lines_from stepped y ps)"

definition line_paths :: "line_props \<Rightarrow> int \<Rightarrow> line_view \<Rightarrow> value_row list \<Rightarrow> nat \<Rightarrow> string list" where
  "line_paths c w v rows i = map (\<lambda>run. run_path (lc_stepped c) (map (\<lambda>(r, x). (to_fixed 1 (line_x w v (fst r)), to_fixed 1 (line_y c v x))) run))
     (known_runs (value_at i) [] rows)"

definition known_rows :: "nat \<Rightarrow> value_row list \<Rightarrow> value_row list" where
  "known_rows i rows = filter (\<lambda>r. value_at i r \<noteq> None) rows"

definition area_path :: "line_props \<Rightarrow> int \<Rightarrow> line_view \<Rightarrow> value_row list \<Rightarrow> nat \<Rightarrow> string option" where
  "area_path c w v rows i = (let runs = line_paths c w v rows i; known = known_rows i rows in
     if length runs \<noteq> 1 \<or> length known < 2 then None
     else Some (runs ! 0 @ ''L'' @ to_fixed 1 (line_x w v (fst (last known))) @ '','' @ show_int (line_base_y c)
       @ ''L'' @ to_fixed 1 (line_x w v (fst (hd known))) @ '','' @ show_int (line_base_y c) @ ''Z''))"

definition last_known :: "nat \<Rightarrow> value_row list \<Rightarrow> (int \<times> real) option" where
  "last_known i rows = (case find (\<lambda>r. value_at i r \<noteq> None) (rev rows) of
     None \<Rightarrow> None | Some r \<Rightarrow> map_option (Pair (fst r)) (value_at i r))"

section \<open>Texts\<close>

definition fmt_axis :: "line_props \<Rightarrow> real \<Rightarrow> string" where
  "fmt_axis c = (case lc_format_y c of Some f \<Rightarrow> f
   | None \<Rightarrow> (case lc_series c of s # _ \<Rightarrow> (case ls_format s of Some f \<Rightarrow> f | None \<Rightarrow> \<lambda>v. show_int (js_round v)) | [] \<Rightarrow> \<lambda>v. show_int (js_round v)))"

definition line_y_labels :: "line_props \<Rightarrow> line_view \<Rightarrow> (real \<times> string) list" where
  "line_y_labels c v = map (\<lambda>x. (line_y c v x + 3.5, fmt_axis c x)) (filter (\<lambda>x. 0 < x) (snd (lv_scale v)))"

definition line_x_labels :: "zone \<Rightarrow> int \<Rightarrow> line_view \<Rightarrow> (int \<times> string \<times> real) list" where
  "line_x_labels z w v = filter (\<lambda>(t, label, x). 56 + 14 < x \<and> x < of_int w - 10 - 14) (line_ticks z w v)"

definition hover_left :: "int \<Rightarrow> line_view \<Rightarrow> value_row option \<Rightarrow> bool" where
  "hover_left w v h = (case h of None \<Rightarrow> False | Some r \<Rightarrow> line_x w v (fst r) < of_int w / 2)"

definition line_time_kind :: "line_view \<Rightarrow> tick_kind" where
  "line_time_kind v = (if lv_span v \<ge> 3 * 86400000 then Day else if lv_span v < 120000 then Second else Minute)"

definition line_readout :: "zone \<Rightarrow> line_props \<Rightarrow> line_view \<Rightarrow> value_row \<Rightarrow> string list" where
  "line_readout z c v r = fmt_tick_time z (fst r) (line_time_kind v)
     # List.map_filter (\<lambda>(i, s). map_option (\<lambda>x. ls_label s @ '' '' @ (case ls_format s of Some f \<Rightarrow> f | None \<Rightarrow> fmt_axis c) x)
         (value_at i r)) (enumerate 0 (lc_series c))"

section \<open>Marks\<close>

definition line_grid :: "zone \<Rightarrow> line_props \<Rightarrow> int \<Rightarrow> line_view \<Rightarrow> real list \<times> real list" where
  "line_grid z c w v = (map (line_y c v) (snd (lv_scale v)), map (\<lambda>(t, label, x). x) (line_ticks z w v))"

definition end_dot :: "line_props \<Rightarrow> int \<Rightarrow> line_view \<Rightarrow> value_row list \<Rightarrow> nat \<Rightarrow> (real \<times> real) option" where
  "end_dot c w v rows i = map_option (\<lambda>(t, x). (line_x w v t, line_y c v x)) (last_known i rows)"

definition hover_dots :: "line_props \<Rightarrow> int \<Rightarrow> line_view \<Rightarrow> value_row \<Rightarrow> (nat \<times> real \<times> real) list" where
  "hover_dots c w v r = List.map_filter (\<lambda>i. map_option (\<lambda>x. (i, line_x w v (fst r), line_y c v x)) (value_at i r)) [0..<length (lc_series c)]"

definition readout_at :: "int \<Rightarrow> line_view \<Rightarrow> value_row option \<Rightarrow> int \<times> string" where
  "readout_at w v h = (if hover_left w v h then (w - 8, ''end'') else (56, ''start''))"

section \<open>The closest row\<close>

lemma closest_from_spec: "closest_from far b rs \<in> insert b (set rs) \<and> (\<forall>q \<in> insert b (set rs). far (closest_from far b rs) \<le> far q)"
proof (induction rs arbitrary: b)
  case (Cons r rs)
  from Cons.IH [of "if far r < far b then r else b"] show ?case by (auto split: if_splits)
qed simp

lemma closest_spec:
  "(closest far rs = None \<longleftrightarrow> rs = []) \<and> (\<forall>r. closest far rs = Some r \<longrightarrow> r \<in> set rs \<and> (\<forall>q \<in> set rs. far r \<le> far q))"
  using closest_from_spec [of far] by (fastforce simp: closest_def split: list.splits)

lemma line_hover_at:
  assumes "distinct (map fst rows)" and "r \<in> set rows"
  shows "line_hover (Some (fst r)) rows = Some r"
proof -
  define far where "far q = \<bar>real_of_int (fst q) - of_int (fst r)\<bar>" for q :: value_row
  have hover: "line_hover (Some (fst r)) rows = closest far rows" unfolding line_hover_def far_def by simp
  obtain q where q: "closest far rows = Some q" using closest_spec [of far rows] assms(2) by (cases "closest far rows") auto
  with closest_spec [of far rows] assms(2) have "q \<in> set rows" "far q \<le> far r" by blast+
  then have "fst q = fst r" by (simp add: far_def)
  with \<open>q \<in> set rows\<close> assms have "q = r" by (auto simp: distinct_map dest: inj_onD)
  with q hover show ?thesis by simp
qed

section \<open>The rows\<close>

definition last_value :: "line_series \<Rightarrow> int \<Rightarrow> real option" where
  "last_value s t = (case rev (filter (\<lambda>p. lp_t p = t) (ls_points s)) of [] \<Rightarrow> None | p # _ \<Rightarrow> lp_v p)"

definition cell_of :: "(nat \<times> line_point) list \<Rightarrow> int \<Rightarrow> nat \<Rightarrow> real option" where
  "cell_of ps t i = (case rev (filter (\<lambda>(j, p). j = i \<and> lp_t p = t) ps) of [] \<Rightarrow> None | e # _ \<Rightarrow> lp_v (snd e))"

definition all_points :: "line_series list \<Rightarrow> (nat \<times> line_point) list" where
  "all_points ss = concat (map (\<lambda>(i, s). map (Pair i) (ls_points s)) (enumerate 0 ss))"

lemma put_series_points: "foldl (put_series n) m es = foldl (\<lambda>m (i, p). put_point n i m p) m (concat (map (\<lambda>(i, s). map (Pair i) (ls_points s)) es))"
proof (induction es arbitrary: m)
  case (Cons e es)
  have "foldl (put_point n i) m ps = foldl (\<lambda>m (i, p). put_point n i m p) m (map (Pair i) ps)" for i m ps
    by (induction ps arbitrary: m) auto
  with Cons show ?case by (simp add: put_series_def split: prod.split)
qed simp

lemma filter_points:
  "filter (\<lambda>(j, p). j = i \<and> P p) (concat (map (\<lambda>(j, s). map (Pair j) (ls_points s)) (enumerate k ss)))
    = (if k \<le> i \<and> i < k + length ss then map (Pair i) (filter P (ls_points (ss ! (i - k)))) else [])"
proof (induction ss arbitrary: k)
  case (Cons s ss)
  have "filter (\<lambda>(j, p). j = i \<and> P p) (map (Pair k) ps) = (if k = i then map (Pair i) (filter P ps) else [])" for ps
    by (induction ps) auto
  with Cons [of "Suc k"] show ?case by (auto simp: nth_Cons' Suc_diff_le)
qed auto

lemma cell_of_points: "i < length ss \<Longrightarrow> cell_of (all_points ss) t i = last_value (ss ! i) t"
  using filter_points [of i "\<lambda>p. lp_t p = t" 0 ss] by (simp add: cell_of_def all_points_def last_value_def rev_map split: list.split)

lemma points_fold:
  assumes "\<forall>(i, p) \<in> set ps. i < n"
  shows "let m = foldl (\<lambda>m (i, p). put_point n i m p) [] ps in distinct (map fst m)
    \<and> (\<forall>t. map_of m t = (if t \<in> (lp_t \<circ> snd) ` set ps then Some (map (cell_of ps t) [0..<n]) else None))"
  using assms
proof (induction ps rule: rev_induct)
  case (snoc e ps)
  define m where "m = foldl (\<lambda>m (i, p). put_point n i m p) [] ps"
  obtain i p where e: "e = (i, p)" by (cases e)
  with snoc.prems have "i < n" by simp
  from snoc have dist: "distinct (map fst m)"
    and m: "map_of m t = (if t \<in> (lp_t \<circ> snd) ` set ps then Some (map (cell_of ps t) [0..<n]) else None)" for t
    by (simp_all add: m_def Let_def)
  have new: "cell_of (ps @ [e]) t j = (if t = lp_t p \<and> j = i then lp_v p else cell_of ps t j)" for t j
    by (auto simp: cell_of_def e)
  have fresh: "t \<notin> (lp_t \<circ> snd) ` set ps \<Longrightarrow> cell_of ps t j = None" for t j
  proof -
    assume "t \<notin> (lp_t \<circ> snd) ` set ps"
    then have "filter (\<lambda>(i, p). i = j \<and> lp_t p = t) ps = []" by (force simp: filter_empty_conv)
    then show ?thesis by (simp add: cell_of_def)
  qed
  have row: "(case map_of m (lp_t p) of Some row \<Rightarrow> row | None \<Rightarrow> replicate n None) = map (cell_of ps (lp_t p)) [0..<n]"
    using fresh by (auto simp: m intro!: nth_equalityI)
  have "(map (cell_of ps (lp_t p)) [0..<n])[i := lp_v p] = map (cell_of (ps @ [e]) (lp_t p)) [0..<n]"
    by (rule nth_equalityI) (auto simp: new nth_list_update)
  then have step: "foldl (\<lambda>m (i, p). put_point n i m p) [] (ps @ [e]) = AList.update (lp_t p) (map (cell_of (ps @ [e]) (lp_t p)) [0..<n]) m"
    using row put_point_def [of n i m p] by (simp add: e flip: m_def)
  have other: "t \<noteq> lp_t p \<Longrightarrow> map (cell_of (ps @ [e]) t) [0..<n] = map (cell_of ps t) [0..<n]" for t by (simp add: new)
  show ?case unfolding step Let_def using dist other by (auto simp: update_conv' distinct_update m e)
qed simp

lemma times_points: "(lp_t \<circ> snd) ` set (all_points ss) = set (line_times ss)"
  by (force simp: all_points_def line_times_def enumerate_eq_zip in_set_zip in_set_conv_nth image_iff)

interpretation by_stamp: key_comparator "\<lambda>a b. fst a - fst b" fst
  by unfold_locales simp

lemma sorted_keyed_rows:
  assumes "distinct (map fst m)"
  shows "js_sort (\<lambda>a b. fst a - fst b) m = map (\<lambda>t. (t, the (map_of m t))) (sorted_list_of_set (fst ` set m))"
proof -
  let ?rows = "js_sort (\<lambda>a b. fst a - fst b) m"
  have "mset (map fst ?rows) = mset (map fst m)" by (simp only: mset_map mset_js_sort)
  then have "distinct (map fst ?rows)" "set (map fst ?rows) = fst ` set m"
    using assms mset_eq_imp_distinct_iff mset_eq_setD by (metis, metis list.set_map)
  then have keys: "map fst ?rows = sorted_list_of_set (fst ` set m)"
    using by_stamp.sorted_keys [of m] by (metis sorted_list_of_set.idem_if_sorted_distinct)
  have "(fst e, the (map_of m (fst e))) = e" if "e \<in> set ?rows" for e by (cases e) (use that assms in simp)
  then have "map (\<lambda>e. (fst e, the (map_of m (fst e)))) ?rows = ?rows" by (intro map_idI)
  then show ?thesis by (simp add: comp_def flip: keys)
qed

text \<open>The rows, and in each of them every series.\<close>

lemma rows_target_spec:
  "rows_target ss = map (\<lambda>t. (t, map (\<lambda>s. last_value s t) ss)) (sorted_list_of_set (set (line_times ss)))"
proof -
  define m where "m = foldl (put_series (length ss)) [] (enumerate 0 ss)"
  have "\<forall>(i, p) \<in> set (all_points ss). i < length ss"
    by (auto simp: all_points_def enumerate_eq_zip in_set_zip)
  from points_fold [OF this] have dist: "distinct (map fst m)"
    and m: "map_of m t = (if t \<in> set (line_times ss) then Some (map (cell_of (all_points ss) t) [0..<length ss]) else None)" for t
    by (simp_all add: m_def put_series_points all_points_def [symmetric] times_points [symmetric] Let_def)
  have cells: "map (cell_of (all_points ss) t) [0..<length ss] = map (\<lambda>s. last_value s t) ss" for t
    by (rule nth_equalityI) (simp_all add: cell_of_points)
  have "t \<in> fst ` set m \<longleftrightarrow> t \<in> set (line_times ss)" for t using m [of t] by (metis map_of_eq_None_iff option.distinct(1))
  then have "fst ` set m = set (line_times ss)" by blast
  then show ?thesis unfolding rows_target_def m_def [symmetric] sorted_keyed_rows [OF dist] by (simp add: m cells cong: map_cong)
qed

text \<open>C30. The chart has one row per timestamp of its series, the oldest first, and in each row every series has the value
  of its last point at that time, or none.\<close>

theorem rows_target_correct:
  "rows_target ss = map (\<lambda>t. (t, map (\<lambda>s. last_value s t) ss)) (sorted_list_of_set (set (line_times ss)))
    \<and> sorted_wrt (<) (map fst (rows_target ss)) \<and> set (map fst (rows_target ss)) = set (concat (map (\<lambda>s. map lp_t (ls_points s)) ss))"
  by (simp add: rows_target_spec comp_def strict_sorted_list_of_set line_times_def)

section \<open>Marks in the plot\<close>

lemma line_view_fields:
  assumes "line_view_of c = Some v"
  shows "line_times (lc_series c) \<noteq> []" "lv_t0 v = Min (set (line_times (lc_series c)))" "lv_t1 v = Max (set (line_times (lc_series c)))"
    "lv_span v = max 1 (lv_t1 v - lv_t0 v)" "lv_scale v = line_scale c"
  using assms by (auto simp: line_view_of_def Let_def split: if_splits)

lemma line_x_in_plot:
  assumes "line_view_of c = Some v" and "t \<in> set (line_times (lc_series c))" and "66 \<le> w"
  shows "56 \<le> line_x w v t \<and> line_x w v t \<le> of_int w - 10"
proof -
  have "lv_t0 v \<le> t" "t \<le> lv_t1 v" using assms(2) by (simp_all add: line_view_fields [OF assms(1)])
  then have f: "0 \<le> real_of_int (t - lv_t0 v) / of_int (lv_span v)" "real_of_int (t - lv_t0 v) / of_int (lv_span v) \<le> 1"
    by (auto simp: line_view_fields(4) [OF assms(1)] divide_le_eq)
  have "0 \<le> line_plot_w w" using assms(3) by (simp add: line_plot_w_def)
  from mult_right_mono [OF f(2) this] mult_nonneg_nonneg [OF f(1) this] show ?thesis
    by (simp add: line_x_def line_plot_w_def)
qed

lemma line_y_in_plot:
  assumes "line_view_of c = Some v" and "0 \<le> x" and "x \<le> line_vmax (lc_series c)" and "32 \<le> lc_height c"
  shows "12 \<le> line_y c v x \<and> line_y c v x \<le> of_int (line_base_y c)"
proof -
  have h: "0 \<le> line_plot_h c" using assms(4) by (simp add: line_plot_h_def line_base_y_def)
  show ?thesis
    using binary_axis.y_in_plot [OF assms(2,3) h, of "of_int (line_base_y c)"] decimal_axis.y_in_plot [OF assms(2,3) h, of "of_int (line_base_y c)"]
    by (auto simp: line_y_def line_plot_h_def line_view_fields(5) [OF assms(1)] line_scale_def)
qed

lemma last_value_in: "last_value s t = Some x \<Longrightarrow> \<exists>p \<in> set (ls_points s). lp_t p = t \<and> lp_v p = Some x"
proof -
  assume a: "last_value s t = Some x"
  then obtain p ps where p: "rev (filter (\<lambda>p. lp_t p = t) (ls_points s)) = p # ps" "lp_v p = Some x"
    by (auto simp: last_value_def split: list.splits)
  then have "p \<in> set (filter (\<lambda>p. lp_t p = t) (ls_points s))" by (metis list.set_intros(1) set_rev)
  with p(2) show ?thesis by auto
qed

lemma value_at_target:
  "r \<in> set (rows_target ss) \<Longrightarrow> value_at i r = Some x \<Longrightarrow>
     fst r \<in> set (line_times ss) \<and> i < length ss \<and> (\<exists>p \<in> set (ls_points (ss ! i)). lp_t p = fst r \<and> lp_v p = Some x)"
  by (auto simp: rows_target_spec value_at_def split: if_splits dest: last_value_in)

lemma known_le_vmax: "i < length ss \<Longrightarrow> p \<in> set (ls_points (ss ! i)) \<Longrightarrow> lp_v p = Some x \<Longrightarrow> x \<le> line_vmax ss"
proof -
  assume a: "i < length ss" "p \<in> set (ls_points (ss ! i))" "lp_v p = Some x"
  then have "x \<in> set (concat (map (\<lambda>s. map known_or_zero (ls_points s)) ss))"
    by (auto simp: known_or_zero_def in_set_conv_nth intro!: bexI [of _ "ss ! i"] image_eqI [of _ _ p]) 
  then show ?thesis unfolding line_vmax_def by (intro max_of_ge) simp
qed

text \<open>Once a refresh has glided in, every known value that is not negative is drawn inside the plot, between the
  two edges and between the top lane and the base line.\<close>

theorem line_marks_in_plot:
  assumes "line_view_of c = Some v" and "r \<in> set (rows_target (lc_series c))" and "value_at i r = Some x" and "0 \<le> x"
    and "66 \<le> w" and "32 \<le> lc_height c"
  shows "56 \<le> line_x w v (fst r) \<and> line_x w v (fst r) \<le> of_int w - 10 \<and> 12 \<le> line_y c v x \<and> line_y c v x \<le> of_int (lc_height c) - 20"
  using value_at_target [OF assms(2,3)] line_x_in_plot [OF assms(1) _ assms(5)] line_y_in_plot [OF assms(1,4) _ assms(6)]
    known_le_vmax [of i "lc_series c" _ x] by (auto simp: line_base_y_def)

lemma last_known_in: "last_known i rows = Some (t, x) \<Longrightarrow> \<exists>r \<in> set rows. fst r = t \<and> value_at i r = Some x"
  by (auto simp: last_known_def find_Some_iff in_set_conv_nth split: option.splits) (metis length_rev nth_mem set_rev in_set_conv_nth fst_conv)

section \<open>Runs\<close>

text \<open>With \<open>cur\<close> the run in progress, over the rows \<open>before\<close> it and \<open>xs\<close> ahead: every run is a block of rows with known
  values between rows without one.\<close>

lemma known_runs_blocks:
  assumes "pre = [] \<or> get (last pre) = None" and "\<forall>(x, v) \<in> set cur. get x = Some v" and "run \<in> set (known_runs get cur xs)"
  shows "\<exists>before after. pre @ map fst cur @ xs = before @ map fst run @ after \<and> run \<noteq> [] \<and> (\<forall>(x, v) \<in> set run. get x = Some v)
    \<and> (before = [] \<or> get (last before) = None) \<and> (after = [] \<or> get (hd after) = None)"
  using assms
proof (induction get cur xs arbitrary: pre rule: known_runs.induct)
  case (1 get cur)
  then have "run = cur" "cur \<noteq> []" by (auto split: if_splits)
  with 1 show ?case by (intro exI [of _ pre] exI [of _ "[]"]) simp
next
  case (2 get cur x xs)
  show ?case
  proof (cases "get x")
    case None
    show ?thesis
    proof (cases "cur \<noteq> [] \<and> run = cur")
      case True
      have "pre @ map fst cur @ x # xs = pre @ map fst run @ x # xs" "get (hd (x # xs)) = None" using True None by simp_all
      with True "2.prems"(1,2) show ?thesis by blast
    next
      case False
      with 2 None have "run \<in> set (known_runs get [] xs)" by (auto split: if_splits)
      with 2(1) [OF None, of "pre @ map fst cur @ [x]"] None show ?thesis by simp
    qed
  next
    case (Some v)
    with 2(2) [OF Some, of pre] 2 show ?thesis by auto
  qed
qed

lemma map_known_runs: "concat (map (map fst) (known_runs get [] xs)) = filter (\<lambda>x. get x \<noteq> None) xs"
proof -
  have "map fst (List.map_filter (\<lambda>x. map_option (Pair x) (get x)) xs) = filter (\<lambda>x. get x \<noteq> None) xs"
    by (induction xs) (auto simp: List.map_filter_simps split: option.split)
  then show ?thesis using concat_known_runs [of get "[]" xs] by (simp add: map_concat [symmetric])
qed

text \<open>A line breaks at the unknown values and only there: together its runs hold the known values, in order, and each
  run is a block of rows that ends at an unknown value or at the edge of the chart.\<close>

theorem line_breaks_at_gaps:
  "concat (map (map fst) (known_runs (value_at i) [] rows)) = known_rows i rows
    \<and> (\<forall>run \<in> set (known_runs (value_at i) [] rows). run \<noteq> [] \<and> (\<exists>before after. rows = before @ map fst run @ after
        \<and> (before = [] \<or> value_at i (last before) = None) \<and> (after = [] \<or> value_at i (hd after) = None)))"
  using known_runs_blocks [of "[]" "value_at i" "[]" _ rows] by (simp add: map_known_runs known_rows_def) blast

text \<open>The area under a line is closed at the first and the last known value, and drawn only when no row between
  them is unknown.\<close>

theorem area_of_one_block:
  assumes "area_path c w v rows i = Some a"
  shows "\<exists>before after. rows = before @ known_rows i rows @ after \<and> (\<forall>r \<in> set (before @ after). value_at i r = None)
    \<and> 2 \<le> length (known_rows i rows) \<and> (\<exists>line. line_paths c w v rows i = [line] \<and> prefix line a)"
proof -
  have l: "length (known_runs (value_at i) [] rows) = 1" "2 \<le> length (known_rows i rows)"
    and a: "prefix (line_paths c w v rows i ! 0) a"
    using assms by (auto simp: area_path_def line_paths_def Let_def prefix_def split: if_splits)
  then obtain run where run: "known_runs (value_at i) [] rows = [run]" by (auto simp: length_Suc_conv)
  then have known: "known_rows i rows = map fst run" using map_known_runs [of "value_at i" rows] by (simp add: known_rows_def)
  have "\<exists>before after. rows = before @ map fst run @ after"
    using known_runs_blocks [of "[]" "value_at i" "[]" run rows] by (simp add: run) blast
  then obtain before after where "rows = before @ map fst run @ after" by (elim exE)
  then have b: "rows = before @ known_rows i rows @ after" unfolding known .
  have "known_rows i (known_rows i rows) = known_rows i rows" by (simp add: known_rows_def)
  moreover have "known_rows i (xs @ ys @ zs) = known_rows i xs @ known_rows i ys @ known_rows i zs" for xs ys zs by (simp add: known_rows_def)
  ultimately have "known_rows i rows = known_rows i before @ known_rows i rows @ known_rows i after"
    using arg_cong [OF b, of "known_rows i"] by simp
  then have "length (known_rows i before) + length (known_rows i after) = 0" by (drule_tac arg_cong [where f = length]) simp
  then have "\<forall>r \<in> set (before @ after). value_at i r = None" by (auto simp: known_rows_def filter_empty_conv)
  moreover obtain line where "line_paths c w v rows i = [line]" by (simp add: line_paths_def run)
  ultimately show ?thesis using b l(2) a by (intro exI [of _ before] exI [of _ after] conjI) simp_all
qed

section \<open>One playhead\<close>

lemma rows_target_distinct: "distinct (map fst (rows_target ss))"
  by (simp add: rows_target_spec comp_def)

text \<open>A pointer over one chart of a pair: the chart marks the row drawn closest to the pointer, and its sibling, which
  is given the time of that row, marks its own row closest in time. When the pointer leaves, neither marks any.\<close>

theorem shared_playhead:
  assumes "rows_target ss \<noteq> []" and "rows_target ss' \<noteq> []"
  shows "let s = line_step True w v (rows_target ss) s0 (PointerAt px); t = last (li_reported s) in
    (\<exists>r. line_hover (line_cursor (Some t) local) (rows_target ss) = Some r \<and> (\<forall>q \<in> set (rows_target ss). \<bar>line_x w v (fst r) - px\<bar> \<le> \<bar>line_x w v (fst q) - px\<bar>)
      \<and> (\<exists>r'. line_hover (line_cursor (Some t) local') (rows_target ss') = Some r' \<and> r' \<in> set (rows_target ss')
          \<and> (\<forall>q \<in> set (rows_target ss'). \<bar>fst r' - fst r\<bar> \<le> \<bar>fst q - fst r\<bar>)))
    \<and> line_hover (line_cursor (Some (last (li_reported (line_step True w v (rows_target ss) s PointerLeaves)))) local) (rows_target ss) = None"
proof -
  let ?near = "\<lambda>r. \<bar>line_x w v (fst r) - px\<bar>"
  obtain r where r: "closest ?near (rows_target ss) = Some r" using closest_spec [of ?near "rows_target ss"] assms(1) by (cases "closest ?near (rows_target ss)") auto
  with closest_spec [of ?near "rows_target ss"] have r_in: "r \<in> set (rows_target ss)" and least: "\<forall>q \<in> set (rows_target ss). ?near r \<le> ?near q" by blast+
  define far where "far q = \<bar>real_of_int (fst q) - of_int (fst r)\<bar>" for q :: value_row
  have sibling: "line_hover (Some (fst r)) rows = closest far rows" for rows unfolding line_hover_def far_def by simp
  obtain r' where r': "closest far (rows_target ss') = Some r'" using closest_spec [of far "rows_target ss'"] assms(2) by (cases "closest far (rows_target ss')") auto
  with closest_spec [of far "rows_target ss'"] have r'_in: "r' \<in> set (rows_target ss')" and "\<forall>q \<in> set (rows_target ss'). far r' \<le> far q" by blast+
  then have least': "\<forall>q \<in> set (rows_target ss'). \<bar>fst r' - fst r\<bar> \<le> \<bar>fst q - fst r\<bar>"
    by (simp add: far_def flip: of_int_diff of_int_abs)
  have at: "last (li_reported (line_step True w v (rows_target ss) s0 (PointerAt px))) = Some (fst r)"
    using r by (simp add: line_step_def line_tell_def nearest_t_def)
  have own: "line_hover (Some (fst r)) (rows_target ss) = Some r" by (rule line_hover_at [OF rows_target_distinct r_in])
  have other: "line_hover (Some (fst r)) (rows_target ss') = Some r'" using r' sibling by simp
  have left: "line_hover (last (li_reported (line_step True w v (rows_target ss) s PointerLeaves))) (rows_target ss) = None" for s
    by (simp add: line_step_def line_tell_def line_hover_def)
  show ?thesis unfolding Let_def line_cursor_def option.case at
    by (intro conjI exI [of _ r] exI [of _ r'] own other least least' r'_in left)
qed

text \<open>A line chart on its own keeps the time itself: the local state is what was last under the pointer.\<close>

lemma line_local: "li_local (foldl (line_step False w v rows) s (es @ [e])) = (case e of PointerAt px \<Rightarrow> nearest_t w v rows px | PointerLeaves \<Rightarrow> None)"
  by (simp add: line_step_def line_tell_def split: line_event.split)

section \<open>Instances\<close>

definition sample_series :: line_series where
  "sample_series = \<lparr>ls_points = [\<lparr>lp_t = 2000, lp_v = Some 3\<rparr>, \<lparr>lp_t = 1000, lp_v = Some 2\<rparr>, \<lparr>lp_t = 3000, lp_v = None\<rparr>],
     ls_css_var = '''', ls_label = ''in'', ls_fill = True, ls_format = None\<rparr>"

definition sample_chart :: line_props where
  "sample_chart = \<lparr>lc_series = [sample_series], lc_height = 180, lc_binary = True, lc_format_y = None, lc_stepped = False\<rparr>"

lemma sample_rows: "rows_target [sample_series] = [(1000, [Some 2]), (2000, [Some 3]), (3000, [None])]"
  by (simp add: rows_target_def sample_series_def put_series_def put_point_def)

theorem line_marks_in_plot_witness:
  "map_option (\<lambda>v. 12 \<le> line_y sample_chart v 3 \<and> line_y sample_chart v 3 \<le> 160) (line_view_of sample_chart) = Some True"
proof -
  have "line_times (lc_series sample_chart) \<noteq> []" by (simp add: line_times_def sample_chart_def sample_series_def)
  then obtain v where v: "line_view_of sample_chart = Some v" by (simp add: line_view_of_def Let_def)
  have "(2000, [Some 3]) \<in> set (rows_target (lc_series sample_chart))" by (simp add: sample_rows sample_chart_def)
  from line_marks_in_plot [OF v this, of 0 3 160] have "12 \<le> line_y sample_chart v 3 \<and> line_y sample_chart v 3 \<le> 160"
    by (simp add: value_at_def sample_chart_def)
  with v show ?thesis by simp
qed

theorem line_breaks_at_gaps_witness:
  "concat (map (map fst) (known_runs (value_at 0) [] (rows_target [sample_series]))) = [(1000, [Some 2]), (2000, [Some 3])]"
  using line_breaks_at_gaps [of 0 "rows_target [sample_series]"] by (simp add: sample_rows known_rows_def value_at_def)

theorem shared_playhead_witness:
  "line_hover (line_cursor (Some (last (li_reported (foldl (line_step True 360 \<lparr>lv_t0 = 1000, lv_t1 = 3000, lv_span = 2000, lv_scale = (4, [])\<rparr>
     (rows_target [sample_series])) \<lparr>li_local = None, li_reported = []\<rparr> [PointerAt 100, PointerLeaves])))) None) (rows_target [sample_series]) = None"
proof -
  have ne: "rows_target [sample_series] \<noteq> []" by (simp add: sample_rows)
  from shared_playhead [OF ne ne, of 360 "\<lparr>lv_t0 = 1000, lv_t1 = 3000, lv_span = 2000, lv_scale = (4, [])\<rparr>" "\<lparr>li_local = None, li_reported = []\<rparr>" 100 None None]
  show ?thesis unfolding Let_def foldl.simps by (elim conjE)
qed

text \<open>The scale jumps to the new data at once, the values glide: at the start of a refresh that replaces a large value by a
  small one the line is above the top edge of the drawing.\<close>

theorem tween_leaves_plot:
  assumes "line_view_of c = Some v" and "rows_target (lc_series c) = [(t, [Some x])]" and "from t = Some [Some (2 * fst (lv_scale v))]" and "32 < lc_height c"
  shows "case shown_values (tween_values_frame from (rows_target (lc_series c)) 0) (rows_target (lc_series c)) of
    [(_, [Some y])] \<Rightarrow> line_y c v y < 12 | _ \<Rightarrow> False"
proof -
  have "0 < fst (lv_scale v)"
    using binary_axis.top_pos decimal_axis.top_pos by (simp add: line_view_fields(5) [OF assms(1)] line_scale_def)
  then show ?thesis using assms(3,4)
    by (simp add: assms(2) shown_values_def tween_values_frame_def lerp_gauge_def lerp_def ease_def line_y_def line_plot_h_def line_base_y_def)
qed

end
