(* ===== verification/World_Geo.thy ===== *)
theory World_Geo
  imports Prelude
begin

text \<open>
  The countries of \<open>charts/worldgeo.ts\<close> in their order: code, name and label anchor in units of the
  1000 by 500 drawing. The outlines, which are only drawn, are left out.
\<close>

record world_country =
  wc_cc :: string
  wc_name :: string
  wc_cx :: real
  wc_cy :: real

definition world_w :: real where "world_w = 1000"
definition world_h :: real where "world_h = 500"

definition wc :: "string \<Rightarrow> string \<Rightarrow> real \<Rightarrow> real \<Rightarrow> world_country" where
  "wc cc name cx cy = \<lparr>wc_cc = cc, wc_name = name, wc_cx = cx, wc_cy = cy\<rparr>"

definition world :: "world_country list" where
  "world = [
    wc ''AE'' ''United Arab Emirates'' 651.5 184.8, wc ''AF'' ''Afghanistan'' 684.7 155.1, wc ''AL'' ''Albania'' 555.9 137.1,
    wc ''AM'' ''Armenia'' 624.4 137.6, wc ''AO'' ''Angola'' 550 283.8, wc ''AR'' ''Argentina'' 321.7 343.1, wc ''AT'' ''Austria'' 539.3 118,
    wc ''AU'' ''Australia'' 872.4 317, wc ''AZ'' ''Azerbaijan'' 631.1 137.8, wc ''BA'' ''Bosnia and Herz.'' 550.2 127.5,
    wc ''BD'' ''Bangladesh'' 749.1 182.7, wc ''BE'' ''Belgium'' 513.3 108.9, wc ''BF'' ''Burkina Faso'' 496.2 214.8,
    wc ''BG'' ''Bulgaria'' 569.9 131.9, wc ''BI'' ''Burundi'' 583.1 259.3, wc ''BJ'' ''Benin'' 506.5 221.3, wc ''BN'' ''Brunei'' 818.2 237.6,
    wc ''BO'' ''Bolivia'' 320.6 296.3, wc ''BR'' ''Brazil'' 362.3 283.6, wc ''BS'' ''Bahamas'' 285.7 176.7, wc ''BT'' ''Bhutan'' 750.1 173.5,
    wc ''BW'' ''Botswana'' 567.2 311.4, wc ''BY'' ''Belarus'' 578.9 100.5, wc ''BZ'' ''Belize'' 253.6 202.2, wc ''CA'' ''Canada'' 216.9 82.4,
    wc ''CD'' ''Dem. Rep. Congo'' 565.2 255.2, wc ''CF'' ''Central African Rep.'' 558.1 230.6, wc ''CG'' ''Congo'' 544.2 249.6,
    wc ''CH'' ''Switzerland'' 520.7 120.2, wc ''CI'' (''C'' @ [CHR 0xC3, CHR 0xB4] @ ''te d'Ivoire'') 484.5 229.2, wc ''CL'' ''Chile'' 299.1 356,
    wc ''CM'' ''Cameroon'' 534.6 237.3, wc ''CN'' ''China'' 795.4 159.7, wc ''CO'' ''Colombia'' 296.7 240.6, wc ''CR'' ''Costa Rica'' 266.5 222,
    wc ''CU'' ''Cuba'' 283.4 190.7, wc ''CY'' ''Cyprus'' 591.9 153, wc ''CZ'' ''Czechia'' 542.7 111.4, wc ''DE'' ''Germany'' 526.9 108.4,
    wc ''DJ'' ''Djibouti'' 618.1 216.7, wc ''DK'' ''Denmark'' 525.1 94.5, wc ''DO'' ''Dominican Rep.'' 303.7 196.9,
    wc ''DZ'' ''Algeria'' 507.8 173.9, wc ''EC'' ''Ecuador'' 282.8 253.5, wc ''EE'' ''Estonia'' 571.9 86.9, wc ''EG'' ''Egypt'' 581.8 177.3,
    wc ''EH'' ''W. Sahara'' 464.9 183.4, wc ''ER'' ''Eritrea'' 606.3 206.1, wc ''ES'' ''Spain'' 490.4 138.6, wc ''ET'' ''Ethiopia'' 608.6 227.7,
    wc ''FI'' ''Finland'' 575.8 74.3, wc ''FJ'' ''Fiji'' 994.4 299.5, wc ''FK'' ''Falkland Is.'' 336.8 393.4, wc ''FR'' ''France'' 507.1 120.3,
    wc ''GA'' ''Gabon'' 532.9 251.2, wc ''GB'' ''United Kingdom'' 494.1 98.9, wc ''GE'' ''Georgia'' 621.5 133.7, wc ''GH'' ''Ghana'' 497.1 228.6,
    wc ''GL'' ''Greenland'' 390.7 43.6, wc ''GM'' ''Gambia'' 458.3 212.1, wc ''GN'' ''Guinea'' 472.2 220.5, wc ''GQ'' ''Eq. Guinea'' 525 243.5,
    wc ''GR'' ''Greece'' 560.3 140.3, wc ''GT'' ''Guatemala'' 248.6 208.4, wc ''GW'' ''Guinea-Bissau'' 459.7 216.2, wc ''GY'' ''Guyana'' 336.3 235.8,
    wc ''HN'' ''Honduras'' 258.6 208.9, wc ''HR'' ''Croatia'' 545.5 122.8, wc ''HT'' ''Haiti'' 299.4 196.5, wc ''HU'' ''Hungary'' 554 119.2,
    wc ''ID'' ''Indonesia'' 783 252.7, wc ''IE'' ''Ireland'' 478.3 102.6, wc ''IL'' ''Israel'' 596.8 164.1, wc ''IN'' ''India'' 720.4 187,
    wc ''IQ'' ''Iraq'' 620.2 158.1, wc ''IR'' ''Iran'' 652.6 160.6, wc ''IS'' ''Iceland'' 448.1 70.1, wc ''IT'' ''Italy'' 530.8 125.7,
    wc ''JM'' ''Jamaica'' 285.2 199.6, wc ''JO'' ''Jordan'' 601 164.4, wc ''JP'' ''Japan'' 884.6 149.6, wc ''KE'' ''Kenya'' 605.3 248.5,
    wc ''KG'' ''Kyrgyzstan'' 707 134.3, wc ''KH'' ''Cambodia'' 790.3 214.9, wc ''KP'' ''North Korea'' 851.2 139.2,
    wc ''KR'' ''South Korea'' 855.9 148.9, wc ''KW'' ''Kuwait'' 631.4 168.3, wc ''KZ'' ''Kazakhstan'' 690.8 113.7, wc ''LA'' ''Laos'' 784.8 196,
    wc ''LB'' ''Lebanon'' 600 155.2, wc ''LK'' ''Sri Lanka'' 724.2 228.9, wc ''LR'' ''Liberia'' 473.7 232.1, wc ''LS'' ''Lesotho'' 578.5 331.9,
    wc ''LT'' ''Lithuania'' 566.9 96.9, wc ''LU'' ''Luxembourg'' 516.9 111.9, wc ''LV'' ''Latvia'' 570.7 91.5, wc ''LY'' ''Libya'' 550 176,
    wc ''MA'' ''Morocco'' 480 162.1, wc ''MD'' ''Moldova'' 579.1 118.2, wc ''ME'' ''Montenegro'' 553.2 131.1, wc ''MG'' ''Madagascar'' 629.7 301.7,
    wc ''MK'' ''North Macedonia'' 559.9 134.6, wc ''ML'' ''Mali'' 494.3 198.1, wc ''MM'' ''Myanmar'' 766.1 190.1, wc ''MN'' ''Mongolia'' 789.3 122.2,
    wc ''MR'' ''Mauritania'' 472.9 195.6, wc ''MW'' ''Malawi'' 593.4 287.2, wc ''MX'' ''Mexico'' 215.9 183.6, wc ''MY'' ''Malaysia'' 816.2 243,
    wc ''MZ'' ''Mozambique'' 605.1 288.7, wc ''NA'' ''Namibia'' 547.5 307.2, wc ''NC'' ''New Caledonia'' 958.6 308.5,
    wc ''NE'' ''Niger'' 526.4 201.5, wc ''NG'' ''Nigeria'' 520.8 223.8, wc ''NI'' ''Nicaragua'' 263.7 214.8, wc ''NL'' ''Netherlands'' 515.6 104.4,
    wc ''NO'' ''Norway'' 526.9 79.6, wc ''NP'' ''Nepal'' 732.3 171.4, wc ''NZ'' ''New Zealand'' 980 360.4, wc ''OM'' ''Oman'' 659.3 188.6,
    wc ''PA'' ''Panama'' 276.8 225.8, wc ''PE'' ''Peru'' 297.5 286, wc ''PG'' ''Papua New Guinea'' 899.8 265.8,
    wc ''PH'' ''Philippines'' 840.2 218.9, wc ''PK'' ''Pakistan'' 690.4 168.5, wc ''PL'' ''Poland'' 554.1 105.6,
    wc ''PR'' ''Puerto Rico'' 315.3 199.3, wc ''PS'' ''Palestine'' 598 161, wc ''PT'' ''Portugal'' 477 140, wc ''PY'' ''Paraguay'' 332.9 310.2,
    wc ''QA'' ''Qatar'' 642.1 179.9, wc ''RO'' ''Romania'' 569.4 123, wc ''RS'' ''Serbia'' 557.7 127.3, wc ''RU'' ''Russia'' 624.1 88.2,
    wc ''RW'' ''Rwanda'' 583.6 255.3, wc ''SA'' ''Saudi Arabia'' 624.2 183.9, wc ''SB'' ''Solomon Is.'' 942.1 272.3, wc ''SD'' ''Sudan'' 581.3 204.6,
    wc ''SE'' ''Sweden'' 552.8 67.1, wc ''SI'' ''Slovenia'' 541.4 122.1, wc ''SK'' ''Slovakia'' 552.9 114.6, wc ''SL'' ''Sierra Leone'' 467.3 226.1,
    wc ''SN'' ''Senegal'' 458.9 207.9, wc ''SO'' ''Somalia'' 625.5 240.1, wc ''SR'' ''Suriname'' 344.7 238.5, wc ''SS'' ''S. Sudan'' 584.4 229.9,
    wc ''SV'' ''El Salvador'' 253.1 212, wc ''SY'' ''Syria'' 606.3 152.8, wc ''SZ'' ''eSwatini'' 587.4 323.7, wc ''TD'' ''Chad'' 551.8 207.9,
    wc ''TF'' ''Fr. S. Antarctic Lands'' 692 387, wc ''TG'' ''Togo'' 502.9 225.5, wc ''TH'' ''Thailand'' 780.8 207.1,
    wc ''TJ'' ''Tajikistan'' 701.6 143.9, wc ''TL'' ''Timor-Leste'' 849.6 274.5, wc ''TM'' ''Turkmenistan'' 663 139.3,
    wc ''TN'' ''Tunisia'' 525 156.4, wc ''TR'' ''Turkey'' 595.9 140.7, wc ''TT'' ''Trinidad and Tobago'' 330.8 219.4,
    wc ''TW'' ''Taiwan'' 835.7 184.3, wc ''TZ'' ''Tanzania'' 597.1 266.8, wc ''UA'' ''Ukraine'' 589.3 111.9, wc ''UG'' ''Uganda'' 591.5 244.5,
    wc ''US'' ''United States of America'' 229.2 140.2, wc ''UY'' ''Uruguay'' 344.5 341.6, wc ''UZ'' ''Uzbekistan'' 677.8 134.2,
    wc ''VE'' ''Venezuela'' 320.6 230, wc ''VN'' ''Vietnam'' 792.7 189.7, wc ''VU'' ''Vanuatu'' 963.6 292.7, wc ''XK'' ''Kosovo'' 557.9 131.7,
    wc ''YE'' ''Yemen'' 627.4 207.4, wc ''ZA'' ''South Africa'' 565.7 332.5, wc ''ZM'' ''Zambia'' 573.3 290.7, wc ''ZW'' ''Zimbabwe'' 583.1 302.5]"

lemma wc_simps [simp]: "wc_cc (wc cc n x y) = cc" "wc_cx (wc cc n x y) = x" "wc_cy (wc cc n x y) = y"
  by (simp_all add: wc_def)

text \<open>No code occurs twice.\<close>

lemma world_codes: "map wc_cc world = [
    ''AE'', ''AF'', ''AL'', ''AM'', ''AO'', ''AR'', ''AT'', ''AU'', ''AZ'', ''BA'', ''BD'', ''BE'', ''BF'', ''BG'', ''BI'', ''BJ'', ''BN'',
    ''BO'', ''BR'', ''BS'', ''BT'', ''BW'', ''BY'', ''BZ'', ''CA'', ''CD'', ''CF'', ''CG'', ''CH'', ''CI'', ''CL'', ''CM'', ''CN'', ''CO'',
    ''CR'', ''CU'', ''CY'', ''CZ'', ''DE'', ''DJ'', ''DK'', ''DO'', ''DZ'', ''EC'', ''EE'', ''EG'', ''EH'', ''ER'', ''ES'', ''ET'', ''FI'',
    ''FJ'', ''FK'', ''FR'', ''GA'', ''GB'', ''GE'', ''GH'', ''GL'', ''GM'', ''GN'', ''GQ'', ''GR'', ''GT'', ''GW'', ''GY'', ''HN'', ''HR'',
    ''HT'', ''HU'', ''ID'', ''IE'', ''IL'', ''IN'', ''IQ'', ''IR'', ''IS'', ''IT'', ''JM'', ''JO'', ''JP'', ''KE'', ''KG'', ''KH'', ''KP'',
    ''KR'', ''KW'', ''KZ'', ''LA'', ''LB'', ''LK'', ''LR'', ''LS'', ''LT'', ''LU'', ''LV'', ''LY'', ''MA'', ''MD'', ''ME'', ''MG'', ''MK'',
    ''ML'', ''MM'', ''MN'', ''MR'', ''MW'', ''MX'', ''MY'', ''MZ'', ''NA'', ''NC'', ''NE'', ''NG'', ''NI'', ''NL'', ''NO'', ''NP'', ''NZ'',
    ''OM'', ''PA'', ''PE'', ''PG'', ''PH'', ''PK'', ''PL'', ''PR'', ''PS'', ''PT'', ''PY'', ''QA'', ''RO'', ''RS'', ''RU'', ''RW'', ''SA'',
    ''SB'', ''SD'', ''SE'', ''SI'', ''SK'', ''SL'', ''SN'', ''SO'', ''SR'', ''SS'', ''SV'', ''SY'', ''SZ'', ''TD'', ''TF'', ''TG'', ''TH'',
    ''TJ'', ''TL'', ''TM'', ''TN'', ''TR'', ''TT'', ''TW'', ''TZ'', ''UA'', ''UG'', ''US'', ''UY'', ''UZ'', ''VE'', ''VN'', ''VU'', ''XK'',
    ''YE'', ''ZA'', ''ZM'', ''ZW'']"
  by (simp add: world_def)

lemma world_distinct: "distinct (map wc_cc world)"
  unfolding world_codes by code_simp

end
