(* ===== verification/Mock_Signal.thy ===== *)
theory Mock_Signal
  imports Chart "HOL-Library.Word"
begin

unbundle bit_operations_syntax

text \<open>
  The traffic model of \<open>devmock.ts\<close>: an integer hash on 32-bit words, value noise over it, the rates
  and gauges as functions of absolute time, and the bandwidth histories that sample them. The
  installation reads the clock once (\<open>now0\<close>); the local calendar (hour with its fraction, weekend)
  is a parameter. \<open>Math.imul\<close> and \<open>^\<close> work on the low 32 bits of their arguments, which is what
  \<open>word_of_int\<close> keeps.
\<close>

section \<open>Hash and noise\<close>

definition imul :: "32 word \<Rightarrow> 32 word \<Rightarrow> 32 word" where
  "imul a b = a * b"

definition hash32 :: "int \<Rightarrow> 32 word" where
  "hash32 n = (let x = imul (word_of_int n XOR 0x9e3779b9) 0x85ebca6b; x = x XOR drop_bit 13 x;
     x = imul x 0xc2b2ae35 in x XOR drop_bit 16 x)"

definition hash01 :: "int \<Rightarrow> real" where
  "hash01 n = real_of_int (uint (hash32 n)) / 4294967296"

definition vnoise :: "real \<Rightarrow> real \<Rightarrow> int \<Rightarrow> real" where
  "vnoise t period seed = (let p = t / period; i = \<lfloor>p\<rfloor>; f = p - of_int i; s = f * f * (3 - 2 * f) in
     hash01 (i + seed * 374761) * (1 - s) + hash01 (i + 1 + seed * 374761) * s)"

lemma hash01_range: "0 \<le> hash01 n" "hash01 n < 1"
proof -
  have "uint (hash32 n) < 2 ^ 32" using uint_bounded [of "hash32 n"] by simp
  then have "real_of_int (uint (hash32 n)) < real_of_int (2 ^ 32)" by (simp only: of_int_less_iff)
  then show "hash01 n < 1" unfolding hash01_def by (simp only: divide_less_eq_1_pos of_int_power of_int_numeral) (simp del: of_int_uint)
  show "0 \<le> hash01 n" unfolding hash01_def by (simp del: of_int_uint)
qed

text \<open>Each step of the hash can be undone: a shifted xor bit by bit from the top, a product with an odd
  constant by the inverse of that constant.\<close>

lemma xor_shift_inj:
  fixes x y :: "32 word"
  assumes eq: "x XOR drop_bit k x = y XOR drop_bit k y" and "0 < k"
  shows "x = y"
proof (rule bit_eqI)
  fix n
  show "bit x n = bit y n"
  proof (induction "32 - n" arbitrary: n rule: less_induct)
    case less
    show ?case
    proof (cases "n < 32")
      case True
      with \<open>0 < k\<close> less have "bit x (k + n) = bit y (k + n)" by auto
      moreover have "bit (x XOR drop_bit k x) n = bit (y XOR drop_bit k y) n" using eq by simp
      ultimately show ?thesis by (auto simp: bit_simps)
    next
      case False
      then show ?thesis using bit_imp_le_length [of x n] bit_imp_le_length [of y n] by auto
    qed
  qed
qed

lemma imul_inj:
  fixes x y c d :: "32 word"
  assumes "imul x c = imul y c" and "c * d = 1"
  shows "x = y"
proof -
  have "x * (c * d) = y * (c * d)" using assms(1) by (simp add: imul_def flip: mult.assoc)
  then show ?thesis by (simp add: assms(2))
qed

lemma xor_cancel: "(x::32 word) XOR c = y XOR c \<longleftrightarrow> x = y"
  by (metis xor.assoc xor_self_eq xor.right_neutral)

lemma hash32_inj: "hash32 m = hash32 n \<longleftrightarrow> m mod 2 ^ 32 = n mod 2 ^ 32"
proof
  assume eq: "hash32 m = hash32 n"
  define x where "x = imul (word_of_int m XOR 0x9e3779b9) 0x85ebca6b"
  define y where "y = imul (word_of_int n XOR 0x9e3779b9) 0x85ebca6b"
  from eq have "imul (x XOR drop_bit 13 x) 0xc2b2ae35 = imul (y XOR drop_bit 13 y) 0xc2b2ae35"
    unfolding hash32_def Let_def x_def y_def by (rule xor_shift_inj) simp
  then have "x XOR drop_bit 13 x = y XOR drop_bit 13 y" by (rule imul_inj [of _ _ _ 2127672349]) simp
  then have "x = y" by (rule xor_shift_inj) simp
  then have "(word_of_int m :: 32 word) XOR 0x9e3779b9 = word_of_int n XOR 0x9e3779b9"
    unfolding x_def y_def by (rule imul_inj [of _ _ _ 2781581891]) simp
  then have "(word_of_int m :: 32 word) = word_of_int n" by (simp only: xor_cancel)
  then show "m mod 2 ^ 32 = n mod 2 ^ 32" by (simp add: word_of_int_eq_iff take_bit_eq_mod)
next
  assume "m mod 2 ^ 32 = n mod 2 ^ 32"
  then have "(word_of_int m :: 32 word) = word_of_int n" by (simp add: word_of_int_eq_iff take_bit_eq_mod)
  then show "hash32 m = hash32 n" by (simp add: hash32_def)
qed

lemma hash01_eq_iff: "hash01 m = hash01 n \<longleftrightarrow> m mod 2 ^ 32 = n mod 2 ^ 32"
  unfolding hash01_def hash32_inj [symmetric] by (simp add: word_uint_eq_iff del: of_int_uint)

text \<open>The weight of the smooth step is between zero and one, so the noise is between its lattice values.\<close>

lemma smooth_step: "0 \<le> (f::real) \<Longrightarrow> f \<le> 1 \<Longrightarrow> 0 \<le> f * f * (3 - 2 * f) \<and> f * f * (3 - 2 * f) \<le> 1"
proof -
  assume f: "0 \<le> f" "f \<le> 1"
  have "1 - f * f * (3 - 2 * f) = (1 - f) * (1 - f) * (1 + 2 * f)" by (simp add: algebra_simps)
  moreover have "0 \<le> (1 - f) * (1 - f) * (1 + 2 * f)" using f by (intro mult_nonneg_nonneg) auto
  moreover have "0 \<le> f * f * (3 - 2 * f)" using f by (intro mult_nonneg_nonneg) auto
  ultimately show ?thesis by linarith
qed

lemma between_mix:
  fixes a b s :: real
  assumes "0 \<le> s" and "s \<le> 1"
  shows "min a b \<le> a * (1 - s) + b * s \<and> a * (1 - s) + b * s \<le> max a b"
proof -
  have lo: "min a b * (1 - s) \<le> a * (1 - s)" "min a b * s \<le> b * s" using assms by (auto intro!: mult_right_mono)
  have hi: "a * (1 - s) \<le> max a b * (1 - s)" "b * s \<le> max a b * s" using assms by (auto intro!: mult_right_mono)
  have "min a b * (1 - s) + min a b * s = min a b" "max a b * (1 - s) + max a b * s = max a b" by (simp_all add: algebra_simps)
  with lo hi show ?thesis by linarith
qed

lemma vnoise_between:
  "let i = \<lfloor>t / period\<rfloor> + seed * 374761 in
    min (hash01 i) (hash01 (i + 1)) \<le> vnoise t period seed \<and> vnoise t period seed \<le> max (hash01 i) (hash01 (i + 1))"
proof -
  define i where "i = \<lfloor>t / period\<rfloor>"
  define f where "f = t / period - of_int i"
  have f: "0 \<le> f" "f \<le> 1" using floor_correct [of "t / period"] unfolding f_def i_def by linarith+
  have "i + 1 + seed * 374761 = i + seed * 374761 + 1" by simp
  then show ?thesis
    using between_mix [of "f * f * (3 - 2 * f)" "hash01 (i + seed * 374761)" "hash01 (i + seed * 374761 + 1)"] smooth_step [OF f]
    by (simp only: vnoise_def Let_def flip: i_def f_def)
qed

lemma vnoise_range: "0 \<le> vnoise t p s" "vnoise t p s < 1"
  using vnoise_between [of t p s] hash01_range(1) [of "\<lfloor>t / p\<rfloor> + s * 374761"] hash01_range(1) [of "\<lfloor>t / p\<rfloor> + s * 374761 + 1"]
    hash01_range(2) [of "\<lfloor>t / p\<rfloor> + s * 374761"] hash01_range(2) [of "\<lfloor>t / p\<rfloor> + s * 374761 + 1"]
  by (auto simp: Let_def)

lemma vnoise_lattice: "0 < p \<Longrightarrow> vnoise (of_int n * p) p s = hash01 (n + s * 374761)"
  by (simp add: vnoise_def)

section \<open>Rates and gauges\<close>

text \<open>What the installation fixes, and the calendar of the machine.\<close>

record mock_clock =
  mk_now0 :: int
  mk_installed_at :: int
  mk_process_start :: int
  mk_link_up_since :: int
  mk_conn_since :: int
  mk_hour :: "real \<Rightarrow> real"      \<comment> \<open>\<open>getHours() + getMinutes() / 60\<close> of a time\<close>
  mk_weekend :: "real \<Rightarrow> bool"   \<comment> \<open>\<open>getDay()\<close> is Sunday or Saturday\<close>

definition mock_clock_at :: "bool \<Rightarrow> int \<Rightarrow> (real \<Rightarrow> real) \<Rightarrow> (real \<Rightarrow> bool) \<Rightarrow> mock_clock" where
  "mock_clock_at fresh now hour weekend = (let installed = if fresh then now - 90000 else now - 32 * 86400000 in
     \<lparr>mk_now0 = now, mk_installed_at = installed,
      mk_process_start = (if fresh then now - 90000 else now - 5 * 3600000),
      mk_link_up_since = (if fresh then now - 60000 else now - js_round (32 / 10 * 3600000)),
      mk_conn_since = (if fresh then installed else now - 12 * 86400000),
      mk_hour = hour, mk_weekend = weekend\<rparr>)"

definition down_rate :: "mock_clock \<Rightarrow> real \<Rightarrow> real" where
  "down_rate k t = (if t < of_int (mk_installed_at k) then 0 else
     let h = mk_hour k t;
         evening = exp (- ((h - 20.5) ^ 2) / 7);
         afternoon = 0.5 * exp (- ((h - 15.5) ^ 2) / 18);
         weekend = (if mk_weekend k t then 1.5 else 1);
         diurnal = 0.06 + (evening + afternoon) * weekend;
         n = 0.45 + 1.2 * vnoise t 95000 1 * vnoise t 660000 2;
         flutter = 0.8 + 0.45 * vnoise t 4200 6;
         spike = (if 0.82 < vnoise t 420000 3 then 2.6 + 2 * vnoise t 40000 4 else 1)
     in 250 * 1024 * diurnal * n * flutter * spike)"

definition up_rate :: "mock_clock \<Rightarrow> real \<Rightarrow> real" where
  "up_rate k t = down_rate k t / 100 * (0.8 + 0.4 * vnoise t 30000 5)"

definition conn_count :: "mock_clock \<Rightarrow> real \<Rightarrow> int" where
  "conn_count k t = max 0 (min 12 \<lfloor>down_rate k t / (45 * 1024) + 2.5 * vnoise t 240000 7\<rfloor>)"

definition rtt_ms :: "mock_clock \<Rightarrow> real \<Rightarrow> real" where
  "rtt_ms k t = 18 + 10 * vnoise t 180000 8 + 8 * vnoise t 26000 9 + down_rate k t / (250 * 1024) * 6"

definition loss_blip :: "real \<Rightarrow> real" where
  "loss_blip t = (if 0.9 < vnoise t 60000 13 then 0.4 else 0)"

lemma down_rate_pos: "of_int (mk_installed_at k) \<le> t \<Longrightarrow> 0 < down_rate k t"
proof -
  assume "of_int (mk_installed_at k) \<le> t"
  moreover have "0 \<le> vnoise t 95000 1 * vnoise t 660000 2" by (intro mult_nonneg_nonneg vnoise_range)
  moreover have "0 \<le> vnoise t 4200 6" "0 \<le> vnoise t 40000 4" by (rule vnoise_range)+
  moreover have "0 < 0.06 + (exp (- ((h - 20.5) ^ 2) / 7) + 0.5 * exp (- ((h - 15.5) ^ 2) / 18)) * w" if "1 \<le> w" for h w :: real
    using that by (intro add_pos_nonneg mult_nonneg_nonneg add_nonneg_nonneg) auto
  ultimately show ?thesis by (auto simp: down_rate_def Let_def intro!: mult_pos_pos add_pos_nonneg)
qed

lemma down_rate_nonneg: "0 \<le> down_rate k t"
  using down_rate_pos [of k t] by (cases "t < of_int (mk_installed_at k)") (auto simp: down_rate_def)

lemma up_rate_bounds: "0.008 * down_rate k t \<le> up_rate k t" "up_rate k t \<le> 0.012 * down_rate k t"
proof -
  have "down_rate k t * (0.8 / 100) \<le> down_rate k t * ((0.8 + 0.4 * vnoise t 30000 5) / 100)"
    and "down_rate k t * ((0.8 + 0.4 * vnoise t 30000 5) / 100) \<le> down_rate k t * (1.2 / 100)"
    using vnoise_range [of t 30000 5] by (intro mult_left_mono down_rate_nonneg; simp)+
  then show "0.008 * down_rate k t \<le> up_rate k t" "up_rate k t \<le> 0.012 * down_rate k t" by (simp_all add: up_rate_def mult.commute)
qed

lemma conn_count_range: "0 \<le> conn_count k t" "conn_count k t \<le> 12"
  by (simp_all add: conn_count_def)

lemma rtt_ms_ge: "18 \<le> rtt_ms k t"
  using vnoise_range(1) [of t 180000 8] vnoise_range(1) [of t 26000 9] down_rate_nonneg [of k t] by (simp add: rtt_ms_def)


section \<open>Histories\<close>

text \<open>Four samples per bucket, and their open, high, low and close.\<close>

definition samples :: "(real \<Rightarrow> 'a) \<Rightarrow> int \<Rightarrow> int \<Rightarrow> 'a list" where
  "samples f t bms = map (\<lambda>i. f (of_int t + (i + 0.5) * of_int bms / 4)) [0, 1, 2, 3]"

definition mean :: "real list \<Rightarrow> real" where
  "mean vs = sum_list vs / of_nat (length vs)"

definition high :: "real list \<Rightarrow> real" where
  "high vs = max_of (hd vs) vs"

definition low :: "real list \<Rightarrow> real" where
  "low vs = min_of (hd vs) vs"

definition mock_bucket :: "mock_clock \<Rightarrow> int \<Rightarrow> int \<Rightarrow> int \<Rightarrow> bucket" where
  "mock_bucket k now bms t = (let rs = samples (down_rate k) t bms; us = samples (up_rate k) t bms;
       dur = of_int (min bms (max 0 (now - t))) / 1000;
       before = t + bms \<le> mk_conn_since k;
       cs = samples (conn_count k) t bms; ps = samples (rtt_ms k) t bms;
       pls = map (\<lambda>c. max 0 (c - (if 2 < c then 1 else 0))) cs;
       ls = samples loss_blip t bms;
       g = (\<lambda>v. if before then -1 else v); reals = map real_of_int in
     \<lparr>b_t = t, b_in = js_round (mean us * dur), b_out = js_round (mean rs * dur),
      b_io = us ! 0, b_ih = high us, b_il = low us, b_ic = us ! 3,
      b_oo = rs ! 0, b_oh = high rs, b_ol = low rs, b_oc = rs ! 3,
      b_co = g (reals cs ! 0), b_ch = g (high (reals cs)), b_cl = g (low (reals cs)), b_cc = g (reals cs ! 3),
      b_ro = g (ps ! 0), b_rh = g (high ps), b_rl = g (low ps), b_rc = g (ps ! 3),
      b_po = g (reals pls ! 0), b_ph = g (high (reals pls)), b_pl = g (low (reals pls)), b_pc = g (reals pls ! 3),
      b_lo = g (ls ! 0), b_lh = g (high ls), b_ll = g (low ls), b_lc = g (ls ! 3)\<rparr>)"

definition clamp_buckets :: "int \<Rightarrow> int" where
  "clamp_buckets m = max 1 (min 300 (if m = 0 then 300 else m))"

text \<open>Width of a bucket, start of the first, and the window reported back.\<close>

definition history_frame :: "mock_clock \<Rightarrow> int \<Rightarrow> int \<Rightarrow> int \<Rightarrow> int \<times> int \<times> int" where
  "history_frame k now window m = (if window = 0
     then let t0 = mk_installed_at k div 86400000 * 86400000 in (86400000, t0, now - t0)
     else let bms = max 50 (\<lceil>real_of_int window / of_int (clamp_buckets m) / 50\<rceil> * 50) in
       (bms, (now - window) div bms * bms, window))"

definition bandwidth_history :: "mock_clock \<Rightarrow> int \<Rightarrow> int \<Rightarrow> int \<Rightarrow> history_result" where
  "bandwidth_history k now window m = (case history_frame k now window m of (bms, t0, w) \<Rightarrow>
     \<lparr>hist_window_ms = w, hist_bucket_ms = bms,
      hist_buckets = map (mock_bucket k now bms) (filter (\<lambda>t. \<not> t + bms \<le> mk_installed_at k) (loop_values t0 now bms))\<rparr>)"

text \<open>The share and the round trip of each agent of the fleet.\<close>

definition agent_scales :: "(string \<times> real \<times> real) list" where
  "agent_scales = [(''agentid'', 1, 24), (''7788990011223344aabbccddeeff0011'', 0.4, 74),
     (''ccddeeff001122334455667788990011'', 0.06, 180), (''aa00bb11cc22dd33ee44ff5566778899'', 0.6, 30),
     (''f0e1d2c3b4a5968778695a4b3c2d1e0f'', 0.25, 55)]"

definition agent_scale :: "string \<Rightarrow> real \<times> real" where
  "agent_scale i = (case map_of agent_scales i of Some s \<Rightarrow> s | None \<Rightarrow> (0.25, 40))"

definition scale_gauge :: "real \<Rightarrow> real \<Rightarrow> real" where
  "scale_gauge factor v = (if 0 \<le> v then of_int (js_round (v * factor)) else -1)"

definition scale_bucket :: "real \<Rightarrow> real \<Rightarrow> bucket \<Rightarrow> bucket" where
  "scale_bucket f kk b = (let g = scale_gauge f; r = (\<lambda>v. if 0 \<le> b_ro b then v * kk else v) in
     b\<lparr>b_out := js_round (of_int (b_out b) * f), b_in := js_round (of_int (b_in b) * f),
       b_oo := b_oo b * f, b_oh := b_oh b * f, b_ol := b_ol b * f, b_oc := b_oc b * f,
       b_io := b_io b * f, b_ih := b_ih b * f, b_il := b_il b * f, b_ic := b_ic b * f,
       b_co := g (b_co b), b_ch := g (b_ch b), b_cl := g (b_cl b), b_cc := g (b_cc b),
       b_po := g (b_po b), b_ph := g (b_ph b), b_pl := g (b_pl b), b_pc := g (b_pc b),
       b_ro := r (b_ro b), b_rh := r (b_rh b), b_rl := r (b_rl b), b_rc := r (b_rc b)\<rparr>)"

definition agent_bandwidth :: "mock_clock \<Rightarrow> int \<Rightarrow> string \<Rightarrow> int \<Rightarrow> int \<Rightarrow> history_result" where
  "agent_bandwidth k now i window m = (case agent_scale i of (factor, rtt) \<Rightarrow>
     let h = bandwidth_history k now window m in h\<lparr>hist_buckets := map (scale_bucket factor (rtt / 24)) (hist_buckets h)\<rparr>)"

section \<open>What a bucket is\<close>

text \<open>A quadruple of open, high, low and close is a candle; a gauge is a candle of values from zero up, or
  unknown throughout.\<close>

definition candle :: "real \<Rightarrow> real \<Rightarrow> real \<Rightarrow> real \<Rightarrow> bool" where
  "candle op hi lo cl \<longleftrightarrow> 0 \<le> lo \<and> lo \<le> op \<and> op \<le> hi \<and> lo \<le> cl \<and> cl \<le> hi"

definition gauge_candle :: "real \<Rightarrow> real \<Rightarrow> real \<Rightarrow> real \<Rightarrow> bool" where
  "gauge_candle op hi lo cl \<longleftrightarrow> candle op hi lo cl \<or> (op = -1 \<and> hi = -1 \<and> lo = -1 \<and> cl = -1)"

definition bucket_ok :: "bucket \<Rightarrow> bool" where
  "bucket_ok b \<longleftrightarrow> 0 \<le> b_in b \<and> 0 \<le> b_out b
     \<and> candle (b_io b) (b_ih b) (b_il b) (b_ic b) \<and> candle (b_oo b) (b_oh b) (b_ol b) (b_oc b)
     \<and> gauge_candle (b_co b) (b_ch b) (b_cl b) (b_cc b) \<and> gauge_candle (b_ro b) (b_rh b) (b_rl b) (b_rc b)
     \<and> gauge_candle (b_po b) (b_ph b) (b_pl b) (b_pc b) \<and> gauge_candle (b_lo b) (b_lh b) (b_ll b) (b_lc b)
     \<and> (b_co b < 0 \<longleftrightarrow> b_ro b < 0) \<and> (b_co b < 0 \<longleftrightarrow> b_po b < 0) \<and> (b_co b < 0 \<longleftrightarrow> b_lo b < 0)"

lemma length_samples [simp]: "length (samples f t bms) = 4"
  by (simp add: samples_def)

lemma samples_all: "(\<And>u. P (f u)) \<Longrightarrow> \<forall>v \<in> set (samples f t bms). P v"
  by (simp add: samples_def)

lemma candle_of:
  assumes "length vs = 4" and "\<forall>v \<in> set vs. 0 \<le> v"
  shows "candle (vs ! 0) (high vs) (low vs) (vs ! 3)"
proof -
  from assms(1) have "vs ! 0 \<in> set vs" "vs ! 3 \<in> set vs" "hd vs \<in> set vs" by (auto intro: nth_mem hd_in_set)
  moreover have "low vs \<in> set vs" using min_of_in [of "hd vs" vs] \<open>hd vs \<in> set vs\<close> by (auto simp: low_def)
  ultimately show ?thesis
    using assms(2) min_of_le_all [of "hd vs" vs] max_of_ge_all [of "hd vs" vs] by (auto simp: candle_def low_def high_def)
qed

lemma gauge_candle_of:
  assumes "length vs = 4" and "\<forall>v \<in> set vs. 0 \<le> v"
  shows "gauge_candle (if p then -1 else vs ! 0) (if p then -1 else high vs) (if p then -1 else low vs) (if p then -1 else vs ! 3)"
  using candle_of [OF assms] by (simp add: gauge_candle_def)

lemma mean_nonneg: "\<forall>v \<in> set vs. 0 \<le> v \<Longrightarrow> 0 \<le> mean vs"
  by (auto simp: mean_def intro!: divide_nonneg_nonneg sum_list_nonneg)


lemma mock_bucket_ok:
  assumes "0 < bms"
  shows "bucket_ok (mock_bucket k now bms t)"
proof -
  let ?cs = "map real_of_int (samples (conn_count k) t bms)"
  let ?pls = "map real_of_int (map (\<lambda>c. max 0 (c - (if 2 < c then 1 else 0))) (samples (conn_count k) t bms))"
  have nn: "\<forall>v \<in> set (samples (down_rate k) t bms). 0 \<le> v" "\<forall>v \<in> set (samples (up_rate k) t bms). 0 \<le> v"
    "\<forall>v \<in> set ?cs. 0 \<le> v" "\<forall>v \<in> set (samples (rtt_ms k) t bms). 0 \<le> v" "\<forall>v \<in> set ?pls. 0 \<le> v"
    "\<forall>v \<in> set (samples loss_blip t bms). 0 \<le> v"
    using up_rate_bounds(1) [of k] down_rate_nonneg [of k] rtt_ms_ge [of k] conn_count_range(1) [of k]
    by (auto simp: samples_def loss_blip_def intro: order_trans [OF _ up_rate_bounds(1)] order_trans [OF _ rtt_ms_ge])
  have dur: "0 \<le> real_of_int (min bms (max 0 (now - t))) / 1000" using assms by simp
  have first: "0 \<le> ?cs ! 0" "0 \<le> samples (rtt_ms k) t bms ! 0" "0 \<le> ?pls ! 0" "0 \<le> samples loss_blip t bms ! 0"
    using nn(3-6) by (auto intro!: bspec [OF _ nth_mem])
  show ?thesis
    unfolding bucket_ok_def mock_bucket_def Let_def bucket.simps
    using candle_of [OF _ nn(1)] candle_of [OF _ nn(2)] gauge_candle_of [OF _ nn(3)] gauge_candle_of [OF _ nn(4)]
      gauge_candle_of [OF _ nn(5)] gauge_candle_of [OF _ nn(6)] first mean_nonneg [OF nn(1)] mean_nonneg [OF nn(2)] dur
    by (auto intro!: js_round_nonneg mult_nonneg_nonneg)
qed

lemma scale_candle: "candle op hi lo cl \<Longrightarrow> 0 \<le> f \<Longrightarrow> candle (op * f) (hi * f) (lo * f) (cl * f)"
  by (auto simp: candle_def intro: mult_right_mono)

lemma scale_gauge_candle:
  assumes "gauge_candle op hi lo cl" and "0 \<le> f"
  shows "gauge_candle (scale_gauge f op) (scale_gauge f hi) (scale_gauge f lo) (scale_gauge f cl)"
proof -
  have mono: "js_round (v * f) \<le> js_round (w * f)" if "v \<le> w" for v w
    using that assms(2) by (simp add: js_round_mono mult_right_mono)
  have "candle (scale_gauge f op) (scale_gauge f hi) (scale_gauge f lo) (scale_gauge f cl)" if c: "candle op hi lo cl"
  proof -
    from c have "0 \<le> lo" "0 \<le> op" "0 \<le> hi" "0 \<le> cl" by (auto simp: candle_def)
    with c assms(2) mono show ?thesis by (auto simp: candle_def scale_gauge_def intro!: js_round_nonneg)
  qed
  moreover have "scale_gauge f (-1) = -1" by (simp add: scale_gauge_def)
  ultimately show ?thesis using assms(1) by (auto simp: gauge_candle_def)
qed

lemma scale_gauge_known: "scale_gauge f v < 0 \<longleftrightarrow> v < 0" if "0 \<le> f"
  using that js_round_nonneg [of "v * f"] by (auto simp: scale_gauge_def)

lemma scale_bucket_ok:
  assumes "bucket_ok b" and "0 \<le> f" and "0 \<le> kk"
  shows "bucket_ok (scale_bucket f kk b)"
proof -
  have rtt: "gauge_candle (if 0 \<le> b_ro b then b_ro b * kk else b_ro b) (if 0 \<le> b_ro b then b_rh b * kk else b_rh b)
      (if 0 \<le> b_ro b then b_rl b * kk else b_rl b) (if 0 \<le> b_ro b then b_rc b * kk else b_rc b)"
    using assms(1,3) scale_candle [of "b_ro b" "b_rh b" "b_rl b" "b_rc b" kk] by (auto simp: bucket_ok_def gauge_candle_def)
  show ?thesis
    using assms rtt by (auto simp: bucket_ok_def scale_bucket_def Let_def scale_gauge_known mult_less_0_iff
        intro: js_round_nonneg scale_candle scale_gauge_candle mult_nonneg_nonneg)
qed

section \<open>Starts of buckets\<close>

fun steps_by :: "int \<Rightarrow> int list \<Rightarrow> bool" where
  "steps_by d (x # y # zs) \<longleftrightarrow> y = x + d \<and> steps_by d (y # zs)"
| "steps_by d xs \<longleftrightarrow> True"

lemma steps_by_loop: "0 < d \<Longrightarrow> steps_by d (loop_values a b d)"
proof (induction "nat (b + 1 - a)" arbitrary: a rule: less_induct)
  case less
  show ?case
  proof (cases "a \<le> b")
    case True
    with less have "steps_by d (loop_values (a + d) b d)" by simp
    moreover have "loop_values (a + d) b d = (if a + d \<le> b then (a + d) # loop_values (a + d + d) b d else [])"
      using less.prems loop_values_step [of d "a + d" b] by (auto simp: loop_values_def)
    ultimately show ?thesis using loop_values_step [OF less.prems True] by auto
  qed (simp add: loop_values_def)
qed

lemma filter_sorted: "sorted_wrt (<) xs \<Longrightarrow> filter (\<lambda>t. \<not> t + d \<le> c) xs = dropWhile (\<lambda>t. t + d \<le> c) xs"
  for xs :: "int list"
proof (induction xs)
  case (Cons x xs)
  show ?case
  proof (cases "x + d \<le> c")
    case False
    with Cons.prems have "\<forall>t \<in> set xs. \<not> t + d \<le> c" by auto
    with False show ?thesis by (simp add: filter_id_conv)
  qed (use Cons in simp)
qed simp

lemma steps_by_tail: "steps_by d (x # xs) \<Longrightarrow> steps_by d xs"
  by (cases xs) auto

lemma steps_by_dropWhile: "steps_by d xs \<Longrightarrow> steps_by d (dropWhile P xs)"
  by (induction xs) (auto dest: steps_by_tail)

lemma coverage_from_steps:
  "0 < ms \<Longrightarrow> steps_by ms (t # map b_t bs) \<Longrightarrow> coverage_from ms (Some (a, t + ms)) bs = [(a, t + ms + int (length bs) * ms)]"
proof (induction bs arbitrary: t)
  case (Cons b bs)
  then have "b_t b = t + ms" "steps_by ms (b_t b # map b_t bs)" by auto
  with Cons.IH [of "b_t b"] Cons.prems show ?case by (simp add: algebra_simps)
qed simp

lemma last_step: "steps_by d (x # xs) \<Longrightarrow> last (x # xs) = x + int (length xs) * d"
proof (induction xs arbitrary: x)
  case (Cons y ys)
  then show ?case using Cons.IH [of y] by (auto simp: algebra_simps)
qed simp

lemma coverage_steps:
  assumes "0 < ms" and "steps_by ms (map b_t bs)" and "bs \<noteq> []"
  shows "coverage_runs bs ms = [(b_t (hd bs), b_t (last bs) + ms)]"
proof (cases bs)
  case (Cons b cs)
  with assms have st: "steps_by ms (b_t b # map b_t cs)" by simp
  from coverage_from_steps [OF assms(1) this, of "b_t b"] last_step [OF st] Cons show ?thesis
    by (simp add: coverage_runs_def last_map split: if_splits)
qed (use assms in simp)


lemma in_loop_values:
  assumes "0 < d" and "a \<le> t" and "t \<le> b" and "d dvd t - a"
  shows "t \<in> set (loop_values a b d)"
proof -
  from assms(4) obtain q where q: "t - a = d * q" by (rule dvdE)
  with assms have "0 \<le> q" by (metis diff_ge_0_iff_ge mult.commute zero_le_mult_iff order_less_le not_le)
  moreover have "(t - a) div d \<le> (b - a) div d" using assms(1,3) by (intro zdiv_mono1) auto
  then have "q \<le> (b - a) div d" using assms(1) by (simp add: q)
  ultimately have "nat q < Suc (nat ((b - a) div d))" by simp
  moreover have "t = a + int (nat q) * d" using q \<open>0 \<le> q\<close> by (simp add: mult.commute)
  ultimately have "t \<in> (\<lambda>k. a + int k * d) ` {0..<Suc (nat ((b - a) div d))}" by (intro image_eqI [of _ _ "nat q"]) simp_all
  then show ?thesis using assms(1-3) by (simp add: loop_values_def del: upt_Suc)
qed

lemma frame_spec:
  assumes "history_frame k now window m = (bms, t0, w)" and "0 \<le> window" and "mk_installed_at k \<le> now"
  shows "0 < bms" and "bms dvd t0" and "t0 \<le> now - w" and "t0 \<le> now"
    and "window \<noteq> 0 \<Longrightarrow> now - w < t0 + bms \<and> w \<le> clamp_buckets m * bms \<and> w = window"
proof -
  have cl: "0 < clamp_buckets m" by (simp add: clamp_buckets_def)
  have pos: "0 < bms" using assms(1) by (auto simp: history_frame_def Let_def split: if_splits)
  then show "0 < bms" .
  show dvd: "bms dvd t0" using assms(1) by (auto simp: history_frame_def Let_def split: if_splits)
  have le: "a div b * b \<le> a" "a < a div b * b + b" if "0 < b" for a b :: int
    using that pos_mod_bound [of b a] pos_mod_sign [of b a] by (simp_all add: minus_mod_eq_div_mult [symmetric])
  show "t0 \<le> now - w"
    using assms(1) le(1) [OF pos, of "now - window"] by (auto simp: history_frame_def Let_def split: if_splits)
  then show "t0 \<le> now"
    using assms le(1) [of 86400000 "mk_installed_at k"] by (auto simp: history_frame_def Let_def split: if_splits)
  assume nz: "window \<noteq> 0"
  with assms(1) have b: "bms = max 50 (\<lceil>real_of_int window / of_int (clamp_buckets m) / 50\<rceil> * 50)"
    and t: "t0 = (now - window) div bms * bms" and w: "w = window"
    by (auto simp: history_frame_def Let_def split: if_splits)
  have "real_of_int window / of_int (clamp_buckets m) / 50 \<le> of_int \<lceil>real_of_int window / of_int (clamp_buckets m) / 50\<rceil>"
    by (rule le_of_int_ceiling)
  then have "real_of_int window / of_int (clamp_buckets m) \<le> of_int (\<lceil>real_of_int window / of_int (clamp_buckets m) / 50\<rceil> * 50)"
    unfolding of_int_mult of_int_numeral by (rule pos_divide_le_eq [THEN iffD1, rotated]) simp
  also have "\<dots> \<le> of_int bms" unfolding b by (simp only: of_int_le_iff)
  finally have "real_of_int window \<le> of_int (clamp_buckets m * bms)" using cl by (simp add: divide_le_eq mult.commute)
  then have "window \<le> clamp_buckets m * bms" by (simp only: of_int_le_iff)
  then show "now - w < t0 + bms \<and> w \<le> clamp_buckets m * bms \<and> w = window"
    using le(2) [OF pos, of "now - window"] by (simp add: t w)
qed

lemma map_start_buckets: "map b_t (map (mock_bucket k now bms) ts) = ts"
  by (simp add: mock_bucket_def Let_def comp_def)

lemma map_start_scaled: "map b_t (map (scale_bucket f kk) bs) = map b_t bs"
  by (simp add: scale_bucket_def Let_def comp_def)

lemma history_starts:
  assumes "0 < bms"
  shows "steps_by bms (filter (\<lambda>t. \<not> t + bms \<le> c) (loop_values t0 now bms))"
  unfolding filter_sorted [OF sorted_loop_values [OF assms]] by (rule steps_by_dropWhile [OF steps_by_loop [OF assms]])

section \<open>Properties\<close>

text \<open>The hash is a permutation of the 32-bit words, so no two seeds of the mock share a value, and the noise
  between two lattice points never leaves the interval of their hashes.\<close>

theorem hash_is_permutation:
  "(hash01 m = hash01 n \<longleftrightarrow> m mod 2 ^ 32 = n mod 2 ^ 32) \<and> 0 \<le> hash01 n \<and> hash01 n < 1
   \<and> (let i = \<lfloor>t / period\<rfloor> + seed * 374761 in
      min (hash01 i) (hash01 (i + 1)) \<le> vnoise t period seed \<and> vnoise t period seed \<le> max (hash01 i) (hash01 (i + 1)))"
  using hash01_eq_iff hash01_range vnoise_between by blast

text \<open>A history the mock answers with has well-formed buckets on one grid, one for every moment of the window
  since the installation, without a hole in the chart's coverage, and no more than were asked for and one.\<close>

theorem mock_history_covers:
  assumes "0 \<le> window" and "mk_installed_at k \<le> now" and "h = bandwidth_history k now window m"
    and "bs = hist_buckets h" and "bms = hist_bucket_ms h"
  shows "(\<forall>b \<in> set bs. bucket_ok b \<and> bms dvd b_t b \<and> b_t b \<le> now)
    \<and> (\<forall>u. now - hist_window_ms h \<le> u \<and> mk_installed_at k \<le> u \<and> u \<le> now \<longrightarrow> (\<exists>b \<in> set bs. b_t b \<le> u \<and> u < b_t b + bms))
    \<and> coverage_runs bs bms = (if bs = [] then [] else [(b_t (hd bs), b_t (last bs) + bms)])
    \<and> (window \<noteq> 0 \<longrightarrow> int (length bs) \<le> clamp_buckets m + 1)"
proof -
  obtain t0 w where fr: "history_frame k now window m = (bms, t0, w)"
    using assms by (auto simp: bandwidth_history_def split: prod.splits)
  note spec = frame_spec [OF this assms(1,2)]
  let ?ts = "filter (\<lambda>t. \<not> t + bms \<le> mk_installed_at k) (loop_values t0 now bms)"
  have bs: "bs = map (mock_bucket k now bms) ?ts" and w: "hist_window_ms h = w"
    using assms(3,4) fr by (simp_all add: bandwidth_history_def)
  have start: "b_t (mock_bucket k now bms t) = t" for t by (simp add: mock_bucket_def Let_def)
  have "\<forall>b \<in> set bs. bucket_ok b \<and> bms dvd b_t b \<and> b_t b \<le> now"
  proof
    fix b assume "b \<in> set bs"
    then obtain t where t: "b = mock_bucket k now bms t" "t \<in> set (loop_values t0 now bms)" by (auto simp: bs)
    from set_loop_values [OF t(2) spec(1)] have "bms dvd t - t0" "t \<le> now" by auto
    with dvd_add [OF this(1) spec(2)] have "bms dvd t" by simp
    with \<open>t \<le> now\<close> show "bucket_ok b \<and> bms dvd b_t b \<and> b_t b \<le> now" using mock_bucket_ok [OF spec(1)] by (simp add: t(1) start)
  qed
  moreover have "\<exists>b \<in> set bs. b_t b \<le> u \<and> u < b_t b + bms" if u: "now - w \<le> u" "mk_installed_at k \<le> u" "u \<le> now" for u
  proof -
    define t where "t = u - (u - t0) mod bms"
    have "t - t0 = (u - t0) - (u - t0) mod bms" by (simp add: t_def)
    then have "bms dvd t - t0" by (simp only: dvd_minus_mod)
    moreover have t: "t \<le> u" "u < t + bms"
      using pos_mod_sign [OF spec(1), of "u - t0"] pos_mod_bound [OF spec(1), of "u - t0"] unfolding t_def by linarith+
    moreover have "t0 \<le> t"
    proof -
      have "0 \<le> u - t0" using u(1) spec(3) by linarith
      then have "(u - t0) mod bms \<le> u - t0" using spec(1) by (simp add: zmod_le_nonneg_dividend)
      then show ?thesis by (simp add: t_def)
    qed
    ultimately have "t \<in> set ?ts" using in_loop_values [OF spec(1), of t0 t now] u by auto
    with t show ?thesis by (force simp: bs start)
  qed
  moreover have "coverage_runs bs bms = (if bs = [] then [] else [(b_t (hd bs), b_t (last bs) + bms)])"
    using coverage_steps [OF spec(1), of bs] history_starts [OF spec(1), of "mk_installed_at k" t0 now]
    unfolding bs map_start_buckets by (auto simp: coverage_runs_def)
  moreover have "int (length bs) \<le> clamp_buckets m + 1" if "window \<noteq> 0"
  proof -
    have "length bs \<le> length (loop_values t0 now bms)" by (simp add: bs)
    then have len: "int (length bs) \<le> (now - t0) div bms + 1" using length_loop_values [OF spec(1,4)] by linarith
    have "now - t0 < (clamp_buckets m + 1) * bms" using spec(5) [OF that] by (simp add: algebra_simps)
    moreover have "(now - t0) div bms * bms \<le> now - t0" using spec(1) by (simp add: minus_mod_eq_div_mult [symmetric])
    ultimately have "(now - t0) div bms * bms < (clamp_buckets m + 1) * bms" by linarith
    then have "(now - t0) div bms < clamp_buckets m + 1" by (rule mult_right_less_imp_less) (use spec(1) in simp)
    with len show ?thesis by linarith
  qed
  ultimately show ?thesis by (simp add: w)
qed

text \<open>The history of one agent has the grid of the gateway's, well-formed buckets, and knows its gauges exactly
  where the gateway's knows them.\<close>

theorem agent_history_aligned:
  assumes "h = bandwidth_history k now window m" and "a = agent_bandwidth k now i window m" and "0 < hist_bucket_ms h"
  shows "map b_t (hist_buckets a) = map b_t (hist_buckets h) \<and> (\<forall>b \<in> set (hist_buckets a). bucket_ok b)
    \<and> map (\<lambda>b. b_co b < 0) (hist_buckets a) = map (\<lambda>b. b_co b < 0) (hist_buckets h)"
proof -
  obtain f r where s: "agent_scale i = (f, r)" by (rule prod.exhaust)
  have "(i, s) \<in> set agent_scales \<Longrightarrow> 0 \<le> fst s \<and> 0 \<le> snd s" for s by (auto simp: agent_scales_def)
  with s have pos: "0 \<le> f" "0 \<le> r" by (auto simp: agent_scale_def split: option.splits dest!: map_of_SomeD)
  have a: "hist_buckets a = map (scale_bucket f (r / 24)) (hist_buckets h)" using assms(1,2) s by (simp add: agent_bandwidth_def Let_def)
  have ok: "\<forall>b \<in> set (hist_buckets h). bucket_ok b"
    using assms(1,3) mock_bucket_ok by (auto simp: bandwidth_history_def split: prod.splits)
  have "b_co (scale_bucket f (r / 24) b) = scale_gauge f (b_co b)" for b by (simp add: scale_bucket_def Let_def)
  moreover have "b_t (scale_bucket f (r / 24) b) = b_t b" for b by (simp add: scale_bucket_def Let_def)
  ultimately show ?thesis using ok pos by (auto simp: a scale_gauge_known intro!: scale_bucket_ok)
qed


definition sample_clock :: mock_clock where
  "sample_clock = mock_clock_at True 100000 (\<lambda>_. 12) (\<lambda>_. False)"

theorem mock_history_covers_witness:
  "int (length (hist_buckets (bandwidth_history sample_clock 100000 1000 10))) \<le> clamp_buckets 10 + 1"
  using mock_history_covers [of 1000 sample_clock 100000 _ 10 "hist_buckets (bandwidth_history sample_clock 100000 1000 10)"]
  by (simp add: sample_clock_def mock_clock_at_def)

theorem agent_history_aligned_witness:
  "map b_t (hist_buckets (agent_bandwidth sample_clock 100000 ''agentid'' 1000 10)) = map b_t (hist_buckets (bandwidth_history sample_clock 100000 1000 10))"
  using agent_history_aligned [of _ sample_clock 100000 1000 10 _ "''agentid''"]
  by (simp add: bandwidth_history_def history_frame_def Let_def)

end
