(* ===== verification/Overview.thy ===== *)
theory Overview
  imports Roster
begin

text \<open>
  The Overview screen (\<open>screens/Overview.tsx\<close>): the three stations of the pipeline and the conduits
  between them, the ignite moment, the health panel, the latency probe, the headline numbers, the
  identity cards, the address to hand to players and the masked pairing code. \<open>Date.now()\<close> is \<open>now\<close>.
\<close>

section \<open>The pipeline\<close>

definition status_tunnels :: "ui_status \<Rightarrow> tunnel_ui list" where
  "status_tunnels st = (case st_tunnels st of None \<Rightarrow> [] | Some ts \<Rightarrow> ts)"

definition status_conns :: "ui_status \<Rightarrow> conn_ui list" where
  "status_conns st = (case st_connections st of None \<Rightarrow> [] | Some cs \<Rightarrow> cs)"

definition first_tunnel :: "ui_status \<Rightarrow> tunnel_ui option" where
  "first_tunnel st = (case status_tunnels st of [] \<Rightarrow> None | t # _ \<Rightarrow> Some t)"

definition is_agent :: "ui_status \<Rightarrow> bool" where
  "is_agent st \<longleftrightarrow> st_role st = ''agent''"

definition port_bound :: "ui_status \<Rightarrow> bool" where
  "port_bound st \<longleftrightarrow> (case first_tunnel st of Some t \<Rightarrow> 0 < tun_public_port t | None \<Rightarrow> False)"

definition local_state :: "ui_status \<Rightarrow> string" where
  "local_state st = (case first_tunnel st of None \<Rightarrow> ''unknown''
   | Some t \<Rightarrow> if \<not> tun_local_known t then ''unknown'' else if tun_local_up t then ''good'' else ''bad'')"

definition link_state :: "ui_status \<Rightarrow> string" where
  "link_state st = (if is_agent st then (if st_link_up st then ''good'' else ''bad'')
     else (if st_agent_connected st then ''good'' else ''warn''))"

definition port_state :: "ui_status \<Rightarrow> string" where
  "port_state st = (if is_agent st then (if port_bound st then ''good'' else ''unknown'')
     else (if status_tunnels st \<noteq> [] \<or> st_agent_connected st then ''good'' else ''unknown''))"

definition link_flowing :: "ui_status \<Rightarrow> bool" where
  "link_flowing st \<longleftrightarrow> link_state st = ''good''"

definition app_bytes :: "ui_status \<Rightarrow> int" where
  "app_bytes st = st_total_bytes_in st + st_total_bytes_out st"

definition link_bytes :: "ui_status \<Rightarrow> int" where
  "link_bytes st = st_link_bytes_in st + st_link_bytes_out st"

definition left_hop :: "ui_status \<Rightarrow> int" where
  "left_hop st = (if is_agent st then app_bytes st else link_bytes st)"

definition right_hop :: "ui_status \<Rightarrow> int" where
  "right_hop st = (if is_agent st then link_bytes st else app_bytes st)"

record station =
  pn_title :: string
  pn_state :: string
  pn_headline :: string
  pn_detail :: string

definition left_station :: "ui_status \<Rightarrow> station" where
  "left_station st = (if is_agent st
     then \<lparr>pn_title = ''Local server'', pn_state = local_state st,
       pn_headline = (if local_state st = ''good'' then ''Online'' else if local_state st = ''bad'' then ''Not reachable'' else ''Checking'' @ ellipsis),
       pn_detail = (case first_tunnel st of Some t \<Rightarrow> if tun_local_up t then ''Minecraft is ready'' else ''Start your Minecraft server''
         | None \<Rightarrow> ''Start your Minecraft server'')\<rparr>
     else \<lparr>pn_title = ''Agent link'', pn_state = link_state st,
       pn_headline = (if st_agent_connected st then ''Connected'' else ''Waiting''),
       pn_detail = (if st_agent_connected st then ''Agent is dialed in'' else ''No agent connected yet'')\<rparr>)"

definition link_station :: "ui_status \<Rightarrow> station" where
  "link_station st = (if is_agent st
     then \<lparr>pn_title = ''Tunnel link'', pn_state = link_state st,
       pn_headline = (if st_link_up st then ''Connected'' else ''Reconnecting'' @ ellipsis),
       pn_detail = (if st_link_up st then show_int (st_rtt_millis st) @ '' ms round trip'' else ''Retrying with backoff'')\<rparr>
     else \<lparr>pn_title = ''Tunnel link'', pn_state = link_state st,
       pn_headline = (if st_agent_connected st then ''Active'' else ''Idle''),
       pn_detail = (if st_agent_connected st then ''Relaying player traffic'' else ''Listening for the agent'')\<rparr>)"

definition port_station :: "ui_status \<Rightarrow> station" where
  "port_station st = (let n = length (status_tunnels st) in if is_agent st
     then \<lparr>pn_title = ''Public port'', pn_state = port_state st,
       pn_headline = (case first_tunnel st of Some t \<Rightarrow> if 0 < tun_public_port t then ''Port '' @ show_int (tun_public_port t) else ''Not bound''
         | None \<Rightarrow> ''Not bound''),
       pn_detail = (if port_bound st then ''Players connect here'' else ''Waiting for the gateway'')\<rparr>
     else \<lparr>pn_title = ''Public port'', pn_state = port_state st,
       pn_headline = (if n \<noteq> 0 then show_nat n @ '' tunnel'' @ (if n = 1 then '''' else ''s'') else ''No ports''),
       pn_detail = (if n \<noteq> 0 then ''Open to players'' else ''Waiting for tunnels'')\<rparr>)"

definition sessions_line :: "ui_status \<Rightarrow> string" where
  "sessions_line st = (let n = length (status_conns st) in show_nat n @ '' live session'' @ (if n = 1 then '''' else ''s''))"

definition left_conduit_on :: "ui_status \<Rightarrow> bool" where
  "left_conduit_on st \<longleftrightarrow> link_flowing st \<and> (is_agent st \<longrightarrow> local_state st \<noteq> ''bad'')"

definition right_conduit_on :: "ui_status \<Rightarrow> bool" where
  "right_conduit_on st \<longleftrightarrow> link_flowing st \<and> port_state st = ''good''"

definition hop_label :: "int \<Rightarrow> string option" where
  "hop_label n = (if 0 < n then Some (fmt_bytes (of_int n)) else None)"

definition bleed_color :: "ui_status \<Rightarrow> string option" where
  "bleed_color st = (if link_state st = ''bad'' then Some ''bad'' else if link_state st = ''warn'' then Some ''warn'' else None)"

section \<open>The ignite moment\<close>

text \<open>The effect runs on mount and when \<open>flowing\<close> changes; its cleanup clears the timer it set.\<close>

record ignite =
  ig_was :: "bool option"
  ig_on :: bool
  ig_timer :: "int option"

definition ignite_init :: ignite where
  "ignite_init = \<lparr>ig_was = None, ig_on = False, ig_timer = None\<rparr>"

definition ignite_effect :: "bool \<Rightarrow> int \<Rightarrow> bool \<Rightarrow> ignite \<Rightarrow> ignite" where
  "ignite_effect reduced now flowing s = (let s' = s\<lparr>ig_was := Some flowing, ig_timer := None\<rparr> in
     if ig_was s = Some flowing then s
     else if ig_was s = Some False \<and> flowing \<and> \<not> reduced then s'\<lparr>ig_on := True, ig_timer := Some (now + 1400)\<rparr>
     else s')"

definition ignite_clock :: "int \<Rightarrow> ignite \<Rightarrow> ignite" where
  "ignite_clock now s = (case ig_timer s of Some t \<Rightarrow> if t \<le> now then s\<lparr>ig_on := False, ig_timer := None\<rparr> else s | None \<Rightarrow> s)"

section \<open>Headline numbers\<close>

definition link_uptime :: "int \<Rightarrow> ui_status \<Rightarrow> string" where
  "link_uptime now st = (if st_link_up_since_ms st \<noteq> 0 then fmt_uptime (now - st_link_up_since_ms st) else em_dash)"

definition uptime_sub :: "int \<Rightarrow> ui_status \<Rightarrow> string" where
  "uptime_sub now st = join_with mid_dot
     ((if st_process_start_ms st \<noteq> 0 then [''app '' @ fmt_uptime (now - st_process_start_ms st)] else [])
    @ (if st_cumulative_uptime_ms st \<noteq> 0 then [''all-time '' @ fmt_uptime (st_cumulative_uptime_ms st)] else []))"

definition link_linked :: "ui_status \<Rightarrow> bool" where
  "link_linked st \<longleftrightarrow> (if is_agent st then st_link_up st else st_agent_connected st)"

definition round_trip :: "ui_status \<Rightarrow> string" where
  "round_trip st = (if link_linked st then show_int (st_rtt_millis st) @ '' ms'' else em_dash)"

definition data_moved_sub :: "ui_status \<Rightarrow> string option" where
  "data_moved_sub st = (let n = st_all_time_bytes_in st + st_all_time_bytes_out st in
     if 0 < n then Some (''all-time '' @ fmt_bytes (of_int n)) else None)"

section \<open>Health\<close>

record health_panel =
  hp_score :: string
  hp_badge :: "(string \<times> string) option"
  hp_jitter :: "string \<times> string"
  hp_loss :: "string \<times> string"
  hp_rtt :: string

definition health_panel_of :: "ui_status \<Rightarrow> health_panel" where
  "health_panel_of st = (let score = (if st_health_score st = '''' then ''unknown'' else st_health_score st) in
     \<lparr>hp_score = score,
      hp_badge = (case (health_tone score, health_label score) of (Some t, Some l) \<Rightarrow> Some (t, l) | _ \<Rightarrow> None),
      hp_jitter = (fmt_ms (st_jitter_millis st), jitter_tone (st_jitter_millis st)),
      hp_loss = (fmt_loss_pct (st_packet_loss_pct st), loss_tone (st_packet_loss_pct st)),
      hp_rtt = round_trip st\<rparr>)"

text \<open>The score of an agent, as the development mock computes it.\<close>

definition agent_health_of :: "real \<Rightarrow> real \<Rightarrow> string" where
  "agent_health_of jitter loss = (if loss > 5 \<or> jitter > 100 then ''bad'' else if loss > 1 \<or> jitter > 30 then ''warn'' else ''good'')"

text \<open>The latency probe.\<close>

record probe =
  pr_open :: bool
  pr_res :: "latency_result option"
  pr_err :: string
  pr_busy :: bool

definition probe_mount :: probe where
  "probe_mount = \<lparr>pr_open = False, pr_res = None, pr_err = '''', pr_busy = False\<rparr>"

definition probe_run :: "bool \<Rightarrow> probe \<Rightarrow> probe" where
  "probe_run linked s = (if pr_busy s \<or> \<not> linked then s else s\<lparr>pr_busy := True, pr_err := '''', pr_res := None\<rparr>)"

definition probe_answer :: "string + latency_result \<Rightarrow> probe \<Rightarrow> probe" where
  "probe_answer r s = (if \<not> pr_busy s then s else case r of
     Inr v \<Rightarrow> s\<lparr>pr_res := Some v, pr_busy := False\<rparr> | Inl e \<Rightarrow> s\<lparr>pr_err := e, pr_busy := False\<rparr>)"

datatype probe_event = ProbeToggle | ProbeRun bool | ProbeAnswer "string + latency_result" | ProbeDismiss

fun probe_step :: "probe \<Rightarrow> probe_event \<Rightarrow> probe" where
  "probe_step s ProbeToggle = s\<lparr>pr_open := \<not> pr_open s\<rparr>"
| "probe_step s (ProbeRun linked) = probe_run linked s"
| "probe_step s (ProbeAnswer r) = probe_answer r s"
| "probe_step s ProbeDismiss = s\<lparr>pr_err := ''''\<rparr>"

definition probe_detail :: "latency_result \<Rightarrow> string" where
  "probe_detail r = ''round trip '' @ to_fixed 1 (lres_rtt_avg_ms r) @ '' ms ('' @ to_fixed 1 (lres_rtt_min_ms r)
     @ [CHR 0xE2, CHR 0x80, CHR 0x93] @ to_fixed 1 (lres_rtt_max_ms r) @ '')'' @ mid_dot @ ''jitter '' @ to_fixed 1 (lres_jitter_ms r)
     @ '' ms'' @ mid_dot @ show_int (lres_samples r) @ '' probes''"

definition probe_one_way :: "latency_result \<Rightarrow> string \<times> (string \<times> string) option" where
  "probe_one_way r = (to_fixed 1 (lres_one_way_estimate_ms r) @ '' ms'',
     if lres_have_one_way r then Some (to_fixed 1 (lres_one_way_up_ms r) @ '' ms'', to_fixed 1 (lres_one_way_down_ms r) @ '' ms'') else None)"

text \<open>A result and an error are never shown together, and none of them while a probe runs.\<close>

definition probe_inv :: "probe \<Rightarrow> bool" where
  "probe_inv s \<longleftrightarrow> (pr_res s \<noteq> None \<longrightarrow> pr_err s = '''') \<and> (pr_busy s \<longrightarrow> pr_res s = None \<and> pr_err s = '''')"

interpretation probe: invariant_machine probe_step probe_inv
proof unfold_locales
  fix s e assume "probe_inv s"
  then show "probe_inv (probe_step s e)"
    by (cases e) (auto simp: probe_inv_def probe_run_def probe_answer_def split: sum.splits)
qed

section \<open>Identities and addresses\<close>

definition identity_card :: "string \<Rightarrow> string \<Rightarrow> string list \<Rightarrow> string \<times> string \<times> string option" where
  "identity_card host ip lan = (let ls = filter (\<lambda>l. l \<noteq> '''') lan in
     (if host = '''' then em_dash else host, if ip = '''' then em_dash else ip,
      if ls = [] then None else Some (''LAN '' @ join_with '', '' ls)))"

text \<open>\<open>(peerAddr || '').split(':')[0] || peerPublicIp\<close>\<close>

definition player_host :: "ui_status \<Rightarrow> string" where
  "player_host st = (let h = takeWhile (\<lambda>c. c \<noteq> CHR '':'') (st_peer_addr st) in if h = '''' then st_peer_public_ip st else h)"

definition player_address :: "ui_status \<Rightarrow> string" where
  "player_address st = (case first_tunnel st of None \<Rightarrow> ''''
   | Some t \<Rightarrow> if 0 < tun_public_port t \<and> player_host st \<noteq> ''''
       then (if tun_public_port t = 25565 then player_host st else player_host st @ '':'' @ show_int (tun_public_port t)) else '''')"

text \<open>The pairing strip: the code is fetched on mount, with up to twelve retries three tenths of a second
  apart. \<open>gs_flight\<close> and \<open>gs_retry\<close> are the attempt of the outstanding request and of the pending timer.\<close>

record strip =
  gs_code :: string
  gs_err :: string
  gs_shown :: bool
  gs_mounted :: bool
  gs_flight :: "nat option"
  gs_retry :: "nat option"

definition strip_mount :: strip where
  "strip_mount = \<lparr>gs_code = '''', gs_err = '''', gs_shown = False, gs_mounted = True, gs_flight = Some 0, gs_retry = None\<rparr>"

definition strip_answer :: "string \<Rightarrow> strip \<Rightarrow> strip" where
  "strip_answer c s = (if gs_flight s = None then s else
     let s' = s\<lparr>gs_flight := None\<rparr> in if gs_mounted s then s'\<lparr>gs_code := c\<rparr> else s')"

definition strip_reject :: "string \<Rightarrow> strip \<Rightarrow> strip" where
  "strip_reject e s = (case gs_flight s of None \<Rightarrow> s
   | Some n \<Rightarrow> let s' = s\<lparr>gs_flight := None\<rparr> in
       if \<not> gs_mounted s then s' else if n < 12 then s'\<lparr>gs_retry := Some (n + 1)\<rparr> else s'\<lparr>gs_err := e\<rparr>)"

definition strip_timer :: "strip \<Rightarrow> strip" where
  "strip_timer s = (case gs_retry s of None \<Rightarrow> s | Some n \<Rightarrow> s\<lparr>gs_retry := None, gs_flight := Some n\<rparr>)"

datatype strip_event = StripAnswer string | StripReject string | StripTimer | Reveal | StripUnmount | EngineDown

text \<open>\<open>EngineDown\<close> stands for the next thing that happens while the engine does not answer.\<close>

fun strip_step :: "strip \<Rightarrow> strip_event \<Rightarrow> strip" where
  "strip_step s (StripAnswer c) = strip_answer c s"
| "strip_step s (StripReject e) = strip_reject e s"
| "strip_step s StripTimer = strip_timer s"
| "strip_step s Reveal = (if gs_code s = '''' then s else s\<lparr>gs_shown := \<not> gs_shown s\<rparr>)"
| "strip_step s StripUnmount = s\<lparr>gs_mounted := False\<rparr>"
| "strip_step s EngineDown = (if gs_flight s \<noteq> None then strip_reject ''refused'' s else strip_timer s)"

definition bullets :: string where
  "bullets = concat (replicate 28 [CHR 0xE2, CHR 0x80, CHR 0xA2])"

datatype strip_view = StripCode string bool | StripError string | StripGenerating

definition strip_shows :: "strip \<Rightarrow> strip_view" where
  "strip_shows s = (if gs_code s \<noteq> '''' then StripCode (if gs_shown s then gs_code s else bullets) (gs_shown s)
     else if gs_err s \<noteq> '''' then StripError (gs_err s) else StripGenerating)"

definition strip_inv :: "strip \<Rightarrow> bool" where
  "strip_inv s \<longleftrightarrow> (case gs_flight s of Some n \<Rightarrow> n \<le> 12 \<and> gs_retry s = None
     | None \<Rightarrow> (case gs_retry s of Some n \<Rightarrow> n \<le> 12 | None \<Rightarrow> True))"

definition strip_left :: "strip \<Rightarrow> nat" where
  "strip_left s = (case gs_flight s of Some n \<Rightarrow> 2 * (13 - n)
     | None \<Rightarrow> (case gs_retry s of Some n \<Rightarrow> 2 * (13 - n) + 1 | None \<Rightarrow> 0))"

lemma strip_inv_step: "strip_inv s \<Longrightarrow> strip_inv (strip_step s e)"
  by (cases e) (auto simp: strip_inv_def strip_answer_def strip_reject_def strip_timer_def Let_def split: option.splits)

lemma strip_left_down: "strip_inv s \<Longrightarrow> 0 < strip_left s \<Longrightarrow> strip_left (strip_step s EngineDown) < strip_left s"
  by (auto simp: strip_inv_def strip_left_def strip_reject_def strip_timer_def Let_def split: option.splits)

lemma strip_inv_mount: "strip_inv strip_mount"
  by (simp add: strip_inv_def strip_mount_def)

interpretation strip: settling_machine strip_step strip_inv strip_left EngineDown
  by unfold_locales (rule strip_inv_step strip_left_down, assumption+)+

section \<open>Properties\<close>

text \<open>The tones of jitter and packet loss in the health panel, when both are known, are together the verdict
  beside them: the worse of the two is the score that the agent's numbers have.\<close>

theorem health_tones_agree:
  assumes "0 \<le> jitter" and "0 \<le> loss"
  shows "agent_health_of jitter loss = tone_name (worst_health [jitter_tone jitter, loss_tone loss])"
  using assms by (auto simp: agent_health_of_def jitter_tone_def loss_tone_def worst_health_def tone_name_def)

text \<open>The pairing strip stops asking: whatever has happened, if the engine stays silent no request and no timer
  is left after at most 27 more steps, and on a fresh screen the error is then shown. Until somebody
  reveals it, the strip never shows the code, only the mask.\<close>

theorem strip_gives_up:
  "(\<exists>n \<le> 27. let s = foldl strip_step (foldl strip_step strip_mount es) (replicate n EngineDown) in gs_flight s = None \<and> gs_retry s = None)
   \<and> strip_shows (foldl strip_step strip_mount (replicate 25 EngineDown)) = StripError ''refused''
   \<and> (Reveal \<notin> set es \<longrightarrow> strip_shows (foldl strip_step strip_mount es) \<in> {StripCode bullets False, StripGenerating} \<union> range StripError)"
proof (intro conjI impI)
  let ?s = "foldl strip_step strip_mount es"
  have inv: "strip_inv ?s" by (rule strip.inv_run [OF strip_inv_mount])
  from strip.drained [OF inv] obtain n where n: "n \<le> strip_left ?s" "strip_left (foldl strip_step ?s (replicate n EngineDown)) = 0" by blast
  have "strip_left ?s \<le> 27" using inv by (auto simp: strip_left_def split: option.splits)
  moreover have "strip_inv (foldl strip_step ?s (replicate n EngineDown))" by (rule strip.inv_run [OF inv])
  ultimately show "\<exists>n \<le> 27. let s = foldl strip_step ?s (replicate n EngineDown) in gs_flight s = None \<and> gs_retry s = None"
    using n by (intro exI [of _ n]) (auto simp: strip_left_def strip_inv_def Let_def split: option.splits)
next
  show "strip_shows (foldl strip_step strip_mount (replicate 25 EngineDown)) = StripError ''refused''"
    by (simp add: numeral_eq_Suc strip_mount_def strip_reject_def strip_timer_def strip_shows_def)
next
  assume "Reveal \<notin> set es"
  then have "gs_shown (foldl strip_step s es) = gs_shown s" for s
  proof (induction es arbitrary: s)
    case (Cons e es)
    then have "gs_shown (strip_step s e) = gs_shown s"
      by (cases e) (auto simp: strip_answer_def strip_reject_def strip_timer_def Let_def split: option.splits)
    with Cons show ?case by simp
  qed simp
  then have "\<not> gs_shown (foldl strip_step strip_mount es)" by (simp add: strip_mount_def)
  then show "strip_shows (foldl strip_step strip_mount es) \<in> {StripCode bullets False, StripGenerating} \<union> range StripError"
    by (simp add: strip_shows_def)
qed

text \<open>The address to hand to players is the gateway's host, with the port unless it is Minecraft's own. The
  host is cut at its first colon, so a gateway with an IPv6 address is shown as a lone bracket.\<close>

theorem player_address_of_peer:
  assumes "first_tunnel st = Some t" and "0 < tun_public_port t" and "host \<noteq> ''''"
  shows "(CHR '':'' \<notin> set host \<and> st_peer_addr st = host @ '':'' @ port \<longrightarrow>
      player_address st = (if tun_public_port t = 25565 then host else host @ '':'' @ show_int (tun_public_port t)))
    \<and> (st_peer_addr st = CHR 0x5B # CHR '':'' # rest \<longrightarrow>
      player_address st = (if tun_public_port t = 25565 then [CHR 0x5B] else CHR 0x5B # '':'' @ show_int (tun_public_port t)))"
proof -
  have "takeWhile (\<lambda>c. c \<noteq> CHR '':'') (host @ '':'' @ port) = host" if "CHR '':'' \<notin> set host"
    using that by (induction host) auto
  with assms show ?thesis by (auto simp: player_address_def player_host_def)
qed

text \<open>A link that goes down again within the moment of its ignition leaves the class on the pipeline for as
  long as it stays down, and the next link is not celebrated.\<close>

theorem ignite_stuck:
  assumes "ig_was s = Some False"
  shows "ig_on (foldl (\<lambda>s t. ignite_clock t s) (ignite_effect False t2 False (ignite_effect False t1 True s)) ts)"
proof -
  let ?s = "ignite_effect False t2 False (ignite_effect False t1 True s)"
  have "ig_on ?s \<and> ig_timer ?s = None" using assms by (simp add: ignite_effect_def Let_def)
  moreover have "ig_on s \<and> ig_timer s = None \<Longrightarrow> ig_on (foldl (\<lambda>s t. ignite_clock t s) s ts)" for s
    by (induction ts arbitrary: s) (auto simp: ignite_clock_def)
  ultimately show ?thesis by blast
qed

text \<open>The pipeline is consistent: a conduit only flows between stations that are up, and the stations' words
  fit their lights.\<close>

lemma conduits_between_good:
  "left_conduit_on st \<Longrightarrow> pn_state (link_station st) = ''good'' \<and> pn_state (left_station st) \<noteq> ''bad''"
  "right_conduit_on st \<Longrightarrow> pn_state (link_station st) = ''good'' \<and> pn_state (port_station st) = ''good''"
  by (auto simp: left_conduit_on_def right_conduit_on_def link_flowing_def link_station_def left_station_def port_station_def Let_def)


theorem health_tones_agree_witness: "agent_health_of 41 (13/10) = tone_name (worst_health [jitter_tone 41, loss_tone (13/10)])"
  using health_tones_agree [of 41 "13/10"] by simp

theorem strip_gives_up_witness:
  "strip_shows (foldl strip_step strip_mount [StripReject ''no'', StripTimer, StripAnswer ''pxf://secret''])
     \<in> {StripCode bullets False, StripGenerating} \<union> range StripError"
  using strip_gives_up [of "[StripReject ''no'', StripTimer, StripAnswer ''pxf://secret'']"] by simp

definition bound_status :: "string \<Rightarrow> ui_status" where
  "bound_status peer = \<lparr>st_mode = ''engine'', st_role = ''agent'', st_version = '''', st_hostname = '''', st_pid = 1, st_config_path = '''',
     st_link_up = True, st_rtt_millis = 24, st_agent_connected = True, st_transport = '''', st_jitter_millis = 1, st_packet_loss_pct = 0,
     st_health_score = ''good'', st_peer_hostname = '''', st_public_ip = '''', st_peer_public_ip = '''', st_local_lan_ips = [],
     st_peer_lan_ips = [], st_agents = None,
     st_tunnels = Some [\<lparr>tun_agent_id = None, tun_id = ''t'', tun_name = ''Minecraft'', tun_public_port = 25565, tun_local_up = True,
       tun_local_known = True, tun_bandwidth_limit_mbps = 0, tun_bandwidth_limit_scope = ''''\<rparr>],
     st_connections = None, st_total_bytes_in = 0, st_total_bytes_out = 0, st_link_up_since_ms = 0, st_process_start_ms = 0,
     st_peer_addr = peer, st_link_bytes_in = 0, st_link_bytes_out = 0, st_all_time_bytes_in = 0, st_all_time_bytes_out = 0,
     st_cumulative_uptime_ms = 0, st_link_sessions = 0, st_history_unsupported = None, st_analytics_unsupported = None,
     st_connections_truncated = None, st_connections_total = None, st_engine_fatal = None\<rparr>"

theorem player_address_of_peer_witness:
  "player_address (bound_status (CHR 0x5B # '':'' @ '':1]:8474'')) = [CHR 0x5B]"
  using player_address_of_peer [of "bound_status (CHR 0x5B # '':'' @ '':1]:8474'')" _ "''x''" "''''" "'':1]:8474''"]
  by (simp add: first_tunnel_def status_tunnels_def bound_status_def)

theorem ignite_stuck_witness:
  "ig_on (foldl (\<lambda>s t. ignite_clock t s) (ignite_effect False 200 False (ignite_effect False 100 True (ignite_effect False 0 False ignite_init))) [5000, 100000])"
  by (rule ignite_stuck) (simp add: ignite_effect_def ignite_init_def)

end
