(* ===== verification/Mock_World.thy ===== *)
theory Mock_World
  imports Mock_Signal Feeds Overview
begin

text \<open>
  The world of \<open>devmock.ts\<close>: the axes of its URL, the fleet of a gateway, the agent directory with its
  overrides, the seeded conflict events, the mutable state and configuration, the status it reports
  and the bindings that change it. The world is a machine over ticks and binding calls; a gated
  binding of an attached window is rejected and changes nothing. Fields the mock leaves out of an
  object are its empty value here (no limit, no ticket), as the screens read them.
\<close>

section \<open>Axes\<close>

record axes =
  ax_gateway :: bool
  ax_wizard :: bool
  ax_link_down :: bool
  ax_attached :: bool
  ax_fatal :: bool
  ax_fresh :: bool
  ax_analytics_off :: bool
  ax_unpaired :: bool
  ax_geo :: string
  ax_fleet :: string
  ax_conflict :: string
  ax_deep_link :: bool

text \<open>\<open>params.get(k) || d\<close>.\<close>

definition param_or :: "(string \<Rightarrow> string option) \<Rightarrow> string \<Rightarrow> string \<Rightarrow> string" where
  "param_or ps k d = (case ps k of Some v \<Rightarrow> if v = '''' then d else v | None \<Rightarrow> d)"

definition axes_of :: "(string \<Rightarrow> string option) \<Rightarrow> axes" where
  "axes_of ps = (let scenario = param_or ps ''mock'' ''agent'' in
     \<lparr>ax_gateway = (scenario = ''gateway''), ax_wizard = (scenario = ''wizard''),
      ax_link_down = (ps ''link'' = Some ''down''), ax_attached = (ps ''mode'' = Some ''attached''),
      ax_fatal = (ps ''fatal'' = Some ''1''), ax_fresh = (ps ''fresh'' = Some ''1''),
      ax_analytics_off = (ps ''analytics'' = Some ''off''), ax_unpaired = (ps ''paired'' = Some ''0''),
      ax_geo = param_or ps ''geo'' '''', ax_fleet = param_or ps ''fleet'' '''', ax_conflict = param_or ps ''conflict'' '''',
      ax_deep_link = (ps ''deeplink'' = Some ''1'')\<rparr>)"

section \<open>The fleet\<close>

record extra_tunnel =
  xt_id :: string
  xt_name :: string
  xt_port :: int
  xt_local_up :: bool
  xt_limit :: "int option"
  xt_scope :: "string option"

record extra_agent =
  xa_id :: string
  xa_hostname :: string
  xa_lan :: "string list"
  xa_remote :: string
  xa_up_since :: int
  xa_jitter :: real
  xa_loss :: real
  xa_rtt :: int
  xa_factor :: real
  xa_tunnels :: "extra_tunnel list"
  xa_conns :: "conn_ui list"

definition extra_conn :: "int \<Rightarrow> string \<Rightarrow> string \<Rightarrow> int \<Rightarrow> int \<Rightarrow> int \<Rightarrow> string \<Rightarrow> string \<Rightarrow> real \<Rightarrow> conn_ui" where
  "extra_conn i tunnel addr started bin bout name uuid rtt =
     \<lparr>conn_id = i, conn_agent_id = None, conn_tunnel_name = tunnel, conn_client_addr = addr, conn_started_at = started,
      conn_bytes_in = bin, conn_bytes_out = bout, conn_player_name = Some name, conn_player_uuid = Some uuid, conn_rtt_ms = rtt\<rparr>"

definition extra_agents :: "int \<Rightarrow> extra_agent list" where
  "extra_agents now0 = [
     \<lparr>xa_id = ''7788990011223344aabbccddeeff0011'', xa_hostname = ''SURVIVAL-RIG'',
      xa_lan = [''10.0.0.9''], xa_remote = ''198.51.100.7'', xa_up_since = now0 - 42 * 60000,
      xa_jitter = 41, xa_loss = 1.3, xa_rtt = 74, xa_factor = 0.4,
      xa_tunnels = [
        \<lparr>xt_id = ''bb11223344556677889900aabbccddee'', xt_name = ''Survival'', xt_port = 25566, xt_local_up = True,
         xt_limit = Some 100, xt_scope = Some ''combined''\<rparr>,
        \<lparr>xt_id = ''cc22334455667788990011aabbccddff'', xt_name = ''Lobby'', xt_port = 25567, xt_local_up = False,
         xt_limit = None, xt_scope = None\<rparr>],
      xa_conns = [extra_conn 8801 ''Survival'' ''92.99.11.4:53001'' (now0 - 600000) 900000 5400000
        ''DiggerDan'' ''11112222-3333-4444-5555-666677778888'' 76]\<rparr>,
     \<lparr>xa_id = ''ccddeeff001122334455667788990011'', xa_hostname = ''MINIGAMES-PI'',
      xa_lan = [''192.168.1.30''], xa_remote = ''92.184.100.23'', xa_up_since = now0 - 12 * 60000,
      xa_jitter = 22, xa_loss = 7.5, xa_rtt = 180, xa_factor = 0.06,
      xa_tunnels = [\<lparr>xt_id = ''dd33445566778899001122aabbccdd00'', xt_name = ''Minigames'', xt_port = 25568,
        xt_local_up = True, xt_limit = None, xt_scope = None\<rparr>],
      xa_conns = []\<rparr>,
     \<lparr>xa_id = ''aa00bb11cc22dd33ee44ff5566778899'', xa_hostname = ''CREATIVE-HUB'',
      xa_lan = [''10.0.0.12''], xa_remote = ''84.113.9.201'', xa_up_since = now0 - 6 * 3600000,
      xa_jitter = 5, xa_loss = 0, xa_rtt = 30, xa_factor = 0.6,
      xa_tunnels = [\<lparr>xt_id = ''ab00cd11ef22ab33cd44ef5566778890'', xt_name = ''Creative'', xt_port = 25569,
        xt_local_up = True, xt_limit = None, xt_scope = None\<rparr>],
      xa_conns = [extra_conn 8811 ''Creative'' ''176.10.44.8:51900'' (now0 - 1800000) 1400000 9800000
        ''BuilderBeth'' ''22223333-4444-5555-6666-777788889999'' 31]\<rparr>,
     \<lparr>xa_id = ''f0e1d2c3b4a5968778695a4b3c2d1e0f'', xa_hostname = ''SKYBLOCK-BOX'',
      xa_lan = [''192.168.0.20''], xa_remote = ''51.68.220.14'', xa_up_since = now0 - 95 * 60000,
      xa_jitter = 34, xa_loss = 0.4, xa_rtt = 55, xa_factor = 0.25,
      xa_tunnels = [\<lparr>xt_id = ''c0d1e2f3a4b5c6d7e8f90a1b2c3d4e5f'', xt_name = ''Skyblock'', xt_port = 25570,
        xt_local_up = True, xt_limit = Some 20, xt_scope = Some ''per-connection''\<rparr>],
      xa_conns = [extra_conn 8821 ''Skyblock'' ''203.0.113.77:52210'' (now0 - 300000) 420000 2100000
        ''IslandIvy'' ''33334444-5555-6666-7777-88889999aaaa'' 57]\<rparr>]"

section \<open>The state\<close>

text \<open>What a write of the directory overrides; \<open>revoked\<close> is only ever set to true.\<close>

record override =
  ov_nickname :: "string option"
  ov_scope_ports :: "int list option"
  ov_scope_tunnels :: "string list option"
  ov_revoked :: "bool option"

definition no_override :: override where
  "no_override = \<lparr>ov_nickname = None, ov_scope_ports = None, ov_scope_tunnels = None, ov_revoked = None\<rparr>"

record mock_world =
  mw_axes :: axes
  mw_clock :: mock_clock
  mw_role :: string
  mw_link_up :: bool
  mw_agent_connected :: bool
  mw_rtt :: int
  mw_bytes_in :: int
  mw_bytes_out :: int
  mw_conns :: "conn_ui list"
  mw_config :: config
  mw_overrides :: "string \<rightharpoonup> override"
  mw_events :: "gateway_event ring"
  mw_logs :: "log_entry ring"


definition tunnel_id :: string where
  "tunnel_id = ''a1b2c3d4e5f60718293a4b5c6d7e8f90''"

section \<open>The agent directory\<close>

text \<open>\<open>mkView\<close> fills what its argument leaves out; the records below start from that.\<close>

definition mk_view :: "string \<Rightarrow> agent_view" where
  "mk_view i = \<lparr>view_agent_id = i, view_nickname = '''', view_enrolled = True, view_revoked = False,
     view_scope_ports = [], view_scope_tunnels = [], view_issued_at_ms = 0, view_connected = False,
     view_hostname = '''', view_remote_ip = '''', view_link_up_since_ms = 0, view_tunnels = 0\<rparr>"

definition extra_enroll :: "(string \<times> string \<times> int list \<times> string list \<times> int) list" where
  "extra_enroll = [(''7788990011223344aabbccddeeff0011'', ''Survival server'', [25566, 25567], [], 26),
     (''ccddeeff001122334455667788990011'', '''', [25568], [], 12),
     (''aa00bb11cc22dd33ee44ff5566778899'', ''Creative hub'', [], [], 47),
     (''f0e1d2c3b4a5968778695a4b3c2d1e0f'', ''Skyblock island'', [], [''c0d1e2f3a4b5c6d7e8f90a1b2c3d4e5f''], 9)]"

definition extra_view :: "int \<Rightarrow> extra_agent \<Rightarrow> agent_view" where
  "extra_view now0 a = (case (case map_of extra_enroll (xa_id a) of Some e \<Rightarrow> e | None \<Rightarrow> ('''', [], [], 20)) of
     (nick, ports, tuns, days) \<Rightarrow> (mk_view (xa_id a))\<lparr>view_nickname := nick, view_connected := True,
       view_hostname := xa_hostname a, view_remote_ip := xa_remote a, view_link_up_since_ms := xa_up_since a,
       view_tunnels := int (length (xa_tunnels a)), view_scope_ports := ports, view_scope_tunnels := tuns,
       view_issued_at_ms := now0 - days * 86400000\<rparr>)"

definition connected_views :: "mock_world \<Rightarrow> agent_view list" where
  "connected_views w = (let k = mw_clock w;
       a0 = (mk_view ''agentid'')\<lparr>view_enrolled := False, view_connected := True, view_hostname := ''DESKTOP-DEV'',
         view_remote_ip := ''84.23.101.7'', view_link_up_since_ms := mk_link_up_since k, view_tunnels := 1,
         view_issued_at_ms := mk_installed_at k\<rparr> in
     if \<not> mw_link_up w then [] else if ax_fleet (mw_axes w) \<noteq> ''multi'' then [a0]
     else a0 # map (extra_view (mk_now0 k)) (extra_agents (mk_now0 k)))"

definition offline_views :: "int \<Rightarrow> agent_view list" where
  "offline_views now0 = [
     (mk_view ''agt_h4t2q9zm'')\<lparr>view_nickname := ''Backup box'', view_hostname := ''BACKUP-NAS'', view_scope_ports := [25580],
       view_issued_at_ms := now0 - 18 * 86400000\<rparr>,
     (mk_view ''agt_b7k3n5pd'')\<lparr>view_hostname := ''SEASONAL-SMP'', view_issued_at_ms := now0 - 40 * 86400000\<rparr>]"

definition revoked_views :: "int \<Rightarrow> agent_view list" where
  "revoked_views now0 = [(mk_view ''agt_x2m8r6ct'')\<lparr>view_nickname := ''Old laptop'', view_revoked := True,
     view_hostname := ''LAPTOP-OLD'', view_issued_at_ms := now0 - 63 * 86400000\<rparr>]"

definition known_agent_ids :: "int \<Rightarrow> string list" where
  "known_agent_ids now0 = ''agentid'' # map xa_id (extra_agents now0) @ map view_agent_id (offline_views now0)
     @ map view_agent_id (revoked_views now0)"

definition apply_override :: "(string \<rightharpoonup> override) \<Rightarrow> agent_view \<Rightarrow> agent_view" where
  "apply_override os v = (case os (view_agent_id v) of None \<Rightarrow> v
   | Some d \<Rightarrow> let v = (case ov_nickname d of Some n \<Rightarrow> v\<lparr>view_nickname := n\<rparr> | None \<Rightarrow> v);
       v = (case ov_scope_ports d of Some ps \<Rightarrow> v\<lparr>view_scope_ports := ps\<rparr> | None \<Rightarrow> v);
       v = (case ov_scope_tunnels d of Some ts \<Rightarrow> v\<lparr>view_scope_tunnels := ts\<rparr> | None \<Rightarrow> v) in
     (case ov_revoked d of Some r \<Rightarrow> v\<lparr>view_revoked := r, view_connected := (if r then False else view_connected v)\<rparr> | None \<Rightarrow> v))"

definition list_agents :: "mock_world \<Rightarrow> agent_view list" where
  "list_agents w = (if mw_role w \<noteq> ''gateway'' \<or> ax_fleet (mw_axes w) = ''old'' then []
     else map (apply_override (mw_overrides w))
       (connected_views w @ offline_views (mk_now0 (mw_clock w)) @ revoked_views (mk_now0 (mw_clock w))))"

section \<open>Conflict events and log\<close>

definition right_quote :: string where
  "right_quote = [CHR 0xE2, CHR 0x80, CHR 0x99]"

definition quoted :: "string \<Rightarrow> string" where
  "quoted s = CHR 0x22 # s @ [CHR 0x22]"

definition reassigned :: "int \<Rightarrow> string \<Rightarrow> string \<Rightarrow> int \<Rightarrow> int \<Rightarrow> string \<Rightarrow> gateway_event" where
  "reassigned t agent tunnel req act msg = \<lparr>ev_seq = 0, ev_time_ms = t, ev_kind = ''port-reassigned'',
     ev_agent_id = Some agent, ev_tunnel_id = Some tunnel, ev_message = msg,
     ev_requested_port = Some req, ev_actual_port = Some act\<rparr>"

definition seeded_events :: "string \<Rightarrow> int \<Rightarrow> gateway_event list" where
  "seeded_events conflict now =
     (if conflict = ''both'' then [reassigned (now - 52 * 60000) ''aa00bb11cc22dd33ee44ff5566778899''
        ''ab00cd11ef22ab33cd44ef5566778890'' 25569 25574
        (''Requested public port 25569 was busy; CREATIVE-HUB'' @ right_quote @ ''s '' @ quoted ''Creative''
          @ '' tunnel was auto-assigned 25574.'')] else [])
   @ (if conflict \<in> {''port'', ''both''} then [reassigned (now - 8 * 60000) ''7788990011223344aabbccddeeff0011''
        ''cc22334455667788990011aabbccddff'' 25567 25572
        (''Requested public port 25567 was already bound; SURVIVAL-RIG'' @ right_quote @ ''s '' @ quoted ''Lobby''
          @ '' tunnel was auto-assigned 25572 instead.'')] else [])
   @ (if conflict \<in> {''clone'', ''both''} then [\<lparr>ev_seq = 0, ev_time_ms = now - 3 * 60000, ev_kind = ''clone-suspected'',
        ev_agent_id = Some ''agentid'', ev_tunnel_id = None,
        ev_message = ''Agent '' @ quoted ''agentid'' @ '' reconnected from 203.0.113.77:52210 while still linked from 84.23.101.7:53880 ''
          @ em_dash @ '' possible cloned identity or a shared token in use on two machines.'',
        ev_requested_port = None, ev_actual_port = None\<rparr>] else [])"

definition seed_events :: "string \<Rightarrow> int \<Rightarrow> gateway_event ring" where
  "seed_events conflict now = foldl push_event empty_ring (seeded_events conflict now)"

definition log_line :: "int \<Rightarrow> string \<Rightarrow> string \<Rightarrow> string \<Rightarrow> log_entry" where
  "log_line now level msg attrs = \<lparr>log_seq = 0, log_time_ms = now, log_level = level, log_msg = msg, log_attrs = attrs\<rparr>"

definition first_logs :: "int \<Rightarrow> string \<Rightarrow> log_entry ring" where
  "first_logs now role = foldl push_log empty_ring [
     log_line now ''INFO'' ''starting'' (''role='' @ role @ '' version=0.1.0-dev''),
     log_line now ''INFO'' ''gateway control listener up'' ''addr=0.0.0.0:8474'',
     log_line now ''INFO'' ''agent connected'' ''id=agentid rtt=24ms'',
     log_line now ''WARN'' ''local server is down'' ''tunnel=Minecraft local_addr=127.0.0.1:25565'']"

section \<open>Installation\<close>

definition mock_conns :: "int \<Rightarrow> conn_ui list" where
  "mock_conns now = [
     extra_conn 1 ''Minecraft'' ''203.0.113.44:51422'' (now - 92000) 1240000 8900000 ''Notch'' ''069a79f4-44e9-4726-a5be-fca90e38aaf5'' 34,
     extra_conn 2 ''Minecraft'' ''198.51.100.7:60011'' (now - 15000) 120000 640000 ''jeb_'' ''853c80ef-3c37-49fd-aa49-938b674adae6'' 58]"

definition mock_tunnel :: tunnel where
  "mock_tunnel = \<lparr>tnl_id = tunnel_id, tnl_name = ''Minecraft'', tnl_type = ''tcp'', tnl_local_addr = ''127.0.0.1:25565'',
     tnl_public_port = 25565, tnl_enabled = True,
     tnl_options = \<lparr>topt_minecraft_aware = True, topt_proxy_protocol_v2 = False,
       topt_offline_motd = ''Server is offline '' @ em_dash @ '' back soon'', topt_bandwidth_limit_mbps = 40,
       topt_bandwidth_limit_scope = ''per-direction''\<rparr>\<rparr>"

definition path_sep :: string where
  "path_sep = [CHR 0x5C]"

definition city_path :: string where
  "city_path = join_with path_sep [''C:'', ''maxmind'', ''GeoLite2-City.mmdb'']"

definition mock_config :: "axes \<Rightarrow> string \<Rightarrow> string \<Rightarrow> config" where
  "mock_config ax role theme = \<lparr>cfg_role = role,
     cfg_agent = \<lparr>acfg_agent_id = ''agentid'', acfg_gateway_host = (if ax_unpaired ax then '''' else ''play.example.com''),
       acfg_gateway_port = 8474, acfg_token = (if ax_unpaired ax then '''' else ''tok''),
       acfg_cert_fingerprint = (if ax_unpaired ax then '''' else ''sha256:ab''), acfg_transport = ''auto'',
       acfg_tunnels = [mock_tunnel], acfg_enroll_ticket = ''''\<rparr>,
     cfg_gateway = \<lparr>gcfg_bind_addr = ''0.0.0.0'', gcfg_control_port = 8474, gcfg_token = ''tok'', gcfg_public_host = ''play.example.com'',
       gcfg_port_allowlist = [], gcfg_max_conns_global = 4096, gcfg_max_conns_per_ip = 32, gcfg_auth_attempts_per_min = 10,
       gcfg_quic_enabled = False, gcfg_accept_shared_token = False\<rparr>,
     cfg_metrics = \<lparr>mcfg_prometheus_enabled = False, mcfg_prometheus_addr = ''127.0.0.1:9464''\<rparr>,
     cfg_logging = \<lparr>lcfg_level = ''info'', lcfg_file_enabled = True\<rparr>,
     cfg_ui = \<lparr>uicfg_theme = (if theme = '''' then ''dark'' else theme), uicfg_minimize_to_tray = True, uicfg_autostart = False\<rparr>,
     cfg_analytics = \<lparr>ancfg_retention_days = 180, ancfg_mojang_lookups = True,
       ancfg_geo_ip_city_path = (if ax_geo ax \<noteq> '''' \<and> ax_geo ax \<noteq> ''off'' then city_path else ''''), ancfg_geo_ipasn_path = ''''\<rparr>\<rparr>"

definition mock_install :: "axes \<Rightarrow> mock_clock \<Rightarrow> string \<Rightarrow> mock_world" where
  "mock_install ax k theme = (let up = \<not> ax_wizard ax \<and> \<not> ax_link_down ax \<and> \<not> ax_fatal ax;
       role = (if ax_gateway ax then ''gateway'' else ''agent'') in
     \<lparr>mw_axes = ax, mw_clock = k, mw_role = role, mw_link_up = up, mw_agent_connected = up, mw_rtt = 24,
      mw_bytes_in = 0, mw_bytes_out = 0, mw_conns = mock_conns (mk_now0 k), mw_config = mock_config ax role theme,
      mw_overrides = Map.empty, mw_events = seed_events (ax_conflict ax) (mk_now0 k), mw_logs = first_logs (mk_now0 k) role\<rparr>)"


section \<open>The status\<close>

definition jitter_now :: "int \<Rightarrow> real" where
  "jitter_now now = 2 + 3 * vnoise (of_int now) 20000 11 + 2 * vnoise (of_int now) 5000 12"

definition loss_now :: "int \<Rightarrow> real" where
  "loss_now now = (if 0.9 < vnoise (of_int now) 60000 13 then 0.4 + vnoise (of_int now) 8000 14 else 0)"

definition health_of :: "mock_world \<Rightarrow> int \<Rightarrow> real \<Rightarrow> real \<Rightarrow> string" where
  "health_of w now jitter loss = (if \<not> mw_link_up w then ''bad''
     else if 5 < loss \<or> 100 < jitter then ''bad''
     else if 1 < loss \<or> 30 < jitter \<or> now - mk_link_up_since (mw_clock w) < 60000 then ''warn'' else ''good'')"

text \<open>Bytes of the link: the payload with its overhead, and what the handshakes took.\<close>

definition link_in :: "mock_world \<Rightarrow> int" where
  "link_in w = js_round (of_int (mw_bytes_in w) * 1.06) + 2400000"

definition link_out :: "mock_world \<Rightarrow> int" where
  "link_out w = js_round (of_int (mw_bytes_out w) * 1.06) + 3100000"

definition fleet_extras :: "mock_world \<Rightarrow> extra_agent list" where
  "fleet_extras w = (if mw_role w = ''gateway'' \<and> mw_link_up w \<and> ax_fleet (mw_axes w) = ''multi''
     then extra_agents (mk_now0 (mw_clock w)) else [])"

definition agent0 :: "mock_world \<Rightarrow> int \<Rightarrow> real \<Rightarrow> real \<Rightarrow> agent_ui" where
  "agent0 w now jitter loss = \<lparr>agent_agent_id = ''agentid'', agent_hostname = ''DESKTOP-DEV'', agent_lan_ips = [''10.0.0.5''],
     agent_remote_ip = ''84.23.101.7'', agent_link_up_since_ms = mk_link_up_since (mw_clock w), agent_rtt_millis = mw_rtt w,
     agent_jitter_millis = jitter, agent_packet_loss_pct = loss, agent_health_score = health_of w now jitter loss,
     agent_link_bytes_in = link_in w, agent_link_bytes_out = link_out w, agent_tunnels = 1,
     agent_players = int (length (mw_conns w))\<rparr>"

definition extra_status :: "mock_world \<Rightarrow> extra_agent \<Rightarrow> agent_ui" where
  "extra_status w a = \<lparr>agent_agent_id = xa_id a, agent_hostname = xa_hostname a, agent_lan_ips = xa_lan a,
     agent_remote_ip = xa_remote a, agent_link_up_since_ms = xa_up_since a, agent_rtt_millis = xa_rtt a,
     agent_jitter_millis = xa_jitter a, agent_packet_loss_pct = xa_loss a,
     agent_health_score = agent_health_of (xa_jitter a) (xa_loss a),
     agent_link_bytes_in = js_round (xa_factor a * (of_int (mw_bytes_in w) * 1.06 + 2400000) * 0.7),
     agent_link_bytes_out = js_round (xa_factor a * (of_int (mw_bytes_out w) * 1.06 + 3100000)),
     agent_tunnels = int (length (xa_tunnels a)), agent_players = int (length (xa_conns a))\<rparr>"

definition gw_agents :: "mock_world \<Rightarrow> int \<Rightarrow> real \<Rightarrow> real \<Rightarrow> agent_ui list" where
  "gw_agents w now jitter loss = (if mw_role w = ''gateway'' \<and> mw_link_up w
     then agent0 w now jitter loss # map (extra_status w) (fleet_extras w) else [])"

definition mock_tunnel_ui :: "string option \<Rightarrow> int \<Rightarrow> int \<Rightarrow> string \<Rightarrow> tunnel_ui" where
  "mock_tunnel_ui agent port limit scope = \<lparr>tun_agent_id = agent, tun_id = tunnel_id, tun_name = ''Minecraft'', tun_public_port = port,
     tun_local_up = True, tun_local_known = True, tun_bandwidth_limit_mbps = limit, tun_bandwidth_limit_scope = scope\<rparr>"

definition extra_tunnel_ui :: "extra_agent \<Rightarrow> extra_tunnel \<Rightarrow> tunnel_ui" where
  "extra_tunnel_ui a t = \<lparr>tun_agent_id = Some (xa_id a), tun_id = xt_id t, tun_name = xt_name t, tun_public_port = xt_port t,
     tun_local_up = xt_local_up t, tun_local_known = True,
     tun_bandwidth_limit_mbps = (case xt_limit t of Some n \<Rightarrow> n | None \<Rightarrow> 0),
     tun_bandwidth_limit_scope = (case xt_scope t of Some s \<Rightarrow> s | None \<Rightarrow> '''')\<rparr>"

definition mock_tunnels :: "mock_world \<Rightarrow> tunnel_ui list" where
  "mock_tunnels w = (if mw_role w = ''gateway''
     then if mw_link_up w then mock_tunnel_ui (Some ''agentid'') 25565 40 ''per-direction''
            # concat (map (\<lambda>a. map (extra_tunnel_ui a) (xa_tunnels a)) (fleet_extras w)) else []
     else [mock_tunnel_ui None (if mw_link_up w then 25565 else 0) 0 ''''])"

definition stamped :: "string \<Rightarrow> conn_ui list \<Rightarrow> conn_ui list" where
  "stamped i cs = map (\<lambda>c. c\<lparr>conn_agent_id := Some i\<rparr>) cs"

definition mock_connections :: "mock_world \<Rightarrow> conn_ui list" where
  "mock_connections w = (if \<not> mw_link_up w then []
     else if mw_role w = ''gateway'' then stamped ''agentid'' (mw_conns w)
       @ concat (map (\<lambda>a. stamped (xa_id a) (xa_conns a)) (fleet_extras w))
     else mw_conns w)"

definition fatal_text :: string where
  "fatal_text = ''authentication failed: the gateway rejected this agent's token (it may have been rotated) ''
     @ em_dash @ '' re-pair with a fresh code''"

definition mock_status :: "mock_world \<Rightarrow> int \<Rightarrow> ui_status" where
  "mock_status w now = (let ax = mw_axes w; k = mw_clock w; wiz = ax_wizard ax; up = mw_link_up w;
       gw = (mw_role w = ''gateway'');
       jitter = (if wiz \<or> \<not> up then -1 else jitter_now now); loss = (if wiz \<or> \<not> up then -1 else loss_now now);
       by = (\<lambda>g a. if wiz then '''' else if gw then g else a);
       ips = (\<lambda>g a. if wiz then [] else if gw then g else a) in
     \<lparr>st_mode = (if wiz then ''wizard'' else if ax_attached ax then ''attached'' else ''engine''),
      st_role = (if wiz then '''' else mw_role w), st_version = ''0.1.0-dev'', st_hostname = ''DESKTOP-DEV'', st_pid = 4242,
      st_config_path = join_with path_sep [''C:'', ''Users'', ''you'', ''AppData'', ''Roaming'', ''proxyforward'', ''config.toml''],
      st_link_up = up, st_rtt_millis = (if up then mw_rtt w else 0), st_agent_connected = mw_agent_connected w,
      st_transport = (if \<not> wiz \<and> \<not> gw \<and> up then ''quic'' else ''''),
      st_jitter_millis = jitter, st_packet_loss_pct = loss,
      st_health_score = (if wiz then ''unknown'' else health_of w now jitter loss),
      st_peer_hostname = by ''DESKTOP-DEV'' ''GATEWAY-VPS-01'', st_public_ip = by ''203.0.113.9'' ''84.23.101.7'',
      st_peer_public_ip = by ''84.23.101.7'' ''play.example.com'',
      st_local_lan_ips = ips [''10.0.0.5''] [''192.168.1.24''], st_peer_lan_ips = ips [''192.168.1.24''] [''10.0.0.5''],
      st_agents = (if gw \<and> ax_fleet ax \<noteq> ''old'' then Some (gw_agents w now jitter loss) else None),
      st_tunnels = Some (mock_tunnels w), st_connections = Some (mock_connections w),
      st_total_bytes_in = mw_bytes_in w, st_total_bytes_out = mw_bytes_out w,
      st_link_up_since_ms = (if wiz \<or> \<not> up then 0 else mk_link_up_since k),
      st_process_start_ms = (if wiz then 0 else mk_process_start k),
      st_peer_addr = by ''84.23.101.7'' ''play.example.com:8474'',
      st_link_bytes_in = link_in w, st_link_bytes_out = link_out w,
      st_all_time_bytes_in = js_round (3.4 * 1024 ^ 3) + mw_bytes_in w,
      st_all_time_bytes_out = js_round (212 * 1024 ^ 3) + mw_bytes_out w,
      st_cumulative_uptime_ms = 96 * 3600000 + (now - mk_process_start k), st_link_sessions = 14,
      st_history_unsupported = Some False, st_analytics_unsupported = Some (ax_analytics_off ax),
      st_connections_truncated = None, st_connections_total = None,
      st_engine_fatal = Some (if ax_fatal ax then fatal_text else '''')\<rparr>)"

section \<open>The tick\<close>

text \<open>One beat of the interval, with the two random numbers it may draw; the status it emits is
  \<^const>\<open>mock_status\<close> of the new world.\<close>

definition add_conn_bytes :: "int \<Rightarrow> int \<Rightarrow> conn_ui \<Rightarrow> conn_ui" where
  "add_conn_bytes out inn c = c\<lparr>conn_bytes_out := conn_bytes_out c + out, conn_bytes_in := conn_bytes_in c + inn\<rparr>"

definition mock_tick :: "int \<Rightarrow> real \<Rightarrow> real \<Rightarrow> mock_world \<Rightarrow> mock_world" where
  "mock_tick now r1 r2 w = (if ax_wizard (mw_axes w) \<or> \<not> mw_link_up w then w else
     let d = down_rate (mw_clock w) (of_int now); u = up_rate (mw_clock w) (of_int now);
         share = (\<lambda>s c. add_conn_bytes (js_round (d * 0.5 * s)) (js_round (u * 0.5 * s)) c);
         cs = mw_conns w in
     w\<lparr>mw_bytes_out := mw_bytes_out w + js_round (d * 0.5), mw_bytes_in := mw_bytes_in w + js_round (u * 0.5),
       mw_conns := cs[0 := share 0.8 (cs ! 0), 1 := share 0.2 (cs ! 1)],
       mw_rtt := 20 + \<lfloor>r1 * 12\<rfloor>,
       mw_logs := (if r2 < 0.15 then push_log (mw_logs w) (log_line now ''DEBUG'' ''stream opened'' ''client=203.0.113.44 tunnel=Minecraft'')
         else mw_logs w)\<rparr>)"


section \<open>The bindings\<close>

text \<open>The bindings that write: the rejection, if any, and the world after the call.\<close>

datatype binding_call =
    RenameAgent string string
  | SetAgentScope string "int list" "string list"
  | RevokeAgent string
  | SetupGateway
  | SetupAgent
  | SaveTunnels "tunnel list"
  | SaveSettings config
  | SetTheme string

definition gated_text :: string where
  "gated_text = ''the engine runs in another process (service or headless run)''"

definition gated :: "mock_world \<Rightarrow> string option \<times> mock_world \<Rightarrow> string option \<times> mock_world" where
  "gated w r = (if ax_attached (mw_axes w) then (Some gated_text, w) else r)"

definition become_role :: "string \<Rightarrow> mock_world \<Rightarrow> mock_world" where
  "become_role r w = w\<lparr>mw_config := (mw_config w)\<lparr>cfg_role := r\<rparr>, mw_role := r\<rparr>"

definition override_of :: "mock_world \<Rightarrow> string \<Rightarrow> override" where
  "override_of w i = (case mw_overrides w i of Some d \<Rightarrow> d | None \<Rightarrow> no_override)"

definition set_override :: "string \<Rightarrow> override \<Rightarrow> mock_world \<Rightarrow> mock_world" where
  "set_override i d w = w\<lparr>mw_overrides := (mw_overrides w)(i \<mapsto> d)\<rparr>"

definition rename_agent :: "string \<Rightarrow> string \<Rightarrow> mock_world \<Rightarrow> string option \<times> mock_world" where
  "rename_agent i n w = gated w (None, set_override i ((override_of w i)\<lparr>ov_nickname := Some n\<rparr>) w)"

definition set_agent_scope :: "string \<Rightarrow> int list \<Rightarrow> string list \<Rightarrow> mock_world \<Rightarrow> string option \<times> mock_world" where
  "set_agent_scope i ps ts w = gated w (None,
     set_override i ((override_of w i)\<lparr>ov_scope_ports := Some ps, ov_scope_tunnels := Some ts\<rparr>) w)"

definition revoke_agent :: "string \<Rightarrow> mock_world \<Rightarrow> string option \<times> mock_world" where
  "revoke_agent i w = gated w (if i \<in> set (known_agent_ids (mk_now0 (mw_clock w)))
     then (None, set_override i ((override_of w i)\<lparr>ov_revoked := Some True\<rparr>) w)
     else (Some (''agent '' @ i @ '' not found (it may have already disconnected or been removed)''), w))"

definition save_settings :: "config \<Rightarrow> mock_world \<Rightarrow> string option \<times> mock_world" where
  "save_settings c w = (let a = cfg_agent (mw_config w) in
     if cfg_role c = ''agent'' \<and> \<not> (acfg_token a \<noteq> '''' \<and> acfg_gateway_host a \<noteq> '''')
     then (Some ''agent.token: required (pair with a gateway first)'', w)
     else let w = (if cfg_role c \<noteq> '''' then become_role (cfg_role c) w else w) in
       (None, w\<lparr>mw_config := (mw_config w)\<lparr>cfg_logging := cfg_logging c\<rparr>\<rparr>))"

fun mock_call :: "binding_call \<Rightarrow> mock_world \<Rightarrow> string option \<times> mock_world" where
  "mock_call (RenameAgent i n) w = rename_agent i n w"
| "mock_call (SetAgentScope i ps ts) w = set_agent_scope i ps ts w"
| "mock_call (RevokeAgent i) w = revoke_agent i w"
| "mock_call SetupGateway w = gated w (None, become_role ''gateway'' w)"
| "mock_call SetupAgent w = gated w (None, become_role ''agent'' w)"
| "mock_call (SaveTunnels ts) w = (None, w\<lparr>mw_config := (mw_config w)\<lparr>cfg_agent := (cfg_agent (mw_config w))\<lparr>acfg_tunnels := ts\<rparr>\<rparr>\<rparr>)"
| "mock_call (SaveSettings c) w = save_settings c w"
| "mock_call (SetTheme t) w = (None, w\<lparr>mw_config := (mw_config w)\<lparr>cfg_ui := (cfg_ui (mw_config w))\<lparr>uicfg_theme := t\<rparr>\<rparr>\<rparr>)"

text \<open>The bindings that read.\<close>

definition mock_geo_status :: "mock_world \<Rightarrow> geo_status" where
  "mock_geo_status w = (let geo = ax_geo (mw_axes w); an = cfg_analytics (mw_config w) in
     \<lparr>geo_city_loaded = (if geo \<noteq> '''' then geo = ''empty'' else ancfg_geo_ip_city_path an \<noteq> ''''),
      geo_asn_loaded = (geo = '''' \<and> ancfg_geo_ipasn_path an \<noteq> ''''),
      geo_city_error = (if geo = ''error'' then Some (''open '' @ city_path @ '': unsupported database format'') else None),
      geo_asn_error = None\<rparr>)"

definition mock_logs_since :: "mock_world \<Rightarrow> int \<Rightarrow> log_entry list" where
  "mock_logs_since w n = logs_since (ax_attached (mw_axes w)) (mw_logs w) n"

definition mock_gateway_events :: "mock_world \<Rightarrow> int \<Rightarrow> gateway_event list" where
  "mock_gateway_events w n = gateway_events (mw_events w) n"

definition browse_mmdb :: "string \<Rightarrow> string" where
  "browse_mmdb title = (if sublist ''asn'' (js_lower title) then join_with path_sep [''C:'', ''maxmind'', ''GeoLite2-ASN.mmdb''] else city_path)"

definition deep_link_text :: string where
  "deep_link_text = ''pxf://play.example.com:8474/v1/pair/tkt_0123456789abcdef0123456789abcdef#sha256:aaaaaaaaaaaaaaaaaaaaaaaaaaaaaaaaaaaaaaaaaaaaaaaaaaaaaaaaaaaaaaaa''"

definition pending_deep_link :: "mock_world \<Rightarrow> string" where
  "pending_deep_link w = (if ax_deep_link (mw_axes w) then deep_link_text else '''')"

definition pairing_text :: string where
  "pairing_text = ''pxf://play.example.com:8474/v1/pair/3f8a1c9e2b7d4056a1b2c3d4e5f60718#sha256:9f86d081884c7d659a2feaa0c55ad015a3bf4f1b2b0b822cd15d6c15b0f00a08''"

definition mock_pairing_code :: "mock_world \<Rightarrow> string + string" where
  "mock_pairing_code w = (if ax_attached (mw_axes w) then Inl gated_text else Inr pairing_text)"

section \<open>The world as a machine\<close>

datatype world_event = MockTick int real real | MockCall binding_call

fun world_step :: "mock_world \<Rightarrow> world_event \<Rightarrow> mock_world" where
  "world_step w (MockTick now r1 r2) = mock_tick now r1 r2 w"
| "world_step w (MockCall c) = snd (mock_call c w)"


section \<open>The directory as a map\<close>

text \<open>What a gateway's directory is to its users: per identity a nickname, a scope, and whether it is connected
  or revoked for good.\<close>

record dir_entry =
  de_nickname :: string
  de_ports :: "int list"
  de_tunnels :: "string list"
  de_connected :: bool
  de_revoked :: bool

type_synonym directory = "string \<rightharpoonup> dir_entry"

fun directory_call :: "directory \<Rightarrow> binding_call \<Rightarrow> directory" where
  "directory_call d (RenameAgent i n) = d(i := map_option (\<lambda>e. e\<lparr>de_nickname := n\<rparr>) (d i))"
| "directory_call d (SetAgentScope i ps ts) = d(i := map_option (\<lambda>e. e\<lparr>de_ports := ps, de_tunnels := ts\<rparr>) (d i))"
| "directory_call d (RevokeAgent i) = d(i := map_option (\<lambda>e. e\<lparr>de_revoked := True, de_connected := False\<rparr>) (d i))"
| "directory_call d _ = d"

fun directory_step :: "directory \<Rightarrow> world_event \<Rightarrow> directory" where
  "directory_step d (MockTick now r1 r2) = d"
| "directory_step d (MockCall c) = directory_call d c"

definition all_views :: "mock_world \<Rightarrow> agent_view list" where
  "all_views w = connected_views w @ offline_views (mk_now0 (mw_clock w)) @ revoked_views (mk_now0 (mw_clock w))"

definition dir_entry_of :: "agent_view \<Rightarrow> dir_entry" where
  "dir_entry_of v = \<lparr>de_nickname = view_nickname v, de_ports = view_scope_ports v, de_tunnels = view_scope_tunnels v,
     de_connected = view_connected v, de_revoked = view_revoked v\<rparr>"

definition directory_of :: "mock_world \<Rightarrow> directory" where
  "directory_of w = map_of (map (\<lambda>v. (view_agent_id v, dir_entry_of (apply_override (mw_overrides w) v))) (all_views w))"

lemma list_agents_views:
  "list_agents w = (if mw_role w \<noteq> ''gateway'' \<or> ax_fleet (mw_axes w) = ''old'' then [] else map (apply_override (mw_overrides w)) (all_views w))"
  by (simp add: list_agents_def all_views_def)

lemma override_id [simp]: "view_agent_id (apply_override os v) = view_agent_id v"
  by (simp add: apply_override_def Let_def split: option.split)

lemma override_other [simp]: "view_agent_id v \<noteq> i \<Longrightarrow> apply_override (os(i \<mapsto> d)) v = apply_override os v"
  by (simp add: apply_override_def)

lemma map_of_change:
  assumes "\<forall>v \<in> set vs. k v \<noteq> i \<longrightarrow> f' v = f v" and "\<forall>v \<in> set vs. k v = i \<longrightarrow> f' v = g (f v)"
  shows "map_of (map (\<lambda>v. (k v, f' v)) vs) = (map_of (map (\<lambda>v. (k v, f v)) vs))(i := map_option g (map_of (map (\<lambda>v. (k v, f v)) vs) i))"
  using assms by (induction vs) (auto simp: fun_eq_iff)

text \<open>What no event changes.\<close>

lemma call_kept [simp]:
  "mw_axes (snd (mock_call c w)) = mw_axes w" "mw_clock (snd (mock_call c w)) = mw_clock w"
  "mw_link_up (snd (mock_call c w)) = mw_link_up w" "mw_conns (snd (mock_call c w)) = mw_conns w"
  "mw_bytes_in (snd (mock_call c w)) = mw_bytes_in w" "mw_bytes_out (snd (mock_call c w)) = mw_bytes_out w"
  by (cases c; simp add: rename_agent_def set_agent_scope_def revoke_agent_def save_settings_def gated_def set_override_def become_role_def Let_def)+

lemma tick_kept [simp]:
  "mw_axes (mock_tick now r1 r2 w) = mw_axes w" "mw_clock (mock_tick now r1 r2 w) = mw_clock w"
  "mw_link_up (mock_tick now r1 r2 w) = mw_link_up w" "mw_role (mock_tick now r1 r2 w) = mw_role w"
  "mw_config (mock_tick now r1 r2 w) = mw_config w" "mw_overrides (mock_tick now r1 r2 w) = mw_overrides w"
  by (simp_all add: mock_tick_def Let_def)

lemma step_kept [simp]:
  "mw_axes (world_step w e) = mw_axes w" "mw_clock (world_step w e) = mw_clock w" "mw_link_up (world_step w e) = mw_link_up w"
  by (cases e; simp)+

lemma all_views_step [simp]: "all_views (world_step w e) = all_views w"
  by (simp add: all_views_def connected_views_def Let_def)

lemma call_overrides:
  "mw_overrides (snd (mock_call c w)) = (if ax_attached (mw_axes w) then mw_overrides w else case c of
     RenameAgent i n \<Rightarrow> (mw_overrides w)(i \<mapsto> (override_of w i)\<lparr>ov_nickname := Some n\<rparr>)
   | SetAgentScope i ps ts \<Rightarrow> (mw_overrides w)(i \<mapsto> (override_of w i)\<lparr>ov_scope_ports := Some ps, ov_scope_tunnels := Some ts\<rparr>)
   | RevokeAgent i \<Rightarrow> if i \<in> set (known_agent_ids (mk_now0 (mw_clock w)))
       then (mw_overrides w)(i \<mapsto> (override_of w i)\<lparr>ov_revoked := Some True\<rparr>) else mw_overrides w
   | _ \<Rightarrow> mw_overrides w)"
  by (cases c) (simp_all add: rename_agent_def set_agent_scope_def revoke_agent_def save_settings_def gated_def set_override_def become_role_def Let_def)

lemma listed_ids_known: "v \<in> set (all_views w) \<Longrightarrow> view_agent_id v \<in> set (known_agent_ids (mk_now0 (mw_clock w)))"
  by (auto simp: all_views_def connected_views_def known_agent_ids_def extra_view_def mk_view_def Let_def split: if_splits prod.splits)

lemmas override_simps = dir_entry_of_def apply_override_def override_of_def no_override_def Let_def

lemma entry_renamed: "dir_entry_of (apply_override (os(view_agent_id v \<mapsto> d\<lparr>ov_nickname := Some n\<rparr>)) v)
    = (dir_entry_of (apply_override os v))\<lparr>de_nickname := n\<rparr>" if "d = (case os (view_agent_id v) of Some d \<Rightarrow> d | None \<Rightarrow> no_override)"
  using that by (simp add: override_simps split: option.split)

lemma entry_scoped: "dir_entry_of (apply_override (os(view_agent_id v \<mapsto> d\<lparr>ov_scope_ports := Some ps, ov_scope_tunnels := Some ts\<rparr>)) v)
    = (dir_entry_of (apply_override os v))\<lparr>de_ports := ps, de_tunnels := ts\<rparr>" if "d = (case os (view_agent_id v) of Some d \<Rightarrow> d | None \<Rightarrow> no_override)"
  using that by (simp add: override_simps split: option.split)

lemma entry_revoked: "dir_entry_of (apply_override (os(view_agent_id v \<mapsto> d\<lparr>ov_revoked := Some True\<rparr>)) v)
    = (dir_entry_of (apply_override os v))\<lparr>de_revoked := True, de_connected := False\<rparr>" if "d = (case os (view_agent_id v) of Some d \<Rightarrow> d | None \<Rightarrow> no_override)"
  using that by (simp add: override_simps split: option.split)


lemma directory_unknown: "i \<notin> set (known_agent_ids (mk_now0 (mw_clock w))) \<Longrightarrow> directory_of w i = None"
  using listed_ids_known [of _ w] by (auto simp: directory_of_def map_of_eq_None_iff)

lemma directory_changed:
  assumes "mw_overrides w' = (mw_overrides w)(i \<mapsto> d)" and "all_views w' = all_views w"
    and "\<And>v. view_agent_id v = i \<Longrightarrow> dir_entry_of (apply_override ((mw_overrides w)(i \<mapsto> d)) v) = g (dir_entry_of (apply_override (mw_overrides w) v))"
  shows "directory_of w' = (directory_of w)(i := map_option g (directory_of w i))"
  unfolding directory_of_def assms(1,2) by (rule map_of_change) (use assms(3) in auto)

lemma directory_kept: "mw_overrides w' = mw_overrides w \<Longrightarrow> all_views w' = all_views w \<Longrightarrow> directory_of w' = directory_of w"
  by (simp add: directory_of_def)

lemma directory_of_call:
  assumes "\<not> ax_attached (mw_axes w)"
  shows "directory_of (snd (mock_call c w)) = directory_call (directory_of w) c"
proof -
  have views: "all_views (snd (mock_call c w)) = all_views w" using all_views_step [of w "MockCall c"] by simp
  note os = call_overrides [of c w]
  show ?thesis
  proof (cases c)
    case (RenameAgent i n)
    with assms os have "mw_overrides (snd (mock_call c w)) = (mw_overrides w)(i \<mapsto> (override_of w i)\<lparr>ov_nickname := Some n\<rparr>)" by simp
    from directory_changed [OF this views, where g = "\<lambda>e. e\<lparr>de_nickname := n\<rparr>"] entry_renamed [of "override_of w i" "mw_overrides w"]
    show ?thesis by (auto simp: RenameAgent override_of_def)
  next
    case (SetAgentScope i ps ts)
    with assms os have "mw_overrides (snd (mock_call c w))
      = (mw_overrides w)(i \<mapsto> (override_of w i)\<lparr>ov_scope_ports := Some ps, ov_scope_tunnels := Some ts\<rparr>)" by simp
    from directory_changed [OF this views, where g = "\<lambda>e. e\<lparr>de_ports := ps, de_tunnels := ts\<rparr>"] entry_scoped [of "override_of w i" "mw_overrides w"]
    show ?thesis by (auto simp: SetAgentScope override_of_def)
  next
    case (RevokeAgent i)
    show ?thesis
    proof (cases "i \<in> set (known_agent_ids (mk_now0 (mw_clock w)))")
      case True
      with assms os RevokeAgent have "mw_overrides (snd (mock_call c w)) = (mw_overrides w)(i \<mapsto> (override_of w i)\<lparr>ov_revoked := Some True\<rparr>)" by simp
      from directory_changed [OF this views, where g = "\<lambda>e. e\<lparr>de_revoked := True, de_connected := False\<rparr>"] entry_revoked [of "override_of w i" "mw_overrides w"]
      show ?thesis by (auto simp: RevokeAgent override_of_def)
    next
      case False
      with os RevokeAgent have "mw_overrides (snd (mock_call c w)) = mw_overrides w" by simp
      from directory_kept [OF this views] show ?thesis using directory_unknown [OF False] by (simp add: RevokeAgent fun_upd_idem)
    qed
  qed (use directory_kept [OF _ views] os assms in \<open>simp_all\<close>)
qed

interpretation mock_directory: refining_machine world_step "\<lambda>w. \<not> ax_attached (mw_axes w)" directory_step directory_of
proof unfold_locales
  fix w :: mock_world and e assume eng: "\<not> ax_attached (mw_axes w)"
  then show "\<not> ax_attached (mw_axes (world_step w e))" by simp
  show "directory_of (world_step w e) = directory_step (directory_of w) e"
  proof (cases e)
    case (MockTick now r1 r2)
    then have "mw_overrides (world_step w e) = mw_overrides w" by simp
    from directory_kept [OF this all_views_step] show ?thesis by (simp only: MockTick directory_step.simps)
  next
    case (MockCall c)
    with directory_of_call [OF eng, of c] show ?thesis by simp
  qed
qed

text \<open>A revocation is final.\<close>

definition revoked_in :: "string \<Rightarrow> mock_world \<Rightarrow> bool" where
  "revoked_in i w \<longleftrightarrow> (\<exists>d. mw_overrides w i = Some d \<and> ov_revoked d = Some True)"

lemma revoked_step: "revoked_in i w \<Longrightarrow> revoked_in i (world_step w e)"
  by (cases e) (auto simp: revoked_in_def call_overrides override_of_def split: binding_call.split)

lemma revoked_override:
  "revoked_in (view_agent_id v) w \<Longrightarrow> view_revoked (apply_override (mw_overrides w) v) \<and> \<not> view_connected (apply_override (mw_overrides w) v)"
  by (auto simp: revoked_in_def apply_override_def Let_def)

interpretation revocation: invariant_machine world_step "revoked_in i" for i
  by unfold_locales (rule revoked_step)

text \<open>The role of the configuration is the role of the status, and the mock keeps its two connections.\<close>

definition world_inv :: "mock_world \<Rightarrow> bool" where
  "world_inv w \<longleftrightarrow> cfg_role (mw_config w) = mw_role w \<and> map conn_id (mw_conns w) = [1, 2]"

lemma tick_ids: "map conn_id (mw_conns (mock_tick now r1 r2 w)) = map conn_id (mw_conns w)"
  by (simp add: mock_tick_def add_conn_bytes_def map_update Let_def list_update_same_conv nth_list_update flip: map_update)
     (cases "mw_conns w"; cases "tl (mw_conns w)"; simp add: list_update_beyond)

lemma world_inv_step: "world_inv w \<Longrightarrow> world_inv (world_step w e)"
proof (cases e)
  case (MockCall c)
  assume "world_inv w"
  then show ?thesis unfolding MockCall by (cases c)
    (simp_all add: world_inv_def rename_agent_def set_agent_scope_def revoke_agent_def save_settings_def gated_def set_override_def become_role_def Let_def)
qed (simp add: world_inv_def tick_ids)

interpretation world: invariant_machine world_step world_inv
  by unfold_locales (rule world_inv_step)


section \<open>The fleet's identities\<close>

lemma extra_ids: "map xa_id (extra_agents n) = [''7788990011223344aabbccddeeff0011'', ''ccddeeff001122334455667788990011'',
    ''aa00bb11cc22dd33ee44ff5566778899'', ''f0e1d2c3b4a5968778695a4b3c2d1e0f'']"
  by (simp add: extra_agents_def)

lemma extra_ids_distinct: "distinct (''agentid'' # map xa_id (extra_agents n))"
  unfolding extra_ids by code_simp

lemma known_ids_distinct: "distinct (known_agent_ids n)"
  unfolding known_agent_ids_def extra_ids by (simp add: offline_views_def revoked_views_def mk_view_def)

lemma view_of_extra [simp]: "view_agent_id (extra_view n a) = xa_id a"
  by (simp add: extra_view_def mk_view_def split: prod.split option.split)

lemma views_distinct: "distinct (map view_agent_id (all_views w))"
proof -
  have "subseq (map view_agent_id (connected_views w)) (''agentid'' # map xa_id (extra_agents (mk_now0 (mw_clock w))))"
    by (auto simp: connected_views_def Let_def mk_view_def comp_def)
  then have "subseq (map view_agent_id (all_views w)) (known_agent_ids (mk_now0 (mw_clock w)))"
    unfolding all_views_def known_agent_ids_def map_append append_Cons [symmetric] by (intro list_emb_append_mono) auto
  then show ?thesis using known_ids_distinct by (auto simp: subseq_conv_nths distinct_nthsI)
qed

text \<open>The elements tagged with an identity, out of the concatenation over all of them.\<close>

lemma filter_tagged:
  assumes "distinct (map ident xs)" and "a \<in> set xs" and "\<And>a y. tag (f a y) = ident a"
  shows "filter (\<lambda>z. tag z = ident a) (concat (map (\<lambda>a. map (f a) (g a)) xs)) = map (f a) (g a)"
  using assms(1,2)
proof (induction xs)
  case (Cons x xs)
  have all: "filter (\<lambda>z. tag z = ident a) (map (f b) (g b)) = (if ident b = ident a then map (f b) (g b) else [])" for b
    by (simp add: filter_map comp_def assms(3))
  show ?case
  proof (cases "a = x")
    case True
    with Cons.prems(1) have "ident a \<notin> ident ` set xs" by simp
    then have "\<forall>b \<in> set xs. ident b \<noteq> ident a" by (metis imageI)
    then have "filter (\<lambda>z. tag z = ident a) (concat (map (\<lambda>a. map (f a) (g a)) xs)) = []"
      by (auto simp: filter_empty_conv assms(3))
    with True all [of x] show ?thesis by simp
  next
    case False
    with Cons.prems have "ident x \<noteq> ident a" by auto
    with False Cons all [of x] show ?thesis by auto
  qed
qed simp

lemma filter_untagged:
  "(\<And>a y. tag (f a y) = ident a) \<Longrightarrow> i \<notin> set (map ident xs) \<Longrightarrow>
    filter (\<lambda>z. tag z = i) (concat (map (\<lambda>a. map (f a) (g a)) xs)) = []"
  by (auto simp: filter_empty_conv)

section \<open>Properties\<close>


text \<open>An agent that was revoked is listed as revoked and not connected ever after, whatever is called next,
  renames and scope edits of it included.\<close>

theorem revoked_for_good:
  assumes "mock_call (RevokeAgent i) w = (None, w')"
  shows "\<forall>v \<in> set (list_agents (foldl world_step w' es)). view_agent_id v = i \<longrightarrow> view_revoked v \<and> \<not> view_connected v"
proof -
  have "\<not> ax_attached (mw_axes w)" "i \<in> set (known_agent_ids (mk_now0 (mw_clock w)))" "w' = snd (mock_call (RevokeAgent i) w)"
    using assms by (auto simp: revoke_agent_def gated_def split: if_splits)
  then have "revoked_in i w'" using call_overrides [of "RevokeAgent i" w] by (simp add: revoked_in_def)
  from revocation.inv_run [OF this] have "revoked_in i (foldl world_step w' es)" .
  then show ?thesis by (auto simp: list_agents_views revoked_override split: if_splits)
qed

text \<open>While its link is up, the health rows of a gateway's status and the connected rows of its directory are about
  the same agents, each with the tunnels and players the status lists under its identity.\<close>

theorem fleet_agrees:
  assumes "mw_role w = ''gateway''" and "mw_link_up w" and "ax_fleet (mw_axes w) \<noteq> ''old''" and "st_agents (mock_status w now) = Some as"
  shows "map agent_agent_id as = map view_agent_id (connected_views w)
    \<and> map agent_hostname as = map view_hostname (connected_views w) \<and> map agent_remote_ip as = map view_remote_ip (connected_views w)
    \<and> map agent_link_up_since_ms as = map view_link_up_since_ms (connected_views w)
    \<and> map agent_tunnels as = map view_tunnels (connected_views w)
    \<and> (\<forall>a \<in> set as. agent_tunnels a = int (length (filter (\<lambda>t. tun_agent_id t = Some (agent_agent_id a)) (mock_tunnels w)))
        \<and> agent_players a = int (length (filter (\<lambda>c. conn_agent_id c = Some (agent_agent_id a)) (mock_connections w))))"
proof -
  let ?xs = "fleet_extras w"
  obtain j l where as: "as = agent0 w now j l # map (extra_status w) ?xs"
    using assms by (auto simp: mock_status_def gw_agents_def Let_def)
  have views: "connected_views w = hd (connected_views w) # map (extra_view (mk_now0 (mw_clock w))) ?xs"
    using assms by (auto simp: connected_views_def fleet_extras_def Let_def)
  have v0: "view_agent_id (hd (connected_views w)) = ''agentid'' \<and> view_hostname (hd (connected_views w)) = ''DESKTOP-DEV''
      \<and> view_remote_ip (hd (connected_views w)) = ''84.23.101.7'' \<and> view_link_up_since_ms (hd (connected_views w)) = mk_link_up_since (mw_clock w)
      \<and> view_tunnels (hd (connected_views w)) = 1"
    using assms by (simp add: connected_views_def mk_view_def Let_def)
  have lists: "map agent_agent_id as = map view_agent_id (connected_views w)
    \<and> map agent_hostname as = map view_hostname (connected_views w) \<and> map agent_remote_ip as = map view_remote_ip (connected_views w)
    \<and> map agent_link_up_since_ms as = map view_link_up_since_ms (connected_views w) \<and> map agent_tunnels as = map view_tunnels (connected_views w)"
    by (subst (1 2 3 4 5) views) (auto simp: as v0 agent0_def extra_status_def extra_view_def mk_view_def split: prod.split option.split)
  have dist: "distinct (map (\<lambda>a. Some (xa_id a)) ?xs)" "Some ''agentid'' \<notin> set (map (\<lambda>a. Some (xa_id a)) ?xs)"
    using extra_ids_distinct [of "mk_now0 (mw_clock w)"] distinct_map [of xa_id] by (auto simp: fleet_extras_def distinct_map inj_on_def)
  have tuns: "mock_tunnels w = mock_tunnel_ui (Some ''agentid'') 25565 40 ''per-direction'' # concat (map (\<lambda>a. map (extra_tunnel_ui a) (xa_tunnels a)) ?xs)"
    and conns: "mock_connections w = stamped ''agentid'' (mw_conns w) @ concat (map (\<lambda>a. map (\<lambda>c. c\<lparr>conn_agent_id := Some (xa_id a)\<rparr>) (xa_conns a)) ?xs)"
    using assms by (simp_all add: mock_tunnels_def mock_connections_def stamped_def)
  have own: "filter (\<lambda>c. conn_agent_id c = Some i) (stamped ''agentid'' (mw_conns w)) = (if i = ''agentid'' then stamped ''agentid'' (mw_conns w) else [])" for i
    by (auto simp: stamped_def filter_map comp_def)
  have "agent_tunnels a = int (length (filter (\<lambda>t. tun_agent_id t = Some (agent_agent_id a)) (mock_tunnels w)))
      \<and> agent_players a = int (length (filter (\<lambda>c. conn_agent_id c = Some (agent_agent_id a)) (mock_connections w)))" if "a \<in> set as" for a
  proof (cases "a = agent0 w now j l")
    case True
    then show ?thesis using filter_untagged [of tun_agent_id extra_tunnel_ui "\<lambda>a. Some (xa_id a)", OF _ dist(2)]
        filter_untagged [of conn_agent_id "\<lambda>a c. c\<lparr>conn_agent_id := Some (xa_id a)\<rparr>" "\<lambda>a. Some (xa_id a)", OF _ dist(2)]
      by (simp add: tuns conns own agent0_def mock_tunnel_ui_def extra_tunnel_ui_def stamped_def)
  next
    case False
    with that obtain x where x: "a = extra_status w x" "x \<in> set ?xs" by (auto simp: as)
    then have "xa_id x \<noteq> ''agentid''" using dist(2) by (force simp: image_iff)
    then show ?thesis using filter_tagged [OF dist(1) x(2), of tun_agent_id extra_tunnel_ui xa_tunnels]
        filter_tagged [OF dist(1) x(2), of conn_agent_id "\<lambda>a c. c\<lparr>conn_agent_id := Some (xa_id a)\<rparr>" xa_conns]
      by (simp add: tuns conns own x(1) extra_status_def mock_tunnel_ui_def extra_tunnel_ui_def)
  qed
  with lists show ?thesis by blast
qed


text \<open>The status reports the role of the configuration, whichever binding set it. A machine that was never
  paired does not become an agent unless it goes through the agent's setup: saving that role is refused,
  and what was saved before stays.\<close>

lemma unpaired_step:
  "acfg_token (cfg_agent (mw_config w)) = '''' \<and> mw_role w \<noteq> ''agent'' \<Longrightarrow> e \<noteq> MockCall SetupAgent \<Longrightarrow>
    acfg_token (cfg_agent (mw_config (world_step w e))) = '''' \<and> mw_role (world_step w e) \<noteq> ''agent''"
proof (cases e)
  case (MockCall c)
  assume "acfg_token (cfg_agent (mw_config w)) = '''' \<and> mw_role w \<noteq> ''agent''" and "e \<noteq> MockCall SetupAgent"
  then show ?thesis unfolding MockCall by (cases c)
    (simp_all add: rename_agent_def set_agent_scope_def revoke_agent_def save_settings_def gated_def set_override_def become_role_def Let_def)
qed simp

lemma unpaired_run:
  "acfg_token (cfg_agent (mw_config w)) = '''' \<and> mw_role w \<noteq> ''agent'' \<Longrightarrow> MockCall SetupAgent \<notin> set es \<Longrightarrow>
    acfg_token (cfg_agent (mw_config (foldl world_step w es))) = '''' \<and> mw_role (foldl world_step w es) \<noteq> ''agent''"
proof (induction es arbitrary: w)
  case (Cons e es)
  from unpaired_step [OF Cons.prems(1)] Cons.prems(2) Cons.IH [of "world_step w e"] show ?case by auto
qed simp

lemma world_inv_install: "world_inv (mock_install ax k theme)"
  by (simp add: world_inv_def mock_install_def mock_config_def mock_conns_def extra_conn_def Let_def)

theorem role_follows_config:
  assumes "w = foldl world_step (mock_install ax k theme) es"
  shows "cfg_role (mw_config w) = mw_role w \<and> (\<not> ax_wizard ax \<longrightarrow> st_role (mock_status w now) = cfg_role (mw_config w))
    \<and> (ax_unpaired ax \<and> ax_gateway ax \<and> MockCall SetupAgent \<notin> set es \<longrightarrow> mw_role w \<noteq> ''agent''
        \<and> (cfg_role c = ''agent'' \<longrightarrow> fst (mock_call (SaveSettings c) w) \<noteq> None \<and> snd (mock_call (SaveSettings c) w) = w))"
proof -
  have ax: "mw_axes (foldl world_step v es) = mw_axes v" for v by (induction es arbitrary: v) auto
  have "cfg_role (mw_config w) = mw_role w" using world.inv_run [OF world_inv_install, of ax k theme es] by (simp add: world_inv_def assms)
  moreover have "mw_axes w = ax" using ax [of "mock_install ax k theme"] by (simp add: assms mock_install_def Let_def)
  moreover have "acfg_token (cfg_agent (mw_config w)) = '''' \<and> mw_role w \<noteq> ''agent''" if "ax_unpaired ax" "ax_gateway ax" "MockCall SetupAgent \<notin> set es"
    unfolding assms using that by (intro unpaired_run) (simp_all add: mock_install_def mock_config_def Let_def)
  ultimately show ?thesis by (auto simp: mock_status_def save_settings_def Let_def)
qed

text \<open>Traffic only grows, in total and per connection.\<close>

definition counters_ge :: "mock_world \<Rightarrow> mock_world \<Rightarrow> bool" where
  "counters_ge w0 w \<longleftrightarrow> mw_bytes_in w0 \<le> mw_bytes_in w \<and> mw_bytes_out w0 \<le> mw_bytes_out w
     \<and> list_all2 (\<lambda>c d. conn_bytes_in c \<le> conn_bytes_in d \<and> conn_bytes_out c \<le> conn_bytes_out d) (mw_conns w0) (mw_conns w)"

lemma grown_update:
  assumes "list_all2 (\<lambda>c d. f c \<le> (f d :: int) \<and> g c \<le> (g d :: int)) xs ys" and "i < length ys \<Longrightarrow> f (ys ! i) \<le> f y \<and> g (ys ! i) \<le> g y"
  shows "list_all2 (\<lambda>c d. f c \<le> f d \<and> g c \<le> g d) xs (ys[i := y])"
proof -
  have "f (xs ! j) \<le> f (ys[i := y] ! j) \<and> g (xs ! j) \<le> g (ys[i := y] ! j)" if "j < length xs" for j
    using assms that by (cases "i = j") (auto simp: list_all2_conv_all_nth intro: order_trans)
  then show ?thesis using assms(1) by (simp add: list_all2_conv_all_nth)
qed

lemma counters_step: "counters_ge w0 w \<Longrightarrow> counters_ge w0 (world_step w e)"
proof (cases e)
  case (MockTick now r1 r2)
  assume ge: "counters_ge w0 w"
  have "0 \<le> down_rate (mw_clock w) (of_int now)" "0 \<le> up_rate (mw_clock w) (of_int now)"
    using down_rate_nonneg [of "mw_clock w" "of_int now"] up_rate_bounds(1) [of "mw_clock w" "of_int now"] by auto
  moreover from this have "0 \<le> js_round (down_rate (mw_clock w) (of_int now) * 0.5)" "0 \<le> js_round (up_rate (mw_clock w) (of_int now) * 0.5)"
    by (auto intro!: js_round_nonneg)
  ultimately show ?thesis using ge unfolding MockTick
    by (auto simp: counters_ge_def mock_tick_def add_conn_bytes_def Let_def nth_list_update
        intro!: grown_update js_round_nonneg divide_nonneg_pos mult_nonneg_nonneg)
qed (simp add: counters_ge_def)

interpretation counters: invariant_machine world_step "counters_ge w0" for w0
  by unfold_locales (rule counters_step)

theorem counters_never_fall: "counters_ge w (foldl world_step w es)"
  by (rule counters.inv_run) (simp add: counters_ge_def list_all2_refl)

text \<open>The codes of the mock pass the pairing parser of the wizard.\<close>

lemma mock_code_parses:
  assumes "tok \<noteq> []" "CHR ''/'' \<notin> set tok" "CHR ''#'' \<notin> set tok" "length hex = 64" "list_all is_hex hex"
  shows "parse_pairing (''pxf://play.example.com:8474/v1/pair/'' @ tok @ ''#sha256:'' @ hex) = Some (''play.example.com'', 8474)"
proof -
  let ?c = "pairing_code ''play.example.com'' 8474 tok hex"
  have "show_nat 8474 = ''8474''" by (simp add: js_simps)
  then have c: "''pxf://play.example.com:8474/v1/pair/'' @ tok @ ''#sha256:'' @ hex = ?c" by (simp add: pairing_code_def)
  have "hex \<noteq> []" using assms(4) by auto
  then have "last ?c \<in> set hex" by (simp add: pairing_code_def)
  with assms(5) have "is_hex (last ?c)" by (auto simp: list_all_iff)
  then have "\<not> is_space (last ?c)" by (auto simp: is_hex_def is_space_def Let_def)
  moreover have "\<not> is_space (hd ?c)" "?c \<noteq> []" by (simp_all add: pairing_code_def is_space_def)
  ultimately have "js_trim ?c = ?c" using js_trim_pad [of "[]" "[]" ?c] by (simp del: append_assoc)
  with pairing_match_code [of "''play.example.com''" tok hex 8474] assms
  show ?thesis unfolding c by (simp add: parse_pairing_def strip_brackets_def)
qed

lemma mock_codes_parse:
  "parse_pairing deep_link_text = Some (''play.example.com'', 8474)"
  "parse_pairing pairing_text = Some (''play.example.com'', 8474)"
  using mock_code_parses [of "''tkt_0123456789abcdef0123456789abcdef''" "''aaaaaaaaaaaaaaaaaaaaaaaaaaaaaaaaaaaaaaaaaaaaaaaaaaaaaaaaaaaaaaaa''"]
    mock_code_parses [of "''3f8a1c9e2b7d4056a1b2c3d4e5f60718''" "''9f86d081884c7d659a2feaa0c55ad015a3bf4f1b2b0b822cd15d6c15b0f00a08''"]
  by (simp_all add: deep_link_text_def pairing_text_def is_hex_def)

section \<open>Witnesses\<close>

definition gateway_world :: mock_world where
  "gateway_world = mock_install (axes_of [''mock'' \<mapsto> ''gateway'', ''fleet'' \<mapsto> ''multi'', ''paired'' \<mapsto> ''0'']) sample_clock ''''"

lemma gateway_world_simps [simp]:
  "mw_role gateway_world = ''gateway''" "mw_link_up gateway_world" "ax_fleet (mw_axes gateway_world) = ''multi''"
  "\<not> ax_attached (mw_axes gateway_world)" "mk_now0 (mw_clock gateway_world) = 100000"
  by (simp_all add: gateway_world_def mock_install_def axes_of_def param_or_def sample_clock_def mock_clock_at_def Let_def)


theorem revoked_for_good_witness:
  "filter (\<lambda>v. view_agent_id v = ''agentid'' \<and> view_connected v)
     (list_agents (foldl world_step (snd (mock_call (RevokeAgent ''agentid'') gateway_world)) [MockCall (RenameAgent ''agentid'' ''x'')])) = []"
proof -
  have "mock_call (RevokeAgent ''agentid'') gateway_world = (None, snd (mock_call (RevokeAgent ''agentid'') gateway_world))"
    by (simp add: revoke_agent_def gated_def known_agent_ids_def)
  from revoked_for_good [OF this, of "[MockCall (RenameAgent ''agentid'' ''x'')]"] show ?thesis unfolding filter_empty_conv by blast
qed

theorem fleet_agrees_witness:
  "map agent_hostname (the (st_agents (mock_status gateway_world 100000))) = map view_hostname (connected_views gateway_world)"
proof -
  obtain as where "st_agents (mock_status gateway_world 100000) = Some as" by (simp add: mock_status_def Let_def)
  with fleet_agrees [of gateway_world 100000 as] show ?thesis by simp
qed

theorem role_follows_config_witness:
  "mw_role (foldl world_step gateway_world [MockCall SetupGateway]) \<noteq> ''agent''"
  using role_follows_config [of _ "axes_of [''mock'' \<mapsto> ''gateway'', ''fleet'' \<mapsto> ''multi'', ''paired'' \<mapsto> ''0'']" sample_clock "''''" "[MockCall SetupGateway]"]
  by (simp add: gateway_world_def [symmetric]) (simp add: axes_of_def param_or_def)

end
