(* ===== verification/Mock_Analytics.thy ===== *)
theory Mock_Analytics
  imports Mock_World Tunnels Dashboard
begin

text \<open>
  The analytics of \<open>devmock.ts\<close>: the wall of players and the connection history drawn from the hash, and
  the queries over them, page by page, per player, per session, per country, per weekday and hour,
  per tunnel. The queries take the time of the call; a wizard and a fresh install have no data.
\<close>

section \<open>Players and sessions\<close>

definition mc_names :: "string list" where
  "mc_names = [
     ''Notch'', ''jeb_'', ''Herobrine_x'', ''EnderQueen'', ''CraftyPete'', ''redstone_rat'', ''Skyfall9'', ''ObsidianMike'',
     ''PixelPaula'', ''TNT_Tim'', ''shulker_sam'', ''DiamondDee'', ''GrassBlockGus'', ''Nether_Nia'', ''ZombieZoe'', ''creeper_carl'',
     ''IronGolemIan'', ''BlazeRunner'', ''AxolotlAmy'', ''villager_vic'', ''PhantomPhil'', ''CopperCleo'', ''WardenWill'', ''slime_sue'',
     ''ElytraElla'', ''BeaconBen'', ''kelp_farmer'', ''AncientDebra'', ''PiglinPia'', ''trident_troy'', ''MooshroomMo'', ''SoulSandSid'',
     ''GhastGreta'', ''lodestone_lu'', ''HuskHarvey'', ''CalciteCass'', ''sniffer_stan'', ''BreezeBex'', ''MaceMarty'', ''cherry_chloe'',
     ''TuffTina'', ''VexVernon'', ''camel_kai'', ''StriderStella'', ''AlayAllan'', ''frog_light_fi'', ''BundleBoris'', ''SusStewNed'']"

definition mock_ccs :: "string list" where
  "mock_ccs = [''NZ'', ''AU'', ''US'', ''DE'', ''GB'', ''FR'', ''SE'', ''BR'', ''JP'', ''CA'']"

definition country_names :: "(string \<times> string) list" where
  "country_names = [(''NZ'', ''New Zealand''), (''AU'', ''Australia''), (''US'', ''United States''), (''DE'', ''Germany''),
     (''GB'', ''United Kingdom''), (''FR'', ''France''), (''SE'', ''Sweden''), (''BR'', ''Brazil''), (''JP'', ''Japan''), (''CA'', ''Canada'')]"

fun show_hex :: "nat \<Rightarrow> string" where
  "show_hex n = (if n < 16 then [hex_digit n] else show_hex (n div 16) @ [hex_digit (n mod 16)])"

declare show_hex.simps [simp del]

definition hex32 :: "int \<Rightarrow> string" where
  "hex32 seed = concat (map (\<lambda>k. pad_start 4 (CHR ''0'') (show_hex (nat \<lfloor>hash01 (seed * 8 + k) * 0xffff\<rfloor>))) [0, 1, 2, 3, 4, 5, 6, 7])"

definition dash_uuid :: "int \<Rightarrow> string" where
  "dash_uuid seed = (let h = hex32 seed; part = (\<lambda>a b. take (b - a) (drop a h)) in
     part 0 8 @ ''-'' @ part 8 12 @ ''-'' @ part 12 16 @ ''-'' @ part 16 20 @ ''-'' @ drop 20 h)"

definition mock_player :: "mock_world \<Rightarrow> int \<Rightarrow> string \<Rightarrow> player_card" where
  "mock_player w i name = (let k = mw_clock w; now0 = mk_now0 k;
       offline = (1 < i \<and> i mod 11 = 7);
       uuid = (if i = 0 then ''069a79f4-44e9-4726-a5be-fca90e38aaf5'' else if i = 1 then ''853c80ef-3c37-49fd-aa49-938b674adae6''
         else if offline then ''offline:'' @ js_lower name else dash_uuid (i + 101));
       lastSeen = (if i < 2 then now0 else now0 - js_round (hash01 (i * 7 + 1) ^ 2 * 12 * 86400000) - 60000);
       firstSeen = max (mk_installed_at k) (lastSeen - js_round (hash01 (i * 7 + 2) * 30 * 86400000) - 3600000);
       sessions = 1 + \<lfloor>hash01 (i * 7 + 3) powr 1.6 * 80\<rfloor>;
       playMs = sessions * js_round ((20 + 160 * hash01 (i * 7 + 4)) * 60000);
       bytesOut = sessions * js_round (30000000 + 400000000 * hash01 (i * 7 + 5)) in
     \<lparr>card_uuid = uuid, card_name = name, card_offline = offline, card_online = (i < 2 \<and> mw_link_up w),
      card_first_seen = firstSeen, card_last_seen = lastSeen, card_sessions = sessions, card_play_ms = playMs,
      card_bytes_in = js_round (of_int bytesOut / 96), card_bytes_out = bytesOut,
      card_last_cc = mock_ccs ! nat \<lfloor>hash01 (i * 7 + 6) * of_nat (length mock_ccs)\<rfloor>,
      card_rtt_ms = (if offline then 0 else of_int (js_round (15 + 120 * hash01 (i * 7 + 8) ^ 2)))\<rparr>)"

definition mock_players :: "mock_world \<Rightarrow> player_card list" where
  "mock_players w = map (\<lambda>(i, name). mock_player w (int i) name) (enumerate 0 mc_names)"

definition live_session :: "nat \<Rightarrow> conn_ui \<Rightarrow> session_meta" where
  "live_session i c = \<lparr>sess_id = 5000 + int i, sess_tunnel_name = conn_tunnel_name c,
     sess_client_ip = takeWhile (\<lambda>x. x \<noteq> CHR '':'') (conn_client_addr c),
     sess_player_name = (case conn_player_name c of Some n \<Rightarrow> n | None \<Rightarrow> ''''),
     sess_player_uuid = (case conn_player_uuid c of Some u \<Rightarrow> u | None \<Rightarrow> ''''),
     sess_started_ms = conn_started_at c, sess_ended_ms = 0, sess_bytes_in = conn_bytes_in c, sess_bytes_out = conn_bytes_out c,
     sess_cc = mock_ccs ! i, sess_rtt_avg = 20 + of_nat i * 9\<rparr>"

definition mock_ip :: "int \<Rightarrow> int \<Rightarrow> int \<Rightarrow> int \<Rightarrow> string" where
  "mock_ip a b c d = show_int a @ ''.'' @ show_int b @ ''.'' @ show_int c @ ''.'' @ show_int d"

definition past_session :: "mock_world \<Rightarrow> int \<Rightarrow> session_meta" where
  "past_session w s = (let now0 = mk_now0 (mw_clock w); ps = mock_players w;
       p = ps ! nat \<lfloor>hash01 (s * 13 + 3) * of_nat (length ps)\<rfloor>;
       startedMs = now0 - 120000 - js_round (hash01 (s * 13 + 5) powr 1.4 * 12 * 86400000);
       durMs = js_round ((2 + 220 * hash01 (s * 13 + 7) ^ 2) * 60000);
       bytesOut = js_round (of_int durMs / 1000 * 40000 * (0.3 + hash01 (s * 13 + 9))) in
     \<lparr>sess_id = 4999 - s, sess_tunnel_name = ''Minecraft'',
      sess_client_ip = mock_ip (13 + s mod 200) (37 + (s * 7) mod 200) ((s * 11) mod 250) ((s * 17) mod 250),
      sess_player_name = card_name p, sess_player_uuid = card_uuid p, sess_started_ms = startedMs, sess_ended_ms = startedMs + durMs,
      sess_bytes_in = js_round (of_int bytesOut / 96), sess_bytes_out = bytesOut, sess_cc = card_last_cc p,
      sess_rtt_avg = (if card_rtt_ms p = 0 then 25 else card_rtt_ms p)\<rparr>)"

definition newest_first :: "session_meta \<Rightarrow> session_meta \<Rightarrow> int" where
  "newest_first a b = sess_started_ms b - sess_started_ms a"

text \<open>Built once, from the connections the installation starts with.\<close>

definition mock_sessions :: "mock_world \<Rightarrow> session_meta list" where
  "mock_sessions w = js_sort newest_first (map (\<lambda>(i, c). live_session i c) (enumerate 0 (mock_conns (mk_now0 (mw_clock w))))
     @ map (\<lambda>s. past_session w (int s)) [0..<240])"

definition no_data :: "mock_world \<Rightarrow> bool" where
  "no_data w \<longleftrightarrow> ax_wizard (mw_axes w) \<or> ax_fresh (mw_axes w)"

section \<open>Pages\<close>

definition name_matches :: "string \<Rightarrow> player_card \<Rightarrow> bool" where
  "name_matches search p \<longleftrightarrow> sublist (js_lower (js_trim search)) (js_lower (card_name p))"

text \<open>\<open>localeCompare\<close> is a parameter.\<close>

definition player_cmp :: "(string \<Rightarrow> string \<Rightarrow> int) \<Rightarrow> string \<Rightarrow> player_card \<Rightarrow> player_card \<Rightarrow> int" where
  "player_cmp lc srt a b = (if srt = ''name'' then lc (card_name a) (card_name b)
     else if srt = ''playtime'' then card_play_ms b - card_play_ms a
     else if srt = ''sessions'' then card_sessions b - card_sessions a
     else if srt = ''data'' then (card_bytes_in b + card_bytes_out b) - (card_bytes_in a + card_bytes_out a)
     else card_last_seen b - card_last_seen a)"

definition player_rows :: "(string \<Rightarrow> string \<Rightarrow> int) \<Rightarrow> mock_world \<Rightarrow> players_query \<Rightarrow> player_card list" where
  "player_rows lc w q = (let rows = mock_players w;
       rows = (if pq_search q \<noteq> '''' then filter (name_matches (pq_search q)) rows else rows);
       rows = (if pq_tunnel_id q \<noteq> '''' \<and> pq_tunnel_id q \<noteq> tunnel_id then [] else rows);
       rows = (if pq_cc q \<noteq> '''' then filter (\<lambda>p. card_last_cc p = pq_cc q) rows else rows) in
     js_sort (player_cmp lc (pq_sort q)) rows)"

definition page_limit :: "int \<Rightarrow> int \<Rightarrow> int" where
  "page_limit most n = (if 0 < n \<and> n \<le> most then n else most)"

definition players_page_of :: "(string \<Rightarrow> string \<Rightarrow> int) \<Rightarrow> mock_world \<Rightarrow> players_query \<Rightarrow> players_page" where
  "players_page_of lc w q = (if no_data w then \<lparr>ppage_total = 0, ppage_players = []\<rparr>
     else let rows = player_rows lc w q in
       \<lparr>ppage_total = int (length rows), ppage_players = page_rows (page_limit 80 (pq_limit q)) (max 0 (pq_offset q)) rows\<rparr>)"

definition session_rows :: "mock_world \<Rightarrow> sessions_query \<Rightarrow> session_meta list" where
  "session_rows w q = (let rows = mock_sessions w;
       rows = (if sq_player_uuid q \<noteq> '''' then filter (\<lambda>s. sess_player_uuid s = sq_player_uuid q) rows else rows);
       rows = (if sq_tunnel_id q \<noteq> '''' \<and> sq_tunnel_id q \<noteq> tunnel_id then [] else rows);
       rows = (if sq_cc q \<noteq> '''' then filter (\<lambda>s. sess_cc s = sq_cc q) rows else rows) in
     if 0 < sq_since_ms q then filter (\<lambda>s. sq_since_ms q \<le> sess_started_ms s) rows else rows)"

definition sessions_page_of :: "mock_world \<Rightarrow> sessions_query \<Rightarrow> sessions_page" where
  "sessions_page_of w q = (if no_data w then \<lparr>spage_total = 0, spage_sessions = []\<rparr>
     else let rows = session_rows w q in
       \<lparr>spage_total = int (length rows), spage_sessions = page_rows (page_limit 100 (sq_limit q)) (max 0 (sq_offset q)) rows\<rparr>)"


section \<open>One player, one session\<close>

definition empty_card :: player_card where
  "empty_card = \<lparr>card_uuid = '''', card_name = '''', card_offline = False, card_online = False, card_first_seen = 0, card_last_seen = 0,
     card_sessions = 0, card_play_ms = 0, card_bytes_in = 0, card_bytes_out = 0, card_last_cc = '''', card_rtt_ms = 0\<rparr>"

text \<open>The player of an identity, with its place in the list.\<close>

definition find_player :: "mock_world \<Rightarrow> string \<Rightarrow> (int \<times> player_card) option" where
  "find_player w uuid = map_option (\<lambda>i. (int i, mock_players w ! i)) (find_index (\<lambda>p. card_uuid p = uuid) (mock_players w))"

definition player_detail_of :: "mock_world \<Rightarrow> string \<Rightarrow> player_detail" where
  "player_detail_of w uuid = (case if no_data w then None else find_player w uuid of
     None \<Rightarrow> \<lparr>det_card = empty_card, det_names = [], det_ips = [], det_recent = []\<rparr>
   | Some (i, p) \<Rightarrow> let first = card_first_seen p in
     \<lparr>det_card = p,
      det_names = \<lparr>nsp_name = card_name p, nsp_first_seen = first, nsp_last_seen = card_last_seen p\<rparr>
        # (if \<not> card_offline p \<and> 0.7 < hash01 (i * 31 + 2)
           then [\<lparr>nsp_name = card_name p @ ''_old'', nsp_first_seen = first - 40 * 86400000, nsp_last_seen = first\<rparr>] else []),
      det_ips = \<lparr>ips_ip = mock_ip (20 + i) (113 - i) ((i * 13) mod 250) ((i * 29) mod 250), ips_first_seen = first,
          ips_last_seen = card_last_seen p, ips_sessions = card_sessions p, ips_cc = card_last_cc p\<rparr>
        # (if 0.6 < hash01 (i * 31 + 4)
           then [\<lparr>ips_ip = mock_ip (90 + i) (44 + i) ((i * 7) mod 250) ((i * 3) mod 250), ips_first_seen = first,
             ips_last_seen = first + 86400000, ips_sessions = 2, ips_cc = card_last_cc p\<rparr>] else []),
      det_recent = take 25 (filter (\<lambda>s. sess_player_uuid s = uuid) (mock_sessions w))\<rparr>)"

text \<open>Width of the buckets of a series over a span: a multiple of the grain, at most three hundred to the span.\<close>

definition series_width :: "int \<Rightarrow> int \<Rightarrow> int" where
  "series_width grain len = max grain (\<lceil>real_of_int len / 300 / of_int grain\<rceil> * grain)"

definition series_start :: "int \<Rightarrow> int \<Rightarrow> int \<Rightarrow> int" where
  "series_start now len b = (now - len) div b * b"

text \<open>The buckets of the window in which the player was plausibly online.\<close>

definition online_times :: "int \<Rightarrow> int \<Rightarrow> int \<Rightarrow> int \<Rightarrow> int \<Rightarrow> int list" where
  "online_times grain now len first i = (let b = series_width grain len in
     filter (\<lambda>t. \<not> vnoise (of_int t) 3600000 (17 + i) < 0.45) (loop_values (max (series_start now len b) first) now b))"

definition window_of :: "mock_world \<Rightarrow> int \<Rightarrow> player_card \<Rightarrow> int" where
  "window_of w window p = (if window = 0 then mk_now0 (mw_clock w) - card_first_seen p else window)"

definition traffic_at :: "mock_clock \<Rightarrow> real \<Rightarrow> real \<Rightarrow> int \<Rightarrow> traffic_point" where
  "traffic_at k share secs t = \<lparr>trf_t = t, trf_in = js_round (up_rate k (of_int t) * share * secs),
     trf_out = js_round (down_rate k (of_int t) * share * secs)\<rparr>"

definition latency_at :: "real \<Rightarrow> real \<Rightarrow> int \<Rightarrow> latency_point" where
  "latency_at avg spread t = \<lparr>lat_t = t, lat_avg = avg, lat_min = max 1 (avg - spread), lat_max = avg + spread\<rparr>"

definition player_history_of :: "mock_world \<Rightarrow> int \<Rightarrow> string \<Rightarrow> int \<Rightarrow> traffic_point list" where
  "player_history_of w now uuid window = (case if no_data w then None else find_player w uuid of None \<Rightarrow> []
   | Some (i, p) \<Rightarrow> let len = window_of w window p; share = 0.15 + 0.5 * hash01 (i * 31 + 6) in
       last_n 300 (map (traffic_at (mw_clock w) share (of_int (series_width 15000 len) / 1000))
         (online_times 15000 now len (card_first_seen p) i)))"

definition player_latency_of :: "mock_world \<Rightarrow> int \<Rightarrow> string \<Rightarrow> int \<Rightarrow> latency_point list" where
  "player_latency_of w now uuid window = (case if no_data w then None else find_player w uuid of None \<Rightarrow> []
   | Some (i, p) \<Rightarrow> if card_rtt_ms p = 0 then [] else
       last_n 300 (map (\<lambda>t. latency_at (card_rtt_ms p * (0.82 + 0.36 * vnoise (of_int t) 240000 (30 + i)))
           (3 + 10 * vnoise (of_int t) 90000 (40 + i)) t)
         (online_times 60000 now (window_of w window p) (card_first_seen p) i)))"

definition session_timeline_of :: "mock_world \<Rightarrow> int \<Rightarrow> int \<Rightarrow> session_timeline" where
  "session_timeline_of w now i = (case if no_data w then None else find (\<lambda>s. sess_id s = i) (mock_sessions w) of
     None \<Rightarrow> \<lparr>stl_traffic = [], stl_rtt = []\<rparr>
   | Some s \<Rightarrow> let e = (if sess_ended_ms s = 0 then now else sess_ended_ms s); start = sess_started_ms s;
       b = series_width 15000 (max 15000 (e - start)); share = 0.2 + 0.5 * hash01 i; ts = loop_values start e b;
       rtt = (if sess_rtt_avg s = 0 then 25 else sess_rtt_avg s) in
     \<lparr>stl_traffic = last_n 300 (map (\<lambda>t. traffic_at (mw_clock w) share (of_int (min b (e - t + 1)) / 1000) t) ts),
      stl_rtt = last_n 300 (map (\<lambda>t. latency_at (rtt * (0.85 + 0.3 * vnoise (of_int t) 120000 55)) (3 + 8 * vnoise (of_int t) 60000 56) t) ts)\<rparr>)"

section \<open>Countries\<close>

record country_sum =
  cs_players :: "string set"
  cs_sessions :: int
  cs_bytes_in :: int
  cs_bytes_out :: int
  cs_rtt_sum :: real
  cs_rtt_n :: int

definition no_sum :: country_sum where
  "no_sum = \<lparr>cs_players = {}, cs_sessions = 0, cs_bytes_in = 0, cs_bytes_out = 0, cs_rtt_sum = 0, cs_rtt_n = 0\<rparr>"

definition sum_session :: "session_meta \<Rightarrow> country_sum \<Rightarrow> country_sum" where
  "sum_session s a = a\<lparr>cs_players := insert (sess_player_uuid s) (cs_players a), cs_sessions := cs_sessions a + 1,
     cs_bytes_in := cs_bytes_in a + sess_bytes_in s, cs_bytes_out := cs_bytes_out a + sess_bytes_out s,
     cs_rtt_sum := (if 0 < sess_rtt_avg s then cs_rtt_sum a + sess_rtt_avg s else cs_rtt_sum a),
     cs_rtt_n := (if 0 < sess_rtt_avg s then cs_rtt_n a + 1 else cs_rtt_n a)\<rparr>"

text \<open>The \<open>Map\<close> in its insertion order.\<close>

definition geo_add :: "int \<Rightarrow> (string \<times> country_sum) list \<Rightarrow> session_meta \<Rightarrow> (string \<times> country_sum) list" where
  "geo_add since m s = (if sess_cc s = '''' \<or> sess_started_ms s < since then m
     else AList.update (sess_cc s) (sum_session s (case map_of m (sess_cc s) of Some a \<Rightarrow> a | None \<Rightarrow> no_sum)) m)"

definition country_row :: "string \<times> country_sum \<Rightarrow> country_agg" where
  "country_row e = (case e of (cc, a) \<Rightarrow> \<lparr>cag_cc = cc, cag_country = (case map_of country_names cc of Some n \<Rightarrow> n | None \<Rightarrow> cc),
     cag_players = int (card (cs_players a)), cag_sessions = cs_sessions a, cag_bytes_in = cs_bytes_in a, cag_bytes_out = cs_bytes_out a,
     cag_rtt_avg = (if cs_rtt_n a \<noteq> 0 then cs_rtt_sum a / of_int (cs_rtt_n a) else 0)\<rparr>)"

definition geo_snapshot_of :: "mock_world \<Rightarrow> int \<Rightarrow> country_agg list" where
  "geo_snapshot_of w rng = (if no_data w \<or> ax_geo (mw_axes w) \<noteq> '''' then []
     else let since = (if 0 < rng then mk_now0 (mw_clock w) - rng else 0) in
       js_sort (\<lambda>x y. cag_sessions y - cag_sessions x) (map country_row (foldl (geo_add since) [] (mock_sessions w))))"


section \<open>Peers\<close>

definition peer_seeds :: "(string \<times> int \<times> int \<times> int \<times> real) list" where
  "peer_seeds = [(''203.0.113.44'', 42 * 24, 0, 214, 41.2), (''198.51.100.7'', 76, 0, 11, 2.4),
     (''92.184.100.23'', 31 * 24, 3, 96, 18.7), (''84.113.9.201'', 29 * 24, 26, 71, 12.9),
     (''176.10.44.8'', 21 * 24, 5, 58, 9.1), (''203.0.113.101'', 14 * 24, 49, 22, 4.6),
     (''51.68.220.14'', 6 * 24, 121, 9, 1.2), (''188.166.32.75'', 2, 1, 2, 0.15)]"

definition peer_stats_of :: "mock_world \<Rightarrow> int \<Rightarrow> peer_stat list" where
  "peer_stats_of w now = (if no_data w then [] else map (\<lambda>(ip, firstH, lastH, conns, gib).
     \<lparr>peer_ip = ip, peer_first_seen = mk_now0 (mw_clock w) - firstH * 3600000,
      peer_last_seen = (if lastH = 0 then now else mk_now0 (mw_clock w) - lastH * 3600000),
      peer_total_bytes_in = js_round (gib * 1024 ^ 3 / 96), peer_total_bytes_out = js_round (gib * 1024 ^ 3),
      peer_total_conns = conns\<rparr>) peer_seeds)"

section \<open>Summary\<close>

text \<open>The largest value of a loop and where it was first reached.\<close>

definition peak_step :: "(int \<Rightarrow> 'v::linorder) \<Rightarrow> 'v \<times> int \<Rightarrow> int \<Rightarrow> 'v \<times> int" where
  "peak_step f m t = (if fst m < f t then (f t, t) else m)"

definition peak_of :: "(int \<Rightarrow> 'v::linorder) \<Rightarrow> 'v \<Rightarrow> int list \<Rightarrow> 'v \<times> int" where
  "peak_of f start ts = foldl (peak_step f) (start, 0) ts"

definition loop_sum :: "(int \<Rightarrow> real) \<Rightarrow> int list \<Rightarrow> real" where
  "loop_sum f ts = foldl (\<lambda>x t. x + f t) 0 ts"

definition player_gauge :: "mock_clock \<Rightarrow> int \<Rightarrow> int" where
  "player_gauge k t = max 0 (conn_count k (of_int t) - 1)"

definition no_summary :: "int \<Rightarrow> summary" where
  "no_summary rng = \<lparr>smy_range_ms = rng, smy_bytes_in = 0, smy_bytes_out = 0, smy_sessions = 0, smy_unique_players = 0,
     smy_peak_players = -1, smy_peak_players_at = 0, smy_peak_in_bps = 0, smy_peak_in_at = 0, smy_peak_out_bps = 0, smy_peak_out_at = 0,
     smy_avg_rtt_ms = -1, smy_avg_loss_pct = -1, smy_link_uptime_pct = -1,
     smy_rec_in_bps = 0, smy_rec_in_at = 0, smy_rec_out_bps = 0, smy_rec_out_at = 0, smy_rec_players = -1, smy_rec_players_at = 0,
     smy_rec_conns = -1, smy_rec_conns_at = 0, smy_lifetime_bytes_in = 0, smy_lifetime_bytes_out = 0,
     smy_lifetime_uptime_ms = 0, smy_link_sessions = 0\<rparr>"

definition summary_times :: "mock_world \<Rightarrow> int \<Rightarrow> int \<Rightarrow> int list \<times> int" where
  "summary_times w now rng = (let since = (if 0 < rng then now - rng else mk_conn_since (mw_clock w));
       from = max since (mk_conn_since (mw_clock w)); step = max 60000 (js_round (of_int (now - from) / 400)) in
     (loop_values from now step, step))"

definition average_or :: "real \<Rightarrow> (int \<Rightarrow> real) \<Rightarrow> int list \<Rightarrow> real" where
  "average_or d f ts = (if ts = [] then d else loop_sum f ts / of_nat (length ts))"

definition summary_of :: "mock_world \<Rightarrow> int \<Rightarrow> int \<Rightarrow> summary" where
  "summary_of w now rng = (if no_data w then no_summary rng else
     let k = mw_clock w; since = (if 0 < rng then now - rng else mk_conn_since k); (ts, step) = summary_times w now rng;
         down = (\<lambda>t. down_rate k (of_int t)); up = (\<lambda>t. up_rate k (of_int t));
         (peakIn, peakInAt) = peak_of up 0 ts; (peakOut, peakOutAt) = peak_of down 0 ts;
         (players, playersAt) = peak_of (player_gauge k) (-1) ts;
         inWindow = filter (\<lambda>s. since \<le> sess_started_ms s) (mock_sessions w);
         st = mock_status w now; day = 86400000 in
     \<lparr>smy_range_ms = rng, smy_bytes_in = js_round (loop_sum (\<lambda>t. up t * of_int step / 1000) ts),
      smy_bytes_out = js_round (loop_sum (\<lambda>t. down t * of_int step / 1000) ts),
      smy_sessions = int (length inWindow), smy_unique_players = int (card (set (map sess_player_uuid inWindow))),
      smy_peak_players = players, smy_peak_players_at = playersAt, smy_peak_in_bps = peakIn, smy_peak_in_at = peakInAt,
      smy_peak_out_bps = peakOut, smy_peak_out_at = peakOutAt,
      smy_avg_rtt_ms = average_or (-1) (\<lambda>t. rtt_ms k (of_int t)) ts, smy_avg_loss_pct = average_or (-1) (\<lambda>t. loss_blip (of_int t)) ts,
      smy_link_uptime_pct = 99.2 - 1.4 * vnoise (of_int now) 3600000 21,
      smy_rec_in_bps = peakIn * 1.35, smy_rec_in_at = mk_conn_since k + 3 * day,
      smy_rec_out_bps = peakOut * 1.35, smy_rec_out_at = mk_conn_since k + 3 * day,
      smy_rec_players = max players 12, smy_rec_players_at = mk_conn_since k + 5 * day,
      smy_rec_conns = max (players + 2) 14, smy_rec_conns_at = mk_conn_since k + 5 * day,
      smy_lifetime_bytes_in = st_all_time_bytes_in st, smy_lifetime_bytes_out = st_all_time_bytes_out st,
      smy_lifetime_uptime_ms = st_cumulative_uptime_ms st, smy_link_sessions = st_link_sessions st\<rparr>)"

section \<open>Peak hours\<close>

text \<open>The local weekday and hour of a time are parameters. A cell has its sum, its count and its peak.\<close>

record peak_sum =
  ps_sum :: int
  ps_count :: nat
  ps_peak :: int

definition no_peak :: peak_sum where
  "no_peak = \<lparr>ps_sum = 0, ps_count = 0, ps_peak = -1\<rparr>"

definition peak_sample :: "mock_clock \<Rightarrow> (int \<Rightarrow> nat) \<Rightarrow> (int \<Rightarrow> nat) \<Rightarrow> (nat \<times> nat \<Rightarrow> peak_sum) \<Rightarrow> int \<Rightarrow> nat \<times> nat \<Rightarrow> peak_sum" where
  "peak_sample k dow hod m t = (let c = (dow t, hod t); a = m c; players = player_gauge k t;
       peak = players + (if players < conn_count k (of_int (t + 1800000)) then 1 else 0) in
     m(c := \<lparr>ps_sum = ps_sum a + players, ps_count = ps_count a + 1, ps_peak = max (ps_peak a) peak\<rparr>))"

definition peak_times :: "mock_world \<Rightarrow> int \<Rightarrow> int \<Rightarrow> int list" where
  "peak_times w now weeks = (let n = (if 0 < weeks then weeks else 8) in
     loop_values (max (mk_conn_since (mw_clock w)) (now - n * 7 * 86400000) div 3600000 * 3600000) now 3600000)"

definition peak_cell_of :: "peak_sum \<Rightarrow> peak_cell" where
  "peak_cell_of a = \<lparr>cell_avg = (if 0 < ps_count a then of_int (ps_sum a) / of_nat (ps_count a) else -1), cell_max = of_int (ps_peak a)\<rparr>"

definition peak_matrix_of :: "mock_world \<Rightarrow> (int \<Rightarrow> nat) \<Rightarrow> (int \<Rightarrow> nat) \<Rightarrow> int \<Rightarrow> int \<Rightarrow> peak_matrix" where
  "peak_matrix_of w dow hod now weeks = (let
       m = (if no_data w then \<lambda>_. no_peak else foldl (peak_sample (mw_clock w) dow hod) (\<lambda>_. no_peak) (peak_times w now weeks)) in
     \<lparr>pmx_cells = map (\<lambda>d. map (\<lambda>h. peak_cell_of (m (d, h))) [0..<24]) [0..<7]\<rparr>)"

section \<open>Uptime\<close>

text \<open>The loop over the events with \<open>up\<close>, \<open>cursor\<close> and \<open>state\<close>.\<close>

fun uptime_loop :: "int \<Rightarrow> int \<Rightarrow> int \<Rightarrow> int \<Rightarrow> bool \<Rightarrow> uptime_span list \<Rightarrow> int" where
  "uptime_loop a b up cursor st [] = (if st then up + (b - cursor) else up)"
| "uptime_loop a b up cursor st (e # es) = (if usp_t e \<le> a \<or> b \<le> usp_t e then uptime_loop a b up cursor st es
     else uptime_loop a b (if st then up + (usp_t e - cursor) else up) (usp_t e) (usp_up e) es)"

definition uptime_pct_of :: "uptime_span list \<Rightarrow> int \<Rightarrow> int \<Rightarrow> real" where
  "uptime_pct_of es a b = (if es = [] \<or> b \<le> a then -1
     else of_int (uptime_loop a b 0 a (usp_up (hd es)) es) / of_int (b - a) * 100)"

definition flap_at :: "int \<Rightarrow> int \<Rightarrow> int \<Rightarrow> real \<Rightarrow> int \<Rightarrow> uptime_span list" where
  "flap_at a b seed downMs k = (if hash01 (seed * 10 + k) > 0.6
     then let gap = of_int (b - a) / 5; dt = of_int a + gap * of_int k + hash01 (seed * 10 + k + 100) * gap * 0.4;
       down = js_round dt; up = js_round (dt + downMs * (0.5 + hash01 (seed * 10 + k + 200))) in
       (if down < b then [\<lparr>usp_t = down, usp_up = False\<rparr>] else []) @ (if up < b then [\<lparr>usp_t = up, usp_up = True\<rparr>] else [])
     else [])"

definition flap_events :: "int \<Rightarrow> int \<Rightarrow> int \<Rightarrow> real \<Rightarrow> uptime_span list" where
  "flap_events a b seed downMs = last_n 100 (js_sort (\<lambda>x y. usp_t x - usp_t y)
     (\<lparr>usp_t = a, usp_up = True\<rparr> # concat (map (flap_at a b seed downMs) [1, 2, 3, 4])))"

definition uptime_row :: "string \<Rightarrow> string \<Rightarrow> int \<Rightarrow> int \<Rightarrow> uptime_span list \<Rightarrow> tunnel_uptime" where
  "uptime_row i name a b es = \<lparr>tup_tunnel_id = i, tup_name = name, tup_uptime_pct = uptime_pct_of es a b, tup_events = es\<rparr>"

definition tunnel_uptime_of :: "mock_world \<Rightarrow> int \<Rightarrow> int \<Rightarrow> uptime_report" where
  "tunnel_uptime_of w now window = (if no_data w
     then \<lparr>urep_link = \<lparr>tup_tunnel_id = '''', tup_name = ''Control link'', tup_uptime_pct = -1, tup_events = []\<rparr>, urep_tunnels = []\<rparr>
     else let from = max (if 0 < window then now - window else mk_conn_since (mw_clock w)) (mk_conn_since (mw_clock w)) in
       \<lparr>urep_link = uptime_row '''' ''Control link'' from now (flap_events from now 1 75000),
        urep_tunnels = [uptime_row tunnel_id ''Minecraft'' from now (flap_events from now 2 (22 * 60000))]\<rparr>)"


section \<open>Lists the queries answer with\<close>

lemma players_length [simp]: "length (mock_players w) = 48"
  by (simp add: mock_players_def mc_names_def)

lemma dash_not_Nil [simp]: "dash_uuid s \<noteq> ''''"
  by (simp add: dash_uuid_def Let_def)

lemma player_uuid_simps: "card_uuid (mock_player w i name) \<noteq> ''''"
  by (simp add: mock_player_def Let_def)

lemma player_uuid_not_Nil: "p \<in> set (mock_players w) \<Longrightarrow> card_uuid p \<noteq> ''''"
  by (auto simp: mock_players_def player_uuid_simps)

lemma player_rows_mset:
  "mset (player_rows lc w q) = filter_mset (\<lambda>p. (pq_search q \<noteq> '''' \<longrightarrow> name_matches (pq_search q) p)
     \<and> (pq_tunnel_id q \<noteq> '''' \<longrightarrow> pq_tunnel_id q = tunnel_id) \<and> (pq_cc q \<noteq> '''' \<longrightarrow> card_last_cc p = pq_cc q)) (mset (mock_players w))"
  by (auto simp: player_rows_def Let_def filter_filter_mset intro!: filter_mset_cong simp flip: mset_filter)

lemma player_cmp_comparator:
  assumes "comparator lc (\<lambda>_. True)"
  shows "comparator (player_cmp lc srt) (\<lambda>_. True)"
proof (unfold_locales, goal_cases)
  case (1 a b)
  show ?case using comparator.cmp_sym [OF assms, of "card_name a" "card_name b"]
    by (cases "srt = ''name''") (simp_all add: player_cmp_def, simp add: sgn_if)
next
  case (2 a b c)
  then show ?case using comparator.cmp_trans [OF assms, of "card_name a" "card_name b" "card_name c"]
    by (simp add: player_cmp_def split: if_splits)
qed

interpretation newest: key_comparator newest_first "\<lambda>s. - sess_started_ms s"
  by unfold_locales (simp add: newest_first_def)

lemma sessions_sorted: "sorted_wrt (\<lambda>a b. sess_started_ms b \<le> sess_started_ms a) (mock_sessions w)"
  using newest.sorted_keys unfolding mock_sessions_def by (simp add: sorted_map)

lemma find_player_Some: "find_player w u = Some (i, p) \<Longrightarrow> p \<in> set (mock_players w) \<and> card_uuid p = u"
  by (auto simp: find_player_def find_index_Some)

lemma find_player_None: "find_player w u = None \<longleftrightarrow> u \<notin> card_uuid ` set (mock_players w)"
  by (auto simp: find_player_def find_index_None)

section \<open>Country sums\<close>

definition sum_of :: "session_meta list \<Rightarrow> country_sum" where
  "sum_of ss = foldl (\<lambda>a s. sum_session s a) no_sum ss"

lemma sum_of_snoc: "sum_of (ss @ [s]) = sum_session s (sum_of ss)"
  by (simp add: sum_of_def)

lemma sum_of_fields:
  "cs_sessions (sum_of ss) = int (length ss) \<and> cs_players (sum_of ss) = set (map sess_player_uuid ss)
   \<and> cs_bytes_in (sum_of ss) = sum_list (map sess_bytes_in ss) \<and> cs_bytes_out (sum_of ss) = sum_list (map sess_bytes_out ss)
   \<and> cs_rtt_sum (sum_of ss) = sum_list (map sess_rtt_avg (filter (\<lambda>s. 0 < sess_rtt_avg s) ss))
   \<and> cs_rtt_n (sum_of ss) = int (length (filter (\<lambda>s. 0 < sess_rtt_avg s) ss))"
  by (induction ss rule: rev_induct) (simp add: sum_of_def no_sum_def, auto simp: sum_of_snoc sum_session_def)

definition located :: "int \<Rightarrow> session_meta list \<Rightarrow> session_meta list" where
  "located since ss = filter (\<lambda>s. sess_cc s \<noteq> '''' \<and> since \<le> sess_started_ms s) ss"

lemma geo_fold:
  "let m = foldl (geo_add since) [] ss in distinct (map fst m) \<and> (\<forall>cc. map_of m cc =
     (let mine = filter (\<lambda>s. sess_cc s = cc) (located since ss) in if mine = [] then None else Some (sum_of mine)))"
proof (induction ss rule: rev_induct)
  case (snoc s ss)
  define m where "m = foldl (geo_add since) [] ss"
  show ?case
  proof (cases "sess_cc s = '''' \<or> sess_started_ms s < since")
    case True
    then have "foldl (geo_add since) [] (ss @ [s]) = m" "located since (ss @ [s]) = located since ss"
      by (auto simp: geo_add_def m_def located_def)
    with snoc show ?thesis by (simp add: m_def)
  next
    case False
    let ?mine = "filter (\<lambda>t. sess_cc t = sess_cc s) (located since ss)"
    from snoc have dist: "distinct (map fst m)" and m: "map_of m cc = (if filter (\<lambda>s. sess_cc s = cc) (located since ss) = [] then None
        else Some (sum_of (filter (\<lambda>s. sess_cc s = cc) (located since ss))))" for cc
      by (simp_all add: m_def Let_def)
    have "(case map_of m (sess_cc s) of Some a \<Rightarrow> a | None \<Rightarrow> no_sum) = sum_of ?mine" by (simp add: m sum_of_def)
    then have step: "foldl (geo_add since) [] (ss @ [s]) = AList.update (sess_cc s) (sum_of (?mine @ [s])) m"
      using False by (simp add: geo_add_def sum_of_snoc flip: m_def)
    have loc: "located since (ss @ [s]) = located since ss @ [s]" using False by (simp add: located_def)
    show ?thesis unfolding step loc Let_def using dist by (auto simp: update_conv' distinct_update m)
  qed
qed (simp add: located_def)


section \<open>Uptime and its band\<close>

definition green :: "band_seg list \<Rightarrow> real" where
  "green segs = sum_list (map (\<lambda>(l, wd, u). if u = Some True then wd else 0) segs)"

lemma green_Cons: "green ((l, wd, u) # segs) = (if u = Some True then wd else 0) + green segs"
  by (simp add: green_def)

lemma band_from_two: "band_from a b (x # y # zs) = (if usp_t y \<le> max (usp_t x) a then band_from a b (y # zs)
    else (band_pct a b (max (usp_t x) a), band_pct a b (usp_t y) - band_pct a b (max (usp_t x) a), Some (usp_up x)) # band_from a b (y # zs))"
  by (subst band_from.simps) (simp add: Let_def)

text \<open>The loop adds to \<open>up\<close> what the band of the remaining events, from the cursor on, shows in green.\<close>

lemma uptime_loop_green:
  assumes "a < b" and "a \<le> c" and "c < b" and "sorted (c # map usp_t es)" and "\<forall>e \<in> set es. a < usp_t e"
  shows "of_int (uptime_loop a b up c st es) / of_int (b - a) * 100
    = of_int up / of_int (b - a) * 100 + green (band_from a b (\<lparr>usp_t = c, usp_up = st\<rparr> # filter (\<lambda>e. usp_t e < b) es))"
  using assms(2-5)
proof (induction es arbitrary: up c st)
  case Nil
  with assms(1) show ?case
    by (auto simp: green_Cons green_def band_pct_def field_simps)
next
  case (Cons e es)
  show ?case
  proof (cases "usp_t e < b")
    case False
    with Cons.prems have "filter (\<lambda>e. usp_t e < b) es = []" by (auto simp: filter_empty_conv)
    with False Cons Cons.IH [of c up st] show ?thesis by auto
  next
    case True
    let ?up = "if st then up + (usp_t e - c) else up"
    have e: "\<lparr>usp_t = usp_t e, usp_up = usp_up e\<rparr> = e" by (cases e) simp
    from Cons.prems have "a < usp_t e" "c \<le> usp_t e" by auto
    with True Cons.prems have IH: "of_int (uptime_loop a b ?up (usp_t e) (usp_up e) es) / of_int (b - a) * 100
        = of_int ?up / of_int (b - a) * 100 + green (band_from a b (e # filter (\<lambda>e. usp_t e < b) es))"
      using Cons.IH [of "usp_t e" ?up "usp_up e"] e by (simp del: band_from.simps)
    have "green (band_from a b (\<lparr>usp_t = c, usp_up = st\<rparr> # e # filter (\<lambda>e. usp_t e < b) es))
        = (if st then of_int (usp_t e - c) / of_int (b - a) * 100 else 0) + green (band_from a b (e # filter (\<lambda>e. usp_t e < b) es))"
      using \<open>c \<le> usp_t e\<close> \<open>a < usp_t e\<close> True Cons.prems assms(1)
      by (auto simp: band_from_two green_Cons band_pct_def diff_divide_distrib left_diff_distrib simp del: band_from.simps)
    with IH \<open>a < usp_t e\<close> True show ?thesis by (auto simp: add_divide_distrib distrib_right simp del: band_from.simps)
  qed
qed


text \<open>The percentage is what the band, drawn over the same window, shows in green.\<close>

lemma uptime_is_green:
  assumes "a < b" and "es \<noteq> []" and "usp_t (hd es) = a" and "sorted (map usp_t es)" and "\<forall>e \<in> set (tl es). a < usp_t e"
  shows "uptime_pct_of es a b = green (band_segs a b es)"
proof -
  obtain e fs where es: "es = e # fs" using assms(2) by (cases es) auto
  have e: "\<lparr>usp_t = a, usp_up = usp_up e\<rparr> = e" using assms(3) by (cases e) (simp add: es)
  have "of_int (uptime_loop a b 0 a (usp_up e) fs) / of_int (b - a) * 100 = green (band_from a b (e # filter (\<lambda>e. usp_t e < b) fs))"
    using uptime_loop_green [of a b a fs 0 "usp_up e"] assms e by (simp add: es del: band_from.simps)
  then show ?thesis using assms(1,3) by (simp add: uptime_pct_of_def band_segs_def es Let_def del: band_from.simps)
qed

lemma uptime_loop_bounds:
  "a \<le> c \<Longrightarrow> c \<le> b \<Longrightarrow> sorted (c # map usp_t es) \<Longrightarrow> up \<le> uptime_loop a b up c st es \<and> uptime_loop a b up c st es \<le> up + (b - c)"
proof (induction es arbitrary: up c st)
  case (Cons e es)
  show ?case
  proof (cases "usp_t e \<le> a \<or> b \<le> usp_t e")
    case True
    with Cons.IH [of c up st] Cons.prems show ?thesis by auto
  next
    case False
    with Cons.IH [of "usp_t e" "if st then up + (usp_t e - c) else up" "usp_up e"] Cons.prems show ?thesis by (auto split: if_splits)
  qed
qed simp

lemma uptime_pct_bounds:
  assumes "a < b" and "\<forall>e \<in> set es. a \<le> usp_t e" and "sorted (map usp_t es)" and "es \<noteq> []"
  shows "0 \<le> uptime_pct_of es a b \<and> uptime_pct_of es a b \<le> 100"
proof -
  have "0 \<le> uptime_loop a b 0 a (usp_up (hd es)) es \<and> uptime_loop a b 0 a (usp_up (hd es)) es \<le> b - a"
    using uptime_loop_bounds [of a a b es 0 "usp_up (hd es)"] assms(1-3) by simp
  then have "0 \<le> real_of_int (uptime_loop a b 0 a (usp_up (hd es)) es)" "real_of_int (uptime_loop a b 0 a (usp_up (hd es)) es) \<le> of_int (b - a)"
    by (simp_all only: of_int_le_iff of_int_0_le_iff)
  then show ?thesis using assms(1,4) by (simp add: uptime_pct_of_def divide_le_eq)
qed

section \<open>Flaps\<close>

interpretation by_time: key_comparator "\<lambda>x y. usp_t x - usp_t y" usp_t
  by unfold_locales simp

lemma flap_times:
  assumes "5 \<le> b - a" and "1 \<le> k" and "0 \<le> downMs" and "e \<in> set (flap_at a b seed downMs k)"
  shows "a < usp_t e"
proof -
  define gap where "gap = real_of_int (b - a) / 5"
  define dt where "dt = of_int a + gap * of_int k + hash01 (seed * 10 + k + 100) * gap * 0.4"
  have gap: "1 \<le> gap" using assms(1) by (simp add: gap_def flip: of_int_diff)
  have "1 \<le> gap * of_int k" using mult_mono [OF gap, of 1 "real_of_int k"] assms(2) gap by simp
  moreover have "0 \<le> hash01 (seed * 10 + k + 100) * gap * 0.4" using gap hash01_range(1) by (intro mult_nonneg_nonneg) auto
  ultimately have dt: "of_int (a + 1) \<le> dt" unfolding dt_def of_int_add of_int_1 by linarith
  moreover have "0 \<le> downMs * (0.5 + hash01 (seed * 10 + k + 200))" using assms(3) hash01_range(1) by (intro mult_nonneg_nonneg add_nonneg_nonneg) auto
  ultimately have "of_int (a + 1) \<le> dt + downMs * (0.5 + hash01 (seed * 10 + k + 200))" by linarith
  with dt have "a + 1 \<le> js_round dt" "a + 1 \<le> js_round (dt + downMs * (0.5 + hash01 (seed * 10 + k + 200)))"
    using js_round_mono js_round_int by metis+
  with assms(4) show ?thesis by (auto simp: flap_at_def Let_def dt_def gap_def split: if_splits)
qed

lemma length_js_insert [simp]: "length (js_insert cmp x xs) = Suc (length xs)"
  by (induction xs) auto

lemma flap_few: "length (flap_at a b seed downMs k) \<le> 2"
  by (simp add: flap_at_def Let_def)

lemma flap_events_spec:
  assumes "5 \<le> b - a" and "0 \<le> downMs"
  shows "flap_events a b seed downMs \<noteq> [] \<and> usp_t (hd (flap_events a b seed downMs)) = a \<and> usp_up (hd (flap_events a b seed downMs))
    \<and> sorted (map usp_t (flap_events a b seed downMs)) \<and> (\<forall>e \<in> set (tl (flap_events a b seed downMs)). a < usp_t e)"
proof -
  let ?fs = "concat (map (flap_at a b seed downMs) [1, 2, 3, 4])"
  have later: "\<forall>e \<in> set ?fs. a < usp_t e" by (auto dest: flap_times [OF assms(1) _ assms(2), rotated])
  have "length ?fs \<le> 8" using flap_few [of a b seed downMs 1] flap_few [of a b seed downMs 2] flap_few [of a b seed downMs 3]
      flap_few [of a b seed downMs 4] by simp
  then have ev: "flap_events a b seed downMs = js_insert (\<lambda>x y. usp_t x - usp_t y) \<lparr>usp_t = a, usp_up = True\<rparr> (js_sort (\<lambda>x y. usp_t x - usp_t y) ?fs)"
    unfolding flap_events_def by (subst last_n_id) simp_all
  have "js_insert (\<lambda>x y. usp_t x - usp_t y) \<lparr>usp_t = a, usp_up = True\<rparr> ys = \<lparr>usp_t = a, usp_up = True\<rparr> # ys" if "\<forall>e \<in> set ys. a < usp_t e" for ys
    using that by (cases ys) auto
  moreover have "\<forall>e \<in> set (js_sort (\<lambda>x y. usp_t x - usp_t y) ?fs). a < usp_t e" using later by simp
  ultimately have "flap_events a b seed downMs = \<lparr>usp_t = a, usp_up = True\<rparr> # js_sort (\<lambda>x y. usp_t x - usp_t y) ?fs" using ev by simp
  then show ?thesis using by_time.sorted_keys [of ?fs] later by (auto simp: less_imp_le)
qed


section \<open>Replays\<close>

lemma steps_by_last_n: "steps_by d xs \<Longrightarrow> steps_by d (last_n n xs)"
proof -
  have "steps_by d (drop k xs)" if "steps_by d xs" for k xs
    using that
  proof (induction k arbitrary: xs)
    case (Suc k)
    then show ?case by (cases xs) (auto dest: steps_by_tail)
  qed simp
  then show "steps_by d xs \<Longrightarrow> steps_by d (last_n n xs)" by (simp add: last_n_def)
qed

lemma steps_by_sorted: "0 < d \<Longrightarrow> steps_by d xs \<Longrightarrow> sorted_wrt (<) xs"
proof (induction xs rule: steps_by.induct)
  case (1 d x y zs)
  then show ?case by force
qed auto

lemma min_gap_steps: "0 < d \<Longrightarrow> steps_by d xs \<Longrightarrow> min_gap xs = (if length xs < 2 then None else Some d)"
proof (induction xs rule: min_gap.induct)
  case (1 a b ts)
  then show ?case by (auto split: option.split if_splits)
qed auto

text \<open>A replay whose two series have one grid: the step of the scrubber is the width of the grid.\<close>

lemma replay_grid:
  assumes "map trf_t (stl_traffic s) = ts" and "map lat_t (stl_rtt s) = ts" and "steps_by b ts" and "0 < b"
    and "length ts = 1 \<Longrightarrow> b = 15000" and "replay_domain_of (Some s) = Some d"
  shows "rd_step d = b \<and> rd_min d = hd ts \<and> rd_max d = last ts"
proof -
  have srt: "sorted_wrt (<) ts" using steps_by_sorted [OF assms(4,3)] .
  then have "sort (remdups (ts @ ts)) = ts"
    by (metis (no_types) append_Nil distinct_remdups_id finite_set list.set(1) remdups_append2 set_append set_empty sorted_list_of_set_sort_remdups
        strict_sorted_iff sorted_list_of_set.idem_if_sorted_distinct sup.idem)
  moreover have "ts \<noteq> []" using assms(6) by (auto simp: replay_domain_of_def replay_times_def assms(1,2) Let_def split: if_splits)
  ultimately show ?thesis using assms(5,6) min_gap_steps [OF assms(4,3)]
    by (cases ts; cases "tl ts") (auto simp: replay_domain_of_def replay_times_def assms(1,2) Let_def split: if_splits)
qed

lemma series_width_spec:
  assumes "0 < grain"
  shows "grain \<le> series_width grain len" and "len \<le> 300 * series_width grain len"
proof -
  show "grain \<le> series_width grain len" by (simp add: series_width_def)
  define n where "n = \<lceil>real_of_int len / 300 / of_int grain\<rceil>"
  have "real_of_int len / 300 / of_int grain \<le> of_int n" unfolding n_def by (rule le_of_int_ceiling)
  then have "real_of_int len / 300 \<le> of_int n * of_int grain" using assms by (subst (asm) pos_divide_le_eq) auto
  then have "real_of_int len \<le> of_int (300 * (n * grain))" by simp
  then have "len \<le> 300 * (\<lceil>real_of_int len / 300 / of_int grain\<rceil> * grain)" unfolding n_def by (simp only: of_int_le_iff)
  then show "len \<le> 300 * series_width grain len" unfolding series_width_def by linarith
qed

section \<open>Peaks\<close>

lemma peak_of_snoc: "peak_of f a (ts @ [t]) = peak_step f (peak_of f a ts) t"
  by (simp add: peak_of_def)

lemma peak_of_spec: "a \<le> fst (peak_of f a ts) \<and> (\<forall>t \<in> set ts. f t \<le> fst (peak_of f a ts))
    \<and> (fst (peak_of f a ts) = a \<or> snd (peak_of f a ts) \<in> set ts \<and> f (snd (peak_of f a ts)) = fst (peak_of f a ts))"
proof (induction ts rule: rev_induct)
  case (snoc t ts)
  then show ?case by (auto simp: peak_of_snoc peak_step_def)
qed (simp add: peak_of_def)

text \<open>A cell of the matrix: nothing sampled, or an average between zero and the peak.\<close>

definition peak_sum_ok :: "peak_sum \<Rightarrow> bool" where
  "peak_sum_ok a \<longleftrightarrow> (ps_count a = 0 \<and> ps_sum a = 0 \<and> ps_peak a = -1)
     \<or> (0 < ps_count a \<and> 0 \<le> ps_sum a \<and> ps_sum a \<le> int (ps_count a) * ps_peak a \<and> ps_peak a \<le> 12)"

lemma player_gauge_range: "0 \<le> player_gauge k t" "player_gauge k t \<le> 11"
  using conn_count_range [of k "of_int t"] by (auto simp: player_gauge_def)

lemma peak_sample_ok: "\<forall>c. peak_sum_ok (m c) \<Longrightarrow> \<forall>c. peak_sum_ok (peak_sample k dow hod m t c)"
proof
  fix c
  assume ok: "\<forall>c. peak_sum_ok (m c)"
  define a where "a = m (dow t, hod t)"
  define p where "p = player_gauge k t + (if player_gauge k t < conn_count k (of_int (t + 1800000)) then 1 else 0)"
  have p: "player_gauge k t \<le> p" "p \<le> 12" "0 \<le> player_gauge k t"
    using player_gauge_range [of k t] by (auto simp: p_def)
  have "peak_sum_ok a" using ok by (simp add: a_def)
  have "ps_sum a + player_gauge k t \<le> (int (ps_count a) + 1) * max (ps_peak a) p"
  proof -
    have "ps_sum a \<le> int (ps_count a) * max (ps_peak a) p" using \<open>peak_sum_ok a\<close> p
      by (auto simp: peak_sum_ok_def intro: order_trans [OF _ mult_left_mono [of "ps_peak a" "max (ps_peak a) p"]])
    with p show ?thesis by (simp add: distrib_right)
  qed
  with \<open>peak_sum_ok a\<close> p have "peak_sum_ok \<lparr>ps_sum = ps_sum a + player_gauge k t, ps_count = ps_count a + 1, ps_peak = max (ps_peak a) p\<rparr>"
    by (auto simp: peak_sum_ok_def add.commute)
  with ok [rule_format, of c] show "peak_sum_ok (peak_sample k dow hod m t c)"
    by (cases "c = (dow t, hod t)") (simp_all add: peak_sample_def Let_def a_def p_def)
qed

interpretation samples: invariant_machine "peak_sample k dow hod" "\<lambda>m. \<forall>c. peak_sum_ok (m c)" for k dow hod
  by unfold_locales (rule peak_sample_ok)


section \<open>What the queries answer\<close>

text \<open>The wall answers every query of a running installation: the players that match the search, the tunnel and
  the country, each once, sorted by the chosen order when \<open>localeCompare\<close> is a comparator, cut into the asked
  page; the pages of one search are pages of one list.\<close>

theorem wall_answers_query:
  assumes "comparator lc (\<lambda>_. True)" and "\<not> no_data w" and "0 \<le> pq_offset q"
  shows "let p = players_page_of lc w q; rows = player_rows lc w q in
    sorted_wrt (\<lambda>a b. player_cmp lc (pq_sort q) a b \<le> 0) rows
    \<and> mset rows = filter_mset (\<lambda>p. (pq_search q \<noteq> '''' \<longrightarrow> name_matches (pq_search q) p)
        \<and> (pq_tunnel_id q \<noteq> '''' \<longrightarrow> pq_tunnel_id q = tunnel_id) \<and> (pq_cc q \<noteq> '''' \<longrightarrow> card_last_cc p = pq_cc q)) (mset (mock_players w))
    \<and> ppage_total p = int (length rows) \<and> ppage_players p = page_rows (page_limit 80 (pq_limit q)) (pq_offset q) rows
    \<and> player_rows lc w (q\<lparr>pq_offset := o', pq_limit := n\<rparr>) = rows"
  using assms comparator.sorted_js_sort [OF player_cmp_comparator [OF assms(1)]]
  by (auto simp: Let_def players_page_of_def player_rows_mset) (simp_all add: player_rows_def Let_def)

text \<open>The rows of a snapshot, before they are sorted.\<close>

definition country_sums :: "mock_world \<Rightarrow> int \<Rightarrow> (string \<times> country_sum) list" where
  "country_sums w rng = foldl (geo_add (if 0 < rng then mk_now0 (mw_clock w) - rng else 0)) [] (mock_sessions w)"

definition in_range :: "mock_world \<Rightarrow> int \<Rightarrow> session_meta list" where
  "in_range w rng = located (if 0 < rng then mk_now0 (mw_clock w) - rng else 0) (mock_sessions w)"

lemma country_sums_spec:
  "distinct (map fst (country_sums w rng))"
  "map_of (country_sums w rng) cc = (let mine = filter (\<lambda>s. sess_cc s = cc) (in_range w rng) in if mine = [] then None else Some (sum_of mine))"
  using geo_fold [of "if 0 < rng then mk_now0 (mw_clock w) - rng else 0" "mock_sessions w"]
  by (simp_all only: country_sums_def in_range_def Let_def)

lemma country_sums_codes: "fst ` set (country_sums w rng) = set (map sess_cc (in_range w rng))"
proof -
  have "cc \<in> fst ` set (country_sums w rng) \<longleftrightarrow> filter (\<lambda>s. sess_cc s = cc) (in_range w rng) \<noteq> []" for cc
    using country_sums_spec(2) [of w rng cc] map_of_eq_None_iff [of "country_sums w rng" cc] by (auto simp: Let_def split: if_splits)
  then have "cc \<in> fst ` set (country_sums w rng) \<longleftrightarrow> cc \<in> set (map sess_cc (in_range w rng))" for cc by (auto simp: filter_empty_conv)
  then show ?thesis by blast
qed

lemma geo_snapshot_rows:
  "\<not> no_data w \<Longrightarrow> ax_geo (mw_axes w) = '''' \<Longrightarrow>
     geo_snapshot_of w rng = js_sort (\<lambda>x y. cag_sessions y - cag_sessions x) (map country_row (country_sums w rng))"
  by (simp add: geo_snapshot_of_def country_sums_def)

lemma geo_snapshot_codes:
  assumes "\<not> no_data w" and "ax_geo (mw_axes w) = ''''"
  shows "distinct (map cag_cc (geo_snapshot_of w rng))" "set (map cag_cc (geo_snapshot_of w rng)) = set (map sess_cc (in_range w rng))"
proof -
  have "map cag_cc (map country_row (country_sums w rng)) = map fst (country_sums w rng)" by (simp add: country_row_def split: prod.split)
  then have ccs: "mset (map cag_cc (geo_snapshot_of w rng)) = mset (map fst (country_sums w rng))"
    by (metis geo_snapshot_rows [OF assms] mset_map mset_js_sort)
  show "distinct (map cag_cc (geo_snapshot_of w rng))" "set (map cag_cc (geo_snapshot_of w rng)) = set (map sess_cc (in_range w rng))"
    using country_sums_spec(1) country_sums_codes mset_eq_imp_distinct_iff [OF ccs] mset_eq_setD [OF ccs] by simp_all
qed

text \<open>A row of the country list counts the sessions of its country in the range, the players in them, their bytes
  and the mean of their known round trips; every country with a session in the range has one row, and the rows
  come with the busiest country first.\<close>

theorem geo_snapshot_correct:
  assumes "\<not> no_data w" and "ax_geo (mw_axes w) = ''''"
  shows "let rows = geo_snapshot_of w rng; ss = in_range w rng in
    distinct (map cag_cc rows) \<and> set (map cag_cc rows) = set (map sess_cc ss)
    \<and> sorted_wrt (\<lambda>a b. cag_sessions b \<le> cag_sessions a) rows
    \<and> (\<forall>a \<in> set rows. let mine = filter (\<lambda>s. sess_cc s = cag_cc a) ss; timed = filter (\<lambda>s. 0 < sess_rtt_avg s) mine in
        cag_sessions a = int (length mine) \<and> cag_players a = int (card (set (map sess_player_uuid mine)))
        \<and> cag_bytes_in a = sum_list (map sess_bytes_in mine) \<and> cag_bytes_out a = sum_list (map sess_bytes_out mine)
        \<and> cag_rtt_avg a = (if timed = [] then 0 else sum_list (map sess_rtt_avg timed) / of_nat (length timed)))"
proof -
  have row: "let mine = filter (\<lambda>s. sess_cc s = cag_cc a) (in_range w rng); timed = filter (\<lambda>s. 0 < sess_rtt_avg s) mine in
      cag_sessions a = int (length mine) \<and> cag_players a = int (card (set (map sess_player_uuid mine)))
      \<and> cag_bytes_in a = sum_list (map sess_bytes_in mine) \<and> cag_bytes_out a = sum_list (map sess_bytes_out mine)
      \<and> cag_rtt_avg a = (if timed = [] then 0 else sum_list (map sess_rtt_avg timed) / of_nat (length timed))"
    if "a \<in> country_row ` set (country_sums w rng)" for a
  proof -
    from that obtain c s where e: "(c, s) \<in> set (country_sums w rng)" "a = country_row (c, s)" by auto
    with country_sums_spec(1) have "map_of (country_sums w rng) c = Some s" by simp
    then have "s = sum_of (filter (\<lambda>s. sess_cc s = c) (in_range w rng))" by (simp add: country_sums_spec(2) Let_def split: if_splits)
    then show ?thesis using sum_of_fields [of "filter (\<lambda>s. sess_cc s = c) (in_range w rng)"] by (simp add: e(2) country_row_def Let_def)
  qed
  have "sorted_wrt (\<lambda>a b. cag_sessions b \<le> cag_sessions a) (geo_snapshot_of w rng)"
    using by_sessions.sorted_keys [of "map country_row (country_sums w rng)"] by (simp add: geo_snapshot_rows [OF assms] sorted_map)
  moreover have "set (geo_snapshot_of w rng) = country_row ` set (country_sums w rng)" by (simp add: geo_snapshot_rows [OF assms])
  ultimately show ?thesis using geo_snapshot_codes [OF assms, of rng] row unfolding Let_def by blast
qed

text \<open>C22. An uptime report over a window of at least five milliseconds: every percentage lies between nothing and all,
  and is the share of the window the timeline of the same row shows in green.\<close>

theorem uptime_report_agrees:
  assumes "\<not> no_data w" and "5 \<le> now - from" and "from = max (if 0 < window then now - window else mk_conn_since (mw_clock w)) (mk_conn_since (mw_clock w))"
    and "r \<in> set (urep_link (tunnel_uptime_of w now window) # urep_tunnels (tunnel_uptime_of w now window))"
  shows "0 \<le> tup_uptime_pct r \<and> tup_uptime_pct r \<le> 100 \<and> tup_uptime_pct r = green (band_segs from now (tup_events r))
    \<and> hd (tup_events r) = \<lparr>usp_t = from, usp_up = True\<rparr>"
proof -
  obtain i n seed ms where r: "r = uptime_row i n from now (flap_events from now seed ms)" "0 \<le> ms"
    using assms by (auto simp: tunnel_uptime_of_def Let_def)
  from flap_events_spec [OF assms(2) r(2), of seed] obtain e fs where fl: "flap_events from now seed ms = e # fs"
    and e: "usp_t e = from" "usp_up e" "sorted (map usp_t (e # fs))" "\<forall>e \<in> set fs. from < usp_t e"
    by (cases "flap_events from now seed ms") auto
  have "e = \<lparr>usp_t = from, usp_up = True\<rparr>" using e(1,2) by (cases e) simp
  moreover have "uptime_pct_of (e # fs) from now = green (band_segs from now (e # fs))"
    using assms(2) e by (intro uptime_is_green) auto
  moreover have "0 \<le> uptime_pct_of (e # fs) from now \<and> uptime_pct_of (e # fs) from now \<le> 100"
    using assms(2) e by (intro uptime_pct_bounds) auto
  ultimately show ?thesis by (simp add: r uptime_row_def fl)
qed

text \<open>Every cell of the peak-hours matrix, seven days of twenty-four hours, is unknown, or an average from zero up
  to the peak of its hour, a count of at most twelve.\<close>

theorem peak_matrix_shape:
  "length (pmx_cells (peak_matrix_of w dow hod now weeks)) = 7
    \<and> (\<forall>row \<in> set (pmx_cells (peak_matrix_of w dow hod now weeks)). length row = 24
        \<and> (\<forall>c \<in> set row. c = \<lparr>cell_avg = -1, cell_max = -1\<rparr> \<or> 0 \<le> cell_avg c \<and> cell_avg c \<le> cell_max c \<and> cell_max c \<le> 12))"
proof -
  define m where "m = (if no_data w then \<lambda>_. no_peak else foldl (peak_sample (mw_clock w) dow hod) (\<lambda>_. no_peak) (peak_times w now weeks))"
  have none: "\<forall>c. peak_sum_ok ((\<lambda>_. no_peak) c)" by (simp add: peak_sum_ok_def no_peak_def)
  then have ok: "\<forall>c. peak_sum_ok (m c)" using samples.inv_run [OF none] by (simp add: m_def)
  have "peak_cell_of a = \<lparr>cell_avg = -1, cell_max = -1\<rparr>
      \<or> 0 \<le> cell_avg (peak_cell_of a) \<and> cell_avg (peak_cell_of a) \<le> cell_max (peak_cell_of a) \<and> cell_max (peak_cell_of a) \<le> 12"
    if "peak_sum_ok a" for a
  proof (cases "ps_count a = 0")
    case False
    with that have "0 \<le> ps_sum a" "ps_sum a \<le> int (ps_count a) * ps_peak a" "ps_peak a \<le> 12" by (auto simp: peak_sum_ok_def)
    then have "real_of_int (ps_sum a) \<le> real_of_int (ps_peak a * int (ps_count a))" by (simp only: of_int_le_iff mult.commute)
    with False \<open>0 \<le> ps_sum a\<close> \<open>ps_peak a \<le> 12\<close> show ?thesis by (simp add: peak_cell_of_def pos_divide_le_eq)
  qed (use that in \<open>auto simp: peak_sum_ok_def peak_cell_of_def\<close>)
  with ok show ?thesis by (auto simp: peak_matrix_of_def Let_def m_def [symmetric])
qed

text \<open>The summary of a window is about the traffic of that window: the peaks are the largest sampled values and
  stand at the time they were sampled, and the sessions are those the session list finds for the window.\<close>

theorem summary_agrees:
  assumes "\<not> no_data w" and "0 < rng" and "rng < now" and "summary_times w now rng = (ts, step)" and "ts \<noteq> []"
  shows "let s = summary_of w now rng; k = mw_clock w in
    (\<forall>t \<in> set ts. down_rate k (of_int t) \<le> smy_peak_out_bps s \<and> up_rate k (of_int t) \<le> smy_peak_in_bps s \<and> player_gauge k t \<le> smy_peak_players s)
    \<and> smy_peak_players_at s \<in> set ts \<and> smy_peak_players s = player_gauge k (smy_peak_players_at s)
    \<and> smy_sessions s = spage_total (sessions_page_of w \<lparr>sq_player_uuid = '''', sq_agent_id = '''', sq_tunnel_id = '''', sq_cc = '''', sq_since_ms = now - rng,
         sq_offset = 0, sq_limit = 100\<rparr>)
    \<and> smy_unique_players s \<le> smy_sessions s"
proof -
  let ?k = "mw_clock w"
  let ?in = "filter (\<lambda>s. now - rng \<le> sess_started_ms s) (mock_sessions w)"
  have "card (set (map sess_player_uuid ?in)) \<le> length ?in" by (metis card_length length_map)
  moreover have "fst (peak_of (player_gauge ?k) (-1) ts) \<noteq> -1"
  proof -
    have "player_gauge ?k (hd ts) \<le> fst (peak_of (player_gauge ?k) (-1) ts)"
      using peak_of_spec [of "-1" "player_gauge ?k" ts] hd_in_set [OF assms(5)] by blast
    then show ?thesis using player_gauge_range(1) [of ?k "hd ts"] by linarith
  qed
  ultimately show ?thesis using assms peak_of_spec [of "-1" "player_gauge ?k" ts] peak_of_spec [of 0 "\<lambda>t. down_rate ?k (of_int t)" ts]
      peak_of_spec [of 0 "\<lambda>t. up_rate ?k (of_int t)" ts]
    by (auto simp: summary_of_def Let_def sessions_page_of_def session_rows_def split: prod.split)
qed


text \<open>The file of a player is its card, the connections of its own identity, at most twenty-five and the newest
  first; an unknown identity, like any identity of an installation without data, has an empty file.\<close>

theorem dossier_answers:
  "(if \<not> no_data w \<and> u \<in> card_uuid ` set (mock_players w)
     then det_card (player_detail_of w u) \<in> set (mock_players w) \<and> card_uuid (det_card (player_detail_of w u)) = u
       \<and> nsp_name (hd (det_names (player_detail_of w u))) = card_name (det_card (player_detail_of w u))
       \<and> det_recent (player_detail_of w u) = page_rows 25 0 (session_rows w \<lparr>sq_player_uuid = u, sq_agent_id = '''', sq_tunnel_id = '''',
           sq_cc = '''', sq_since_ms = 0, sq_offset = 0, sq_limit = 25\<rparr>)
       \<and> sorted_wrt (\<lambda>a b. sess_started_ms b \<le> sess_started_ms a) (det_recent (player_detail_of w u))
     else player_detail_of w u = \<lparr>det_card = empty_card, det_names = [], det_ips = [], det_recent = []\<rparr>)"
proof (cases "\<not> no_data w \<and> u \<in> card_uuid ` set (mock_players w)")
  case False
  then have "(if no_data w then None else find_player w u) = None" using find_player_None [of w u] by auto
  then have "player_detail_of w u = \<lparr>det_card = empty_card, det_names = [], det_ips = [], det_recent = []\<rparr>"
    by (simp only: player_detail_of_def option.case)
  with False show ?thesis by (simp only: if_False)
next
  case True
  then obtain i p where p: "find_player w u = Some (i, p)" using find_player_None [of w u] by fastforce
  with find_player_Some [OF p] have "p \<in> set (mock_players w)" "card_uuid p = u" "u \<noteq> ''''" using player_uuid_not_Nil by auto
  moreover have "sorted_wrt (\<lambda>a b. sess_started_ms b \<le> sess_started_ms a) (take 25 (filter P (mock_sessions w)))" for P
    by (intro sorted_wrt_take sorted_wrt_filter sessions_sorted)
  ultimately show ?thesis using True p by (simp add: player_detail_of_def Let_def page_rows_def session_rows_def)
qed

text \<open>The width of a series over a span that is longer than one bucket is shorter than the span.\<close>

lemma series_width_short: "15000 \<le> len \<Longrightarrow> series_width 15000 len \<noteq> 15000 \<Longrightarrow> series_width 15000 len \<le> len"
proof -
  assume len: "15000 \<le> len" and ne: "series_width 15000 len \<noteq> 15000"
  define n where "n = \<lceil>real_of_int len / 300 / 15000\<rceil>"
  have b: "series_width 15000 len = max 15000 (n * 15000)" by (simp add: series_width_def n_def)
  with ne have n: "2 \<le> n" by (auto simp: max_def split: if_splits)
  have "real_of_int (n - 1) < real_of_int len / 300 / 15000" unfolding n_def by linarith
  then have "real_of_int ((n - 1) * 4500000) < real_of_int len" by simp
  then have "(n - 1) * 4500000 < len" by (simp only: of_int_less_iff)
  with n show ?thesis by (simp add: b max_def)
qed

lemma last_n_map: "last_n n (map f xs) = map f (last_n n xs)"
  by (simp add: last_n_def drop_map)

lemma js_round_near: "\<bar>of_int (js_round x) - x\<bar> \<le> 1 / 2"
  unfolding js_round_def by linarith

lemma rounded_rate: "0 < b \<Longrightarrow> \<bar>of_int (js_round (r * (of_int b / 1000))) / (of_int b / 1000) - r\<bar> \<le> 500 / real_of_int b"
proof -
  assume "0 < b"
  define c where "c = real_of_int b / 1000"
  with \<open>0 < b\<close> have c: "c = real_of_int b / 1000" "0 < c" by simp_all
  define m where "m = real_of_int (js_round (r * c))"
  have "m / c - r = (m - r * c) / c" using c(2) by (simp add: diff_divide_distrib)
  then have "\<bar>m / c - r\<bar> = \<bar>m - r * c\<bar> / c" using c(2) by simp
  also have "\<dots> \<le> (1 / 2) / c" using c(2) js_round_near [of "r * c"] by (intro divide_right_mono) (simp_all add: m_def)
  finally show ?thesis using \<open>0 < b\<close> by (simp add: m_def c(1))
qed

text \<open>The rows of a replay and their grid.\<close>

lemma timeline_grid:
  fixes w :: mock_world and now i :: int and s :: session_meta
  defines "e \<equiv> (if sess_ended_ms s = 0 then now else sess_ended_ms s)"
  defines "b \<equiv> series_width 15000 (max 15000 (e - sess_started_ms s))"
  assumes "\<not> no_data w" and "find (\<lambda>s. sess_id s = i) (mock_sessions w) = Some s"
  shows "stl_traffic (session_timeline_of w now i) = map (\<lambda>t. traffic_at (mw_clock w) (0.2 + 0.5 * hash01 i) (of_int (min b (e - t + 1)) / 1000) t)
      (last_n 300 (loop_values (sess_started_ms s) e b))"
    and "map lat_t (stl_rtt (session_timeline_of w now i)) = last_n 300 (loop_values (sess_started_ms s) e b)"
  using assms(3,4) by (simp_all add: session_timeline_of_def Let_def last_n_map comp_def latency_at_def e_def b_def)

lemma grid_single:
  assumes "length (last_n 300 (loop_values a e (series_width 15000 (max 15000 (e - a))))) = 1"
  shows "series_width 15000 (max 15000 (e - a)) = 15000"
proof (rule ccontr)
  let ?b = "series_width 15000 (max 15000 (e - a))"
  assume ne: "?b \<noteq> 15000"
  have w: "15000 \<le> ?b" by (rule series_width_spec) simp
  with ne series_width_short [OF _ ne] have "?b \<le> e - a" by (auto simp: max_def split: if_splits)
  with w zdiv_mono1 [of ?b "e - a" ?b] have "1 \<le> (e - a) div ?b" by simp
  with length_loop_values [of ?b a e] w \<open>?b \<le> e - a\<close> have "2 \<le> length (loop_values a e ?b)" by linarith
  with assms show False by simp
qed

text \<open>A replay of a session counts on the grid its traffic was sampled on: the rate it reads out at a sample is the
  sampled rate of the traffic model times the share of the session, to the half byte the sample was rounded by, wherever
  a whole bucket fits before the end of the session.\<close>

theorem replay_rates_exact:
  assumes "replay_domain_of (Some (session_timeline_of w now i)) = Some d" and "find (\<lambda>s. sess_id s = i) (mock_sessions w) = Some s"
    and "e = (if sess_ended_ms s = 0 then now else sess_ended_ms s)" and "p \<in> set (stl_traffic (session_timeline_of w now i))"
    and "trf_t p + series_width 15000 (max 15000 (e - sess_started_ms s)) \<le> e + 1"
  shows "rd_step d = series_width 15000 (max 15000 (e - sess_started_ms s))
    \<and> (\<exists>ro x. replay_readout_of (Some (trf_t p)) (Some (session_timeline_of w now i)) = Some ro \<and> ro_dl ro = Some x
        \<and> \<bar>x - down_rate (mw_clock w) (of_int (trf_t p)) * (0.2 + 0.5 * hash01 i)\<bar> \<le> 500 / of_int (rd_step d))"
proof -
  define b where "b = series_width 15000 (max 15000 (e - sess_started_ms s))"
  define ts where "ts = last_n 300 (loop_values (sess_started_ms s) e b)"
  let ?s = "session_timeline_of w now i"
  have data: "\<not> no_data w" using assms(4) by (auto simp: session_timeline_of_def)
  note grid = timeline_grid [OF data assms(2), of now, folded assms(3), folded b_def, folded ts_def]
  have trf: "map trf_t (stl_traffic ?s) = ts" by (simp add: grid(1) comp_def traffic_at_def)
  have b: "15000 \<le> b" unfolding b_def by (rule series_width_spec) simp
  have steps: "steps_by b ts" unfolding ts_def using b by (intro steps_by_last_n steps_by_loop) simp
  have "rd_step d = b" using replay_grid [OF trf grid(2) steps _ _ assms(1)] b grid_single [of "sess_started_ms s" e] by (simp add: ts_def b_def)
  have "distinct (map trf_t (stl_traffic ?s))" using steps_by_sorted [OF _ steps] b by (simp add: trf strict_sorted_iff)
  then have "nearest trf_t (trf_t p) (stl_traffic ?s) = Some p" using assms(4) by (rule nearest_at)
  moreover from assms(4) have "p = traffic_at (mw_clock w) (0.2 + 0.5 * hash01 i) (of_int (min b (e - trf_t p + 1)) / 1000) (trf_t p)"
    by (auto simp: grid(1) traffic_at_def)
  with assms(5) have "p = traffic_at (mw_clock w) (0.2 + 0.5 * hash01 i) (of_int b / 1000) (trf_t p)" by (simp add: b_def)
  then have "trf_out p = js_round (down_rate (mw_clock w) (of_int (trf_t p)) * (0.2 + 0.5 * hash01 i) * (of_int b / 1000))"
    by (drule_tac arg_cong [where f = trf_out]) (simp add: traffic_at_def)
  ultimately show ?thesis using rounded_rate [of b] b
    by (simp add: replay_readout_of_def assms(1) Let_def \<open>rd_step d = b\<close> b_def [symmetric])
qed


section \<open>Instances\<close>

lemma gateway_data [simp]: "\<not> no_data gateway_world" "ax_geo (mw_axes gateway_world) = ''''" "mk_conn_since (mw_clock gateway_world) = 10000"
  by (simp_all add: no_data_def gateway_world_def mock_install_def axes_of_def param_or_def sample_clock_def mock_clock_at_def Let_def)

definition by_length :: "string \<Rightarrow> string \<Rightarrow> int" where
  "by_length a b = int (length a) - int (length b)"

lemma live_session_found:
  "find (\<lambda>s. sess_id s = 5000) (mock_sessions gateway_world) = Some (live_session 0 (mock_conns 100000 ! 0))"
proof -
  have mem: "s \<in> set (mock_sessions gateway_world) \<and> sess_id s = 5000 \<longleftrightarrow> s = live_session 0 (mock_conns 100000 ! 0)" for s
    by (auto simp: mock_sessions_def mock_conns_def live_session_def past_session_def Let_def)
  then obtain s where "find (\<lambda>s. sess_id s = 5000) (mock_sessions gateway_world) = Some s"
    by (cases "find (\<lambda>s. sess_id s = 5000) (mock_sessions gateway_world)") (auto simp: find_None_iff)
  moreover from this have "s \<in> set (mock_sessions gateway_world) \<and> sess_id s = 5000" by (auto simp: find_Some_iff)
  ultimately show ?thesis using mem by simp
qed

theorem wall_answers_query_witness:
  "ppage_players (players_page_of by_length gateway_world \<lparr>pq_search = ''o'', pq_sort = ''name'', pq_agent_id = '''', pq_tunnel_id = '''', pq_cc = '''', pq_offset = 0, pq_limit = 5\<rparr>)
    = take 5 (player_rows by_length gateway_world \<lparr>pq_search = ''o'', pq_sort = ''name'', pq_agent_id = '''', pq_tunnel_id = '''', pq_cc = '''', pq_offset = 0, pq_limit = 5\<rparr>)"
proof -
  have "comparator by_length (\<lambda>_. True)" unfolding by_length_def by (rule comparator_key)
  then show ?thesis
    using wall_answers_query [of by_length gateway_world "\<lparr>pq_search = ''o'', pq_sort = ''name'', pq_agent_id = '''', pq_tunnel_id = '''', pq_cc = '''', pq_offset = 0, pq_limit = 5\<rparr>"]
    by (simp add: Let_def page_rows_def page_limit_def)
qed

theorem geo_snapshot_correct_witness:
  "distinct (map cag_cc (geo_snapshot_of gateway_world 0))"
  using geo_snapshot_correct [of gateway_world 0, OF gateway_data(1,2)] unfolding Let_def by blast

theorem uptime_report_agrees_witness:
  "tup_uptime_pct (urep_link (tunnel_uptime_of gateway_world 200000 0)) = green (band_segs 10000 200000 (tup_events (urep_link (tunnel_uptime_of gateway_world 200000 0))))"
proof -
  have "(10000::int) = max (if 0 < (0::int) then 200000 - 0 else mk_conn_since (mw_clock gateway_world)) (mk_conn_since (mw_clock gateway_world))"
    by simp
  moreover have "(5::int) \<le> 200000 - 10000" by simp
  ultimately show ?thesis using uptime_report_agrees [OF gateway_data(1) _ _ list.set_intros(1)] by blast
qed

theorem peak_matrix_shape_witness:
  "length (pmx_cells (peak_matrix_of gateway_world (\<lambda>_. 0) (\<lambda>_. 0) 100000 8)) = 7"
  using peak_matrix_shape [of gateway_world "\<lambda>_. 0" "\<lambda>_. 0" 100000 8] by blast

theorem summary_agrees_witness:
  "smy_unique_players (summary_of gateway_world 200000 100000) \<le> smy_sessions (summary_of gateway_world 200000 100000)"
proof -
  have "summary_times gateway_world 200000 100000 = (loop_values 100000 200000 (max 60000 (js_round 250)), max 60000 (js_round 250))"
    by (simp add: summary_times_def Let_def)
  moreover have "loop_values 100000 200000 (max 60000 (js_round 250)) \<noteq> []" by (simp add: loop_values_def)
  ultimately show ?thesis
    using summary_agrees [OF gateway_data(1), of 100000 200000 "loop_values 100000 200000 (max 60000 (js_round 250))" "max 60000 (js_round 250)"]
    unfolding Let_def by (elim meta_impE) (simp_all only:, simp_all)
qed

theorem replay_rates_exact_witness:
  "map_option rd_step (replay_domain_of (Some (session_timeline_of gateway_world 100000 5000))) = Some 15000"
proof -
  let ?s = "session_timeline_of gateway_world 100000 5000"
  have live: "sess_ended_ms (live_session 0 (mock_conns 100000 ! 0)) = 0" "sess_started_ms (live_session 0 (mock_conns 100000 ! 0)) = 8000"
    by (simp_all add: live_session_def mock_conns_def extra_conn_def)
  have width: "series_width 15000 92000 = 15000" by (simp add: series_width_def)
  have grid: "last_n 300 (loop_values 8000 100000 15000) = 8000 # map (\<lambda>k. 8000 + int k * 15000) [1, 2, 3, 4, 5, 6]"
    by (simp add: last_n_def loop_values_def upt_rec)
  have trf: "stl_traffic ?s = map (\<lambda>t. traffic_at (mw_clock gateway_world) (0.2 + 0.5 * hash01 5000) (of_int (min 15000 (100000 - t + 1)) / 1000) t)
      (last_n 300 (loop_values 8000 100000 15000))"
    using timeline_grid(1) [OF gateway_data(1) live_session_found, of 100000] by (simp add: live width)
  then have "2 \<le> length (stl_traffic ?s)" by (simp add: grid)
  then obtain d where d: "replay_domain_of (Some ?s) = Some d"
    by (simp add: replay_domain_of_def replay_times_def Let_def)
  have "8000 \<in> trf_t ` set (stl_traffic ?s)" by (simp add: trf grid traffic_at_def)
  then obtain p where p: "p \<in> set (stl_traffic ?s)" "trf_t p = 8000" by auto

  from replay_rates_exact [OF d live_session_found refl p(1)] p(2) have "rd_step d = 15000" by (simp add: live width max_def)
  then show ?thesis by (simp add: d)
qed

end
