(* ===== verification/World_Map.thy ===== *)
theory World_Map
  imports World_Geo Mock_Analytics Players
begin

text \<open>
  The map of \<open>charts/WorldMap.tsx\<close>: which countries of the geometry are drawn, their fills, the hover and the
  filter it shares with the ranking beside it (\<open>GeoRank.tsx\<close>), the flash and the tooltip.
\<close>

section \<open>Fills\<close>

text \<open>\<open>color-mix(in srgb, var(a) p%, b)\<close>.\<close>

datatype color_mix = Mix (mix_of: string) (mix_percent: int) (mix_with: string)

definition css_mix :: "color_mix \<Rightarrow> string" where
  "css_mix m = (case m of Mix a p b \<Rightarrow> ''color-mix(in srgb, '' @ a @ '' '' @ show_int p @ ''%, '' @ b @ '')'')"

definition activity_fill :: "int \<Rightarrow> int \<Rightarrow> color_mix" where
  "activity_fill sessions most = (let t = (if 0 < most then sqrt (of_int (max 0 sessions)) / sqrt (of_int most) else 0) in
     Mix ''var(--accent)'' (js_round (14 + 78 * t)) ''transparent'')"

definition latency_fill :: "real \<Rightarrow> color_mix" where
  "latency_fill ms = (if ms \<le> 0 then Mix ''var(--accent)'' 24 ''transparent''
     else if ms \<le> 90 then Mix ''var(--warn)'' (js_round (max 0 (min 1 ((ms - 25) / 65)) * 100)) ''var(--good)''
     else Mix ''var(--bad)'' (js_round (max 0 (min 1 ((ms - 90) / 110)) * 100)) ''var(--warn)'')"

definition legend_percents :: "int list" where "legend_percents = [16, 38, 58, 76, 92]"

section \<open>Countries\<close>

definition by_country :: "country_agg list \<Rightarrow> string \<rightharpoonup> country_agg" where
  "by_country data = foldl (\<lambda>m d. m(js_upper (cag_cc d) \<mapsto> d)) Map.empty data"

definition max_sessions :: "country_agg list \<Rightarrow> int" where
  "max_sessions data = foldl (\<lambda>mx d. if mx < cag_sessions d then cag_sessions d else mx) 0 data"

definition country_fill :: "geo_metric \<Rightarrow> country_agg list \<Rightarrow> country_agg \<Rightarrow> color_mix" where
  "country_fill metric data d = (case metric of GeoActivity \<Rightarrow> activity_fill (cag_sessions d) (max_sessions data)
   | GeoLatency \<Rightarrow> latency_fill (cag_rtt_avg d))"

text \<open>The geometry is an argument here; the screen passes \<^const>\<open>world\<close>.\<close>

definition data_countries :: "world_country list \<Rightarrow> country_agg list \<Rightarrow> (world_country \<times> country_agg) list" where
  "data_countries geo data = List.map_filter (\<lambda>g. map_option (Pair g) (by_country data (wc_cc g))) geo"

definition find_country :: "world_country list \<Rightarrow> string \<Rightarrow> world_country option" where
  "find_country geo cc = find (\<lambda>g. wc_cc g = cc) geo"

text \<open>\<open>hoverGeo && hoverDatum\<close>: the country that is drawn again on top and has the tooltip. An empty code is falsy.\<close>

definition hover_shown :: "world_country list \<Rightarrow> country_agg list \<Rightarrow> string option \<Rightarrow> (world_country \<times> country_agg) option" where
  "hover_shown geo data hover = (case hover of None \<Rightarrow> None
   | Some cc \<Rightarrow> if cc = '''' then None
       else (case (find_country geo cc, by_country data cc) of (Some g, Some d) \<Rightarrow> Some (g, d) | _ \<Rightarrow> None))"

definition country_opacity :: "string option \<Rightarrow> world_country \<Rightarrow> real" where
  "country_opacity hover g = (if hover \<noteq> None \<and> hover \<noteq> Some '''' \<and> hover \<noteq> Some (wc_cc g) then 0.55 else 1)"

definition flash_shapes :: "world_country list \<Rightarrow> string list \<Rightarrow> world_country list" where
  "flash_shapes geo flash = List.map_filter (\<lambda>cc. find_country geo (js_upper cc)) flash"

definition selected_shape :: "world_country list \<Rightarrow> string option \<Rightarrow> world_country option" where
  "selected_shape geo selected = (case selected of None \<Rightarrow> None | Some cc \<Rightarrow> if cc = '''' then None else find_country geo cc)"

section \<open>Tooltip\<close>

record map_tooltip =
  tip_left :: real
  tip_top :: real
  tip_below :: bool
  tip_name :: string
  tip_flag :: "nat list option"
  tip_rows :: "(string \<times> string) list"

definition tooltip_of :: "world_country \<Rightarrow> country_agg \<Rightarrow> map_tooltip" where
  "tooltip_of g d = \<lparr>tip_left = max 9 (min 91 (wc_cx g / world_w * 100)), tip_top = wc_cy g / world_h * 100, tip_below = wc_cy g < 90,
     tip_name = country_name d, tip_flag = flag_emoji (Some (cag_cc d)),
     tip_rows = [(''Players'', show_int (cag_players d)), (''Sessions'', show_int (cag_sessions d)),
       (''Data'', fmt_bytes (of_int (cag_bytes_in d + cag_bytes_out d))),
       (''Avg ping'', if has_rtt (cag_rtt_avg d) then fmt_rtt (cag_rtt_avg d) else em_dash)]\<rparr>"

section \<open>Hover and filter, shared with the ranking\<close>

record geo_view =
  gv_hover :: "string option"
  gv_selected :: string       \<comment> \<open>the filter of the screen\<close>

datatype geo_event =
    MapEnter world_country      \<comment> \<open>pointer or focus\<close>
  | MapLeave
  | MapClick world_country
  | MapKey string world_country
  | RankEnter country_agg
  | RankLeave
  | RankClick country_agg

definition geo_step :: "geo_view \<Rightarrow> geo_event \<Rightarrow> geo_view" where
  "geo_step s e = (case e of
     MapEnter g \<Rightarrow> s\<lparr>gv_hover := Some (wc_cc g)\<rparr>
   | MapLeave \<Rightarrow> s\<lparr>gv_hover := None\<rparr>
   | MapClick g \<Rightarrow> s\<lparr>gv_selected := select_country (wc_cc g) (gv_selected s)\<rparr>
   | MapKey k g \<Rightarrow> if k = ''Enter'' \<or> k = '' '' then s\<lparr>gv_selected := select_country (wc_cc g) (gv_selected s)\<rparr> else s
   | RankEnter r \<Rightarrow> s\<lparr>gv_hover := Some (cag_cc r)\<rparr>
   | RankLeave \<Rightarrow> s\<lparr>gv_hover := None\<rparr>
   | RankClick r \<Rightarrow> s\<lparr>gv_selected := select_country (cag_cc r) (gv_selected s)\<rparr>)"

text \<open>What the two views mark: the rows of the ranking that are on, the country in the tooltip and the outlined one.\<close>

definition rank_marks :: "geo_view \<Rightarrow> country_agg list \<Rightarrow> country_agg list" where
  "rank_marks s rows = filter (rank_on (gv_hover s) (if gv_selected s = '''' then None else Some (gv_selected s))) rows"

definition map_marks :: "world_country list \<Rightarrow> country_agg list \<Rightarrow> geo_view \<Rightarrow> (world_country \<times> country_agg) option \<times> world_country option" where
  "map_marks geo data s = (hover_shown geo data (gv_hover s), selected_shape geo (if gv_selected s = '''' then None else Some (gv_selected s)))"

section \<open>The data of a country\<close>

lemma by_country_last: "by_country (data @ [d]) = (by_country data)(js_upper (cag_cc d) \<mapsto> d)"
  by (simp add: by_country_def)

lemma by_country_spec:
  "by_country data cc = (case rev (filter (\<lambda>d. js_upper (cag_cc d) = cc) data) of [] \<Rightarrow> None | d # _ \<Rightarrow> Some d)"
  by (induction data rule: rev_induct) (simp add: by_country_def, auto simp: by_country_last)

lemma by_country_Nil [simp]: "by_country [] cc = None"
  by (simp add: by_country_def)

lemma by_country_Some: "by_country data cc = Some d \<Longrightarrow> d \<in> set data \<and> js_upper (cag_cc d) = cc"
  by (induction data rule: rev_induct) (auto simp: by_country_last split: if_splits)

lemma by_country_None: "by_country data cc = None \<longleftrightarrow> cc \<notin> (\<lambda>d. js_upper (cag_cc d)) ` set data"
  by (induction data rule: rev_induct) (auto simp: by_country_last)

lemma by_country_unique:
  assumes "distinct (map (\<lambda>d. js_upper (cag_cc d)) data)" and "d \<in> set data"
  shows "by_country data (js_upper (cag_cc d)) = Some d"
proof -
  obtain e where e: "by_country data (js_upper (cag_cc d)) = Some e" using by_country_None assms(2) by fastforce
  from by_country_Some [OF e] assms have "e = d" by (auto simp: distinct_map dest: inj_onD)
  with e show ?thesis by simp
qed

lemma find_country_iff: "distinct (map wc_cc geo) \<Longrightarrow> find_country geo cc = Some g \<longleftrightarrow> g \<in> set geo \<and> wc_cc g = cc"
  by (auto simp: find_country_def find_Some_iff distinct_conv_nth in_set_conv_nth)

lemma fold_max_sessions: "0 \<le> max_sessions data \<and> (\<forall>d \<in> set data. cag_sessions d \<le> max_sessions data)
    \<and> (max_sessions data \<noteq> 0 \<longrightarrow> (\<exists>d \<in> set data. cag_sessions d = max_sessions data))"
proof (induction data rule: rev_induct)
  case (snoc d data)
  have "max_sessions (data @ [d]) = max (max_sessions data) (cag_sessions d)" by (auto simp: max_sessions_def)
  with snoc show ?case by (auto simp: max_def)
qed (simp add: max_sessions_def)

section \<open>What is drawn\<close>

lemma map_filter_pairs: "map fst (List.map_filter (\<lambda>g. map_option (Pair g) (f g)) gs) = filter (\<lambda>g. f g \<noteq> None) gs"
  by (induction gs) (auto simp: List.map_filter_simps split: option.split)

lemma drawn_shapes: "map fst (data_countries geo data) = filter (\<lambda>g. wc_cc g \<in> (\<lambda>d. js_upper (cag_cc d)) ` set data) geo"
proof -
  have "by_country data cc \<noteq> None \<longleftrightarrow> cc \<in> (\<lambda>d. js_upper (cag_cc d)) ` set data" for cc by (simp add: by_country_None del: not_None_eq)
  then show ?thesis unfolding data_countries_def map_filter_pairs by simp
qed

text \<open>Every country of the geometry that has data is drawn once, with the last row of its code; data without a shape
  is not on the map.\<close>

theorem map_draws_data:
  "map fst (data_countries geo data) = filter (\<lambda>g. wc_cc g \<in> (\<lambda>d. js_upper (cag_cc d)) ` set data) geo
    \<and> (\<forall>(g, d) \<in> set (data_countries geo data). d \<in> set data \<and> js_upper (cag_cc d) = wc_cc g)"
proof -
  have "d \<in> set data \<and> js_upper (cag_cc d) = wc_cc g" if "(g, d) \<in> set (data_countries geo data)" for g d
  proof -
    from that have "by_country data (wc_cc g) = Some d" by (auto simp: data_countries_def List.map_filter_def)
    then show ?thesis by (rule by_country_Some)
  qed
  then show ?thesis using drawn_shapes by blast
qed

text \<open>Where a fill stands between its two ends: the activity ramp is one scale, the latency ramp two, one after the
  other.\<close>

definition heat :: "color_mix \<Rightarrow> int" where
  "heat m = (if mix_of m = ''var(--bad)'' then 100 + mix_percent m else mix_percent m)"

lemma clamp01: "0 \<le> max 0 (min 1 x) * 100" "max 0 (min 1 x) * (100::real) \<le> 100"
  by auto

lemma js_round_numeral [simp]: "js_round (numeral n) = numeral n" "js_round 0 = 0"
  using js_round_int [of "numeral n"] js_round_int [of 0] by simp_all

lemma percent_range: "0 \<le> js_round (max 0 (min 1 x) * 100) \<and> js_round (max 0 (min 1 x) * 100) \<le> 100"
  using js_round_mono [OF clamp01(1) [of x]] js_round_mono [OF clamp01(2) [of x]] by simp

lemma percent_mono: "x \<le> y \<Longrightarrow> js_round (max 0 (min 1 x) * 100) \<le> js_round (max 0 (min 1 y) * 100)"
  by (intro js_round_mono mult_right_mono max.mono min.mono) simp_all

lemma latency_percent: "0 < ms \<Longrightarrow> 0 \<le> mix_percent (latency_fill ms) \<and> mix_percent (latency_fill ms) \<le> 100"
proof -
  assume "0 < ms"
  then have "\<not> ms \<le> 0" by simp
  then show ?thesis
    using percent_range [of "(ms - 25) / 65"] percent_range [of "(ms - 90) / 110"]
    by (cases "ms \<le> 90") (simp_all only: latency_fill_def if_True if_False color_mix.sel)
qed

text \<open>A busier country is never drawn paler, a slower one never greener; the busiest has the deepest accent, a country
  that was never timed has neither green nor red.\<close>

theorem map_fills_ordered:
  assumes "a \<in> set data" and "b \<in> set data" and "0 \<le> cag_sessions a" and "cag_sessions a \<le> cag_sessions b"
  shows "heat (country_fill GeoActivity data a) \<le> heat (country_fill GeoActivity data b)
    \<and> 14 \<le> heat (country_fill GeoActivity data a) \<and> heat (country_fill GeoActivity data b) \<le> 92
    \<and> (0 < cag_sessions b \<and> cag_sessions b = max_sessions data \<longrightarrow> heat (country_fill GeoActivity data b) = 92)
    \<and> (\<forall>x y. 0 < x \<and> x \<le> y \<longrightarrow> 0 \<le> heat (latency_fill x) \<and> heat (latency_fill x) \<le> heat (latency_fill y) \<and> heat (latency_fill y) \<le> 200)"
proof -
  define most where "most = max_sessions data"
  define share where "share n = (if 0 < most then sqrt (of_int (max 0 n)) / sqrt (of_int most) else (0::real))" for n :: int
  have act: "heat (country_fill GeoActivity data d) = js_round (14 + 78 * share (cag_sessions d))" for d
    by (simp add: heat_def country_fill_def activity_fill_def share_def most_def Let_def)
  have le: "cag_sessions d \<le> most" if "d \<in> set data" for d using fold_max_sessions [of data] that by (simp add: most_def)
  have nonneg: "0 \<le> share n" for n by (simp add: share_def)
  have mono: "share m \<le> share n" if "m \<le> n" for m n
    using that by (auto simp: share_def intro!: divide_right_mono)
  have top: "share most = 1" if "0 < most" using that by (simp add: share_def)
  have one: "share n \<le> 1" if "n \<le> most" for n
    using mono [OF that] top by (cases "0 < most") (auto simp: share_def)
  have r: "js_round (14 + 78 * share m) \<le> js_round (14 + 78 * share n)" if "m \<le> n" for m n using mono [OF that] by (intro js_round_mono) simp
  have "14 \<le> js_round (14 + 78 * share n)" for n using nonneg [of n] js_round_mono [of "of_int 14" "14 + 78 * share n"] by simp
  moreover have "js_round (14 + 78 * share n) \<le> 92" if "n \<le> most" for n
    using one [OF that] js_round_mono [of "14 + 78 * share n" "of_int 92"] by simp
  moreover have "js_round (14 + 78 * share most) = 92" if "0 < most" using js_round_int [of 92] by (simp add: top [OF that])
  moreover have "0 \<le> heat (latency_fill x) \<and> heat (latency_fill x) \<le> heat (latency_fill y) \<and> heat (latency_fill y) \<le> 200" if xy: "0 < x" "x \<le> y" for x y
  proof -
    have "heat (latency_fill x) \<le> heat (latency_fill y)"
    proof (cases "y \<le> 90 \<or> 90 < x")
      case True
      then consider "x \<le> 90" "y \<le> 90" | "\<not> x \<le> 90" "\<not> y \<le> 90" using xy by linarith
      then show ?thesis
        using xy percent_mono [of "(x - 25) / 65" "(y - 25) / 65"] percent_mono [of "(x - 90) / 110" "(y - 90) / 110"]
        by cases (simp_all add: heat_def latency_fill_def del: max.bounded_iff min.bounded_iff)
    next
      case False
      with xy latency_percent [of x] latency_percent [of y] show ?thesis by (simp add: heat_def latency_fill_def)
    qed
    with xy latency_percent [of x] latency_percent [of y] show ?thesis by (auto simp: heat_def)
  qed
  ultimately show ?thesis using assms le r unfolding act by (auto simp: most_def)
qed


section \<open>The countries of the mock\<close>

lemma hash_index: "0 < n \<Longrightarrow> nat \<lfloor>hash01 k * real n\<rfloor> < n"
proof -
  assume "0 < n"
  then have "hash01 k * real n < real_of_int (int n)" using hash01_range [of k] by simp
  then have "\<lfloor>hash01 k * real n\<rfloor> < int n" unfolding floor_less_iff .
  with \<open>0 < n\<close> show ?thesis by linarith
qed

lemma mock_cc_nth: "mock_ccs ! nat \<lfloor>hash01 n * of_nat (length mock_ccs)\<rfloor> \<in> set mock_ccs"
  by (intro nth_mem hash_index) (simp add: mock_ccs_def)

lemma player_cc: "p \<in> set (mock_players w) \<Longrightarrow> card_last_cc p \<in> set mock_ccs"
  using mock_cc_nth by (auto simp: mock_players_def mock_player_def Let_def)

lemma session_cc: "s \<in> set (mock_sessions w) \<Longrightarrow> sess_cc s \<in> set mock_ccs"
proof -
  have "mock_players w ! nat \<lfloor>hash01 n * of_nat (length (mock_players w))\<rfloor> \<in> set (mock_players w)" for n
    by (intro nth_mem hash_index) simp
  then have "card_last_cc (mock_players w ! nat \<lfloor>hash01 n * of_nat (length (mock_players w))\<rfloor>) \<in> set mock_ccs" for n
    by (rule player_cc)
  then have "sess_cc (past_session w n) \<in> set mock_ccs" for n unfolding past_session_def Let_def by (simp only: session_meta.simps)
  moreover have "sess_cc (live_session i c) \<in> set mock_ccs" if "i < 2" for i c
    using that by (auto simp: live_session_def mock_ccs_def less_2_cases_iff)
  ultimately show "s \<in> set (mock_sessions w) \<Longrightarrow> ?thesis"
    by (auto simp: mock_sessions_def mock_conns_def)
qed

lemma mock_ccs_on_map: "set mock_ccs \<subseteq> set (map wc_cc world)"
  unfolding world_codes by (simp add: mock_ccs_def)

lemma mock_ccs_upper: "cc \<in> set mock_ccs \<Longrightarrow> js_upper cc = cc"
  by (auto simp: mock_ccs_def js_upper_def upper_char_def)

text \<open>Every country the mock answers with has a shape: the map draws as many countries as the ranking has rows.\<close>

theorem mock_countries_drawn:
  assumes "\<not> no_data w" and "ax_geo (mw_axes w) = ''''"
  shows "length (data_countries world (geo_snapshot_of w rng)) = length (geo_snapshot_of w rng)"
proof -
  let ?rows = "geo_snapshot_of w rng"
  note codes = geo_snapshot_codes [OF assms, of rng]
  have ccs: "set (map cag_cc ?rows) \<subseteq> set mock_ccs" using codes(2) session_cc by (auto simp: in_range_def located_def)
  then have "js_upper (cag_cc d) = cag_cc d" if "d \<in> set ?rows" for d using that mock_ccs_upper by auto
  then have up: "(\<lambda>d. js_upper (cag_cc d)) ` set ?rows = set (map cag_cc ?rows)" by simp
  have "set (map wc_cc (filter (\<lambda>g. wc_cc g \<in> A) world)) = set (map wc_cc world) \<inter> A" for A by auto
  then have "set (map wc_cc (filter (\<lambda>g. wc_cc g \<in> set (map cag_cc ?rows)) world)) = set (map cag_cc ?rows)"
    using ccs mock_ccs_on_map by blast
  moreover have "distinct (map wc_cc (filter (\<lambda>g. wc_cc g \<in> set (map cag_cc ?rows)) world))"
    using world_distinct by (simp add: distinct_map_filter)
  ultimately have "length (filter (\<lambda>g. wc_cc g \<in> set (map cag_cc ?rows)) world) = length ?rows"
    using codes(1) by (metis distinct_card length_map)
  moreover have "length (data_countries world ?rows) = length (filter (\<lambda>g. wc_cc g \<in> (\<lambda>d. js_upper (cag_cc d)) ` set ?rows) world)"
    using drawn_shapes [of world ?rows] by (metis length_map)
  ultimately show ?thesis unfolding up by simp
qed

section \<open>Instances\<close>

definition sample_country :: "string \<Rightarrow> int \<Rightarrow> country_agg" where
  "sample_country cc n = \<lparr>cag_cc = cc, cag_country = '''', cag_players = 1, cag_sessions = n, cag_bytes_in = 0, cag_bytes_out = 0, cag_rtt_avg = 30\<rparr>"

theorem map_draws_data_witness:
  "map fst (data_countries [wc ''FR'' ''France'' 500 115, wc ''NZ'' ''New Zealand'' 974 361] [sample_country ''NZ'' 2]) = [wc ''NZ'' ''New Zealand'' 974 361]"
  using map_draws_data [of "[wc ''FR'' ''France'' 500 115, wc ''NZ'' ''New Zealand'' 974 361]" "[sample_country ''NZ'' 2]"]
  by (simp add: sample_country_def js_upper_def upper_char_def)

theorem map_fills_ordered_witness:
  "heat (country_fill GeoActivity [sample_country ''NZ'' 2, sample_country ''FR'' 7] (sample_country ''NZ'' 2))
    \<le> heat (country_fill GeoActivity [sample_country ''NZ'' 2, sample_country ''FR'' 7] (sample_country ''FR'' 7))"
  using map_fills_ordered [of "sample_country ''NZ'' 2" "[sample_country ''NZ'' 2, sample_country ''FR'' 7]" "sample_country ''FR'' 7"]
  by (simp add: sample_country_def)


theorem mock_countries_drawn_witness:
  "length (data_countries world (geo_snapshot_of gateway_world 0)) = length (geo_snapshot_of gateway_world 0)"
  by (rule mock_countries_drawn) simp_all

end
