(* ===== verification/Chart_Marks.thy ===== *)
theory Chart_Marks
  imports Chart
begin

text \<open>
  What \<open>BandwidthChart.tsx\<close> draws: the controls of the panel, the legend and its statistics, the teaser's sparkline,
  and the marks of the full chart: grid and labels, areas, candles, bars, the uptime strip and the crosshair
  with its box. Rectangles are their left edge, top edge, width and height.
\<close>

section \<open>Controls of the panel\<close>

definition range_buttons :: "string \<Rightarrow> (string \<times> string \<times> bool) list" where
  "range_buttons r = map (\<lambda>k. (k, (case map_of ranges k of Some spec \<Rightarrow> label spec | None \<Rightarrow> ''''), k = r)) range_keys"

definition bars_caption :: "range_spec \<Rightarrow> string" where
  "bars_caption spec = (if window_ms spec = 604800000 then ''hourly totals'' else ''daily totals'')"

record mode_button =
  mb_candles :: bool
  mb_disabled :: bool
  mb_title :: "string option"
  mb_on :: bool

definition mode_buttons :: "range_spec \<Rightarrow> chart_mode \<Rightarrow> mode_button list" where
  "mode_buttons spec mode = (if render spec = RenderBars then []
     else map (\<lambda>c. let disabled = c \<and> \<not> candles_ok spec in
       \<lparr>mb_candles = c, mb_disabled = disabled, mb_title = (if disabled then Some ''Candles need 15m or longer ranges'' else None),
        mb_on = (mode = (if c then ModeCandles else ModeLine))\<rparr>) [False, True])"

text \<open>A disabled button has no click.\<close>

definition mode_click :: "mode_button \<Rightarrow> panel \<Rightarrow> panel" where
  "mode_click b p = (if mb_disabled b then p else pick_candles (mb_candles b) p)"

definition live_readout :: "bool \<Rightarrow> bucket list \<Rightarrow> chart_mode \<Rightarrow> (string \<times> string) option" where
  "live_readout teaser bs mode = (if \<not> teaser \<and> bs \<noteq> [] \<and> mode \<noteq> ModeBars
     then Some (fmt_rate (b_oc (last bs)), fmt_rate (b_ic (last bs))) else None)"

definition rate_headline :: "real option \<Rightarrow> string" where
  "rate_headline v = (case v of Some x \<Rightarrow> fmt_rate x | None \<Rightarrow> em_dash)"

definition chart_hint :: "bool \<Rightarrow> string" where
  "chart_hint unsupported = (if unsupported then ''History is unavailable '' @ em_dash @ '' the background service is an older version.''
     else ''Collecting data '' @ em_dash @ '' history builds while the app runs.'')"

section \<open>Legend\<close>

record chip =
  ch_series :: series
  ch_on :: bool
  ch_disabled :: bool
  ch_title :: "string option"

definition legend_chips :: "chart_mode \<Rightarrow> visibility \<Rightarrow> bucket list \<Rightarrow> chip list" where
  "legend_chips mode vis bs = (let has_conn = (avg_gauge bs b_cc \<noteq> None); has_rtt = (avg_gauge bs b_rc \<noteq> None) in
     [\<lparr>ch_series = SeriesDl, ch_on = vis_dl vis, ch_disabled = False, ch_title = None\<rparr>,
      \<lparr>ch_series = SeriesUl, ch_on = vis_ul vis, ch_disabled = False, ch_title = None\<rparr>]
     @ (if mode \<noteq> ModeBars
        then [\<lparr>ch_series = SeriesConn, ch_on = vis_conn vis, ch_disabled = \<not> has_conn,
                ch_title = (if has_conn then None else Some ''no connection data in this range yet'')\<rparr>,
              \<lparr>ch_series = SeriesRtt, ch_on = vis_rtt vis, ch_disabled = \<not> has_rtt,
                ch_title = (if has_rtt then None else Some ''no RTT data in this range yet'')\<rparr>] else []))"

definition chip_click :: "chip \<Rightarrow> visibility \<Rightarrow> visibility" where
  "chip_click c vis = (if ch_disabled c then vis else toggle_series (ch_series c) vis)"

text \<open>The statistics to the right of the legend, as the texts between the dots.\<close>

definition sum_sign :: string where "sum_sign = [CHR 0xCE, CHR 0xA3]"
definition down_glyph :: string where "down_glyph = [CHR 0xE2, CHR 0x86, CHR 0x93]"
definition up_glyph :: string where "up_glyph = [CHR 0xE2, CHR 0x86, CHR 0x91]"

definition stats_texts :: "bucket list \<Rightarrow> chart_mode \<Rightarrow> int \<Rightarrow> visibility \<Rightarrow> string list" where
  "stats_texts bs mode ms vis = (case stats_row bs mode ms of
     None \<Rightarrow> []
   | Some (Totals dn up peak) \<Rightarrow> [sum_sign @ down_glyph @ '' '' @ fmt_bytes (of_int dn), sum_sign @ up_glyph @ '' '' @ fmt_bytes (of_int up),
       ''peak '' @ fmt_bytes (of_int peak)]
   | Some (Rates mn av mx la) \<Rightarrow> [''min '' @ fmt_rate mn, ''avg '' @ fmt_rate av, ''max '' @ fmt_rate mx, ''last '' @ fmt_rate la]
       @ (case avg_gauge bs b_cc of Some c \<Rightarrow> if vis_conn vis then [''~'' @ to_fixed 1 c @ '' conns''] else [] | None \<Rightarrow> [])
       @ (case avg_gauge bs b_rc of Some r \<Rightarrow> if vis_rtt vis then [''~'' @ show_int (js_round r) @ '' ms''] else [] | None \<Rightarrow> []))"

section \<open>The sparkline\<close>

record spark_view =
  sv_t0 :: int
  sv_t1 :: int
  sv_span :: int
  sv_dn :: "real \<times> real list"
  sv_up :: "real \<times> real list"

definition spark_view_of :: "bucket list \<Rightarrow> int \<Rightarrow> int \<Rightarrow> spark_view option" where
  "spark_view_of bs ms window = (if bs = [] \<or> ms = 0 then None
     else let t1 = b_t (last bs) + ms; t0 = (if window > 0 then min (b_t (hd bs)) (t1 - window) else b_t (hd bs)) in
       Some \<lparr>sv_t0 = t0, sv_t1 = t1, sv_span = max 1 (t1 - t0),
         sv_dn = nice_scale (max_of 1 (map (\<lambda>b. rate (b_out b) ms) bs)), sv_up = nice_scale (max_of 1 (map (\<lambda>b. rate (b_in b) ms) bs))\<rparr>)"

text \<open>160 pixels high; the paddings are 14, 2, 4 and 2.\<close>

definition spark_plot_w :: "int \<Rightarrow> real" where "spark_plot_w w = of_int w - 2 - 2"
definition spark_base_y :: real where "spark_base_y = 156"

definition spark_x :: "int \<Rightarrow> spark_view \<Rightarrow> real \<Rightarrow> real" where
  "spark_x w v t = 2 + ((t - of_int (sv_t0 v)) / of_int (sv_span v)) * spark_plot_w w"

definition spark_y :: "real \<times> real list \<Rightarrow> real \<Rightarrow> real" where
  "spark_y scale x = spark_base_y - (x / fst scale) * (spark_base_y - 14)"

definition spark_cx :: "int \<Rightarrow> spark_view \<Rightarrow> int \<Rightarrow> int \<Rightarrow> real" where
  "spark_cx w v ms t = spark_x w v (of_int t + of_int ms / 2)"

definition spark_line :: "int \<Rightarrow> spark_view \<Rightarrow> int \<Rightarrow> real \<times> real list \<Rightarrow> (plot \<Rightarrow> real) \<Rightarrow> plot list \<Rightarrow> string" where
  "spark_line w v ms scale get ps = line_path (spark_cx w v ms) (spark_y scale) get ps"

text \<open>The area closes the line over the base line; a series that is zero throughout is not drawn.\<close>

definition spark_area :: "int \<Rightarrow> spark_view \<Rightarrow> int \<Rightarrow> real \<times> real list \<Rightarrow> (plot \<Rightarrow> real) \<Rightarrow> plot list \<Rightarrow> string option" where
  "spark_area w v ms scale get ps = (if list_all (\<lambda>p. get p \<le> 0) ps then None
     else Some (spark_line w v ms scale get ps @ ''L'' @ to_fixed 1 (spark_cx w v ms (pt_t (last ps))) @ '',156L''
       @ to_fixed 1 (spark_cx w v ms (pt_t (hd ps))) @ '',156Z''))"

definition spark_dot :: "int \<Rightarrow> spark_view \<Rightarrow> int \<Rightarrow> real \<times> real list \<Rightarrow> (plot \<Rightarrow> real) \<Rightarrow> plot list \<Rightarrow> (real \<times> real) option" where
  "spark_dot w v ms scale get ps = (if list_all (\<lambda>p. get p \<le> 0) ps then None
     else Some (spark_cx w v ms (pt_t (last ps)), spark_y scale (get (last ps))))"

definition spark_readout :: "zone \<Rightarrow> int \<Rightarrow> bucket \<Rightarrow> string list" where
  "spark_readout z ms b = [fmt_tick_time z (b_t b) Minute, down_glyph @ '' '' @ fmt_rate (rate (b_out b) ms), up_glyph @ '' '' @ fmt_rate (rate (b_in b) ms)]"

definition spark_readout_x :: "int \<Rightarrow> real \<Rightarrow> int \<times> string" where
  "spark_readout_x w cx = (if cx < of_int w / 2 then (w - 6, ''end'') else (6, ''start''))"

section \<open>Grid and labels\<close>

definition slot_w :: "chart_geometry \<Rightarrow> chart_view \<Rightarrow> int \<Rightarrow> real" where
  "slot_w g v ms = (of_int ms / of_int (vw_span v)) * ge_plot_w g"

definition chart_ticks :: "zone \<Rightarrow> chart_geometry \<Rightarrow> chart_view \<Rightarrow> int \<Rightarrow> bucket list \<Rightarrow> (int \<times> string \<times> real) list" where
  "chart_ticks z g v ms bs = map (\<lambda>(t, l). (t, l, x_at g v (of_int t))) (ticks_for z (vw_t0 v) (vw_t1 v) ms (map b_t bs))"

definition axis_labels :: "chart_geometry \<Rightarrow> real \<times> real list \<Rightarrow> (real \<Rightarrow> string) \<Rightarrow> (real \<times> string) list" where
  "axis_labels g scale f = map (\<lambda>v. (y_at g scale v + 3.5, f v)) (filter (\<lambda>v. 0 < v) (snd scale))"

definition left_labels :: "chart_mode \<Rightarrow> overlay_flags \<Rightarrow> chart_geometry \<Rightarrow> chart_view \<Rightarrow> (real \<times> string) list" where
  "left_labels mode ov g v = (if ov_dn ov then axis_labels g (vw_left v) (if mode = ModeBars then fmt_bytes else fmt_rate) else [])"

definition right_labels :: "overlay_flags \<Rightarrow> chart_geometry \<Rightarrow> chart_view \<Rightarrow> (real \<times> string) list" where
  "right_labels ov g v = (if ov_up ov then axis_labels g (vw_right v) fmt_rate else [])"

text \<open>The columns of the outboard axes.\<close>

definition conn_column :: nat where "conn_column = 0"

definition rtt_column :: "overlay_flags \<Rightarrow> nat" where
  "rtt_column ov = (if ov_conn ov then 1 else 0)"

definition label_fade :: "chart_geometry \<Rightarrow> real \<Rightarrow> real" where
  "label_fade g x = min 1 (min ((x - ge_pad_l g) / 24) ((ge_plot_right g - x) / 24))"

definition time_labels :: "zone \<Rightarrow> chart_geometry \<Rightarrow> chart_view \<Rightarrow> int \<Rightarrow> bucket list \<Rightarrow> (real \<times> string \<times> string) list" where
  "time_labels z g v ms bs = List.map_filter (\<lambda>(t, l, x). if label_fade g x \<le> 0.02 then None else Some (x, l, to_fixed 2 (label_fade g x)))
     (chart_ticks z g v ms bs)"

definition axis_names :: "chart_mode \<Rightarrow> overlay_flags \<Rightarrow> chart_geometry \<Rightarrow> (real \<times> string) list" where
  "axis_names mode ov g = (if ov_dn ov then [(ge_pad_l g - 6, down_glyph)] else []) @ (if ov_up ov then [(ge_plot_right g + 6, up_glyph)] else [])
     @ (if ov_conn ov then [(axis_x mode g conn_column, ''conns'')] else []) @ (if ov_rtt ov then [(axis_x mode g (rtt_column ov), ''RTT ms'')] else [])"

definition empty_grid :: "chart_geometry \<Rightarrow> real list" where
  "empty_grid g = map (\<lambda>f. ge_pad_t g + ge_plot_h g * f) [0, 0.25, 0.5, 0.75, 1]"

section \<open>Lines, candles, bars\<close>

text \<open>The corners that close the area under a line, and the dot of a line of one point.\<close>

definition area_corners :: "chart_geometry \<Rightarrow> chart_view \<Rightarrow> int \<Rightarrow> plot list \<Rightarrow> (real \<times> real) list" where
  "area_corners g v ms ps = [(cx_at g v ms (pt_t (last ps)), ge_base_y g), (cx_at g v ms (pt_t (hd ps)), ge_base_y g)]"

definition single_dot :: "chart_geometry \<Rightarrow> chart_view \<Rightarrow> int \<Rightarrow> real \<times> real list \<Rightarrow> (plot \<Rightarrow> real) \<Rightarrow> plot list \<Rightarrow> (real \<times> real) option" where
  "single_dot g v ms scale get ps = (if length ps = 1 then Some (cx_at g v ms (pt_t (hd ps)), y_at g scale (get (hd ps))) else None)"

record candle_mark =
  cd_rising :: bool
  cd_cx :: real
  cd_wick :: "real \<times> real"
  cd_body :: "real \<times> real \<times> real \<times> real"
  cd_tint :: int

definition candle_of :: "chart_geometry \<Rightarrow> chart_view \<Rightarrow> int \<Rightarrow> bucket \<Rightarrow> candle_mark" where
  "candle_of g v ms b = (let rising = (b_oo b \<le> b_oc b); bcx = x_at g v (of_int (b_t b) + of_int ms / 2);
       bw = max 2 (min 14 (slot_w g v ms * 0.66)); y = y_at g (vw_left v); tp = y (max (b_oo b) (b_oc b)); bot = y (min (b_oo b) (b_oc b)) in
     \<lparr>cd_rising = rising, cd_cx = bcx, cd_wick = (y (b_oh b), y (b_ol b)), cd_body = (bcx - bw / 2, tp, bw, max 1 (bot - tp)),
      cd_tint = (if rising then 24 else 42)\<rparr>)"

text \<open>The two groups: \<open>(dir === 'up') !== rising\<close> leaves a bucket out.\<close>

definition candle_group :: "bool \<Rightarrow> chart_geometry \<Rightarrow> chart_view \<Rightarrow> int \<Rightarrow> bucket list \<Rightarrow> candle_mark list" where
  "candle_group upward g v ms bs = filter (\<lambda>c. upward = cd_rising c) (map (candle_of g v ms) bs)"

definition bar_w :: "chart_geometry \<Rightarrow> chart_view \<Rightarrow> int \<Rightarrow> real" where
  "bar_w g v ms = max 1 (slot_w g v ms - min 2 (slot_w g v ms * 0.2))"

definition bar_rect :: "chart_geometry \<Rightarrow> chart_view \<Rightarrow> int \<Rightarrow> int \<Rightarrow> real \<Rightarrow> real \<times> real \<times> real \<times> real" where
  "bar_rect g v ms t x = (let y = y_at g (vw_left v) x in (x_at g v (of_int t), y, bar_w g v ms, max 0 (ge_base_y g - y)))"

record bar =
  bar_opacity :: real
  bar_dl :: "(real \<times> real \<times> real \<times> real) option"
  bar_ul :: "(real \<times> real \<times> real \<times> real) option"

text \<open>Both rectangles use the left scale, the one of the downloads.\<close>

definition bars_of :: "chart_geometry \<Rightarrow> chart_view \<Rightarrow> int \<Rightarrow> int \<Rightarrow> visibility \<Rightarrow> bucket list \<Rightarrow> bar list" where
  "bars_of g v ms now vis bs = map (\<lambda>b. \<lparr>bar_opacity = (if now < b_t b + ms then 0.6 else 1),
     bar_dl = (if vis_dl vis then Some (bar_rect g v ms (b_t b) (of_int (b_out b))) else None),
     bar_ul = (if vis_ul vis then Some (bar_rect g v ms (b_t b) (of_int (b_in b))) else None)\<rparr>) bs"

section \<open>The uptime strip\<close>

definition svg_height :: "bool \<Rightarrow> real \<Rightarrow> real" where
  "svg_height uptime height = (if uptime then height + 20 else height)"

definition strip_rects :: "chart_geometry \<Rightarrow> chart_view \<Rightarrow> int \<Rightarrow> real \<Rightarrow> bucket list \<Rightarrow> (real \<times> real \<times> real \<times> real) list" where
  "strip_rects g v ms height bs = map (\<lambda>(a, b). let x0 = max (ge_pad_l g) (x_at g v (of_int a)); x1 = min (ge_plot_right g) (x_at g v (of_int b)) in
     (x0, height + 5, max 1 (x1 - x0), 6)) (coverage_runs bs ms)"

section \<open>The crosshair\<close>

definition time_kind :: "int \<Rightarrow> tick_kind" where
  "time_kind ms = (if ms \<ge> 86400000 then Day else if ms \<ge> 60000 then Minute else Second)"

definition count_conns :: "real \<Rightarrow> string" where
  "count_conns n = show_int (js_round n) @ '' conn'' @ (if js_round n = 1 then '''' else ''s'')"

text \<open>Key, value and colour of each line of the box.\<close>

definition crosshair_lines :: "chart_mode \<Rightarrow> visibility \<Rightarrow> overlay_flags \<Rightarrow> int \<Rightarrow> bucket \<Rightarrow> (string \<times> string \<times> string option) list" where
  "crosshair_lines mode vis ov ms b = (case mode of
       ModeCandles \<Rightarrow> [(''O'', fmt_rate (b_oo b), None), (''H'', fmt_rate (b_oh b), None), (''L'', fmt_rate (b_ol b), None),
           (''C'', fmt_rate (b_oc b), Some (if b_oo b \<le> b_oc b then ''good'' else ''bad''))]
         @ (if vis_ul vis then [(up_glyph, fmt_rate (b_ic b), Some ''ul'')] else [])
     | ModeBars \<Rightarrow> (if vis_dl vis then [(down_glyph, fmt_bytes (of_int (b_out b)), Some ''dl'')] else [])
         @ (if vis_ul vis then [(up_glyph, fmt_bytes (of_int (b_in b)), Some ''ul'')] else [])
     | ModeLine \<Rightarrow> (if vis_dl vis then [(down_glyph, fmt_rate (rate (b_out b) ms), Some ''dl'')] else [])
         @ (if vis_ul vis then [(up_glyph, fmt_rate (rate (b_in b) ms), Some ''ul'')] else []))
     @ (if ov_conn ov \<and> b_cc b \<ge> 0 then [(''#'', count_conns (b_cc b), Some ''conn'')] else [])
     @ (if ov_rtt ov \<and> b_rc b \<ge> 0 then [(''ms'', show_int (js_round (b_rc b)) @ '' ms'', Some ''rtt'')] else [])"

definition crosshair_box :: "chart_geometry \<Rightarrow> real \<Rightarrow> nat \<Rightarrow> real \<times> real \<times> real \<times> real" where
  "crosshair_box g cx n = (if ge_plot_right g < cx + 10 + 132 then cx - 10 - 132 else cx + 10, ge_pad_t g + 4, 132, 18 + of_nat n * 13)"

definition crosshair_y :: "chart_mode \<Rightarrow> chart_geometry \<Rightarrow> chart_view \<Rightarrow> int \<Rightarrow> bucket \<Rightarrow> real" where
  "crosshair_y mode g v ms b = y_at g (vw_left v) (case mode of ModeBars \<Rightarrow> of_int (b_out b) | ModeCandles \<Rightarrow> b_oc b | ModeLine \<Rightarrow> rate (b_out b) ms)"

text \<open>The dots on the crosshair: download, upload, connections and round trip.\<close>

definition crosshair_dots :: "chart_mode \<Rightarrow> overlay_flags \<Rightarrow> chart_geometry \<Rightarrow> chart_view \<Rightarrow> int \<Rightarrow> bucket \<Rightarrow> (string \<times> real) list" where
  "crosshair_dots mode ov g v ms b = (if mode = ModeBars then []
     else (if ov_dn ov then [(''dl'', crosshair_y mode g v ms b)] else [])
       @ (if ov_up ov then [(''ul'', y_at g (vw_right v) (if mode = ModeCandles then b_ic b else rate (b_in b) ms))] else [])
       @ (case vw_conn v of Some sc \<Rightarrow> if b_cc b \<ge> 0 then [(''conn'', y_at g sc (b_cc b))] else [] | None \<Rightarrow> [])
       @ (case vw_rtt v of Some sc \<Rightarrow> if b_rc b \<ge> 0 then [(''rtt'', y_at g sc (b_rc b))] else [] | None \<Rightarrow> []))"

section \<open>The sparkline as a chart of its own size\<close>

definition spark_geometry :: "int \<Rightarrow> chart_geometry" where
  "spark_geometry w = \<lparr>ge_w = of_int w, ge_pad_l = 2, ge_pad_r = 2, ge_pad_t = 14, ge_pad_b = 4, ge_plot_w = spark_plot_w w,
     ge_plot_h = spark_base_y - 14, ge_base_y = spark_base_y, ge_plot_right = of_int w - 2\<rparr>"

definition spark_as_view :: "spark_view \<Rightarrow> chart_view" where
  "spark_as_view v = \<lparr>vw_t0 = sv_t0 v, vw_t1 = sv_t1 v, vw_span = sv_span v, vw_left = sv_dn v, vw_right = sv_up v, vw_conn = None, vw_rtt = None\<rparr>"

definition spark_hover :: "real \<Rightarrow> bucket list \<Rightarrow> int \<Rightarrow> int \<Rightarrow> spark_view \<Rightarrow> (bucket \<times> real) option" where
  "spark_hover hx bs ms w v = resolve_hover hx bs ms (spark_geometry w) (spark_as_view v)"

lemma spark_x_at: "spark_x w v t = x_at (spark_geometry w) (spark_as_view v) t"
  by (simp add: spark_x_def x_at_def spark_geometry_def spark_as_view_def)

lemma spark_y_at: "spark_y scale x = y_at (spark_geometry w) scale x"
  by (simp add: spark_y_def y_at_def spark_geometry_def)

lemma spark_view_fields:
  assumes "spark_view_of bs ms window = Some v"
  shows "bs \<noteq> []" "sv_t1 v = b_t (last bs) + ms" "sv_t0 v \<le> b_t (hd bs)" "sv_span v = max 1 (sv_t1 v - sv_t0 v)"
    "sv_dn v = nice_scale (max_of 1 (map (\<lambda>b. rate (b_out b) ms) bs))" "sv_up v = nice_scale (max_of 1 (map (\<lambda>b. rate (b_in b) ms) bs))"
  using assms by (auto simp: spark_view_of_def Let_def split: if_splits)

lemma sorted_hd_last: "sorted (map f xs) \<Longrightarrow> x \<in> set xs \<Longrightarrow> f (hd xs) \<le> f x \<and> f x \<le> f (last xs)"
proof (induction xs)
  case (Cons y ys)
  then show ?case by (cases "ys = []") (force dest: last_in_set)+
qed simp

text \<open>The teaser draws every whole bucket inside its well: the centre of the slot between the edges, both rates between
  the lane of the readout and the base line.\<close>

theorem spark_in_well:
  assumes "spark_view_of bs ms window = Some v" and "0 < ms" and "sorted (map b_t bs)" and "b \<in> set bs" and "0 \<le> b_out b" and "0 \<le> b_in b" and "4 \<le> w"
  shows "2 \<le> spark_cx w v ms (b_t b) \<and> spark_cx w v ms (b_t b) \<le> of_int w - 2
    \<and> 14 \<le> spark_y (sv_dn v) (rate (b_out b) ms) \<and> spark_y (sv_dn v) (rate (b_out b) ms) \<le> 156
    \<and> 14 \<le> spark_y (sv_up v) (rate (b_in b) ms) \<and> spark_y (sv_up v) (rate (b_in b) ms) \<le> 156"
proof -
  note f = spark_view_fields [OF assms(1)]
  have hl: "b_t (hd bs) \<le> b_t b" "b_t b \<le> b_t (last bs)" using sorted_hd_last [OF assms(3,4)] by auto
  have "of_int (vw_t0 (spark_as_view v)) \<le> real_of_int (b_t b) + of_int ms / 2" "real_of_int (b_t b) + of_int ms / 2 \<le> of_int (vw_t1 (spark_as_view v))"
    using hl f(2,3) assms(2) by (simp_all add: spark_as_view_def)
  from x_at_in_plot [OF this, of "spark_geometry w"] have "2 \<le> spark_cx w v ms (b_t b) \<and> spark_cx w v ms (b_t b) \<le> of_int w - 2"
    using assms(7) f(4) by (simp add: spark_cx_def spark_x_at spark_as_view_def spark_geometry_def spark_plot_w_def)
  moreover have "14 \<le> spark_y (nice_scale m) x \<and> spark_y (nice_scale m) x \<le> 156" if "0 \<le> x" "x \<le> m" for m x
    using binary_axis.y_in_plot [OF that, of "spark_base_y - 14" spark_base_y] by (simp add: spark_y_def spark_base_y_def)
  moreover have "rate (b_out b) ms \<le> max_of 1 (map (\<lambda>b. rate (b_out b) ms) bs)" "rate (b_in b) ms \<le> max_of 1 (map (\<lambda>b. rate (b_in b) ms) bs)"
    using assms(4) by (auto intro!: max_of_ge)
  moreover have "0 \<le> rate (b_out b) ms" "0 \<le> rate (b_in b) ms" using assms(2,5,6) by (simp_all add: rate_def)
  ultimately show ?thesis by (simp add: f(5,6))
qed

section \<open>Candles and bars\<close>

lemma y_at_antimono: "x \<le> y \<Longrightarrow> 0 < fst scale \<Longrightarrow> 0 \<le> ge_plot_h g \<Longrightarrow> y_at g scale y \<le> y_at g scale x"
  by (simp add: y_at_def divide_right_mono mult_right_mono)

lemma vw_left_pos: "view mode ov window bs ms = Some v \<Longrightarrow> 0 < fst (vw_left v)"
  using binary_axis.top_pos by (simp add: view_Some(5))

text \<open>A candle: the body lies within its wick and around its centre, is at least one pixel high and two to fourteen wide;
  each bucket is drawn in exactly one of the two colours.\<close>

theorem candles_drawn:
  assumes "view ModeCandles ov window bs ms = Some v" and "b_ol b \<le> b_oo b" and "b_ol b \<le> b_oc b" and "b_oo b \<le> b_oh b" and "b_oc b \<le> b_oh b"
    and "0 \<le> ge_plot_h g"
  shows "case cd_body (candle_of g v ms b) of (x, y, w, h) \<Rightarrow>
      fst (cd_wick (candle_of g v ms b)) \<le> y \<and> (1 < h \<longrightarrow> y + h \<le> snd (cd_wick (candle_of g v ms b))) \<and> 1 \<le> h \<and> 2 \<le> w \<and> w \<le> 14
      \<and> x + w / 2 = cd_cx (candle_of g v ms b)"
    and "mset (candle_group True g v ms bs) + mset (candle_group False g v ms bs) = mset (map (candle_of g v ms) bs)"
proof -
  note anti = y_at_antimono [OF _ vw_left_pos [OF assms(1)] assms(6)]
  have "y_at g (vw_left v) (b_oh b) \<le> y_at g (vw_left v) (max (b_oo b) (b_oc b))"
    "y_at g (vw_left v) (min (b_oo b) (b_oc b)) \<le> y_at g (vw_left v) (b_ol b)" using assms(2-5) by (auto intro!: anti)
  then show "case cd_body (candle_of g v ms b) of (x, y, w, h) \<Rightarrow>
      fst (cd_wick (candle_of g v ms b)) \<le> y \<and> (1 < h \<longrightarrow> y + h \<le> snd (cd_wick (candle_of g v ms b))) \<and> 1 \<le> h \<and> 2 \<le> w \<and> w \<le> 14
      \<and> x + w / 2 = cd_cx (candle_of g v ms b)"
    by (simp add: candle_of_def Let_def max_def min_def)
  have "filter_mset (\<lambda>c. True = cd_rising c) M + filter_mset (\<lambda>c. False = cd_rising c) M = M" for M :: "candle_mark multiset"
    using multiset_partition [of M cd_rising] by (simp add: union_commute)
  then show "mset (candle_group True g v ms bs) + mset (candle_group False g v ms bs) = mset (map (candle_of g v ms) bs)"
    by (simp only: candle_group_def mset_filter)
qed

text \<open>A download bar stands on the base line inside the plot and inside its slot, so that bars of different buckets do
  not overlap as long as a slot is at least a pixel wide.\<close>

theorem download_bars_in_slots:
  assumes "view ModeBars ov window bs ms = Some v" and "0 < ms" and "sorted (map b_t bs)" and "b \<in> set bs" and "0 \<le> b_out b"
    and "g = geometry ModeBars 0 height" and "32 \<le> height" and "1 \<le> slot_w g v ms"
  shows "case bar_rect g v ms (b_t b) (of_int (b_out b)) of (x, y, w, h) \<Rightarrow>
    ge_pad_l g \<le> x \<and> x + w \<le> x_at g v (of_int (b_t b + ms)) \<and> x + w \<le> ge_plot_right g \<and> ge_pad_t g \<le> y \<and> y + h = ge_base_y g"
proof -
  note geo = geometry_fields [of ModeBars 0 height, folded assms(6)] and pw = geometry_plot_width [of ModeBars 0 height, folded assms(6)]
  have hl: "b_t (hd bs) \<le> b_t b" "b_t b \<le> b_t (last bs)" using sorted_hd_last [OF assms(3,4)] by auto
  have t: "of_int (vw_t0 v) \<le> real_of_int (b_t b)" "real_of_int (b_t b) \<le> of_int (vw_t1 v)"
    "of_int (vw_t0 v) \<le> real_of_int (b_t b + ms)" "real_of_int (b_t b + ms) \<le> of_int (vw_t1 v)"
    using hl view_Some(2,3) [OF assms(1)] assms(2) by auto
  have "0 \<le> ge_plot_w g" by (simp add: pw)
  note x = x_at_in_plot [OF t(1,2) view_Some(4) [OF assms(1)] this] and x' = x_at_in_plot [OF t(3,4) view_Some(4) [OF assms(1)] this]
  have "x_at g v (of_int (b_t b)) + slot_w g v ms = x_at g v (of_int (b_t b + ms))"
    by (simp add: x_at_def slot_w_def diff_divide_distrib add_divide_distrib algebra_simps)
  moreover have "bar_w g v ms \<le> slot_w g v ms" using assms(8) by (auto simp: bar_w_def)
  moreover have "of_int (b_out b) \<le> max_of 1 (map (dn_value ModeBars ms) bs)" using assms(4) by (intro max_of_ge) (auto simp: dn_value_def image_iff)
  then have "ge_base_y g - ge_plot_h g \<le> y_at g (vw_left v) (of_int (b_out b))" "y_at g (vw_left v) (of_int (b_out b)) \<le> ge_base_y g"
    using binary_axis.y_in_plot [of "of_int (b_out b)" _ "ge_plot_h g" "ge_base_y g"] assms(5,7)
    unfolding y_at_def view_Some(5) [OF assms(1)] geo by simp_all
  ultimately show ?thesis using x x' by (auto simp: bar_rect_def Let_def geo pw)
qed

text \<open>Upload bars are measured on the axis of the downloads: a bucket with more upload than the top of that axis is
  drawn beyond the top of the plot.\<close>

theorem upload_bar_leaves_plot:
  assumes "view ModeBars ov window bs ms = Some v" and "fst (vw_left v) < of_int (b_in b)" and "g = geometry ModeBars 0 height" and "32 < height"
  shows "fst (snd (bar_rect g v ms (b_t b) (of_int (b_in b)))) < ge_pad_t g"
proof -
  note geo = geometry_fields [of ModeBars 0 height, folded assms(3)]
  have "1 < of_int (b_in b) / fst (vw_left v)" using vw_left_pos [OF assms(1)] assms(2) by simp
  moreover have "0 < ge_plot_h g" using assms(4) by (simp add: geo)
  ultimately have "1 * ge_plot_h g < of_int (b_in b) / fst (vw_left v) * ge_plot_h g" by (rule mult_strict_right_mono)
  then show ?thesis by (simp add: bar_rect_def Let_def y_at_def geo)
qed

section \<open>Crosshair, strip and labels\<close>

lemma crosshair_lines_few: "length (crosshair_lines mode vis ov ms b) \<le> 7"
  by (cases mode) (simp_all add: crosshair_lines_def)

text \<open>The box of the crosshair stays inside the plot, whatever it says and wherever the crosshair stands.\<close>

theorem crosshair_box_in_plot:
  assumes "g = geometry mode cols height" and "145 \<le> height" and "ge_pad_l g \<le> cx" and "cx \<le> ge_plot_right g"
  shows "case crosshair_box g cx (length (crosshair_lines m vis ov ms b)) of (x, y, w, h) \<Rightarrow>
    ge_pad_l g \<le> x \<and> x + w \<le> ge_plot_right g \<and> ge_pad_t g \<le> y \<and> y + h \<le> ge_base_y g"
proof -
  note geo = geometry_fields [of mode cols height, folded assms(1)] and pw = geometry_plot_width [of mode cols height, folded assms(1)]
  have "real (length (crosshair_lines m vis ov ms b)) \<le> 7" using crosshair_lines_few [of m vis ov ms b] by simp
  with assms(2-4) show ?thesis by (auto simp: crosshair_box_def geo pw)
qed

text \<open>Every span the app was recording is marked on the strip: a mark begins inside the plot, is at least a pixel wide
  and covers the part of its span that the axis shows.\<close>

theorem strip_marks_in_plot:
  assumes "(x, y, w, h) \<in> set (strip_rects g v ms height bs)" and "ge_pad_l g \<le> ge_plot_right g"
  shows "ge_pad_l g \<le> x \<and> 1 \<le> w \<and> x + w \<le> max (ge_plot_right g) (x + 1) \<and> height < y
    \<and> (\<exists>(a, b) \<in> set (coverage_runs bs ms). \<forall>p. max (ge_pad_l g) (x_at g v (of_int a)) \<le> p \<and> p \<le> min (ge_plot_right g) (x_at g v (of_int b)) \<longrightarrow> x \<le> p \<and> p \<le> x + w)"
proof -
  obtain a b where ab: "(a, b) \<in> set (coverage_runs bs ms)" "x = max (ge_pad_l g) (x_at g v (of_int a))"
    "w = max 1 (min (ge_plot_right g) (x_at g v (of_int b)) - x)" "y = height + 5"
    using assms(1) by (auto simp: strip_rects_def Let_def)
  have "min (ge_plot_right g) (x_at g v (of_int b)) - x \<le> w" unfolding ab(3) by simp
  then have "max (ge_pad_l g) (x_at g v (of_int a)) \<le> p \<and> p \<le> min (ge_plot_right g) (x_at g v (of_int b)) \<longrightarrow> x \<le> p \<and> p \<le> x + w" for p
    unfolding ab(2) [symmetric] by linarith
  with ab(1) show ?thesis by (intro conjI bexI [of _ "(a, b)"]) (auto simp: ab(2-4))
qed

lemma time_labels_inside: "(x, l, o') \<in> set (time_labels z g v ms bs) \<Longrightarrow> ge_pad_l g < x \<and> x < ge_plot_right g"
  by (auto simp: time_labels_def List.map_filter_def label_fade_def min_def split: if_splits)

text \<open>The legend and the plot agree: outside of bars, the chip of a gauge is on and enabled exactly when its overlay is drawn,
  the coalescing of candles included.\<close>

lemma avg_gauge_known: "avg_gauge bs get \<noteq> None \<longleftrightarrow> (\<exists>b \<in> set bs. 0 \<le> get b)"
  by (auto simp: avg_gauge_def Let_def filter_empty_conv)

lemma merge_gauge_known: "0 \<le> merge_gauge_close vs \<longleftrightarrow> (\<exists>v \<in> set vs. 0 \<le> v)"
proof (cases "filter (\<lambda>v. 0 \<le> v) vs = []")
  case True
  then show ?thesis by (auto simp: merge_gauge_close_def filter_empty_conv)
next
  case False
  then have "last (filter (\<lambda>v. 0 \<le> v) vs) \<in> set (filter (\<lambda>v. 0 \<le> v) vs)" by (rule last_in_set)
  with False show ?thesis by (auto simp: merge_gauge_close_def split: list.split)
qed

lemma coalesce_known:
  "(\<exists>b \<in> set (fst (coalesce mode raw ms)). 0 \<le> b_cc b) \<longleftrightarrow> (\<exists>b \<in> set raw. 0 \<le> b_cc b)"
  "(\<exists>b \<in> set (fst (coalesce mode raw ms)). 0 \<le> b_rc b) \<longleftrightarrow> (\<exists>b \<in> set raw. 0 \<le> b_rc b)"
proof -
  define k where "k = nat \<lceil>real (length raw) / 150\<rceil>"
  have chunks: "set raw = (\<Union>c \<in> set (chunks k raw). set c)" if "150 < length raw"
  proof -
    have "0 < k" using that by (auto simp: k_def)
    from concat_chunks [OF this, of raw] show ?thesis by (metis set_concat)
  qed
  show "(\<exists>b \<in> set (fst (coalesce mode raw ms)). 0 \<le> b_cc b) \<longleftrightarrow> (\<exists>b \<in> set raw. 0 \<le> b_cc b)"
    "(\<exists>b \<in> set (fst (coalesce mode raw ms)). 0 \<le> b_rc b) \<longleftrightarrow> (\<exists>b \<in> set raw. 0 \<le> b_rc b)"
    using chunks by (auto simp: coalesce_def Let_def merge_buckets_def merge_gauge_known simp flip: k_def)
qed

theorem legend_matches_overlays:
  assumes "mode \<noteq> ModeBars"
  shows "ov_conn (overlays mode vis (fst (coalesce mode raw ms))) = (\<exists>c \<in> set (legend_chips mode vis raw). ch_series c = SeriesConn \<and> ch_on c \<and> \<not> ch_disabled c)
    \<and> ov_rtt (overlays mode vis (fst (coalesce mode raw ms))) = (\<exists>c \<in> set (legend_chips mode vis raw). ch_series c = SeriesRtt \<and> ch_on c \<and> \<not> ch_disabled c)"
  using assms by (simp add: overlays_def Let_def coalesce_known legend_chips_def avg_gauge_known del: not_None_eq)

section \<open>Instances\<close>

theorem spark_in_well_witness:
  "map_option (\<lambda>v. 14 \<le> spark_y (sv_dn v) (rate 500 1000)) (spark_view_of [sample_bucket 0 500 1] 1000 0) = Some True"
proof -
  obtain v where v: "spark_view_of [sample_bucket 0 500 1] 1000 0 = Some v" by (simp add: spark_view_of_def Let_def)
  from spark_in_well [OF v, of "sample_bucket 0 500 1" 100] v show ?thesis by (simp add: sample_bucket_def zero_bucket_def)
qed

theorem upload_bar_leaves_plot_witness:
  "map_option (\<lambda>v. fst (snd (bar_rect (geometry ModeBars 0 260) v 1000 0 900)) < 10)
     (view ModeBars \<lparr>ov_conn = False, ov_rtt = False, ov_dn = True, ov_up = False\<rparr> 0 [(zero_bucket 0)\<lparr>b_in := 900\<rparr>] 1000) = Some True"
proof -
  let ?b = "(zero_bucket 0)\<lparr>b_in := 900\<rparr>"
  obtain v where v: "view ModeBars \<lparr>ov_conn = False, ov_rtt = False, ov_dn = True, ov_up = False\<rparr> 0 [?b] 1000 = Some v" by (simp add: view_def Let_def)
  have "vw_left v = nice_scale 1" using view_Some(5) [OF v] by (simp add: dn_value_def max_of_def zero_bucket_def)
  then have "fst (vw_left v) = 4" by (simp add: nice_scale_def nice_step_def Let_def)
  with upload_bar_leaves_plot [OF v, of ?b "geometry ModeBars 0 260" 260] have "fst (snd (bar_rect (geometry ModeBars 0 260) v 1000 0 900)) < 10"
    by (simp add: geometry_fields zero_bucket_def)
  with v show ?thesis by simp
qed

theorem crosshair_box_in_plot_witness:
  "fst (crosshair_box (geometry ModeLine 0 260) 640 7) = 498"
  using crosshair_box_in_plot [of "geometry ModeLine 0 260" ModeLine 0 260 640 ModeLine "\<lparr>vis_dl = True, vis_ul = True, vis_conn = True, vis_rtt = True\<rparr>"
      "\<lparr>ov_conn = True, ov_rtt = True, ov_dn = True, ov_up = True\<rparr>" 1000 "zero_bucket 0"]
  by (simp add: crosshair_box_def geometry_fields geometry_plot_width)

theorem legend_matches_overlays_witness:
  "ov_conn (overlays ModeLine \<lparr>vis_dl = True, vis_ul = True, vis_conn = True, vis_rtt = False\<rparr> (fst (coalesce ModeLine [zero_bucket 0] 1000))) = False"
  using legend_matches_overlays [of ModeLine "\<lparr>vis_dl = True, vis_ul = True, vis_conn = True, vis_rtt = False\<rparr>" "[zero_bucket 0]" 1000]
  by (simp add: legend_chips_def avg_gauge_def zero_bucket_def Let_def)

end
