(* ===== verification/Series_Pref.thy ===== *)
theory Series_Pref
  imports Json Chart_Marks
begin

text \<open>
  The stored visibility of the chart series (\<open>history.ts\<close>): \<open>JSON.parse\<close> as a parser of the JSON grammar,
  the preference, and the panel of the bandwidth chart with its four stored choices.
\<close>

section \<open>\<open>JSON.parse\<close>\<close>

text \<open>A number is kept as its text. Strings are bytes of UTF-8; an escaped code unit becomes its own bytes.\<close>

datatype json = JNull | JBool bool | JNumber string | JString string | JArray "json list" | JObject "(string \<times> json) list"

definition skip_ws :: "string \<Rightarrow> string" where
  "skip_ws s = dropWhile (\<lambda>c. c \<in> {CHR '' '', CHR 0x09, CHR 0x0A, CHR 0x0D}) s"

definition expect :: "char \<Rightarrow> string \<Rightarrow> string option" where
  "expect c s = (case skip_ws s of [] \<Rightarrow> None | d # r \<Rightarrow> if d = c then Some r else None)"

definition hex_value :: "char \<Rightarrow> nat option" where
  "hex_value c = (let n = of_char c in if 48 \<le> n \<and> n \<le> 57 then Some (n - 48) else if 97 \<le> n \<and> n \<le> 102 then Some (n - 87)
     else if 65 \<le> n \<and> n \<le> 70 then Some (n - 55) else None)"

definition hex4 :: "char \<Rightarrow> char \<Rightarrow> char \<Rightarrow> char \<Rightarrow> nat option" where
  "hex4 a b c d = (case (hex_value a, hex_value b, hex_value c, hex_value d) of
     (Some i, Some j, Some k, Some l) \<Rightarrow> Some (((i * 16 + j) * 16 + k) * 16 + l) | _ \<Rightarrow> None)"

definition utf8_unit :: "nat \<Rightarrow> string" where
  "utf8_unit n = (if n < 128 then [char_of n] else if n < 2048 then [char_of (192 + n div 64), char_of (128 + n mod 64)]
     else [char_of (224 + n div 4096), char_of (128 + n div 64 mod 64), char_of (128 + n mod 64)])"

definition unescape :: "char \<Rightarrow> char option" where
  "unescape e = map_of ((CHR ''/'', CHR ''/'') # map (\<lambda>(c, e). (e, c)) short_escapes) e"

text \<open>The rest of a string literal, after its opening quote.\<close>

fun json_chars :: "string \<Rightarrow> (string \<times> string) option" where
  "json_chars [] = None"
| "json_chars (c # s) = (if c = quote_char then Some ([], s)
     else if c = backslash then (case s of
         [] \<Rightarrow> None
       | e # s1 \<Rightarrow> if e = CHR ''u'' then (case s1 of
             a # b # c # d # s2 \<Rightarrow> (case hex4 a b c d of Some n \<Rightarrow> map_option (\<lambda>(t, r). (utf8_unit n @ t, r)) (json_chars s2) | None \<Rightarrow> None)
           | _ \<Rightarrow> None)
         else (case unescape e of Some x \<Rightarrow> map_option (\<lambda>(t, r). (x # t, r)) (json_chars s1) | None \<Rightarrow> None))
     else if of_char c < (32::nat) then None
     else map_option (\<lambda>(t, r). (c # t, r)) (json_chars s))"

definition digits :: "string \<Rightarrow> (string \<times> string) option" where
  "digits s = (if s = [] \<or> \<not> is_digit (hd s) then None else Some (takeWhile is_digit s, dropWhile is_digit s))"

definition int_part :: "string \<Rightarrow> (string \<times> string) option" where
  "int_part s = (case s of c # r \<Rightarrow> if c = CHR ''0'' then Some ([c], r) else digits s | [] \<Rightarrow> None)"

definition frac_part :: "string \<Rightarrow> (string \<times> string) option" where
  "frac_part s = (case s of c # r \<Rightarrow> if c = CHR ''.'' then map_option (\<lambda>(d, q). (c # d, q)) (digits r) else Some ([], s) | [] \<Rightarrow> Some ([], []))"

definition exp_part :: "string \<Rightarrow> (string \<times> string) option" where
  "exp_part s = (case s of c # r \<Rightarrow> if c = CHR ''e'' \<or> c = CHR ''E''
       then (case r of d # q \<Rightarrow> if d = CHR ''+'' \<or> d = CHR ''-'' then map_option (\<lambda>(t, q). (c # d # t, q)) (digits q)
               else map_option (\<lambda>(t, q). (c # t, q)) (digits r) | [] \<Rightarrow> None)
       else Some ([], s) | [] \<Rightarrow> Some ([], []))"

definition json_number :: "string \<Rightarrow> (json \<times> string) option" where
  "json_number s = (let (sign, s0) = (if s \<noteq> [] \<and> hd s = CHR ''-'' then ([CHR ''-''], tl s) else ([], s)) in
     case int_part s0 of None \<Rightarrow> None | Some (i, r) \<Rightarrow>
     (case frac_part r of None \<Rightarrow> None | Some (f, r) \<Rightarrow>
     (case exp_part r of None \<Rightarrow> None | Some (e, r) \<Rightarrow> Some (JNumber (sign @ i @ f @ e), r))))"

definition keyword :: "string \<Rightarrow> json \<Rightarrow> string \<Rightarrow> (json \<times> string) option" where
  "keyword k v s = (if prefix k s then Some (v, drop (length k) s) else None)"

lemma skip_ws_shorter: "length (skip_ws s) \<le> length s"
  by (simp add: skip_ws_def length_dropWhile_le)

lemma skip_ws_Cons: "skip_ws s = c # r \<Longrightarrow> length r < length s"
  using skip_ws_shorter [of s] by simp

text \<open>Values, the items of an array and the members of an object. The comparisons of lengths never fail; they are what the
  termination rests on.\<close>

function (sequential) json_value :: "string \<Rightarrow> (json \<times> string) option"
  and json_items :: "string \<Rightarrow> (json list \<times> string) option"
  and json_members :: "string \<Rightarrow> ((string \<times> json) list \<times> string) option" where
  "json_value s = (case skip_ws s of [] \<Rightarrow> None | c # r \<Rightarrow>
     if c = CHR ''{'' then (case expect (CHR ''}'') r of Some q \<Rightarrow> Some (JObject [], q)
       | None \<Rightarrow> map_option (\<lambda>(ms, q). (JObject ms, q)) (json_members r))
     else if c = CHR ''['' then (case expect (CHR '']'') r of Some q \<Rightarrow> Some (JArray [], q)
       | None \<Rightarrow> map_option (\<lambda>(vs, q). (JArray vs, q)) (json_items r))
     else if c = quote_char then map_option (\<lambda>(t, q). (JString t, q)) (json_chars r)
     else if c = CHR ''t'' then keyword ''true'' (JBool True) (c # r)
     else if c = CHR ''f'' then keyword ''false'' (JBool False) (c # r)
     else if c = CHR ''n'' then keyword ''null'' JNull (c # r)
     else json_number (c # r))"
| "json_items s = (case json_value s of None \<Rightarrow> None | Some (v, r) \<Rightarrow>
     (case expect (CHR '','') r of
       Some q \<Rightarrow> if length q < length s then map_option (\<lambda>(vs, r). (v # vs, r)) (json_items q) else None
     | None \<Rightarrow> map_option (\<lambda>q. ([v], q)) (expect (CHR '']'') r)))"
| "json_members s = (case expect quote_char s of None \<Rightarrow> None | Some s1 \<Rightarrow>
     (case json_chars s1 of None \<Rightarrow> None | Some (k, s2) \<Rightarrow>
     (case expect (CHR '':'') s2 of None \<Rightarrow> None | Some s3 \<Rightarrow>
       if length s3 < length s then (case json_value s3 of None \<Rightarrow> None | Some (v, r) \<Rightarrow>
         (case expect (CHR '','') r of
           Some q \<Rightarrow> if length q < length s then map_option (\<lambda>(ms, r). ((k, v) # ms, r)) (json_members q) else None
         | None \<Rightarrow> map_option (\<lambda>q. ([(k, v)], q)) (expect (CHR ''}'') r)))
       else None)))"
  by pat_completeness auto

termination
  by (relation "measure (\<lambda>x. case x of Inl s \<Rightarrow> 2 * length s | Inr (Inl s) \<Rightarrow> 2 * length s + 1 | Inr (Inr s) \<Rightarrow> 2 * length s)")
     (auto dest: skip_ws_Cons)

declare json_value.simps [simp del] json_items.simps [simp del] json_members.simps [simp del]

definition json_parse :: "string \<Rightarrow> json option" where
  "json_parse s = (case json_value s of Some (v, r) \<Rightarrow> if skip_ws r = [] then Some v else None | None \<Rightarrow> None)"

text \<open>A property of a parsed value: own members only, the last of a name. Only null has none to ask for.\<close>

definition json_prop :: "string \<Rightarrow> json \<Rightarrow> json option" where
  "json_prop k v = (case v of JObject ms \<Rightarrow> map_of (rev ms) k | _ \<Rightarrow> None)"

section \<open>The preference\<close>

definition series_key :: string where
  "series_key = ''pf-chart-series''"

definition default_series :: visibility where
  "default_series = \<lparr>vis_dl = True, vis_ul = True, vis_conn = False, vis_rtt = False\<rparr>"

definition load_series :: "store \<Rightarrow> visibility" where
  "load_series m = (case m series_key of
     None \<Rightarrow> default_series
   | Some raw \<Rightarrow> if raw = '''' then default_series
       else (case json_parse raw of
           None \<Rightarrow> default_series
         | Some JNull \<Rightarrow> default_series
         | Some p \<Rightarrow> \<lparr>vis_dl = (json_prop ''dl'' p \<noteq> Some (JBool False)), vis_ul = (json_prop ''ul'' p \<noteq> Some (JBool False)),
             vis_conn = (json_prop ''conn'' p = Some (JBool True)), vis_rtt = (json_prop ''rtt'' p = Some (JBool True))\<rparr>))"

definition json_bool :: "bool \<Rightarrow> string" where
  "json_bool b = (if b then ''true'' else ''false'')"

definition series_text :: "visibility \<Rightarrow> string" where
  "series_text v = json_object [(''dl'', json_bool (vis_dl v)), (''ul'', json_bool (vis_ul v)), (''conn'', json_bool (vis_conn v)), (''rtt'', json_bool (vis_rtt v))]"

definition save_series :: "visibility \<Rightarrow> store \<Rightarrow> store" where
  "save_series v m = m(series_key \<mapsto> series_text v)"

lemma series_text_parses:
  "json_parse (json_object [(''dl'', json_bool a), (''ul'', json_bool b), (''conn'', json_bool c), (''rtt'', json_bool d)])
    = Some (JObject [(''dl'', JBool a), (''ul'', JBool b), (''conn'', JBool c), (''rtt'', JBool d)])"
proof -
  have "\<forall>a b c d. json_parse (json_object [(''dl'', json_bool a), (''ul'', json_bool b), (''conn'', json_bool c), (''rtt'', json_bool d)])
    = Some (JObject [(''dl'', JBool a), (''ul'', JBool b), (''conn'', JBool c), (''rtt'', JBool d)])"
    unfolding all_bool_eq by code_simp
  then show ?thesis by blast
qed

lemma load_save_series: "load_series (save_series v m) = v"
proof -
  have "series_text v \<noteq> ''''" by (simp add: series_text_def json_object_def)
  moreover have "json_parse (series_text v) = Some (JObject [(''dl'', JBool (vis_dl v)), (''ul'', JBool (vis_ul v)), (''conn'', JBool (vis_conn v)), (''rtt'', JBool (vis_rtt v))])"
    unfolding series_text_def by (rule series_text_parses)
  ultimately show ?thesis by (simp add: load_series_def save_series_def json_prop_def)
qed

interpretation series_pref: pref load_series save_series series_key "\<lambda>_. True"
  by unfold_locales (simp add: load_save_series, simp add: save_series_def, simp add: load_series_def)

section \<open>What is written can be read\<close>

lemma hex_value_hex_char: "n < 16 \<Longrightarrow> hex_value (hex_char n) = Some n"
proof -
  assume n: "n < 16"
  have "(of_char (hex_char n) :: nat) = (if n < 10 then 48 + n else 87 + n)" using n by (simp add: hex_char_def)
  with n show ?thesis by (simp add: hex_value_def Let_def)
qed

lemma hex_zero: "hex_value (CHR ''0'') = Some 0"
  by (simp add: hex_value_def)

lemma unescape_short: "map_of short_escapes c = Some e \<Longrightarrow> unescape e = Some c"
  by (auto simp: short_escapes_def unescape_def quote_char_def backslash_def split: if_splits)

lemma json_chars_esc: "json_chars (json_esc c @ s) = map_option (\<lambda>(t, r). (c # t, r)) (json_chars s)"
proof (rule json_esc_cases [of c])
  fix e assume e: "map_of short_escapes c = Some e" "json_esc c = [backslash, e]"
  then show ?thesis using short_escape_not_u [OF e(1)] unescape_short [OF e(1)] by (simp add: quote_char_def backslash_def)
next
  fix n assume n: "n = (of_char c :: nat)" "n < 32"
    and esc: "json_esc c = [backslash, CHR ''u'', CHR ''0'', CHR ''0'', hex_char (n div 16), hex_char (n mod 16)]"
  have "hex4 (CHR ''0'') (CHR ''0'') (hex_char (n div 16)) (hex_char (n mod 16)) = Some (n div 16 * 16 + n mod 16)"
    using n(2) by (simp add: hex4_def hex_value_hex_char hex_zero)
  then have "hex4 (CHR ''0'') (CHR ''0'') (hex_char (n div 16)) (hex_char (n mod 16)) = Some n" by simp
  moreover have "utf8_unit n = [c]" using n by (simp add: utf8_unit_def)
  ultimately show ?thesis by (simp add: esc quote_char_def backslash_def)
next
  assume e: "json_esc c = [c]" "c \<noteq> backslash" "c \<noteq> quote_char"
  have "\<not> of_char c < (32::nat)"
  proof
    assume "of_char c < (32::nat)"
    with e(1) show False by (auto simp: json_esc_def Let_def split: option.splits)
  qed
  with e show ?thesis by simp
qed

text \<open>\<open>JSON.parse\<close> gives back the string that \<open>JSON.stringify\<close> wrote, whatever its characters, and stops at its end.\<close>

lemma json_chars_string: "json_chars (concat (map json_esc s) @ quote_char # r) = Some (s, r)"
  by (induction s) (simp_all add: json_chars_esc)

lemma skip_ws_quote: "skip_ws (quote_char # s) = quote_char # s"
  by (simp add: skip_ws_def quote_char_def)

theorem json_string_parses: "json_parse (json_string s) = Some (JString s)"
proof -
  have "json_value (json_string s) = Some (JString s, [])"
    using json_chars_string [of s "[]"] by (subst json_value.simps) (simp add: json_string_def skip_ws_quote, simp add: quote_char_def)
  then show ?thesis by (simp add: json_parse_def skip_ws_def)
qed

section \<open>The four choices of the panel\<close>

record chart_prefs =
  cp_panel :: panel
  cp_vis :: visibility

datatype panel_event = PickRange string | PickMode mode_button | PickUptime bool | ClickChip chip

definition prefs_mount :: "store \<Rightarrow> chart_prefs" where
  "prefs_mount m = \<lparr>cp_panel = panel_mount m, cp_vis = load_series m\<rparr>"

text \<open>The buttons of the panel offer the nine ranges and nothing else.\<close>

definition prefs_step :: "chart_prefs \<Rightarrow> panel_event \<Rightarrow> chart_prefs" where
  "prefs_step s e = (case e of
     PickRange r \<Rightarrow> if r \<in> set range_keys then s\<lparr>cp_panel := pick_range r (cp_panel s)\<rparr> else s
   | PickMode b \<Rightarrow> s\<lparr>cp_panel := mode_click b (cp_panel s)\<rparr>
   | PickUptime on \<Rightarrow> s\<lparr>cp_panel := pick_uptime on (cp_panel s)\<rparr>
   | ClickChip c \<Rightarrow> let v = chip_click c (cp_vis s) in
       if ch_disabled c then s
       else s\<lparr>cp_vis := v, cp_panel := (cp_panel s)\<lparr>pn_store := save_series v (pn_store (cp_panel s))\<rparr>\<rparr>)"

definition prefs_synced :: "chart_prefs \<Rightarrow> bool" where
  "prefs_synced s \<longleftrightarrow> prefs_mount (pn_store (cp_panel s)) = s"

lemma store_keys: "range_key \<noteq> candle_key" "range_key \<noteq> uptime_key" "range_key \<noteq> series_key" "candle_key \<noteq> uptime_key"
  "candle_key \<noteq> series_key" "uptime_key \<noteq> series_key"
  by (simp_all add: range_key_def candle_key_def uptime_key_def series_key_def)

lemma prefs_synced_iff:
  "prefs_synced s \<longleftrightarrow> (let m = pn_store (cp_panel s) in load_range_pref m = pn_range (cp_panel s) \<and> load_candle_pref m = pn_candles (cp_panel s)
     \<and> load_uptime_pref m = pn_uptime (cp_panel s) \<and> load_series m = cp_vis s)"
proof -
  obtain p v where s: "s = \<lparr>cp_panel = p, cp_vis = v\<rparr>" by (cases s)
  show ?thesis by (cases p) (auto simp: s prefs_synced_def prefs_mount_def panel_mount_def Let_def)
qed

lemma foreign_writes:
  "load_candle_pref (save_range_pref r m) = load_candle_pref m" "load_uptime_pref (save_range_pref r m) = load_uptime_pref m"
  "load_series (save_range_pref r m) = load_series m"
  "load_range_pref (save_candle_pref c m) = load_range_pref m" "load_uptime_pref (save_candle_pref c m) = load_uptime_pref m"
  "load_series (save_candle_pref c m) = load_series m"
  "load_range_pref (save_uptime_pref u m) = load_range_pref m" "load_candle_pref (save_uptime_pref u m) = load_candle_pref m"
  "load_series (save_uptime_pref u m) = load_series m"
  "load_range_pref (save_series v m) = load_range_pref m" "load_candle_pref (save_series v m) = load_candle_pref m"
  "load_uptime_pref (save_series v m) = load_uptime_pref m"
  using store_keys
  by (simp_all add: save_range_pref_def save_candle_pref_def save_uptime_pref_def save_series_def chart_range.load_after_foreign_write
      candle.load_after_foreign_write uptime_strip.load_after_foreign_write series_pref.load_after_foreign_write)

lemmas own_writes = chart_range.load_save candle.load_save [OF TrueI] uptime_strip.load_save [OF TrueI] series_pref.load_save [OF TrueI]

lemma prefs_synced_step: "prefs_synced s \<Longrightarrow> prefs_synced (prefs_step s e)"
  by (cases e) (simp_all add: prefs_step_def prefs_synced_iff Let_def pick_range_def mode_click_def pick_candles_def pick_uptime_def
      own_writes foreign_writes)

interpretation prefs: invariant_machine prefs_step prefs_synced
  by unfold_locales (rule prefs_synced_step)

text \<open>C31. Whatever was in the store when the panel opened and whatever was clicked since: a panel opened anew shows the same
  range, mode, strip and series.\<close>

theorem panel_survives_remount:
  "prefs_mount (pn_store (cp_panel (foldl prefs_step (prefs_mount m) es))) = foldl prefs_step (prefs_mount m) es"
proof -
  have "prefs_synced (prefs_mount m)" by (simp add: prefs_synced_def prefs_mount_def panel_mount_def)
  from prefs.inv_run [OF this] show ?thesis by (simp add: prefs_synced_def)
qed

end
