(* ===== verification/Frame.thy ===== *)
theory Frame
  imports Console
begin

text \<open>
  The window around the screens: the lamp of \<open>layout/Shell.tsx\<close>, which lights the identity surfaces near
  the pointer, the caption buttons of \<open>layout/WindowControls.tsx\<close>, the menu and the dialog of
  \<open>components/RoleSwitcher.tsx\<close>, and the texts of \<open>layout/Sidebar.tsx\<close>. Elements are numbers, their boxes
  arrive with each animation frame.
\<close>

section \<open>The lamp\<close>

record surface =
  sf_left :: real
  sf_top :: real
  sf_right :: real
  sf_bottom :: real

definition reach :: real where "reach = 280"
definition awake_ms :: int where "awake_ms = 5000"

text \<open>\<open>lm_style\<close> holds the custom properties \<open>--mx\<close> and \<open>--my\<close> of an element, \<open>lm_awake\<close> the elements with \<open>data-awake\<close>,
  \<open>lm_doze\<close> the time the timer is due, \<open>lm_armed\<close> whether the listeners are attached.\<close>

record lamp =
  lm_armed :: bool
  lm_raf :: bool
  lm_doze :: "int option"
  lm_x :: real
  lm_y :: real
  lm_lit :: "nat list"
  lm_style :: "nat \<rightharpoonup> real \<times> real"
  lm_awake :: "nat set"

definition in_reach :: "real \<Rightarrow> real \<Rightarrow> surface \<Rightarrow> bool" where
  "in_reach x y r \<longleftrightarrow> sf_left r - reach < x \<and> x < sf_right r + reach \<and> sf_top r - reach < y \<and> y < sf_bottom r + reach"

definition lamp_drop :: "nat \<Rightarrow> lamp \<Rightarrow> lamp" where
  "lamp_drop el s = s\<lparr>lm_style := (lm_style s)(el := None), lm_awake := lm_awake s - {el}, lm_lit := removeAll el (lm_lit s)\<rparr>"

definition lamp_light :: "nat \<Rightarrow> surface \<Rightarrow> lamp \<Rightarrow> lamp" where
  "lamp_light el r s = s\<lparr>lm_style := (lm_style s)(el \<mapsto> (lm_x s - sf_left r, lm_y s - sf_top r)),
     lm_awake := insert el (lm_awake s), lm_lit := (if el \<in> set (lm_lit s) then lm_lit s else lm_lit s @ [el])\<rparr>"

definition lamp_surface :: "nat \<times> surface \<Rightarrow> lamp \<Rightarrow> lamp" where
  "lamp_surface = (\<lambda>(el, r) s. if in_reach (lm_x s) (lm_y s) r then lamp_light el r s
     else if el \<in> set (lm_lit s) then lamp_drop el s else s)"

definition lamp_apply :: "int \<Rightarrow> (nat \<times> surface) list \<Rightarrow> lamp \<Rightarrow> lamp" where
  "lamp_apply now els s = (fold lamp_surface els (s\<lparr>lm_raf := False\<rparr>))\<lparr>lm_doze := Some (now + awake_ms)\<rparr>"

definition lamp_rest :: "lamp \<Rightarrow> lamp" where
  "lamp_rest s = s\<lparr>lm_awake := lm_awake s - set (lm_lit s), lm_doze := None\<rparr>"

definition lamp_leave :: "lamp \<Rightarrow> lamp" where
  "lamp_leave s = fold lamp_drop (lm_lit s) s"

definition lamp_cleanup :: "lamp \<Rightarrow> lamp" where
  "lamp_cleanup s = (if lm_armed s then lamp_leave (s\<lparr>lm_raf := False, lm_doze := None, lm_armed := False\<rparr>) else s)"

definition lamp_arm :: "bool \<Rightarrow> lamp \<Rightarrow> lamp" where
  "lamp_arm reduced s = (if reduced then s else s\<lparr>lm_armed := True, lm_raf := False, lm_doze := None, lm_x := 0, lm_y := 0, lm_lit := []\<rparr>)"

definition lamp_mount :: "bool \<Rightarrow> lamp" where
  "lamp_mount reduced = lamp_arm reduced \<lparr>lm_armed = False, lm_raf = False, lm_doze = None, lm_x = 0, lm_y = 0, lm_lit = [],
     lm_style = Map.empty, lm_awake = {}\<rparr>"

datatype lamp_event =
    LampMove real real
  | LampLeave
  | LampFrame int "(nat \<times> surface) list"
  | LampTimer int
  | LampReduced bool          \<comment> \<open>the preference of \<open>useMotion\<close> flips\<close>
  | LampUnmount

fun lamp_step :: "lamp \<Rightarrow> lamp_event \<Rightarrow> lamp" where
  "lamp_step s (LampMove x y) = (if lm_armed s then s\<lparr>lm_x := x, lm_y := y, lm_raf := True\<rparr> else s)"
| "lamp_step s LampLeave = (if lm_armed s then lamp_leave s else s)"
| "lamp_step s (LampFrame now els) = (if lm_raf s then lamp_apply now els s else s)"
| "lamp_step s (LampTimer now) = (case lm_doze s of Some due \<Rightarrow> if due \<le> now then lamp_rest s else s | None \<Rightarrow> s)"
| "lamp_step s (LampReduced reduced) = lamp_arm reduced (lamp_cleanup s)"
| "lamp_step s LampUnmount = lamp_cleanup s"

text \<open>What every run keeps: exactly the lit elements carry coordinates, only they are awake, whatever is awake has a timer
  that will rest it, and a lamp that is switched off has left nothing behind.\<close>

definition lamp_inv :: "lamp \<Rightarrow> bool" where
  "lamp_inv s \<longleftrightarrow> dom (lm_style s) = set (lm_lit s) \<and> lm_awake s \<subseteq> set (lm_lit s) \<and> (lm_awake s = {} \<or> lm_doze s \<noteq> None)
    \<and> (lm_armed s \<or> lm_lit s = [] \<and> \<not> lm_raf s \<and> lm_doze s = None)"

lemma lamp_drop_fields [simp]:
  "lm_x (lamp_drop el s) = lm_x s" "lm_y (lamp_drop el s) = lm_y s" "lm_raf (lamp_drop el s) = lm_raf s"
  "lm_doze (lamp_drop el s) = lm_doze s" "lm_armed (lamp_drop el s) = lm_armed s"
  "lm_style (lamp_drop el s) = (lm_style s)(el := None)" "lm_awake (lamp_drop el s) = lm_awake s - {el}"
  "lm_lit (lamp_drop el s) = removeAll el (lm_lit s)"
  by (simp_all add: lamp_drop_def)

lemma lamp_drops:
  "lm_x (fold lamp_drop els s) = lm_x s" "lm_y (fold lamp_drop els s) = lm_y s" "lm_raf (fold lamp_drop els s) = lm_raf s"
  "lm_doze (fold lamp_drop els s) = lm_doze s" "lm_armed (fold lamp_drop els s) = lm_armed s"
  "lm_style (fold lamp_drop els s) = lm_style s |` (- set els)" "lm_awake (fold lamp_drop els s) = lm_awake s - set els"
  "lm_lit (fold lamp_drop els s) = filter (\<lambda>el. el \<notin> set els) (lm_lit s)"
  by (induction els arbitrary: s) (auto simp: restrict_map_def removeAll_filter_not_eq intro: filter_cong)

lemma lamp_leave_fields [simp]:
  "lm_x (lamp_leave s) = lm_x s" "lm_y (lamp_leave s) = lm_y s" "lm_raf (lamp_leave s) = lm_raf s" "lm_doze (lamp_leave s) = lm_doze s"
  "lm_armed (lamp_leave s) = lm_armed s" "lm_lit (lamp_leave s) = []" "lm_awake (lamp_leave s) = lm_awake s - set (lm_lit s)"
  "lm_style (lamp_leave s) = lm_style s |` (- set (lm_lit s))"
  by (simp_all add: lamp_leave_def lamp_drops)

text \<open>One frame: the surfaces it saw.\<close>

lemma lamp_surface_fields [simp]:
  "lm_x (lamp_surface e s) = lm_x s" "lm_y (lamp_surface e s) = lm_y s" "lm_raf (lamp_surface e s) = lm_raf s"
  "lm_doze (lamp_surface e s) = lm_doze s" "lm_armed (lamp_surface e s) = lm_armed s"
  by (cases e; simp add: lamp_surface_def lamp_light_def)+

lemma lamp_surfaces_fields [simp]:
  "lm_x (fold lamp_surface els s) = lm_x s" "lm_y (fold lamp_surface els s) = lm_y s" "lm_raf (fold lamp_surface els s) = lm_raf s"
  "lm_doze (fold lamp_surface els s) = lm_doze s" "lm_armed (fold lamp_surface els s) = lm_armed s"
  by (induction els arbitrary: s) simp_all

definition lit_ok :: "lamp \<Rightarrow> bool" where
  "lit_ok s \<longleftrightarrow> dom (lm_style s) = set (lm_lit s) \<and> lm_awake s \<subseteq> set (lm_lit s)"

lemma lit_ok_surface: "lit_ok s \<Longrightarrow> lit_ok (lamp_surface e s)"
  by (cases e) (auto simp: lit_ok_def lamp_surface_def lamp_light_def)

lemma lit_ok_surfaces: "lit_ok s \<Longrightarrow> lit_ok (fold lamp_surface els s)"
  by (induction els arbitrary: s) (auto intro: lit_ok_surface)

lemma lamp_inv_leave: "lamp_inv s \<Longrightarrow> lamp_inv (lamp_leave s)"
  by (auto simp: lamp_inv_def)

lemma lamp_inv_cleanup:
  assumes "lamp_inv s"
  shows "lamp_inv (lamp_cleanup s) \<and> \<not> lm_armed (lamp_cleanup s)"
proof (cases "lm_armed s")
  case True
  with assms show ?thesis by (auto simp: lamp_cleanup_def lamp_inv_def)
qed (use assms in \<open>simp add: lamp_cleanup_def\<close>)

lemma lamp_inv_step: "lamp_inv s \<Longrightarrow> lamp_inv (lamp_step s e)"
proof (cases e)
  case (LampFrame now els)
  assume inv: "lamp_inv s"
  then have "lit_ok (s\<lparr>lm_raf := False\<rparr>)" by (simp add: lamp_inv_def lit_ok_def)
  then have "lit_ok (fold lamp_surface els (s\<lparr>lm_raf := False\<rparr>))" by (rule lit_ok_surfaces)
  with inv LampFrame show ?thesis by (auto simp: lamp_inv_def lit_ok_def lamp_apply_def)
next
  case (LampReduced reduced)
  assume inv: "lamp_inv s"
  have "lamp_inv (lamp_cleanup s)" "\<not> lm_armed (lamp_cleanup s)" using lamp_inv_cleanup [OF inv] by simp_all
  with LampReduced show ?thesis by (auto simp: lamp_arm_def lamp_inv_def)
next
  case LampUnmount
  assume "lamp_inv s"
  with LampUnmount lamp_inv_cleanup show ?thesis by simp
qed (auto simp: lamp_inv_def lamp_rest_def split: option.splits)

interpretation lamp: invariant_machine lamp_step lamp_inv
  by unfold_locales (rule lamp_inv_step)

lemma lamp_inv_mount: "lamp_inv (lamp_mount reduced)"
  by (simp add: lamp_mount_def lamp_arm_def lamp_inv_def)

lemma lamp_surface_other: "el \<noteq> fst e \<Longrightarrow> lm_style (lamp_surface e s) el = lm_style s el"
  by (cases e) (simp add: lamp_surface_def lamp_light_def)

lemma lamp_surfaces_other: "el \<notin> fst ` set els \<Longrightarrow> lm_style (fold lamp_surface els s) el = lm_style s el"
  by (induction els arbitrary: s) (simp_all add: lamp_surface_other)

lemma lamp_surface_own:
  "lit_ok s \<Longrightarrow> lm_style (lamp_surface (el, r) s) el = (if in_reach (lm_x s) (lm_y s) r then Some (lm_x s - sf_left r, lm_y s - sf_top r) else None)"
  by (auto simp: lamp_surface_def lamp_light_def lit_ok_def)

lemma lamp_surfaces_own:
  assumes "lit_ok s" and "distinct (map fst els)" and "(el, r) \<in> set els"
  shows "lm_style (fold lamp_surface els s) el = (if in_reach (lm_x s) (lm_y s) r then Some (lm_x s - sf_left r, lm_y s - sf_top r) else None)"
  using assms
proof (induction els arbitrary: s)
  case (Cons e els)
  show ?case
  proof (cases "e = (el, r)")
    case True
    with Cons.prems(2) have "el \<notin> fst ` set els" by auto
    with True Cons.prems(1) show ?thesis by (simp add: lamp_surfaces_other lamp_surface_own)
  next
    case False
    with Cons.prems have "(el, r) \<in> set els" "distinct (map fst els)" by auto
    with Cons.IH [OF lit_ok_surface [OF Cons.prems(1)]] show ?thesis by simp
  qed
qed simp

text \<open>C35. On every run of the lamp a frame lights exactly the surfaces within reach of the last pointer position, each with the
  position relative to its own corner; when the timer of the last frame is due the light stays and nothing is awake; and the
  moment the pointer leaves, motion is reduced or the window goes, no surface carries anything of the lamp.\<close>

theorem lamp_lights_reach:
  "let s = foldl lamp_step (lamp_mount reduced) es in
    (\<forall>now els el r. lm_raf s \<and> distinct (map fst els) \<and> (el, r) \<in> set els \<longrightarrow>
      lm_style (lamp_step s (LampFrame now els)) el = (if in_reach (lm_x s) (lm_y s) r then Some (lm_x s - sf_left r, lm_y s - sf_top r) else None)
      \<and> lm_awake (lamp_step (lamp_step s (LampFrame now els)) (LampTimer (now + 5000))) = {}
      \<and> lm_style (lamp_step (lamp_step s (LampFrame now els)) (LampTimer (now + 5000))) = lm_style (lamp_step s (LampFrame now els)))
    \<and> (\<forall>e \<in> {LampLeave, LampReduced True, LampUnmount}. lm_style (lamp_step s e) = Map.empty \<and> lm_awake (lamp_step s e) = {})"
proof -
  define s where "s = foldl lamp_step (lamp_mount reduced) es"
  have inv: "lamp_inv s" unfolding s_def by (rule lamp.inv_run [OF lamp_inv_mount])
  then have ok: "lit_ok (s\<lparr>lm_raf := False\<rparr>)" by (simp add: lamp_inv_def lit_ok_def)
  have frame: "lm_style (lamp_step s (LampFrame now els)) el = (if in_reach (lm_x s) (lm_y s) r then Some (lm_x s - sf_left r, lm_y s - sf_top r) else None)"
    if "lm_raf s" "distinct (map fst els)" "(el, r) \<in> set els" for now els el r
    using lamp_surfaces_own [OF ok that(2,3)] that(1) by (simp add: lamp_apply_def)
  have timer: "lm_awake (lamp_step (lamp_step s (LampFrame now els)) (LampTimer (now + 5000))) = {}"
    "lm_style (lamp_step (lamp_step s (LampFrame now els)) (LampTimer (now + 5000))) = lm_style (lamp_step s (LampFrame now els))"
    if "lm_raf s" for now els
    using lamp_inv_step [OF inv, of "LampFrame now els"] that by (auto simp: lamp_apply_def lamp_rest_def awake_ms_def lamp_inv_def)
  have dark: "lm_style t = Map.empty \<and> lm_awake t = {}" if "lamp_inv t" "lm_lit t = []" for t
    using that by (auto simp: lamp_inv_def)
  have "lm_lit (lamp_step s e) = []" if "e \<in> {LampLeave, LampReduced True, LampUnmount}" for e
    using that inv by (auto simp: lamp_inv_def lamp_cleanup_def lamp_arm_def)
  then have "\<forall>e \<in> {LampLeave, LampReduced True, LampUnmount}. lm_style (lamp_step s e) = Map.empty \<and> lm_awake (lamp_step s e) = {}"
    using dark lamp_inv_step [OF inv] by blast
  with frame timer show ?thesis unfolding s_def [symmetric] Let_def by blast
qed

text \<open>Leaving does not cancel the frame that a move has asked for: the surface the pointer was near is lit again after the pointer
  has left, and stays lit.\<close>

theorem leave_relights:
  assumes "lm_armed s" and "in_reach x y r"
  shows "let s1 = lamp_step (lamp_step s (LampMove x y)) LampLeave; s2 = lamp_step s1 (LampFrame now [(el, r)]) in
    lm_lit s1 = [] \<and> lm_style s2 el = Some (x - sf_left r, y - sf_top r) \<and> lm_style (lamp_step s2 (LampTimer later)) el = lm_style s2 el"
  using assms by (simp add: Let_def lamp_apply_def lamp_surface_def lamp_light_def lamp_rest_def split: option.splits)

section \<open>Caption buttons\<close>

datatype window_call = AskMaximised | CallMinimise | CallToggleMaximise | CallQuit

record caption =
  cn_maximised :: bool
  cn_calls :: "window_call list"
  cn_timers :: nat
  cn_listening :: bool

datatype caption_event =
    CaptionResize
  | CaptionMinimise
  | CaptionToggle
  | CaptionClose
  | CaptionTimer                        \<comment> \<open>120 ms after a toggle\<close>
  | CaptionAnswer "bool option"         \<comment> \<open>none: the stub of the mock\<close>
  | CaptionUnmount

definition caption_refresh :: "caption \<Rightarrow> caption" where
  "caption_refresh s = s\<lparr>cn_calls := cn_calls s @ [AskMaximised]\<rparr>"

definition caption_mount :: caption where
  "caption_mount = caption_refresh \<lparr>cn_maximised = False, cn_calls = [], cn_timers = 0, cn_listening = True\<rparr>"

fun caption_step :: "caption \<Rightarrow> caption_event \<Rightarrow> caption" where
  "caption_step s CaptionResize = (if cn_listening s then caption_refresh s else s)"
| "caption_step s CaptionMinimise = s\<lparr>cn_calls := cn_calls s @ [CallMinimise]\<rparr>"
| "caption_step s CaptionToggle = s\<lparr>cn_calls := cn_calls s @ [CallToggleMaximise], cn_timers := Suc (cn_timers s)\<rparr>"
| "caption_step s CaptionClose = s\<lparr>cn_calls := cn_calls s @ [CallQuit]\<rparr>"
| "caption_step s CaptionTimer = (if 0 < cn_timers s then caption_refresh (s\<lparr>cn_timers := cn_timers s - 1\<rparr>) else s)"
| "caption_step s (CaptionAnswer v) = s\<lparr>cn_maximised := (v = Some True)\<rparr>"
| "caption_step s CaptionUnmount = s\<lparr>cn_listening := False\<rparr>"

definition maximise_label :: "caption \<Rightarrow> string" where
  "maximise_label s = (if cn_maximised s then ''Restore'' else ''Maximize'')"

text \<open>Every toggle is followed by a question for the new state: what has been asked and what timers will ask covers all toggles.\<close>

definition caption_inv :: "caption \<Rightarrow> bool" where
  "caption_inv s \<longleftrightarrow> count_list (cn_calls s) CallToggleMaximise < count_list (cn_calls s) AskMaximised + cn_timers s"

interpretation caption: invariant_machine caption_step caption_inv
proof
  show "caption_inv (caption_step s e)" if "caption_inv s" for s e
    using that by (cases e) (auto simp: caption_inv_def caption_refresh_def)
qed

lemma toggles_are_read_back: "caption_inv (foldl caption_step caption_mount es)"
  by (rule caption.inv_run) (simp add: caption_inv_def caption_mount_def caption_refresh_def)

section \<open>The role switcher\<close>

record role_item =
  ri_role :: string
  ri_on :: bool
  ri_title :: string
  ri_hint :: string

definition role_title :: "string \<Rightarrow> string" where
  "role_title r = (if r = ''agent'' then ''Agent'' else ''Gateway'')"

definition role_hint :: "bool \<Rightarrow> string \<Rightarrow> string" where
  "role_hint paired r = (if r = ''agent''
     then if paired then ''Hosts Minecraft '' @ em_dash @ '' dials out'' else ''Not paired yet '' @ em_dash @ '' set up a pairing code''
     else ''Faces the internet '' @ em_dash @ '' players connect here'')"

definition role_items :: "bool \<Rightarrow> string \<Rightarrow> role_item list" where
  "role_items paired role = map (\<lambda>r. \<lparr>ri_role = r, ri_on = (r = role), ri_title = role_title r, ri_hint = role_hint paired r\<rparr>) [''gateway'', ''agent'']"

definition switcher_title :: "bool \<Rightarrow> string \<Rightarrow> string" where
  "switcher_title attached role = (if attached then ''The Windows service owns this setup '' @ em_dash @ '' stop the service to change roles''
     else ''Running as '' @ role @ '' '' @ em_dash @ '' click to switch'')"

section \<open>The foot of the sidebar\<close>

text \<open>\<open>version.replace(/ \(.*\)$/, '')\<close>: from the first blank and parenthesis on, when the text ends in a closing parenthesis.\<close>

fun cut_note :: "string \<Rightarrow> string" where
  "cut_note [] = []"
| "cut_note (c # r) = (if c = CHR '' '' \<and> prefix ''('' r \<and> r \<noteq> ''('' \<and> last r = CHR '')'' \<and> CHR 0x0A \<notin> set r \<and> CHR 0x0D \<notin> set r then [] else c # cut_note r)"

definition version_line :: "string \<Rightarrow> int \<Rightarrow> string" where
  "version_line version pid = ''v'' @ cut_note version @ mid_dot @ ''pid '' @ show_int pid"

lemma cut_note_prefix: "prefix (cut_note v) v"
  by (induction v) auto

text \<open>Of a version with a note in parentheses only the version is shown.\<close>

lemma cut_note_version:
  assumes "CHR '' '' \<notin> set v" and "CHR 0x0A \<notin> set note" and "CHR 0x0D \<notin> set note"
  shows "cut_note (v @ '' ('' @ note @ '')'') = v"
  using assms by (induction v) auto


definition sample_surface :: surface where
  "sample_surface = \<lparr>sf_left = 0, sf_top = 0, sf_right = 20, sf_bottom = 20\<rparr>"

theorem lamp_lights_reach_witness:
  "let s = lamp_step (lamp_mount False) (LampMove 10 4) in
    lm_style (lamp_step s (LampFrame 7 [(1, sample_surface)])) 1 = Some (10, 4) \<and> lm_awake (lamp_step (lamp_step s (LampFrame 7 [(1, sample_surface)])) (LampTimer 5007)) = {}
    \<and> lm_style (lamp_step s LampLeave) = Map.empty"
proof -
  define s where "s = lamp_step (lamp_mount False) (LampMove 10 4)"
  have s: "s = foldl lamp_step (lamp_mount False) [LampMove 10 4]" by (simp add: s_def)
  have at: "lm_raf s" "lm_x s = 10" "lm_y s = 4" by (simp_all add: s_def lamp_mount_def lamp_arm_def)
  note reached = lamp_lights_reach [of False "[LampMove 10 4]", folded s, unfolded Let_def, THEN conjunct1, rule_format, of "[(1, sample_surface)]" 1 sample_surface 7]
  note left = lamp_lights_reach [of False "[LampMove 10 4]", folded s, unfolded Let_def, THEN conjunct2, rule_format, of LampLeave]
  show ?thesis
    unfolding s_def [symmetric] Let_def using reached left at by (simp add: sample_surface_def in_reach_def reach_def)
qed

theorem leave_relights_witness:
  "let s1 = lamp_step (lamp_step (lamp_mount False) (LampMove 10 4)) LampLeave in
    lm_lit s1 = [] \<and> lm_style (lamp_step s1 (LampFrame 7 [(1, sample_surface)])) 1 = Some (10, 4)"
proof -
  have "lm_armed (lamp_mount False)" "in_reach 10 4 sample_surface"
    by (simp_all add: lamp_mount_def lamp_arm_def sample_surface_def in_reach_def reach_def)
  from leave_relights [OF this, of 7 1 0] show ?thesis by (simp add: Let_def sample_surface_def)
qed

end
