(* ===== verification/Data_Layer.thy ===== *)
theory Data_Layer
  imports Dashboard Roster
begin

text \<open>
  The typed hooks of \<open>players.ts\<close>, \<open>analytics.ts\<close> and \<open>Agents.tsx\<close> over the one polling hook: which module cache each
  reads and writes, under which key, which call of the engine it makes and how often. A hook whose key is null makes no call.
  The caches of a kind are shared by all instances of a hook and outlive them, so that what an entry holds must not depend on
  who stored it.
\<close>

section \<open>The hooks\<close>

datatype engine_call =
    CallPlayers players_query
  | CallPlayerDetail string
  | CallPlayerHistory string int
  | CallPlayerLatency string int
  | CallSummary int
  | CallPeakMatrix int
  | CallTunnelUptime int
  | CallSessions sessions_query
  | CallSessionTimeline int
  | CallGeoSnapshot int
  | CallGeoStatus
  | CallListAgents
  | CallAgentHistory string int int

datatype module_cache =
    PagesCache | DetailCache | HistoryCache | LatencyCache | SummaryCache | PeakCache | UptimeCache | SessionsCache | TimelineCache
  | GeoCache | GeoStatusCache | RosterCache | AgentHistCache

record poll_use =
  pu_cache :: module_cache
  pu_key :: "string option"
  pu_call :: "engine_call option"
  pu_ms :: int

text \<open>A default argument: none for a caller that gives no interval.\<close>

definition or_else :: "int \<Rightarrow> int option \<Rightarrow> int" where
  "or_else d ms = (case ms of Some m \<Rightarrow> m | None \<Rightarrow> d)"

definition use_players_page :: "players_query \<Rightarrow> int option \<Rightarrow> poll_use" where
  "use_players_page q ms = \<lparr>pu_cache = PagesCache, pu_key = Some (players_key q), pu_call = Some (CallPlayers q), pu_ms = or_else 5000 ms\<rparr>"

definition use_player_detail :: "string option \<Rightarrow> int option \<Rightarrow> poll_use" where
  "use_player_detail uuid ms = \<lparr>pu_cache = DetailCache, pu_key = uuid, pu_call = map_option CallPlayerDetail uuid, pu_ms = or_else 5000 ms\<rparr>"

definition use_player_history :: "string option \<Rightarrow> int \<Rightarrow> int option \<Rightarrow> poll_use" where
  "use_player_history uuid window ms = \<lparr>pu_cache = HistoryCache, pu_key = history_key uuid window,
     pu_call = map_option (\<lambda>u. CallPlayerHistory u window) uuid, pu_ms = or_else 15000 ms\<rparr>"

definition use_player_latency :: "string option \<Rightarrow> int \<Rightarrow> int option \<Rightarrow> poll_use" where
  "use_player_latency uuid window ms = \<lparr>pu_cache = LatencyCache, pu_key = history_key uuid window,
     pu_call = map_option (\<lambda>u. CallPlayerLatency u window) uuid, pu_ms = or_else 15000 ms\<rparr>"

definition use_summary :: "int \<Rightarrow> int option \<Rightarrow> poll_use" where
  "use_summary rng ms = \<lparr>pu_cache = SummaryCache, pu_key = Some (range_cache_key rng), pu_call = Some (CallSummary rng), pu_ms = or_else 30000 ms\<rparr>"

definition use_peak_matrix :: "int \<Rightarrow> int option \<Rightarrow> poll_use" where
  "use_peak_matrix weeks ms = \<lparr>pu_cache = PeakCache, pu_key = Some (range_cache_key weeks), pu_call = Some (CallPeakMatrix weeks), pu_ms = or_else 60000 ms\<rparr>"

definition use_tunnel_uptime :: "int \<Rightarrow> int option \<Rightarrow> poll_use" where
  "use_tunnel_uptime window ms = \<lparr>pu_cache = UptimeCache, pu_key = Some (range_cache_key window), pu_call = Some (CallTunnelUptime window), pu_ms = or_else 30000 ms\<rparr>"

definition use_sessions :: "sessions_query \<Rightarrow> int option \<Rightarrow> poll_use" where
  "use_sessions q ms = \<lparr>pu_cache = SessionsCache, pu_key = Some (sessions_key q), pu_call = Some (CallSessions q), pu_ms = or_else 15000 ms\<rparr>"

definition use_session_timeline :: "int option \<Rightarrow> int option \<Rightarrow> poll_use" where
  "use_session_timeline i ms = \<lparr>pu_cache = TimelineCache, pu_key = timeline_key i, pu_call = map_option CallSessionTimeline i, pu_ms = or_else 15000 ms\<rparr>"

definition use_geo_snapshot :: "int \<Rightarrow> int option \<Rightarrow> poll_use" where
  "use_geo_snapshot rng ms = \<lparr>pu_cache = GeoCache, pu_key = Some (range_cache_key rng), pu_call = Some (CallGeoSnapshot rng), pu_ms = or_else 30000 ms\<rparr>"

definition use_geo_status :: "int option \<Rightarrow> poll_use" where
  "use_geo_status ms = \<lparr>pu_cache = GeoStatusCache, pu_key = Some ''geo'', pu_call = Some CallGeoStatus, pu_ms = or_else 60000 ms\<rparr>"

text \<open>\<open>Agents.tsx\<close>: the roster under its nonce, on a gateway only, and the history of one agent's link.\<close>

definition use_roster :: "string \<Rightarrow> nat \<Rightarrow> poll_use" where
  "use_roster role nonce = (let on = (role = ''gateway'') in
     \<lparr>pu_cache = RosterCache, pu_key = (if on then Some (roster_key nonce) else None), pu_call = (if on then Some CallListAgents else None), pu_ms = 4000\<rparr>)"

definition agent_history_source :: "string \<Rightarrow> string \<Rightarrow> poll_use option" where
  "agent_history_source agent rng = map_option (\<lambda>spec. \<lparr>pu_cache = AgentHistCache, pu_key = Some (agent @ '':'' @ rng),
     pu_call = Some (CallAgentHistory agent (window_ms spec) (buckets spec)), pu_ms = poll_ms spec\<rparr>) (map_of ranges rng)"

text \<open>\<open>useBandwidthLoss\<close> reads the buckets of the bandwidth history of a range of the same name.\<close>

definition loss_range :: "string \<Rightarrow> string" where
  "loss_range r = (if r \<in> {''24h'', ''7d'', ''30d''} then r else ''all'')"

definition bandwidth_loss :: "history_result option \<Rightarrow> bucket list option" where
  "bandwidth_loss h = map_option hist_buckets h"

lemma loss_range_window:
  assumes "r \<in> {''24h'', ''7d'', ''30d'', ''all''}"
  shows "map_option window_ms (map_of ranges (loss_range r)) = Some (range_ms r)"
  using assms by (auto simp: loss_range_def range_ms_def ranges_def)

section \<open>An entry determines its call\<close>

text \<open>The uses of the hooks the screens can make.\<close>

inductive data_use :: "poll_use \<Rightarrow> bool" where
  page: "screen_query q \<Longrightarrow> data_use (use_players_page q ms)"
| detail: "data_use (use_player_detail uuid ms)"
| history: "data_use (use_player_history uuid window ms)"
| latency: "data_use (use_player_latency uuid window ms)"
| summary: "data_use (use_summary rng ms)"
| peak: "data_use (use_peak_matrix weeks ms)"
| uptime: "data_use (use_tunnel_uptime window ms)"
| sessions: "sq_agent_id sq = '''' \<Longrightarrow> data_use (use_sessions sq ms)"
| timeline: "data_use (use_session_timeline i ms)"
| snapshot: "data_use (use_geo_snapshot rng ms)"
| status: "data_use (use_geo_status ms)"
| roster: "data_use (use_roster role nonce)"
| agent_history: "agent_history_source agent rng = Some u \<Longrightarrow> data_use u"

lemmas hook_defs = use_players_page_def use_player_detail_def use_player_history_def use_player_latency_def use_summary_def
  use_peak_matrix_def use_tunnel_uptime_def use_sessions_def use_session_timeline_def use_geo_snapshot_def use_geo_status_def use_roster_def

text \<open>A range has no colon, so the key of an agent's history splits at its last one.\<close>

lemma range_no_colon: "map_of ranges r = Some spec \<Longrightarrow> CHR '':'' \<notin> set r"
  by (auto simp: ranges_def split: if_splits)

lemma last_colon:
  assumes "a @ CHR '':'' # r = b @ CHR '':'' # s" and "CHR '':'' \<notin> set r" and "CHR '':'' \<notin> set s"
  shows "a = b \<and> r = s"
proof -
  have cut: "takeWhile (\<lambda>c. c \<noteq> CHR '':'') (rev (x @ CHR '':'' # y)) = rev y" if "CHR '':'' \<notin> set y" for x y
    using that by (subst rev_append, simp, subst takeWhile_append2) auto
  have "rev r = rev s" using cut [OF assms(2), of a] cut [OF assms(3), of b] assms(1) by simp
  with assms(1) show ?thesis by simp
qed

lemma agent_history_key: "agent_history_source a r = Some u \<Longrightarrow> agent_history_source b s = Some u' \<Longrightarrow> pu_key u = pu_key u' \<Longrightarrow> u = u'"
  using last_colon [of a r b s] range_no_colon [of r] range_no_colon [of s] by (auto simp: agent_history_source_def)

lemma timeline_key_inj: "timeline_key i = timeline_key j \<longleftrightarrow> i = j"
  by (cases i; cases j) (auto simp: timeline_key_def show_int_inj)

lemma history_keys: "history_key u w = history_key u' w' \<longleftrightarrow> u = None \<and> u' = None \<or> u \<noteq> None \<and> u = u' \<and> w = w'"
  by (cases u; cases u') (auto simp: history_key_inj, auto simp: history_key_def)

inductive_cases data_useE: "data_use u"

text \<open>A cache entry determines the call that produced it: two hooks on the same cache and the same key make the same call.\<close>

lemma entry_determines_call:
  assumes "data_use u" and "data_use u'" and "pu_cache u = pu_cache u'" and "pu_key u = pu_key u'"
  shows "pu_call u = pu_call u'"
proof (cases "pu_cache u = AgentHistCache")
  case True
  have src: "\<exists>a r. agent_history_source a r = Some v" if "data_use v" "pu_cache v = AgentHistCache" for v
    using that by (elim data_useE) (auto simp: hook_defs Let_def)
  from True assms src obtain a r b s where "agent_history_source a r = Some u" "agent_history_source b s = Some u'" by metis
  with agent_history_key assms(4) show ?thesis by blast
next
  case False
  then have no: "agent_history_source a r \<noteq> Some u" "agent_history_source a r \<noteq> Some u'" for a r
    using assms(3) by (auto simp: agent_history_source_def)
  show ?thesis
    using assms no
    by (elim data_useE)
       (auto simp: hook_defs Let_def history_keys timeline_key_inj range_cache_key_def show_int_inj dest: players_key_inj sessions_key_inj split: if_splits)
qed


section \<open>What a hook shows\<close>


text \<open>A hook that is paused makes no call, and only a paused hook makes none.\<close>

lemma paused_iff_no_call: "data_use u \<Longrightarrow> pu_key u = None \<longleftrightarrow> pu_call u = None"
  by (elim data_useE) (auto simp: hook_defs Let_def history_key_def timeline_key_def agent_history_source_def)


end
