(* ===== verification/Fleet_Screen.thy ===== *)
theory Fleet_Screen
  imports Data_Layer Management
begin

text \<open>
  The Agents screen as a whole (\<open>screens/Agents.tsx\<close>): the root component with its roster poll, its event tail, its
  selection, filter, sort and dismissed conflicts, and what it renders: the conflict cards, the compact list, the
  event log and the drill-in of one agent. The pieces come from \<open>Roster\<close> (rows, sort, conflicts, cards),
  \<open>Management\<close> (the panel), \<open>Hooks\<close> and \<open>Feeds\<close> (the two polls).
\<close>

section \<open>The component\<close>

text \<open>A mutation of the panel is sent with the \<open>onChanged\<close> of the render it was clicked in: \<open>fl_pending\<close> has what that closure
  captured, the roster, the key and the nonce, until the engine has answered.\<close>

record fleet_closure =
  fc_roster :: "agent_view list option"
  fc_key :: "string option"
  fc_nonce :: nat

record fleet =
  fl_status :: ui_status
  fl_selected :: "string option"
  fl_sort :: string
  fl_density :: string
  fl_query :: string
  fl_nonce :: nat
  fl_dismissed :: "int set"
  fl_roster :: "agent_view list polled"
  fl_feed :: "gateway_event feed"
  fl_pending :: "(nat \<times> fleet_closure) list"
  fl_sent :: nat
  fl_store :: store

definition on_gateway :: "fleet \<Rightarrow> bool" where
  "on_gateway s \<longleftrightarrow> st_role (fl_status s) = ''gateway''"

definition fleet_key :: "fleet \<Rightarrow> string option" where
  "fleet_key s = (if on_gateway s then Some (roster_key (fl_nonce s)) else None)"

text \<open>A render with its effects: the roster poll follows its key, the event tail its role, and a selected agent that the
  loaded roster does not have is deselected.\<close>

definition fleet_commit :: "fleet \<Rightarrow> fleet" where
  "fleet_commit s = (let r = poll_effect (poll_render (fleet_key s) (fl_roster s)) in
     s\<lparr>fl_roster := r, fl_feed := (if fd_alive (fl_feed s) = on_gateway s then fl_feed s else gw_enable (on_gateway s) (fl_feed s)),
       fl_selected := deselect (fl_selected s) (po_data r)\<rparr>)"

definition fleet_mount :: "(string \<times> agent_view list) list \<Rightarrow> store \<Rightarrow> ui_status \<Rightarrow> fleet" where
  "fleet_mount cache m st = (let s = \<lparr>fl_status = st, fl_selected = None, fl_sort = load_sort m, fl_density = load_density m,
       fl_query = '''', fl_nonce = 0, fl_dismissed = {}, fl_roster = poll_mount cache None, fl_feed = gw_mount, fl_pending = [],
       fl_sent = 0, fl_store = m\<rparr> in
     fleet_commit (s\<lparr>fl_roster := poll_mount cache (fleet_key s)\<rparr>))"

definition fleet_refresh :: "fleet_closure \<Rightarrow> fleet \<Rightarrow> fleet" where
  "fleet_refresh c s = (let r = fl_roster s; r' = (case (fc_roster c, fc_key c) of
       (Some vs, Some _) \<Rightarrow> r\<lparr>po_cache := AList.update (roster_key (fc_nonce c + 1)) vs (po_cache r)\<rparr> | _ \<Rightarrow> r) in
     s\<lparr>fl_roster := r', fl_nonce := fl_nonce s + 1\<rparr>)"

datatype fleet_event =
    FleetStatus ui_status
  | FleetOpen string
  | FleetBack
  | FleetSort string
  | FleetDensity string
  | FleetQuery string
  | FleetDismiss int
  | FleetMutate                            \<comment> \<open>a rename, scope or revoke is sent\<close>
  | FleetMutated nat bool                  \<comment> \<open>it is answered, with success or not\<close>
  | RosterTick
  | RosterAnswer nat "agent_view list"
  | RosterFail nat
  | FeedTick
  | FeedAnswer nat "gateway_event list"
  | FeedFail nat

fun fleet_handle :: "fleet \<Rightarrow> fleet_event \<Rightarrow> fleet" where
  "fleet_handle s (FleetStatus st) = s\<lparr>fl_status := st\<rparr>"
| "fleet_handle s (FleetOpen i) = s\<lparr>fl_selected := Some i\<rparr>"
| "fleet_handle s FleetBack = s\<lparr>fl_selected := None\<rparr>"
| "fleet_handle s (FleetSort k) = s\<lparr>fl_sort := k, fl_store := save_sort k (fl_store s)\<rparr>"
| "fleet_handle s (FleetDensity d) = s\<lparr>fl_density := d, fl_store := save_density d (fl_store s)\<rparr>"
| "fleet_handle s (FleetQuery q) = s\<lparr>fl_query := q\<rparr>"
| "fleet_handle s (FleetDismiss n) = s\<lparr>fl_dismissed := insert n (fl_dismissed s)\<rparr>"
| "fleet_handle s FleetMutate = s\<lparr>fl_pending := fl_pending s @ [(fl_sent s,
     \<lparr>fc_roster = po_data (fl_roster s), fc_key = fleet_key s, fc_nonce = fl_nonce s\<rparr>)], fl_sent := fl_sent s + 1\<rparr>"
| "fleet_handle s (FleetMutated i ok) = (case map_of (fl_pending s) i of None \<Rightarrow> s
   | Some c \<Rightarrow> let s' = s\<lparr>fl_pending := filter (\<lambda>e. fst e \<noteq> i) (fl_pending s)\<rparr> in if ok then fleet_refresh c s' else s')"
| "fleet_handle s RosterTick = s\<lparr>fl_roster := poll_interval (fl_roster s)\<rparr>"
| "fleet_handle s (RosterAnswer i vs) = s\<lparr>fl_roster := poll_resolve i vs (fl_roster s)\<rparr>"
| "fleet_handle s (RosterFail i) = s\<lparr>fl_roster := poll_reject i (fl_roster s)\<rparr>"
| "fleet_handle s FeedTick = (if fd_alive (fl_feed s) then s\<lparr>fl_feed := feed_send (fl_feed s)\<rparr> else s)"
| "fleet_handle s (FeedAnswer i es) = s\<lparr>fl_feed := gw_answer i es (fl_feed s)\<rparr>"
| "fleet_handle s (FeedFail i) = s\<lparr>fl_feed := gw_fail i (fl_feed s)\<rparr>"

definition fleet_step :: "fleet \<Rightarrow> fleet_event \<Rightarrow> fleet" where
  "fleet_step s e = fleet_commit (fleet_handle s e)"

section \<open>What is rendered\<close>

record conflict_card =
  cf_seq :: int
  cf_tone :: string
  cf_title :: string
  cf_ports :: "string option"
  cf_time :: string
  cf_message :: string
  cf_link :: "string option"

definition right_arrow :: string where "right_arrow = [CHR 0xE2, CHR 0x86, CHR 0x92]"

definition is_clone :: "gateway_event \<Rightarrow> bool" where
  "is_clone e \<longleftrightarrow> ev_kind e = ''clone-suspected''"

definition conflict_card_of :: "(int \<Rightarrow> string) \<Rightarrow> string set \<Rightarrow> gateway_event \<Rightarrow> conflict_card" where
  "conflict_card_of time ids e = \<lparr>cf_seq = ev_seq e, cf_tone = (if is_clone e then ''bad'' else ''warn''),
     cf_title = (if is_clone e then ''Possible cloned agent'' else ''Port auto-reassigned''),
     cf_ports = (case (ev_requested_port e, ev_actual_port e) of
         (Some r, Some a) \<Rightarrow> if is_clone e then None else Some (''requested '' @ show_int r @ '' '' @ right_arrow @ '' bound '' @ show_int a)
       | _ \<Rightarrow> None),
     cf_time = time (ev_time_ms e), cf_message = ev_message e, cf_link = (if conflict_linkable ids e then ev_agent_id e else None)\<rparr>"

datatype log_view = LogLoading | LogEmpty | LogLines "(string \<times> string \<times> string \<times> string) list"

definition event_row :: "(int \<Rightarrow> string) \<Rightarrow> gateway_event \<Rightarrow> string \<times> string \<times> string \<times> string" where
  "event_row time e = (time (ev_time_ms e), if is_clone e then ''bad'' else ''warn'', if is_clone e then ''clone'' else ''reassign'', ev_message e)"

definition event_log :: "(int \<Rightarrow> string) \<Rightarrow> gateway_event list option \<Rightarrow> log_view" where
  "event_log time es = (case es of None \<Rightarrow> LogLoading | Some [] \<Rightarrow> LogEmpty | Some es \<Rightarrow> LogLines (map (event_row time) (event_log_rows es)))"

record agent_line =
  ln_title :: string
  ln_id :: string
  ln_mark :: mark
  ln_rtt :: string
  ln_scope :: string
  ln_tunnels :: string
  ln_glow :: bool

definition agent_line_of :: "row \<Rightarrow> agent_line" where
  "agent_line_of r = (let v = row_view r in
     \<lparr>ln_title = display_name v, ln_id = (if view_agent_id v = '''' then em_dash else view_agent_id v), ln_mark = status_mark v (row_seg r),
      ln_rtt = (case row_live r of Some a \<Rightarrow> if is_connected v then fmt_rtt_ms (of_int (agent_rtt_millis a)) else em_dash | None \<Rightarrow> em_dash),
      ln_scope = scope_text v, ln_tunnels = show_int (view_tunnels v) @ '' tun'', ln_glow = (is_connected v \<and> row_seg r = ''good'')\<rparr>)"

datatype fleet_body =
    RosterSkeleton nat bool           \<comment> \<open>placeholders, and whether they are rows\<close>
  | NoAgents
  | NoMatch string
  | CardWall "card_cells list"
  | LineList "agent_line list"

record fleet_page =
  fp_conflicts :: "conflict_card list"
  fp_summary :: "fleet_cells option"
  fp_filter :: bool
  fp_body :: fleet_body
  fp_log :: log_view

datatype fleet_view = OnAgent | OldService | DrillIn row | FleetList fleet_page

definition fleet_rows :: "fleet \<Rightarrow> row list" where
  "fleet_rows s = roster_rows (po_data (fl_roster s)) (fl_status s)"

definition fleet_conflicts :: "fleet \<Rightarrow> gateway_event list" where
  "fleet_conflicts s = conflicts (fd_events (fl_feed s)) (fl_dismissed s)"

definition fleet_body_of :: "(string \<Rightarrow> string \<Rightarrow> int) \<Rightarrow> fleet \<Rightarrow> fleet_body" where
  "fleet_body_of lc s = (if po_data (fl_roster s) = None then (if fl_density s = ''list'' then RosterSkeleton 4 True else RosterSkeleton 3 False)
     else if fleet_rows s = [] then NoAgents
     else case sorted_rows lc (fl_sort s) (fl_query s) (fleet_rows s) of
       [] \<Rightarrow> NoMatch (js_trim (fl_query s))
     | rs \<Rightarrow> if fl_density s = ''grid'' then CardWall (map agent_card rs) else LineList (map agent_line_of rs))"

definition fleet_page_of :: "(string \<Rightarrow> string \<Rightarrow> int) \<Rightarrow> (int \<Rightarrow> string) \<Rightarrow> fleet \<Rightarrow> fleet_page" where
  "fleet_page_of lc time s = (let loaded = po_data (fl_roster s) \<noteq> None \<and> fleet_rows s \<noteq> [] in
     \<lparr>fp_conflicts = map (conflict_card_of time (roster_ids (po_data (fl_roster s)))) (fleet_conflicts s),
      fp_summary = (if loaded then Some (fleet_summary (fleet_rows s)) else None),
      fp_filter = (loaded \<and> 4 < length (fleet_rows s)), fp_body = fleet_body_of lc s, fp_log = event_log time (fd_events (fl_feed s))\<rparr>)"

definition fleet_current :: "fleet \<Rightarrow> row option" where
  "fleet_current s = (case fl_selected s of None \<Rightarrow> None
   | Some i \<Rightarrow> if i = '''' then None else find (\<lambda>r. view_agent_id (row_view r) = i) (fleet_rows s))"

definition fleet_shows :: "(string \<Rightarrow> string \<Rightarrow> int) \<Rightarrow> (int \<Rightarrow> string) \<Rightarrow> fleet \<Rightarrow> fleet_view" where
  "fleet_shows lc time s = (if \<not> on_gateway s then OnAgent else if st_agents (fl_status s) = None then OldService
     else case fleet_current s of Some r \<Rightarrow> DrillIn r | None \<Rightarrow> FleetList (fleet_page_of lc time s))"

section \<open>The roster of every run\<close>

text \<open>All keys of the roster ask for the same list, so what a cache entry holds is only known to have been answered, not when.\<close>

definition answered :: "agent_view list polled \<Rightarrow> agent_view list set" where
  "answered r = snd ` set (po_served r)"

definition roster_inv :: "agent_view list polled \<Rightarrow> bool" where
  "roster_inv r \<longleftrightarrow> po_mounted r \<and> snd ` set (po_cache r) \<subseteq> answered r \<and> (\<forall>vs. po_data r = Some vs \<longrightarrow> vs \<in> answered r)
    \<and> (\<forall>q \<in> snd ` set (po_flight r). rq_gen q \<le> po_gen r)"

definition closure_ok :: "fleet \<Rightarrow> fleet_closure \<Rightarrow> bool" where
  "closure_ok s c \<longleftrightarrow> (\<forall>vs. fc_roster c = Some vs \<longrightarrow> vs \<in> answered (fl_roster s))"

text \<open>Kept by every handler, and restored in full by the render after it.\<close>

definition fleet_core :: "fleet \<Rightarrow> bool" where
  "fleet_core s \<longleftrightarrow> roster_inv (fl_roster s) \<and> (\<forall>c \<in> snd ` set (fl_pending s). closure_ok s c)"

definition fleet_inv :: "fleet \<Rightarrow> bool" where
  "fleet_inv s \<longleftrightarrow> fleet_core s \<and> po_key (fl_roster s) = fleet_key s \<and> fd_alive (fl_feed s) = on_gateway s
    \<and> deselect (fl_selected s) (po_data (fl_roster s)) = fl_selected s"

lemma set_update_snd: "snd ` set (AList.update k v m) \<subseteq> insert v (snd ` set m)"
  by (induction m) auto

lemma served_fetch [simp]: "po_served (poll_fetch_once r) = po_served r"
  by (simp add: poll_fetch_once_def split: option.split)

lemma fetch_fields [simp]:
  "po_mounted (poll_fetch_once r) = po_mounted r" "po_cache (poll_fetch_once r) = po_cache r" "po_data (poll_fetch_once r) = po_data r"
  "po_gen (poll_fetch_once r) = po_gen r" "po_key (poll_fetch_once r) = po_key r" "po_fetcher (poll_fetch_once r) = po_fetcher r"
  by (simp_all add: poll_fetch_once_def split: option.split)

lemma flight_fetch: "q \<in> snd ` set (po_flight (poll_fetch_once r)) \<Longrightarrow> q \<in> snd ` set (po_flight r) \<or> rq_gen q = po_gen r"
  by (auto simp: poll_fetch_once_def split: option.splits)

lemma answered_fetch [simp]: "answered (poll_fetch_once r) = answered r"
  by (simp add: answered_def)

lemma roster_inv_fetch:
  assumes "roster_inv r"
  shows "roster_inv (poll_fetch_once r)"
proof -
  have "rq_gen q \<le> po_gen r" if "q \<in> snd ` set (po_flight (poll_fetch_once r))" for q
    using flight_fetch [OF that] assms by (auto simp: roster_inv_def)
  with assms show ?thesis by (simp add: roster_inv_def)
qed

lemma lookup_answered: "snd ` set cache \<subseteq> A \<Longrightarrow> poll_lookup cache k = Some v \<Longrightarrow> v \<in> A"
  by (force simp: poll_lookup_def dest: map_of_SomeD split: option.splits)

lemma roster_inv_effect:
  assumes "roster_inv r"
  shows "roster_inv (poll_effect (poll_render k r)) \<and> answered (poll_effect (poll_render k r)) = answered r"
proof -
  have "roster_inv (r\<lparr>po_fetcher := k, po_key := k, po_gen := Suc (po_gen r), po_data := poll_lookup (po_cache r) k\<rparr>)"
    using assms lookup_answered [of "po_cache r" "answered r" k] by (fastforce simp: roster_inv_def answered_def)
  from roster_inv_fetch [OF this] assms show ?thesis
    by (auto simp: poll_effect_def poll_render_def roster_inv_def answered_def)
qed

lemma effect_key: "po_mounted r \<Longrightarrow> po_key (poll_effect (poll_render k r)) = k"
  by (simp add: poll_effect_def poll_render_def)

lemma deselect_idem: "deselect (deselect i vs) vs = deselect i vs"
  by (auto simp: deselect_def split: option.splits)

lemma commit_inv:
  assumes "fleet_core s"
  shows "fleet_inv (fleet_commit s)"
proof -
  note eff = roster_inv_effect [of "fl_roster s" "fleet_key s"]
  from assms have inv: "roster_inv (fl_roster s)" and mounted: "po_mounted (fl_roster s)" by (simp_all add: fleet_core_def roster_inv_def)
  show ?thesis
    using assms eff [OF inv] effect_key [OF mounted]
    by (auto simp: fleet_inv_def fleet_core_def fleet_commit_def Let_def closure_ok_def fleet_key_def on_gateway_def deselect_idem
        gw_enable_def feed_send_def)
qed

lemma resolve_answered: "answered r \<subseteq> answered (poll_resolve i vs r)"
  by (auto simp: poll_resolve_def answered_def Let_def split: option.splits)

lemma roster_inv_resolve:
  assumes "roster_inv r"
  shows "roster_inv (poll_resolve i vs r)"
proof (cases "map_of (po_flight r) i")
  case (Some q)
  have "snd ` set (AList.update (rq_key q) vs (po_cache r)) \<subseteq> insert vs (answered r)"
    using assms set_update_snd [of "rq_key q" vs "po_cache r"] by (auto simp: roster_inv_def)
  with assms Some show ?thesis
    by (auto simp: poll_resolve_def roster_inv_def answered_def Let_def)
qed (use assms in \<open>simp add: poll_resolve_def\<close>)

lemma handle_core:
  assumes "fleet_inv s"
  shows "fleet_core (fleet_handle s e)"
proof (cases e)
  case (FleetMutated i ok)
  show ?thesis
  proof (cases "map_of (fl_pending s) i")
    case (Some c)
    then have "c \<in> snd ` set (fl_pending s)" by (force dest: map_of_SomeD)
    with assms have c: "closure_ok s c" by (auto simp: fleet_inv_def fleet_core_def)
    have "snd ` set (AList.update k vs (po_cache (fl_roster s))) \<subseteq> answered (fl_roster s)" if "fc_roster c = Some vs" for k vs
      using assms c that set_update_snd [of k vs "po_cache (fl_roster s)"] by (auto simp: fleet_inv_def fleet_core_def roster_inv_def closure_ok_def)
    with assms FleetMutated Some show ?thesis
      by (auto simp: fleet_refresh_def fleet_inv_def fleet_core_def roster_inv_def closure_ok_def answered_def Let_def split: option.splits)
  qed (use assms FleetMutated in \<open>simp add: fleet_inv_def\<close>)
next
  case FleetMutate
  with assms show ?thesis by (auto simp: fleet_inv_def fleet_core_def closure_ok_def roster_inv_def)
next
  case (RosterAnswer i vs)
  with assms show ?thesis
    using roster_inv_resolve [of "fl_roster s" i vs] resolve_answered [of "fl_roster s" i vs] by (auto simp: fleet_inv_def fleet_core_def closure_ok_def)
next
  case (RosterFail i)
  with assms show ?thesis by (auto simp: fleet_inv_def fleet_core_def roster_inv_def poll_reject_def closure_ok_def answered_def)
next
  case RosterTick
  with assms show ?thesis by (auto simp: fleet_inv_def fleet_core_def poll_interval_def closure_ok_def roster_inv_fetch)
qed (use assms in \<open>auto simp: fleet_inv_def fleet_core_def closure_ok_def\<close>)

lemma fleet_inv_step: "fleet_inv s \<Longrightarrow> fleet_inv (fleet_step s e)"
  unfolding fleet_step_def by (intro commit_inv handle_core)

interpretation fleet: invariant_machine fleet_step fleet_inv
  by unfold_locales (rule fleet_inv_step)

lemma fleet_inv_mount: "fleet_inv (fleet_mount cache m st)"
proof -
  have "roster_inv (poll_mount cache k)" for k
    unfolding poll_mount_def by (rule roster_inv_fetch) (use lookup_answered [of cache "snd ` set cache" k] in \<open>simp add: roster_inv_def answered_def\<close>)
  then show ?thesis
    unfolding fleet_mount_def Let_def by (intro commit_inv) (simp add: fleet_core_def)
qed


section \<open>Properties\<close>

text \<open>C17. However the operator, the engine and the clock interleave: the roster on screen is an answer the engine gave, polled
  exactly while this machine is a gateway and under the key of the last mutation, and the drill-in shows the agent that is selected, from
  that roster; an agent that left the roster is not selected any more.\<close>

theorem fleet_shows_roster:
  "let s = foldl fleet_step (fleet_mount cache m st) es in po_key (fl_roster s) = (if st_role (fl_status s) = ''gateway'' then Some (roster_key (fl_nonce s)) else None)
    \<and> (case po_data (fl_roster s) of None \<Rightarrow> True | Some vs \<Rightarrow> vs \<in> snd ` set (po_served (fl_roster s)))
    \<and> fd_alive (fl_feed s) = (st_role (fl_status s) = ''gateway'')
    \<and> (case fleet_shows lc time s of
        DrillIn r \<Rightarrow> fl_selected s = Some (view_agent_id (row_view r)) \<and> r \<in> set (roster_rows (po_data (fl_roster s)) (fl_status s))
      | FleetList p \<Rightarrow> fl_selected s \<in> {None, Some ''''} \<or> po_data (fl_roster s) = None
      | _ \<Rightarrow> True)"
proof -
  define s where "s = foldl fleet_step (fleet_mount cache m st) es"
  have inv: "fleet_inv s" unfolding s_def by (rule fleet.inv_run [OF fleet_inv_mount])
  have drill: "fl_selected s = Some (view_agent_id (row_view r)) \<and> r \<in> set (fleet_rows s)" if "fleet_current s = Some r" for r
    using that by (auto simp: fleet_current_def find_Some_iff split: option.splits if_splits)
  have list: "fl_selected s \<in> {None, Some ''''} \<or> po_data (fl_roster s) = None" if none: "fleet_current s = None"
  proof (rule ccontr)
    assume "\<not> ?thesis"
    then obtain i vs where i: "fl_selected s = Some i" "i \<noteq> ''''" "po_data (fl_roster s) = Some vs" by auto
    from inv i obtain v where v: "v \<in> set vs" "view_agent_id v = i"
      by (auto simp: fleet_inv_def deselect_def split: if_splits)
    from v i have "\<exists>r \<in> set (fleet_rows s). view_agent_id (row_view r) = i" by (auto simp: fleet_rows_def roster_rows_def)
    with none i show False by (auto simp: fleet_current_def find_None_iff)
  qed
  from inv have "po_key (fl_roster s) = fleet_key s" "fd_alive (fl_feed s) = on_gateway s"
    "\<And>vs. po_data (fl_roster s) = Some vs \<Longrightarrow> vs \<in> snd ` set (po_served (fl_roster s))"
    by (auto simp: fleet_inv_def fleet_core_def roster_inv_def answered_def)
  with drill list show ?thesis
    unfolding s_def [symmetric] Let_def
    by (auto simp: fleet_key_def on_gateway_def fleet_shows_def fleet_rows_def split: option.splits)
qed

text \<open>The roster after a refresh, and answers of an older generation.\<close>

lemma resolve_older: "map_of (po_flight r) j = Some q \<Longrightarrow> rq_gen q \<noteq> po_gen r \<Longrightarrow> po_data (poll_resolve j vs r) = po_data r \<and> po_cache (poll_resolve j vs r) = po_cache r"
  by (simp add: poll_resolve_def poll_alive_def Let_def)

lemma roster_key_next: "roster_key (Suc n) \<noteq> roster_key n"
  by (simp add: roster_key_def)

lemma refreshed_roster:
  assumes "fleet_inv s" and "on_gateway s" and "map_of (fl_pending s) i = Some c"
  defines "r \<equiv> (case (fc_roster c, fc_key c) of
    (Some vs, Some _) \<Rightarrow> (fl_roster s)\<lparr>po_cache := AList.update (roster_key (fc_nonce c + 1)) vs (po_cache (fl_roster s))\<rparr> | _ \<Rightarrow> fl_roster s)"
  shows "fl_roster (fleet_step s (FleetMutated i True)) = poll_fetch_once (r\<lparr>po_fetcher := Some (roster_key (Suc (fl_nonce s))),
      po_key := Some (roster_key (Suc (fl_nonce s))), po_gen := Suc (po_gen (fl_roster s)),
      po_data := poll_lookup (po_cache r) (Some (roster_key (Suc (fl_nonce s))))\<rparr>)"
proof -
  have "po_mounted (fl_roster s)" "po_key (fl_roster s) = Some (roster_key (fl_nonce s))"
    using assms(1,2) by (simp_all add: fleet_inv_def fleet_core_def roster_inv_def fleet_key_def)
  with assms(2,3) show ?thesis
    by (auto simp: fleet_step_def fleet_commit_def fleet_refresh_def fleet_key_def on_gateway_def poll_effect_def poll_render_def
        r_def Let_def roster_key_next [symmetric] split: option.splits)
qed



text \<open>A dismissed conflict never comes back; only a newer event of the same conflict does.\<close>

lemma dismissed_step: "fl_dismissed s \<subseteq> fl_dismissed (fleet_step s e)"
  by (cases e) (auto simp: fleet_step_def fleet_commit_def fleet_refresh_def Let_def split: option.splits)

lemma dismissed_stay: "fl_dismissed s \<subseteq> fl_dismissed (foldl fleet_step s es)"
  by (induction es rule: rev_induct) (use dismissed_step in auto)

lemma card_seq: "cf_seq ` set (fp_conflicts (fleet_page_of lc time s)) = ev_seq ` set (fleet_conflicts s)"
  by (simp add: fleet_page_of_def Let_def image_image conflict_card_of_def)

lemma dismissed_hidden: "n \<in> fl_dismissed s \<Longrightarrow> n \<notin> ev_seq ` set (fleet_conflicts s)"
  by (auto simp: fleet_conflicts_def conflicts_def split: option.splits)

theorem dismissed_for_good:
  "n \<notin> cf_seq ` set (fp_conflicts (fleet_page_of lc time (foldl fleet_step (fleet_step s (FleetDismiss n)) es)))"
proof -
  have "n \<in> fl_dismissed (fleet_step s (FleetDismiss n))" by (simp add: fleet_step_def fleet_commit_def Let_def)
  then have "n \<in> fl_dismissed (foldl fleet_step (fleet_step s (FleetDismiss n)) es)" using dismissed_stay by blast
  then show ?thesis unfolding card_seq by (rule dismissed_hidden)
qed

text \<open>The field that sets the filter is shown for more than four agents only, the filter applies always: when the fleet shrinks
  while a filter is typed, the page says that nothing matches and offers no way to clear it.\<close>

theorem filter_stuck:
  assumes "po_data (fl_roster s) = Some vs" and "vs \<noteq> []" and "length vs \<le> 4" and "\<forall>r \<in> set (fleet_rows s). \<not> row_matches (fl_query s) r"
  shows "\<not> fp_filter (fleet_page_of lc time s) \<and> fp_body (fleet_page_of lc time s) = NoMatch (js_trim (fl_query s))
    \<and> ((\<forall>q. e \<noteq> FleetQuery q) \<longrightarrow> fl_query (fleet_step s e) = fl_query s)"
proof -
  have "fleet_rows s \<noteq> []" "length (fleet_rows s) \<le> 4" using assms(1-3) by (simp_all add: fleet_rows_def roster_rows_def)
  moreover have "sorted_rows lc (fl_sort s) (fl_query s) (fleet_rows s) = []"
    using assms(4) by (simp add: sorted_rows_def js_sort_simps)
  ultimately have "\<not> fp_filter (fleet_page_of lc time s)" "fp_body (fleet_page_of lc time s) = NoMatch (js_trim (fl_query s))"
    using assms(1) by (simp_all add: fleet_page_of_def fleet_body_of_def Let_def)
  moreover have "fl_query (fleet_step s e) = fl_query s" if "\<forall>q. e \<noteq> FleetQuery q"
    using that by (cases e) (auto simp: fleet_step_def fleet_commit_def fleet_refresh_def Let_def split: option.splits)
  ultimately show ?thesis by blast
qed

text \<open>Two mutations sent from one render, a new name and a new scope: the second refresh carries the roster under the key of the first, and
  moves on to a key without an entry. The roster is loading again, so the drill-in with its unsaved fields is replaced by the skeleton.\<close>

theorem overlapping_refresh_drops_detail:
  assumes "fleet_inv s" and "on_gateway s" and "st_agents (fl_status s) \<noteq> None" and "map_of (fl_pending s) i = Some c" and "map_of (fl_pending s) j = Some c"
    and "i \<noteq> j" and "fc_nonce c = fl_nonce s" and "map_of (po_cache (fl_roster s)) (roster_key (fl_nonce s + 2)) = None"
  shows "let s' = fleet_step (fleet_step s (FleetMutated i True)) (FleetMutated j True) in
    po_data (fl_roster s') = None \<and> (case fleet_shows lc time s' of FleetList p \<Rightarrow> fp_body p \<in> {RosterSkeleton 4 True, RosterSkeleton 3 False} | _ \<Rightarrow> False)"
proof -
  define s1 where "s1 = fleet_step s (FleetMutated i True)"
  define s2 where "s2 = fleet_step s1 (FleetMutated j True)"
  have pend: "map_of (filter (\<lambda>e. fst e \<noteq> i) ps) j = map_of ps j" for ps :: "(nat \<times> fleet_closure) list"
    using assms(6) by (induction ps) auto
  have s1: "fl_status s1 = fl_status s" "fl_nonce s1 = Suc (fl_nonce s)" "map_of (fl_pending s1) j = Some c"
    using assms(4,5) by (simp_all add: s1_def fleet_step_def fleet_commit_def fleet_refresh_def Let_def pend)
  have inv: "fleet_inv s1" unfolding s1_def by (rule fleet_inv_step [OF assms(1)])
  have gw: "on_gateway s1" using assms(2) s1 by (simp add: on_gateway_def)
  have cache: "map_of (po_cache (fl_roster s1)) (roster_key (fl_nonce s + 2)) = None"
    using assms(7,8) unfolding s1_def refreshed_roster [OF assms(1,2,4)]
    by (auto simp: update_conv' roster_key_def split: option.splits)
  have data: "po_data (fl_roster s2) = None"
    using cache assms(7) s1(2) unfolding s2_def refreshed_roster [OF inv gw s1(3)]
    by (auto simp: poll_lookup_def update_conv' roster_key_def split: option.splits)
  have st: "fl_status s2 = fl_status s"
    using s1(1,3) by (simp add: s2_def fleet_step_def fleet_commit_def fleet_refresh_def Let_def split: option.split)
  have "fleet_current s2 = None" using data by (simp add: fleet_current_def fleet_rows_def roster_rows_def split: option.split)
  with data st assms(2,3) show ?thesis
    unfolding s1_def [symmetric] s2_def [symmetric] Let_def
    by (auto simp: fleet_shows_def on_gateway_def fleet_page_of_def fleet_body_of_def Let_def)
qed

text \<open>The nonce starts anew with every visit of the screen and the cache does not: the entry of nonce zero is the roster from before
  the mutations of an earlier visit, and it is what the screen shows until the engine answers, the revoked agent included.\<close>

theorem revisit_shows_old_roster:
  assumes "st_role st = ''gateway''"
  shows "let s = foldl fleet_step (fleet_mount [] m st) [RosterAnswer 0 before, FleetMutate, FleetMutated 0 True, RosterAnswer 1 after] in
    po_data (fl_roster s) = Some after \<and> po_data (fl_roster (fleet_mount (po_cache (fl_roster s)) m st)) = Some before"
  using assms
  by (simp add: Let_def fleet_mount_def fleet_step_def fleet_commit_def fleet_key_def on_gateway_def poll_mount_def poll_fetch_once_def poll_lookup_def
      poll_effect_def poll_render_def poll_resolve_def poll_alive_def fleet_refresh_def roster_key_def update_conv')


section \<open>The drill-in\<close>

record agent_identity =
  ai_address :: string
  ai_copy :: "string option"
  ai_lan :: "string option"
  ai_up :: string
  ai_data :: string
  ai_glow :: bool

definition uptime_text :: "int \<Rightarrow> int \<Rightarrow> string" where
  "uptime_text now since = fmt_uptime (now - since)"

definition agent_identity_of :: "int \<Rightarrow> agent_ui \<Rightarrow> agent_identity" where
  "agent_identity_of now a = (let lan = filter (\<lambda>x. x \<noteq> '''') (agent_lan_ips a); moved = agent_link_bytes_in a + agent_link_bytes_out a in
     \<lparr>ai_address = (if agent_remote_ip a = '''' then em_dash else agent_remote_ip a),
      ai_copy = (if agent_remote_ip a = '''' then None else Some (agent_remote_ip a)),
      ai_lan = (if lan = [] then None else Some (join_with '', '' lan)),
      ai_up = (if agent_link_up_since_ms a > 0 then uptime_text now (agent_link_up_since_ms a) else em_dash),
      ai_data = (if moved > 0 then fmt_bytes (of_int moved) else em_dash),
      ai_glow = (seg a \<noteq> ''bad'' \<and> seg a \<noteq> ''unknown'')\<rparr>)"

text \<open>The verdict with its tone, and the three numbers a card shows as well.\<close>

definition agent_health :: "agent_ui \<Rightarrow> (string option \<times> string option) \<times> card_body" where
  "agent_health a = ((health_label (seg a), health_tone (seg a)), vitals a)"

definition tunnel_badge :: "tunnel_ui \<Rightarrow> string \<times> string" where
  "tunnel_badge t = (if tun_local_known t then (if tun_local_up t then (''good'', ''Server up'') else (''bad'', ''Server down'')) else (''neutral'', ''Unknown''))"

definition agent_tunnels :: "tunnel_ui list \<Rightarrow> (string \<times> string \<times> string \<times> string) list" where
  "agent_tunnels ts = map (\<lambda>t. (tun_name t, tunnel_sub t, tunnel_badge t)) ts"

definition or_text :: "string option \<Rightarrow> string \<Rightarrow> string" where
  "or_text x y = (case x of Some t \<Rightarrow> if t = '''' then y else t | None \<Rightarrow> y)"

record agent_session_line =
  sl_name :: string
  sl_where :: string
  sl_data :: string
  sl_ping :: "string option"

definition agent_sessions :: "conn_ui list \<Rightarrow> agent_session_line list" where
  "agent_sessions cs = map (\<lambda>c. \<lparr>sl_name = or_text (conn_player_name c) (conn_client_addr c),
     sl_where = conn_tunnel_name c @ mid_dot @ conn_client_addr c, sl_data = fmt_bytes (of_int (conn_bytes_in c + conn_bytes_out c)),
     sl_ping = (if has_rtt (conn_rtt_ms c) then Some (show_int (js_round (conn_rtt_ms c)) @ '' ms'') else None)\<rparr>) cs"

definition sessions_badge :: "conn_ui list \<Rightarrow> string \<times> string" where
  "sessions_badge cs = (if cs = [] then ''neutral'' else ''good'', show_nat (length cs) @ '' live'')"

record management_texts =
  mt_placeholder :: string
  mt_scope :: string
  mt_revoke :: string
  mt_can_revoke :: bool
  mt_enrolled :: string

definition fmt_date :: "(int \<Rightarrow> string) \<Rightarrow> int \<Rightarrow> string" where
  "fmt_date date ms = (if ms > 0 then date ms else em_dash)"

definition management_texts_of :: "(int \<Rightarrow> string) \<Rightarrow> agent_view \<Rightarrow> management_texts" where
  "management_texts_of date v = \<lparr>mt_placeholder = (if view_hostname v = '''' then ''Name this agent'' else view_hostname v),
     mt_scope = ''Current scope: '' @ scope_text v, mt_revoke = (if view_revoked v then ''Access revoked'' else ''Revoke access''),
     mt_can_revoke = (\<not> view_revoked v),
     mt_enrolled = ''Enrolled '' @ fmt_date date (view_issued_at_ms v) @ mid_dot @ (if view_enrolled v then ''Ed25519 identity'' else ''shared token'')\<rparr>"

text \<open>The drill-in of an agent and its card agree: same title and mark, and where the card has vitals the panel shows the same; an agent
  without a live snapshot has a panel of dashes.\<close>

lemma detail_agrees_with_card:
  "(case ac_body (agent_card r) of Vitals a b c \<Rightarrow> snd (agent_health (live_or_synth r)) = Vitals a b c | _ \<Rightarrow> True)
    \<and> (row_live r = None \<longrightarrow> agent_health (live_or_synth r) = ((Some ''Unknown'', Some ''neutral''),
          Vitals (em_dash, ''neutral'') (em_dash, ''unknown'') (em_dash, ''unknown''))
        \<and> ai_data (agent_identity_of now (live_or_synth r)) = em_dash)"
  by (auto simp: agent_card_def agent_health_def live_or_synth_def vitals_def Let_def seg_def health_label_def health_tone_def
      fmt_rtt_ms_def fmt_ms_def fmt_loss_pct_def has_rtt_def jitter_tone_def loss_tone_def agent_identity_of_def split: option.splits if_splits)

text \<open>A session is in the drill-in of the agent that carries it, and in no other.\<close>

lemma session_of_one_agent:
  assumes "c \<in> set (detail_conns st r)" and "c \<in> set (detail_conns st r')"
  shows "view_agent_id (row_view r) = view_agent_id (row_view r')"
  using assms by (auto simp: detail_conns_def)

section \<open>Witnesses\<close>

definition fleet_sample :: "string \<Rightarrow> ui_status" where
  "fleet_sample role = \<lparr>st_mode = ''embedded'', st_role = role, st_version = [], st_hostname = [], st_pid = 1, st_config_path = [], st_link_up = True,
     st_rtt_millis = 0, st_agent_connected = True, st_transport = [], st_jitter_millis = 0, st_packet_loss_pct = 0, st_health_score = ''good'',
     st_peer_hostname = [], st_public_ip = [], st_peer_public_ip = [], st_local_lan_ips = [], st_peer_lan_ips = [], st_agents = Some [],
     st_tunnels = None, st_connections = None, st_total_bytes_in = 0, st_total_bytes_out = 0, st_link_up_since_ms = 0, st_process_start_ms = 0,
     st_peer_addr = [], st_link_bytes_in = 0, st_link_bytes_out = 0, st_all_time_bytes_in = 0, st_all_time_bytes_out = 0,
     st_cumulative_uptime_ms = 0, st_link_sessions = 0, st_history_unsupported = None, st_analytics_unsupported = None,
     st_connections_truncated = None, st_connections_total = None, st_engine_fatal = None\<rparr>"

lemmas fleet_run_defs = fleet_mount_def fleet_step_def fleet_commit_def fleet_key_def on_gateway_def poll_mount_def poll_fetch_once_def poll_lookup_def
  poll_effect_def poll_render_def poll_resolve_def poll_alive_def poll_interval_def fleet_refresh_def roster_key_def update_conv' fleet_sample_def Let_def
  deselect_def


theorem filter_stuck_witness:
  "fp_body (fleet_page_of (\<lambda>_ _. 0) show_int (foldl fleet_step (fleet_mount [] Map.empty (fleet_sample ''gateway''))
     [FleetQuery ''xyz'', RosterAnswer 0 [sample_view ''a'' True False]])) = NoMatch ''xyz''"
proof -
  define s where "s = foldl fleet_step (fleet_mount [] Map.empty (fleet_sample ''gateway'')) [FleetQuery ''xyz'', RosterAnswer 0 [sample_view ''a'' True False]]"
  have d: "po_data (fl_roster s) = Some [sample_view ''a'' True False]" and q: "fl_query s = ''xyz''" by (simp_all add: s_def fleet_run_defs)
  have rows: "fleet_rows s = [\<lparr>row_view = sample_view ''a'' True False, row_live = live_by_id (fl_status s) ''a''\<rparr>]"
    using d by (simp add: fleet_rows_def roster_rows_def sample_view_def)
  have trim: "js_trim ''xyz'' = ''xyz''" by code_simp
  have "\<not> sublist (js_lower ''xyz'') (js_lower ''a'')" "\<not> sublist (js_lower ''xyz'') (js_lower [])" "js_lower ''xyz'' \<noteq> []" by code_simp+
  then have "\<forall>r \<in> set (fleet_rows s). \<not> row_matches (fl_query s) r"
    using rows q by (simp add: row_matches_def sample_view_def trim)
  from filter_stuck [OF d _ _ this, of "\<lambda>_ _. 0" show_int RosterTick] q trim show ?thesis by (simp add: s_def)
qed

theorem revisit_shows_old_roster_witness:
  "po_data (fl_roster (fleet_mount (po_cache (fl_roster (foldl fleet_step (fleet_mount [] Map.empty (fleet_sample ''gateway''))
     [RosterAnswer 0 [sample_view ''a'' True False], FleetMutate, FleetMutated 0 True, RosterAnswer 1 [sample_view ''a'' False True]])))
     Map.empty (fleet_sample ''gateway''))) = Some [sample_view ''a'' True False]"
  using revisit_shows_old_roster [of "fleet_sample ''gateway''" Map.empty "[sample_view ''a'' True False]" "[sample_view ''a'' False True]"]
  by (simp add: Let_def, simp add: fleet_sample_def)

end
