(* ===== verification/Traffic.thy ===== *)
theory Traffic
  imports Format Contracts Model
begin

text \<open>
  The Traffic screen (\<open>screens/Traffic.tsx\<close>): the per-address rate tracker, a module map that
  survives tab switches, the merge of persisted peers with live connections, and what the session
  table, the client table and the link strip show; and the filter of the Activity screen
  (\<open>screens/Activity.tsx\<close>). Byte counts and times are integers, rates are reals.
\<close>

section \<open>Current rates\<close>

record rate_entry =
  re_t :: int
  re_bytes :: int
  re_rate :: real

definition by_ip :: "conn_ui list \<Rightarrow> (string \<times> int) list" where
  "by_ip conns = foldl (\<lambda>m c. let ip = strip_port (conn_client_addr c) in
     AList.update ip ((case map_of m ip of Some b \<Rightarrow> b | None \<Rightarrow> 0) + conn_bytes_in c + conn_bytes_out c) m) [] conns"

definition rate_of :: "int \<Rightarrow> rate_entry \<Rightarrow> int \<Rightarrow> real" where
  "rate_of now prev bytes = max 0 (of_int (bytes - re_bytes prev) / (of_int (now - re_t prev) / 1000))"

definition rate_step :: "int \<Rightarrow> (string \<times> rate_entry) list \<times> (string \<times> real) list \<Rightarrow> string \<times> int
    \<Rightarrow> (string \<times> rate_entry) list \<times> (string \<times> real) list" where
  "rate_step now p e = (let (st, rates) = p; (ip, bytes) = e in
     case map_of st ip of
       None \<Rightarrow> (AList.update ip \<lparr>re_t = now, re_bytes = bytes, re_rate = 0\<rparr> st, AList.update ip 0 rates)
     | Some prev \<Rightarrow>
         if now - re_t prev \<ge> 900
         then let rate = rate_of now prev bytes in
           (AList.update ip \<lparr>re_t = now, re_bytes = bytes, re_rate = rate\<rparr> st, AList.update ip rate rates)
         else (st, AList.update ip (re_rate prev) rates))"

definition current_rates :: "int \<Rightarrow> conn_ui list \<Rightarrow> (string \<times> rate_entry) list
    \<Rightarrow> (string \<times> rate_entry) list \<times> (string \<times> real) list" where
  "current_rates now conns st = (let m = by_ip conns; (st', rates) = foldl (rate_step now) (st, []) m in
     (filter (\<lambda>(ip, _). map_of m ip \<noteq> None) st', rates))"

section \<open>Clients\<close>

record client_row =
  cl_ip :: string
  cl_live :: bool
  cl_session_start :: "int option"
  cl_total_in :: int
  cl_total_out :: int
  cl_conns :: int
  cl_first_seen :: int
  cl_last_seen :: int

definition peer_row :: "peer_stat \<Rightarrow> client_row" where
  "peer_row p = \<lparr>cl_ip = peer_ip p, cl_live = False, cl_session_start = None, cl_total_in = peer_total_bytes_in p,
     cl_total_out = peer_total_bytes_out p, cl_conns = peer_total_conns p, cl_first_seen = peer_first_seen p,
     cl_last_seen = peer_last_seen p\<rparr>"

definition new_row :: "string \<Rightarrow> conn_ui \<Rightarrow> client_row" where
  "new_row ip c = \<lparr>cl_ip = ip, cl_live = False, cl_session_start = None, cl_total_in = 0, cl_total_out = 0,
     cl_conns = 1, cl_first_seen = conn_started_at c, cl_last_seen = conn_started_at c\<rparr>"

definition live_row :: "int \<Rightarrow> conn_ui \<Rightarrow> client_row \<Rightarrow> client_row" where
  "live_row now c r = r\<lparr>cl_live := True,
     cl_session_start := Some (case cl_session_start r of None \<Rightarrow> conn_started_at c | Some t \<Rightarrow> min t (conn_started_at c)),
     cl_total_in := cl_total_in r + conn_bytes_in c, cl_total_out := cl_total_out r + conn_bytes_out c,
     cl_last_seen := now\<rparr>"

definition add_conn :: "int \<Rightarrow> (string \<times> client_row) list \<Rightarrow> conn_ui \<Rightarrow> (string \<times> client_row) list" where
  "add_conn now m c = (let ip = strip_port (conn_client_addr c) in
     AList.update ip (live_row now c (case map_of m ip of Some r \<Rightarrow> r | None \<Rightarrow> new_row ip c)) m)"

definition client_cmp :: "client_row \<Rightarrow> client_row \<Rightarrow> int" where
  "client_cmp a b = (if cl_live a \<noteq> cl_live b then (if cl_live a then -1 else 1) else cl_last_seen b - cl_last_seen a)"

definition merge_clients :: "int \<Rightarrow> peer_stat list \<Rightarrow> conn_ui list \<Rightarrow> client_row list" where
  "merge_clients now peers conns =
     (let m = foldl (\<lambda>m p. AList.update (peer_ip p) (peer_row p) m) [] peers in
      js_sort client_cmp (map snd (foldl (add_conn now) m conns)))"

section \<open>What the tables show\<close>

definition session_order :: "ui_status \<Rightarrow> conn_ui list" where
  "session_order st = js_sort (\<lambda>a b. conn_started_at a - conn_started_at b)
     (case st_connections st of Some cs \<Rightarrow> cs | None \<Rightarrow> [])"

definition lan_tag :: "string \<Rightarrow> string \<Rightarrow> bool" where
  "lan_tag ip self_ip \<longleftrightarrow> is_private_ip ip \<or> (self_ip \<noteq> '''' \<and> ip = self_ip)"

datatype player_link = PlayerLink string string | PlayerName string | PlayerNone

definition player_cell :: "conn_ui \<Rightarrow> player_link" where
  "player_cell c = (case conn_player_name c of
     Some n \<Rightarrow> if n = '''' then PlayerNone else (case conn_player_uuid c of
        Some u \<Rightarrow> if u = '''' then PlayerName n else PlayerLink n u | None \<Rightarrow> PlayerName n)
   | None \<Rightarrow> PlayerNone)"

record session_line =
  sc_ip :: string
  sc_lan :: bool
  sc_port :: string
  sc_player :: player_link
  sc_tunnel :: string
  sc_duration :: string
  sc_received :: string
  sc_sent :: string
  sc_ping :: string

definition session_cells :: "int \<Rightarrow> string \<Rightarrow> conn_ui \<Rightarrow> session_line" where
  "session_cells now self_ip c = (let (ip, port) = split_addr (conn_client_addr c) in
     \<lparr>sc_ip = ip, sc_lan = lan_tag ip self_ip, sc_port = (if port = '''' then em_dash else port),
      sc_player = player_cell c, sc_tunnel = (if conn_tunnel_name c = '''' then em_dash else conn_tunnel_name c),
      sc_duration = fmt_elapsed (now - conn_started_at c), sc_received = fmt_bytes (of_int (conn_bytes_out c)),
      sc_sent = fmt_bytes (of_int (conn_bytes_in c)),
      sc_ping = (if has_rtt (conn_rtt_ms c) then fmt_rtt (conn_rtt_ms c) else em_dash)\<rparr>)"

record client_line =
  cc_ip :: string
  cc_lan :: bool
  cc_live :: bool
  cc_rate :: string
  cc_session :: string
  cc_down :: string
  cc_up :: string
  cc_conns :: int
  cc_first :: string
  cc_last :: string

definition client_cells :: "int \<Rightarrow> string \<Rightarrow> (string \<times> real) list \<Rightarrow> client_row \<Rightarrow> client_line" where
  "client_cells now self_ip rates cl =
     \<lparr>cc_ip = cl_ip cl, cc_lan = lan_tag (cl_ip cl) self_ip, cc_live = cl_live cl,
      cc_rate = (if cl_live cl then fmt_rate (case map_of rates (cl_ip cl) of Some r \<Rightarrow> r | None \<Rightarrow> 0) else em_dash),
      cc_session = (case cl_session_start cl of
          Some t \<Rightarrow> if cl_live cl \<and> t \<noteq> 0 then fmt_elapsed (now - t) else em_dash | None \<Rightarrow> em_dash),
      cc_down = fmt_bytes (of_int (cl_total_out cl)), cc_up = fmt_bytes (of_int (cl_total_in cl)), cc_conns = cl_conns cl,
      cc_first = fmt_relative now (cl_first_seen cl),
      cc_last = (if cl_live cl then ''now'' else fmt_relative now (cl_last_seen cl))\<rparr>"

definition all_time_sub :: "ui_status \<Rightarrow> string option" where
  "all_time_sub st = (let total = st_all_time_bytes_in st + st_all_time_bytes_out st in
     if total > 0 then Some (''all-time '' @ fmt_bytes (of_int total)) else None)"

record strip_cells =
  ls_colour :: string
  ls_title :: string
  ls_headline :: string
  ls_uptime :: string
  ls_second :: "string \<times> string"
  ls_traffic :: string
  ls_down :: string
  ls_up :: string
  ls_last :: "string \<times> string \<times> string option"

definition link_strip :: "int \<Rightarrow> ui_status \<Rightarrow> strip_cells" where
  "link_strip now st = (let is_agent = (st_role st = ''agent'');
       up = (if is_agent then st_link_up st else st_agent_connected st) in
     \<lparr>ls_colour = (if up then ''good'' else if is_agent then ''bad'' else ''warn''),
      ls_title = (if is_agent then ''Gateway link'' else ''Agent link''),
      ls_headline = (if is_agent then (if up then ''Connected to gateway'' else ''Reconnecting'' @ ellipsis)
        else (if up then ''Agent connected'' else ''Waiting for agent'')),
      ls_uptime = (if st_link_up_since_ms st \<noteq> 0 then fmt_elapsed (now - st_link_up_since_ms st) else em_dash),
      ls_second = (if is_agent then (''Round trip'', if up then show_int (st_rtt_millis st) @ '' ms'' else em_dash)
        else (''Sessions'', show_int (st_link_sessions st))),
      ls_traffic = fmt_bytes (of_int (st_link_bytes_in st + st_link_bytes_out st)),
      ls_down = fmt_bytes (of_int (if is_agent then st_link_bytes_out st else st_link_bytes_in st)),
      ls_up = fmt_bytes (of_int (if is_agent then st_link_bytes_in st else st_link_bytes_out st)),
      ls_last = (if is_agent then (''Sessions'', show_int (st_link_sessions st), all_time_sub st)
        else (''All-time link'', (case all_time_sub st of Some t \<Rightarrow> t | None \<Rightarrow> em_dash), None))\<rparr>)"

section \<open>The Activity filter\<close>

definition levels :: "string list" where
  "levels = [''debug'', ''info'', ''warn'', ''error'']"

text \<open>\<open>indexOf\<close>: \<open>-1\<close> when absent.\<close>

definition level_rank :: "string \<Rightarrow> int" where
  "level_rank l = (case find_index (\<lambda>x. x = l) levels of Some i \<Rightarrow> int i | None \<Rightarrow> -1)"

definition activity_filter :: "string \<Rightarrow> string \<Rightarrow> log_entry list \<Rightarrow> log_entry list" where
  "activity_filter level query entries = (let q = js_lower (js_trim query);
       min_rank = (if level = ''all'' then -1 else level_rank level) in
     filter (\<lambda>e. \<not> (min_rank \<ge> 0 \<and> level_rank (js_lower (log_level e)) < min_rank)
        \<and> \<not> (q \<noteq> '''' \<and> \<not> sublist q (js_lower (log_msg e @ '' '' @ log_attrs e)))) entries)"

section \<open>Lemmas\<close>

definition conn_ip :: "conn_ui \<Rightarrow> string" where
  "conn_ip c = strip_port (conn_client_addr c)"

definition conn_bytes :: "conn_ui \<Rightarrow> int" where
  "conn_bytes c = conn_bytes_in c + conn_bytes_out c"

definition bytes_of :: "string \<Rightarrow> conn_ui list \<Rightarrow> int" where
  "bytes_of ip conns = sum_list (map conn_bytes (filter (\<lambda>c. conn_ip c = ip) conns))"

lemma bytes_of_none: "ip \<notin> conn_ip ` set cs \<Longrightarrow> bytes_of ip cs = 0"
proof -
  assume "ip \<notin> conn_ip ` set cs"
  then have "filter (\<lambda>c. conn_ip c = ip) cs = []" by (auto simp: filter_empty_conv)
  then show ?thesis by (simp add: bytes_of_def)
qed

lemma bytes_of_snoc: "bytes_of ip (cs @ [c]) = bytes_of ip cs + (if conn_ip c = ip then conn_bytes c else 0)"
  by (simp add: bytes_of_def)

lemma by_ip_snoc:
  "by_ip (cs @ [c]) = AList.update (conn_ip c)
     ((case map_of (by_ip cs) (conn_ip c) of Some b \<Rightarrow> b | None \<Rightarrow> 0) + conn_bytes c) (by_ip cs)"
  by (simp add: by_ip_def conn_ip_def conn_bytes_def Let_def add.assoc)

lemma by_ip_lookup:
  "map_of (by_ip conns) ip = (if ip \<in> conn_ip ` set conns then Some (bytes_of ip conns) else None)
    \<and> distinct (map fst (by_ip conns))"
proof (induction conns arbitrary: ip rule: rev_induct)
  case (snoc c cs)
  have "distinct (map fst (by_ip (cs @ [c])))"
    unfolding by_ip_snoc by (rule distinct_update) (use snoc.IH in blast)
  moreover have "map_of (by_ip cs) k = (if k \<in> conn_ip ` set cs then Some (bytes_of k cs) else None)" for k
    using snoc.IH by blast
  ultimately show ?case
    by (simp add: by_ip_snoc bytes_of_snoc update_conv' bytes_of_none)
qed (simp add: by_ip_def)

lemma rate_step_other:
  "k \<noteq> fst e \<Longrightarrow> map_of (fst (rate_step now p e)) k = map_of (fst p) k
     \<and> map_of (snd (rate_step now p e)) k = map_of (snd p) k"
  by (cases p; cases e) (auto simp: rate_step_def Let_def update_conv' split: option.splits)

lemma rate_steps_other:
  "k \<notin> fst ` set es \<Longrightarrow> map_of (fst (foldl (rate_step now) p es)) k = map_of (fst p) k
     \<and> map_of (snd (foldl (rate_step now) p es)) k = map_of (snd p) k"
  by (induction es arbitrary: p) (auto simp: rate_step_other)

text \<open>The outcome for one address depends on that address alone.\<close>

definition rate_entry_of :: "int \<Rightarrow> rate_entry option \<Rightarrow> int \<Rightarrow> rate_entry" where
  "rate_entry_of now prev bytes = (case prev of
     None \<Rightarrow> \<lparr>re_t = now, re_bytes = bytes, re_rate = 0\<rparr>
   | Some r \<Rightarrow> if now - re_t r \<ge> 900 then \<lparr>re_t = now, re_bytes = bytes, re_rate = rate_of now r bytes\<rparr> else r)"

lemma rate_step_own:
  "map_of (fst (rate_step now p (ip, b))) ip = Some (rate_entry_of now (map_of (fst p) ip) b)
    \<and> map_of (snd (rate_step now p (ip, b))) ip = Some (re_rate (rate_entry_of now (map_of (fst p) ip) b))"
  by (cases p) (auto simp: rate_step_def rate_entry_of_def Let_def update_conv' split: option.splits)

lemma rate_steps_own:
  assumes "distinct (map fst es)" and "(ip, b) \<in> set es"
  shows "map_of (fst (foldl (rate_step now) p es)) ip = Some (rate_entry_of now (map_of (fst p) ip) b)
    \<and> map_of (snd (foldl (rate_step now) p es)) ip = Some (re_rate (rate_entry_of now (map_of (fst p) ip) b))"
  using assms
proof (induction es arbitrary: p)
  case (Cons e es)
  show ?case
  proof (cases "e = (ip, b)")
    case True
    with Cons.prems have "ip \<notin> fst ` set es" by auto
    with True rate_step_own [of now p ip b] rate_steps_other [of ip es now "rate_step now p e"] show ?thesis by simp
  next
    case False
    with Cons.prems have "(ip, b) \<in> set es" "fst e \<noteq> ip" by (auto simp: image_iff)
    with Cons.IH [of "rate_step now p e"] Cons.prems rate_step_other [of ip e now p] show ?thesis by auto
  qed
qed simp

lemma map_of_filter_fst: "map_of (filter (\<lambda>(k, _). P k) xs) k = (if P k then map_of xs k else None)"
  by (induction xs) auto

lemma current_rates_lookup:
  "map_of (fst (current_rates now conns st)) ip
     = (if ip \<in> conn_ip ` set conns then Some (rate_entry_of now (map_of st ip) (bytes_of ip conns)) else None)"
  "map_of (snd (current_rates now conns st)) ip
     = (if ip \<in> conn_ip ` set conns then Some (re_rate (rate_entry_of now (map_of st ip) (bytes_of ip conns))) else None)"
proof -
  let ?p = "foldl (rate_step now) (st, []) (by_ip conns)"
  have d: "distinct (map fst (by_ip conns))" using by_ip_lookup by blast
  have eq: "current_rates now conns st = (filter (\<lambda>(ip, _). map_of (by_ip conns) ip \<noteq> None) (fst ?p), snd ?p)"
    by (simp add: current_rates_def Let_def split: prod.splits)
  show "map_of (fst (current_rates now conns st)) ip
     = (if ip \<in> conn_ip ` set conns then Some (rate_entry_of now (map_of st ip) (bytes_of ip conns)) else None)"
  proof (cases "ip \<in> conn_ip ` set conns")
    case True
    then have "(ip, bytes_of ip conns) \<in> set (by_ip conns)"
      using by_ip_lookup [of conns ip] map_of_SomeD by fastforce
    from rate_steps_own [OF d this, of now "(st, [])"] True by_ip_lookup [of conns ip] show ?thesis
      unfolding eq fst_conv map_of_filter_fst by simp
  next
    case False
    with by_ip_lookup [of conns ip] show ?thesis
      unfolding eq fst_conv map_of_filter_fst by simp
  qed
  show "map_of (snd (current_rates now conns st)) ip
     = (if ip \<in> conn_ip ` set conns then Some (re_rate (rate_entry_of now (map_of st ip) (bytes_of ip conns))) else None)"
  proof (cases "ip \<in> conn_ip ` set conns")
    case True
    then have "(ip, bytes_of ip conns) \<in> set (by_ip conns)"
      using by_ip_lookup [of conns ip] map_of_SomeD by fastforce
    from rate_steps_own [OF d this, of now "(st, [])"] True show ?thesis unfolding eq by simp
  next
    case False
    then have "ip \<notin> fst ` set (by_ip conns)"
      using by_ip_lookup [of conns ip] by (simp add: map_of_eq_None_iff)
    from rate_steps_other [OF this, of now "(st, [])"] False show ?thesis unfolding eq by simp
  qed
qed

text \<open>Sums over an updated association list.\<close>

lemma sum_update:
  fixes f :: "'v \<Rightarrow> int"
  assumes "distinct (map fst m)"
  shows "sum_list (map (f \<circ> snd) (AList.update k v m))
    = sum_list (map (f \<circ> snd) m) + f v - (case map_of m k of Some w \<Rightarrow> f w | None \<Rightarrow> 0)"
  using assms by (induction m) (auto split: option.splits)

definition keyed :: "(string \<times> client_row) list \<Rightarrow> bool" where
  "keyed m \<longleftrightarrow> distinct (map fst m) \<and> (\<forall>(k, r) \<in> set m. cl_ip r = k)"

lemma keyed_update: "keyed m \<Longrightarrow> cl_ip r = k \<Longrightarrow> keyed (AList.update k r m)"
  unfolding keyed_def by (auto simp: distinct_update in_update_iff split: if_splits)

lemma update_fresh: "k \<notin> fst ` set m \<Longrightarrow> AList.update k v m = m @ [(k, v)]"
  by (induction m) auto

lemma peers_entries:
  "distinct (map peer_ip peers) \<Longrightarrow>
     foldl (\<lambda>m p. AList.update (peer_ip p) (peer_row p) m) [] peers = map (\<lambda>p. (peer_ip p, peer_row p)) peers"
proof (induction peers rule: rev_induct)
  case (snoc p ps)
  then show ?case by (simp add: update_fresh image_image)
qed simp

text \<open>What the connections do to a keyed map of rows, given how many bytes a connection carries in
  the direction \<open>f\<close> of a row.\<close>

definition row_or_new :: "(string \<times> client_row) list \<Rightarrow> conn_ui \<Rightarrow> client_row" where
  "row_or_new m c = (case map_of m (conn_ip c) of Some r \<Rightarrow> r | None \<Rightarrow> new_row (conn_ip c) c)"

lemma add_conn_eq: "add_conn now m c = AList.update (conn_ip c) (live_row now c (row_or_new m c)) m"
  unfolding add_conn_def row_or_new_def conn_ip_def Let_def by (rule refl)

lemma row_or_new_ip: "keyed m \<Longrightarrow> cl_ip (row_or_new m c) = conn_ip c"
  unfolding keyed_def row_or_new_def by (auto simp: new_row_def dest: map_of_SomeD split: option.splits)

lemma keyed_add_conn: "keyed m \<Longrightarrow> keyed (add_conn now m c)"
  unfolding add_conn_eq by (rule keyed_update) (simp_all add: live_row_def row_or_new_ip)

lemma keyed_add_conns: "keyed m \<Longrightarrow> keyed (foldl (add_conn now) m cs)"
  by (induction cs arbitrary: m) (simp_all add: keyed_add_conn)

lemma total_in_add_conns:
  "keyed m \<Longrightarrow> sum_list (map (cl_total_in \<circ> snd) (foldl (add_conn now) m cs))
     = sum_list (map (cl_total_in \<circ> snd) m) + sum_list (map conn_bytes_in cs)"
proof (induction cs arbitrary: m)
  case (Cons c cs)
  have "sum_list (map (cl_total_in \<circ> snd) (add_conn now m c))
      = sum_list (map (cl_total_in \<circ> snd) m) + conn_bytes_in c"
    using Cons.prems unfolding add_conn_eq keyed_def
    by (simp add: sum_update live_row_def row_or_new_def new_row_def split: option.splits)
  with Cons.IH [OF keyed_add_conn [OF Cons.prems], of now c] show ?case by (simp add: comp_def)
qed simp

lemma total_out_add_conns:
  "keyed m \<Longrightarrow> sum_list (map (cl_total_out \<circ> snd) (foldl (add_conn now) m cs))
     = sum_list (map (cl_total_out \<circ> snd) m) + sum_list (map conn_bytes_out cs)"
proof (induction cs arbitrary: m)
  case (Cons c cs)
  have "sum_list (map (cl_total_out \<circ> snd) (add_conn now m c))
      = sum_list (map (cl_total_out \<circ> snd) m) + conn_bytes_out c"
    using Cons.prems unfolding add_conn_eq keyed_def
    by (simp add: sum_update live_row_def row_or_new_def new_row_def split: option.splits)
  with Cons.IH [OF keyed_add_conn [OF Cons.prems], of now c] show ?case by (simp add: comp_def)
qed simp

lemma live_add_conns:
  "keyed m \<Longrightarrow> \<forall>(k, r) \<in> set m. cl_live r \<longleftrightarrow> k \<in> A \<Longrightarrow>
     (\<forall>(k, r) \<in> set (foldl (add_conn now) m cs). cl_live r \<longleftrightarrow> k \<in> A \<union> conn_ip ` set cs)
   \<and> fst ` set (foldl (add_conn now) m cs) = fst ` set m \<union> conn_ip ` set cs"
proof (induction cs arbitrary: m A)
  case (Cons c cs)
  have "\<forall>(k, r) \<in> set (add_conn now m c). cl_live r \<longleftrightarrow> k \<in> insert (conn_ip c) A"
    using Cons.prems unfolding add_conn_eq keyed_def
    by (auto simp: in_update_iff live_row_def split: if_splits)
  with Cons.IH [OF keyed_add_conn [OF Cons.prems(1)], of now c "insert (conn_ip c) A"]
  show ?case by (simp add: add_conn_eq dom_update)
qed auto

interpretation client_order: comparator client_cmp "\<lambda>_. True"
proof -
  have eq: "client_cmp = then_cmp (\<lambda>a b. (if cl_live a then 0 else 1) - (if cl_live b then 0 else 1))
      (\<lambda>a b. cl_last_seen b - cl_last_seen a)"
    by (auto simp: fun_eq_iff client_cmp_def then_cmp_def)
  show "comparator client_cmp (\<lambda>_. True)"
    unfolding eq by (intro comparator_then comparator_key comparator_key_desc)
qed

interpretation session_order: key_comparator "\<lambda>a b. conn_started_at a - conn_started_at b" conn_started_at
  by unfold_locales simp

lemma sorted_clients:
  "sorted_wrt (\<lambda>a b. (cl_live b \<longrightarrow> cl_live a) \<and> (cl_live a = cl_live b \<longrightarrow> cl_last_seen b \<le> cl_last_seen a))
     (js_sort client_cmp rows)"
proof (rule sorted_wrt_mono_rel [OF _ client_order.sorted_js_sort])
  show "(cl_live b \<longrightarrow> cl_live a) \<and> (cl_live a = cl_live b \<longrightarrow> cl_last_seen b \<le> cl_last_seen a)"
    if "client_cmp a b \<le> 0" for a b
    using that by (auto simp: client_cmp_def split: if_splits)
qed simp

section \<open>Properties\<close>

text \<open>C6. The rate tracker holds exactly the addresses that have a live connection, and each address's
  rate depends only on its own last entry: zero when the address is new, the last rate within
  900 ms, else the bytes gained per second, never negative.\<close>

theorem rates_per_address:
  assumes "\<forall>(k, r) \<in> set st. 0 \<le> re_rate r"
  shows "map_of (fst (current_rates now conns st)) ip
       = (if ip \<in> conn_ip ` set conns then Some (rate_entry_of now (map_of st ip) (bytes_of ip conns)) else None)
    \<and> map_of (snd (current_rates now conns st)) ip = map_option re_rate (map_of (fst (current_rates now conns st)) ip)
    \<and> (\<forall>r. map_of (snd (current_rates now conns st)) ip = Some r \<longrightarrow> 0 \<le> r)"
proof -
  have "0 \<le> re_rate (rate_entry_of now (map_of st ip) b)" for b
    using assms by (auto simp: rate_entry_of_def rate_of_def dest: map_of_SomeD split: option.splits)
  then show ?thesis by (simp add: current_rates_lookup)
qed

definition sample_conn :: "int \<Rightarrow> int \<Rightarrow> conn_ui" where
  "sample_conn i bytes = \<lparr>conn_id = i, conn_agent_id = None, conn_tunnel_name = [], conn_client_addr = ''1.2.3.4:'' @ show_int i,
     conn_started_at = 0, conn_bytes_in = bytes, conn_bytes_out = 0, conn_player_name = None, conn_player_uuid = None, conn_rtt_ms = 0\<rparr>"

theorem rates_per_address_witness:
  "map_of (snd (current_rates 2000 [sample_conn 1 5000] [(''1.2.3.4'', \<lparr>re_t = 1000, re_bytes = 1000, re_rate = 0\<rparr>)])) ''1.2.3.4'' = Some 4000"
proof -
  have ip: "conn_ip (sample_conn 1 5000) = ''1.2.3.4''"
    by (simp add: conn_ip_def sample_conn_def js_simps) code_simp
  have "bytes_of ''1.2.3.4'' [sample_conn 1 5000] = 5000"
    by (simp add: bytes_of_def ip) (simp add: conn_bytes_def sample_conn_def)
  with ip rates_per_address [of "[(''1.2.3.4'', \<lparr>re_t = 1000, re_bytes = 1000, re_rate = 0\<rparr>)]" 2000 "[sample_conn 1 5000]" "''1.2.3.4''"]
  show ?thesis by (simp add: rate_entry_of_def rate_of_def)
qed

text \<open>C5. The client table has one row per address ever seen or connected now; no byte is lost or
  counted twice (the totals are the peers' plus the live connections'); a row is live exactly when
  the address has a connection; live rows come first, each group most recently seen first.\<close>

theorem merge_clients_correct:
  assumes "distinct (map peer_ip peers)"
  shows "distinct (map cl_ip (merge_clients now peers conns))
    \<and> cl_ip ` set (merge_clients now peers conns) = peer_ip ` set peers \<union> conn_ip ` set conns
    \<and> sum_list (map cl_total_in (merge_clients now peers conns))
        = sum_list (map peer_total_bytes_in peers) + sum_list (map conn_bytes_in conns)
    \<and> sum_list (map cl_total_out (merge_clients now peers conns))
        = sum_list (map peer_total_bytes_out peers) + sum_list (map conn_bytes_out conns)
    \<and> (\<forall>r \<in> set (merge_clients now peers conns). cl_live r \<longleftrightarrow> cl_ip r \<in> conn_ip ` set conns)
    \<and> sorted_wrt (\<lambda>a b. (cl_live b \<longrightarrow> cl_live a) \<and> (cl_live a = cl_live b \<longrightarrow> cl_last_seen b \<le> cl_last_seen a))
        (merge_clients now peers conns)"
proof -
  let ?base = "map (\<lambda>p. (peer_ip p, peer_row p)) peers"
  let ?m = "foldl (add_conn now) ?base conns"
  have res: "merge_clients now peers conns = js_sort client_cmp (map snd ?m)"
    by (simp add: merge_clients_def peers_entries [OF assms] Let_def)
  have k0: "keyed ?base" using assms by (auto simp: keyed_def peer_row_def comp_def)
  then have k: "keyed ?m" by (rule keyed_add_conns)
  have live: "\<forall>(k, r) \<in> set ?m. cl_live r \<longleftrightarrow> k \<in> conn_ip ` set conns"
    and dom: "fst ` set ?m = peer_ip ` set peers \<union> conn_ip ` set conns"
    using live_add_conns [OF k0, of "{}" now conns] by (auto simp: peer_row_def image_image)
  have ips: "map cl_ip (map snd ?m) = map fst ?m"
    using k by (auto simp: keyed_def)
  then have ips_set: "cl_ip ` set (map snd ?m) = fst ` set ?m" by (metis list.set_map)
  have d: "distinct (map cl_ip (map snd ?m))" using k unfolding ips keyed_def by blast
  have perm: "mset (merge_clients now peers conns) = mset (map snd ?m)" by (simp add: res)
  have sums: "sum_list (map f (merge_clients now peers conns)) = sum_list (map (f \<circ> snd) ?m)" for f :: "client_row \<Rightarrow> int"
  proof -
    have "sum_mset (mset (map f (merge_clients now peers conns))) = sum_mset (mset (map f (map snd ?m)))"
      unfolding mset_map [of f] perm ..
    then show ?thesis by (simp only: sum_mset_sum_list map_map)
  qed
  have set: "set (merge_clients now peers conns) = set (map snd ?m)" by (simp add: res)
  have "distinct (map cl_ip (merge_clients now peers conns))"
    using d perm by (metis mset_eq_imp_distinct_iff mset_map)
  moreover have "cl_ip ` set (merge_clients now peers conns) = peer_ip ` set peers \<union> conn_ip ` set conns"
    unfolding set ips_set dom ..
  moreover have "sum_list (map cl_total_in (merge_clients now peers conns))
        = sum_list (map peer_total_bytes_in peers) + sum_list (map conn_bytes_in conns)"
    unfolding sums total_in_add_conns [OF k0] by (simp add: comp_def peer_row_def)
  moreover have "sum_list (map cl_total_out (merge_clients now peers conns))
        = sum_list (map peer_total_bytes_out peers) + sum_list (map conn_bytes_out conns)"
    unfolding sums total_out_add_conns [OF k0] by (simp add: comp_def peer_row_def)
  moreover have "\<forall>r \<in> set (merge_clients now peers conns). cl_live r \<longleftrightarrow> cl_ip r \<in> conn_ip ` set conns"
    unfolding set using live k by (force simp: keyed_def)
  moreover have "sorted_wrt (\<lambda>a b. (cl_live b \<longrightarrow> cl_live a) \<and> (cl_live a = cl_live b \<longrightarrow> cl_last_seen b \<le> cl_last_seen a))
        (merge_clients now peers conns)"
    unfolding res by (rule sorted_clients)
  ultimately show ?thesis by blast
qed

theorem merge_clients_correct_witness:
  "sum_list (map cl_total_in (merge_clients 9
     [\<lparr>peer_ip = ''1.2.3.4'', peer_first_seen = 1, peer_last_seen = 2, peer_total_bytes_in = 10, peer_total_bytes_out = 0, peer_total_conns = 1\<rparr>]
     [sample_conn 1 5, sample_conn 2 7])) = 22"
  using merge_clients_correct [of "[\<lparr>peer_ip = ''1.2.3.4'', peer_first_seen = 1, peer_last_seen = 2,
      peer_total_bytes_in = 10, peer_total_bytes_out = 0, peer_total_conns = 1\<rparr>]" 9 "[sample_conn 1 5, sample_conn 2 7]"]
  by (simp add: sample_conn_def)

text \<open>A client whose address has no peer record yet shows one connection however many it has open:
  only the first creates the row, and later ones do not count.\<close>

theorem new_client_conns:
  assumes "conns \<noteq> []" and "\<forall>c \<in> set conns. conn_ip c = ip"
  shows "map cl_conns (merge_clients now [] conns) = [1]"
proof -
  obtain c cs where c: "conns = c # cs" using assms(1) by (cases conns) auto
  have ex: "\<exists>r'. foldl (add_conn now) [(ip, r)] cs = [(ip, r')] \<and> cl_conns r' = cl_conns r"
    if "\<forall>c \<in> set cs. conn_ip c = ip" for r
    using that
  proof (induction cs arbitrary: r)
    case (Cons d ds)
    have "add_conn now [(ip, r)] d = [(ip, live_row now d r)]"
      using Cons.prems by (simp add: add_conn_eq row_or_new_def)
    moreover have "cl_conns (live_row now d r) = cl_conns r" by (simp add: live_row_def)
    ultimately show ?case using Cons.IH [of "live_row now d r"] Cons.prems by simp
  qed simp
  have first: "add_conn now [] c = [(ip, live_row now c (new_row ip c))]"
    using assms(2) c by (simp add: add_conn_eq row_or_new_def)
  have one: "cl_conns (live_row now c (new_row ip c)) = 1" by (simp add: live_row_def new_row_def)
  from ex [of "live_row now c (new_row ip c)"] assms(2) c
  obtain r' where "foldl (add_conn now) [(ip, live_row now c (new_row ip c))] cs = [(ip, r')]" "cl_conns r' = 1"
    unfolding one by auto
  then have "foldl (add_conn now) [] conns = [(ip, r')]" "cl_conns r' = 1" unfolding c by (simp_all add: first)
  then show ?thesis by (simp add: merge_clients_def)
qed

theorem new_client_conns_witness:
  "map cl_conns (merge_clients 9 [] [sample_conn 1 5, (sample_conn 1 7)\<lparr>conn_id := 2\<rparr>]) = [1]"
  by (rule new_client_conns [of _ "conn_ip (sample_conn 1 5)"]) (simp_all add: conn_ip_def sample_conn_def)

end
