(* ===== verification/Activity_Screen.thy ===== *)
theory Activity_Screen
  imports Traffic Controls Feeds
begin

text \<open>
  The Activity screen (\<open>screens/Activity.tsx\<close>) around its log tail and filter, which are in \<open>Feeds\<close> and \<open>Traffic\<close>: the
  filters, following the newest line, copying what is shown, the export of diagnostics, and the lines. The height of the
  rendered lines, the clock and its formats are parameters.
\<close>

section \<open>The component\<close>

record activity =
  at_feed :: "log_entry feed"
  at_level :: string
  at_query :: string
  at_follow :: bool
  at_export :: string
  at_exports :: "nat list"            \<comment> \<open>exports in flight\<close>
  at_next :: nat
  at_scroll :: real                   \<comment> \<open>\<open>scrollTop\<close> of the log body\<close>
  at_copied :: "string list"          \<comment> \<open>what was handed to the clipboard\<close>

definition at_entries :: "activity \<Rightarrow> log_entry list" where
  "at_entries s = shown_events (at_feed s)"

definition at_filtered :: "activity \<Rightarrow> log_entry list" where
  "at_filtered s = activity_filter (at_level s) (at_query s) (at_entries s)"

text \<open>\<open>padEnd\<close> and \<open>trimEnd\<close>, and a line as it is copied.\<close>

definition pad_end :: "nat \<Rightarrow> string \<Rightarrow> string" where
  "pad_end n s = s @ replicate (n - length s) (CHR '' '')"

definition trim_end :: "string \<Rightarrow> string" where
  "trim_end s = rev (dropWhile is_space (rev s))"

definition fmt_line :: "(int \<Rightarrow> string) \<Rightarrow> log_entry \<Rightarrow> string" where
  "fmt_line iso_of e = trim_end (iso_of (log_time_ms e) @ '' '' @ pad_end 5 (js_upper (log_level e)) @ '' '' @ log_msg e @ '' '' @ log_attrs e)"

definition newline :: string where "newline = [CHR 0x0A]"

definition copy_all :: "(int \<Rightarrow> string) \<Rightarrow> activity \<Rightarrow> string" where
  "copy_all iso_of s = join_with newline (map (fmt_line iso_of) (at_filtered s))"

text \<open>\<open>height\<close> gives the scroll height of a list of lines. The effect of \<open>[filtered, follow]\<close> runs when the list was recomputed, which a new
  entry, level or query does, or when following is switched.\<close>

definition follow_effect :: "(log_entry list \<Rightarrow> real) \<Rightarrow> activity \<Rightarrow> activity" where
  "follow_effect height s = (if at_follow s then s\<lparr>at_scroll := height (at_filtered s)\<rparr> else s)"

definition activity_mount :: "(log_entry list \<Rightarrow> real) \<Rightarrow> activity" where
  "activity_mount height = follow_effect height \<lparr>at_feed = feed_send log_mount, at_level = ''info'', at_query = '''', at_follow = True, at_export = '''',
     at_exports = [], at_next = 0, at_scroll = 0, at_copied = []\<rparr>"

datatype activity_event =
    LogTick
  | LogAnswer nat "log_entry list"
  | LogFail nat
  | PickLevel string
  | TypeQuery string
  | CheckFollow bool
  | UserScroll real
  | CopyLines
  | ExportClick
  | ExportDone nat string            \<comment> \<open>the path, empty when the dialog was cancelled\<close>
  | ExportFail nat string

fun activity_step :: "(log_entry list \<Rightarrow> real) \<Rightarrow> (int \<Rightarrow> string) \<Rightarrow> activity \<Rightarrow> activity_event \<Rightarrow> activity" where
  "activity_step height iso_of s LogTick = s\<lparr>at_feed := feed_send (at_feed s)\<rparr>"
| "activity_step height iso_of s (LogAnswer i es) = (let s' = s\<lparr>at_feed := log_answer i es (at_feed s)\<rparr> in
     if feed_live i (at_feed s) \<and> es \<noteq> [] then follow_effect height s' else s')"
| "activity_step height iso_of s (LogFail i) = s\<lparr>at_feed := log_fail i (at_feed s)\<rparr>"
| "activity_step height iso_of s (PickLevel l) = (if l = at_level s then s else follow_effect height (s\<lparr>at_level := l\<rparr>))"
| "activity_step height iso_of s (TypeQuery q) = (if q = at_query s then s else follow_effect height (s\<lparr>at_query := q\<rparr>))"
| "activity_step height iso_of s (CheckFollow b) = (if b = at_follow s then s else follow_effect height (s\<lparr>at_follow := b\<rparr>))"
| "activity_step height iso_of s (UserScroll x) = s\<lparr>at_scroll := x\<rparr>"
| "activity_step height iso_of s CopyLines = s\<lparr>at_copied := at_copied s @ [copy_all iso_of s]\<rparr>"
| "activity_step height iso_of s ExportClick = s\<lparr>at_export := '''', at_exports := at_exports s @ [at_next s], at_next := at_next s + 1\<rparr>"
| "activity_step height iso_of s (ExportDone i path) = (if i \<notin> set (at_exports s) then s
     else let s' = s\<lparr>at_exports := removeAll i (at_exports s)\<rparr> in if path = '''' then s' else s'\<lparr>at_export := ''Saved to '' @ path\<rparr>)"
| "activity_step height iso_of s (ExportFail i err) = (if i \<notin> set (at_exports s) then s
     else s\<lparr>at_exports := removeAll i (at_exports s), at_export := err\<rparr>)"

section \<open>What is rendered\<close>

datatype activity_body = ServiceLogs | NoLines | LogBody "(string \<times> string \<times> string \<times> string) list"

definition level_color :: "string \<Rightarrow> string" where
  "level_color l = (case map_of [(''debug'', ''text-3''), (''info'', ''text-2''), (''warn'', ''warn''), (''error'', ''bad'')] (js_lower l) of
     Some c \<Rightarrow> c | None \<Rightarrow> ''text-2'')"

definition console_line :: "(int \<Rightarrow> string) \<Rightarrow> log_entry \<Rightarrow> string \<times> string \<times> string \<times> string" where
  "console_line time e = (time (log_time_ms e), level_color (log_level e), log_level e, log_msg e @ (if log_attrs e = '''' then '''' else '' '' @ log_attrs e))"

definition activity_body_of :: "bool \<Rightarrow> (int \<Rightarrow> string) \<Rightarrow> activity \<Rightarrow> activity_body" where
  "activity_body_of attached time s = (if at_filtered s = [] then (if attached \<and> at_entries s = [] then ServiceLogs else NoLines)
     else LogBody (map (console_line time) (at_filtered s)))"

definition level_options :: "(string \<times> string) list" where
  "level_options = (''all'', ''All levels'') # map (\<lambda>l. (l, js_upper (take 1 l) @ drop 1 l)) levels"

definition line_count :: "activity \<Rightarrow> string" where
  "line_count s = show_nat (length (at_filtered s)) @ '' of '' @ show_nat (length (at_entries s))"

section \<open>Lemmas\<close>

lemma follow_fields [simp]:
  "at_feed (follow_effect h s) = at_feed s" "at_level (follow_effect h s) = at_level s" "at_query (follow_effect h s) = at_query s"
  "at_follow (follow_effect h s) = at_follow s" "at_export (follow_effect h s) = at_export s" "at_exports (follow_effect h s) = at_exports s"
  "at_next (follow_effect h s) = at_next s" "at_copied (follow_effect h s) = at_copied s"
  "at_filtered (follow_effect h s) = at_filtered s" "at_entries (follow_effect h s) = at_entries s"
  by (simp_all add: follow_effect_def at_filtered_def at_entries_def)

lemma at_filtered_cong:
  "at_feed s = at_feed t \<Longrightarrow> at_level s = at_level t \<Longrightarrow> at_query s = at_query t \<Longrightarrow> at_filtered s = at_filtered t"
  by (simp add: at_filtered_def at_entries_def)

lemma shown_log_answer: "\<not> (feed_live i f \<and> es \<noteq> []) \<Longrightarrow> shown_events (log_answer i es f) = shown_events f"
  by (auto simp: log_answer_def shown_events_def feed_take_def)

text \<open>At most the cap is kept; while following, the body stands at the end of the lines that pass the filter unless the operator has scrolled
  since it was last put there.\<close>

definition activity_inv :: "(log_entry list \<Rightarrow> real) \<Rightarrow> activity \<times> bool \<Rightarrow> bool" where
  "activity_inv height = (\<lambda>(s, scrolled). length (at_entries s) \<le> log_cap \<and> (at_follow s \<and> \<not> scrolled \<longrightarrow> at_scroll s = height (at_filtered s))
     \<and> (\<forall>i \<in> set (at_exports s). i < at_next s))"

text \<open>The second component remembers a scroll of the operator until the body is put to the end again.\<close>

definition scroll_step :: "(log_entry list \<Rightarrow> real) \<Rightarrow> (int \<Rightarrow> string) \<Rightarrow> activity \<times> bool \<Rightarrow> activity_event \<Rightarrow> activity \<times> bool" where
  "scroll_step height iso_of = (\<lambda>(s, scrolled) e. (activity_step height iso_of s e,
     case e of UserScroll _ \<Rightarrow> True
     | LogAnswer i es \<Rightarrow> scrolled \<and> \<not> (feed_live i (at_feed s) \<and> es \<noteq> [])
     | PickLevel l \<Rightarrow> scrolled \<and> l = at_level s | TypeQuery q \<Rightarrow> scrolled \<and> q = at_query s | CheckFollow b \<Rightarrow> scrolled \<and> b = at_follow s
     | _ \<Rightarrow> scrolled))"

lemma fst_scroll_run: "fst (foldl (scroll_step height iso_of) p es) = foldl (activity_step height iso_of) (fst p) es"
  by (induction es arbitrary: p) (simp_all add: scroll_step_def split: prod.split)

lemma length_log_answer: "length (shown_events f) \<le> log_cap \<Longrightarrow> length (shown_events (log_answer i es f)) \<le> log_cap"
  by (simp add: log_answer_def shown_events_def feed_take_def length_last_n)

lemma activity_inv_step: "activity_inv height p \<Longrightarrow> activity_inv height (scroll_step height iso_of p e)"
proof -
  assume inv: "activity_inv height p"
  obtain s scrolled where p: "p = (s, scrolled)" by fastforce
  show ?thesis
  proof (cases e)
    case (LogAnswer i es)
    have "at_filtered (s\<lparr>at_feed := log_answer i es (at_feed s)\<rparr>) = at_filtered s" if "\<not> (feed_live i (at_feed s) \<and> es \<noteq> [])"
      using shown_log_answer [OF that] by (simp add: at_filtered_def at_entries_def)
    with inv p LogAnswer length_log_answer [of "at_feed s" i es] show ?thesis
      by (auto simp: activity_inv_def scroll_step_def follow_effect_def at_entries_def at_filtered_def Let_def)
  qed (use inv p in \<open>auto simp: activity_inv_def scroll_step_def follow_effect_def at_entries_def at_filtered_def shown_events_def feed_send_def
      log_fail_def feed_take_def Let_def\<close>)
qed

interpretation activity_screen: invariant_machine "scroll_step height iso_of" "activity_inv height" for height iso_of
  by unfold_locales (rule activity_inv_step)

lemma activity_inv_mount: "activity_inv height (activity_mount height, False)"
  by (simp add: activity_inv_def activity_mount_def follow_effect_def at_entries_def at_filtered_def feed_send_def log_mount_def shown_events_def)

lemma unscrolled: "\<forall>e \<in> set es. \<forall>x. e \<noteq> UserScroll x \<Longrightarrow> snd (foldl (scroll_step height iso_of) (s, False) es) = False"
proof (induction es rule: rev_induct)
  case (snoc e es)
  then show ?case by (cases "foldl (scroll_step height iso_of) (s, False) es"; cases e) (auto simp: scroll_step_def)
qed simp

section \<open>Properties\<close>


text \<open>A stricter level shows no line that a laxer one hides.\<close>

lemma level_filter_monotone:
  assumes "level_rank l \<le> level_rank l'" and "l' \<noteq> ''all''" and "l \<noteq> ''all''"
  shows "set (activity_filter l' q es) \<subseteq> set (activity_filter l q es)"
  using assms by (auto simp: activity_filter_def Let_def)


end
