(* ===== verification/Dossier.thy ===== *)
theory Dossier
  imports Data_Layer Widgets Line_Chart
begin

text \<open>
  The dossier of a player (\<open>PlayerDossier\<close> in \<open>screens/Players.tsx\<close>) as a machine over its range and its three polls, with what it
  shows; and the two tables of sessions, in the dossier and in the connection history of \<open>screens/Analytics.tsx\<close>, whose columns are
  the same where both have them. The clock and the locale's day label are parameters.
\<close>

section \<open>Answers to a poll\<close>

text \<open>What happens to a mounted polling hook whose key does not change.\<close>

datatype 'v reply = PollTick | PollAnswer nat 'v | PollFail nat

definition poll_reply :: "'v reply \<Rightarrow> 'v polled \<Rightarrow> 'v polled" where
  "poll_reply r s = poll_step s (case r of PollTick \<Rightarrow> Interval | PollAnswer i v \<Rightarrow> Resolve i v | PollFail i \<Rightarrow> Reject i)"

definition poll_ask :: "string option \<Rightarrow> 'v polled \<Rightarrow> 'v polled" where
  "poll_ask k s = poll_step s (Switch k)"

text \<open>A hook that is mounted, polls for \<open>k\<close>, and shows an answer to it.\<close>

definition polls_for :: "string option \<Rightarrow> 'v polled \<Rightarrow> bool" where
  "polls_for k s \<longleftrightarrow> po_mounted s \<and> po_key s = k \<and> poll_inv s"

lemma fetch_once_fields [simp]:
  "po_mounted (poll_fetch_once s) = po_mounted s" "po_key (poll_fetch_once s) = po_key s" "po_data (poll_fetch_once s) = po_data s"
  "po_cache (poll_fetch_once s) = po_cache s" "po_served (poll_fetch_once s) = po_served s"
  by (simp_all add: poll_fetch_once_def split: option.split)

lemma polls_for_reply:
  assumes "polls_for k s"
  shows "polls_for k (poll_reply r s)"
proof -
  have "poll_inv (poll_reply r s)" using assms unfolding poll_reply_def by (intro poll_inv_step) (simp add: polls_for_def)
  moreover have "po_mounted (poll_reply r s) = po_mounted s" "po_key (poll_reply r s) = po_key s"
    by (cases r; simp add: poll_reply_def poll_interval_def poll_resolve_def poll_reject_def Let_def split: option.split)+
  ultimately show ?thesis using assms by (simp add: polls_for_def)
qed

lemma polls_for_ask:
  assumes "polls_for k s"
  shows "polls_for k' (poll_ask k' s)"
proof -
  have "poll_inv (poll_ask k' s)" using assms unfolding poll_ask_def by (intro poll_inv_step) (simp add: polls_for_def)
  with assms show ?thesis by (simp add: polls_for_def poll_ask_def poll_effect_def poll_render_def)
qed

lemma polls_for_mount: "polls_for k (poll_mount cache k)"
  using poll_inv_mount [of cache k] by (simp add: polls_for_def poll_mount_def)

lemma polls_for_served: "polls_for k s \<Longrightarrow> po_data s = Some v \<Longrightarrow> \<exists>k'. k = Some k' \<and> (k', v) \<in> set (po_served s)"
  by (auto simp: polls_for_def poll_inv_def)

section \<open>Two tables of sessions\<close>

datatype session_cell =
    PlainCell string
  | LiveCell                                     \<comment> \<open>the badge\<close>
  | FaceCell "string option" string              \<comment> \<open>whose head, and the name\<close>
  | PlaceCell "nat list option" string           \<comment> \<open>the flag, and the address\<close>

definition started_cell :: "int \<Rightarrow> session_meta \<Rightarrow> session_cell" where
  "started_cell now s = PlainCell (fmt_last_seen now (sess_started_ms s) False)"

definition duration_cell :: "session_meta \<Rightarrow> session_cell" where
  "duration_cell s = (if sess_ended_ms s \<noteq> 0 then PlainCell (fmt_duration (sess_ended_ms s - sess_started_ms s)) else LiveCell)"

definition place_cell :: "session_meta \<Rightarrow> session_cell" where
  "place_cell s = PlaceCell (flag_emoji (Some (sess_cc s))) (sess_client_ip s)"

definition ping_cell :: "session_meta \<Rightarrow> session_cell" where
  "ping_cell s = PlainCell (if has_rtt (sess_rtt_avg s) then fmt_rtt (sess_rtt_avg s) else em_dash)"

definition face_cell :: "session_meta \<Rightarrow> session_cell" where
  "face_cell s = FaceCell (truthy (Some (sess_player_uuid s))) (or_dash (sess_player_name s))"

definition session_columns :: "int \<Rightarrow> (session_meta, session_cell) column list" where
  "session_columns now =
    [\<lparr>co_key = ''when'', co_header = ''Started'', co_right = False, co_pin = True, co_render = started_cell now\<rparr>,
     \<lparr>co_key = ''dur'', co_header = ''Duration'', co_right = False, co_pin = False, co_render = duration_cell\<rparr>,
     \<lparr>co_key = ''tunnel'', co_header = ''Tunnel'', co_right = False, co_pin = False, co_render = (\<lambda>s. PlainCell (or_dash (sess_tunnel_name s)))\<rparr>,
     \<lparr>co_key = ''ip'', co_header = ''From'', co_right = False, co_pin = False, co_render = place_cell\<rparr>,
     \<lparr>co_key = ''dl'', co_header = arrow_down, co_right = True, co_pin = False, co_render = (\<lambda>s. PlainCell (fmt_bytes (of_int (sess_bytes_out s))))\<rparr>,
     \<lparr>co_key = ''ul'', co_header = arrow_up, co_right = True, co_pin = False, co_render = (\<lambda>s. PlainCell (fmt_bytes (of_int (sess_bytes_in s))))\<rparr>,
     \<lparr>co_key = ''rtt'', co_header = ''Ping'', co_right = True, co_pin = False, co_render = ping_cell\<rparr>]"

definition history_columns :: "int \<Rightarrow> (session_meta, session_cell) column list" where
  "history_columns now =
    [\<lparr>co_key = ''when'', co_header = ''Started'', co_right = False, co_pin = True, co_render = started_cell now\<rparr>,
     \<lparr>co_key = ''player'', co_header = ''Player'', co_right = False, co_pin = False, co_render = face_cell\<rparr>,
     \<lparr>co_key = ''tunnel'', co_header = ''Tunnel'', co_right = False, co_pin = False, co_render = (\<lambda>s. PlainCell (or_dash (sess_tunnel_name s)))\<rparr>,
     \<lparr>co_key = ''ip'', co_header = ''From'', co_right = False, co_pin = False, co_render = place_cell\<rparr>,
     \<lparr>co_key = ''dur'', co_header = ''Duration'', co_right = True, co_pin = False, co_render = duration_cell\<rparr>,
     \<lparr>co_key = ''dl'', co_header = arrow_down, co_right = True, co_pin = False, co_render = (\<lambda>s. PlainCell (fmt_bytes (of_int (sess_bytes_out s))))\<rparr>,
     \<lparr>co_key = ''ul'', co_header = arrow_up, co_right = True, co_pin = False, co_render = (\<lambda>s. PlainCell (fmt_bytes (of_int (sess_bytes_in s))))\<rparr>,
     \<lparr>co_key = ''rtt'', co_header = ''Ping'', co_right = True, co_pin = False, co_render = ping_cell\<rparr>]"

text \<open>The cells of one session, by column.\<close>

definition cells_of :: "('r, 'c) column list \<Rightarrow> 'r \<Rightarrow> (string \<times> string \<times> 'c) list" where
  "cells_of cols r = map (\<lambda>c. (co_key c, co_header c, co_render c r)) cols"

definition session_table :: "int \<Rightarrow> session_meta list \<Rightarrow> session_cell table_view" where
  "session_table now ss = data_table (session_columns now) (\<lambda>s. show_int (sess_id s))
     (''No sessions recorded'', Some ''Connection history lands here as this player joins.'') ss"

definition history_table :: "int \<Rightarrow> string \<Rightarrow> session_meta list \<Rightarrow> session_cell table_view" where
  "history_table now cc ss = data_table (history_columns now) (\<lambda>s. show_int (sess_id s))
     (if cc \<noteq> '''' then ''No sessions from '' @ cc @ '' in this range'' else ''No sessions in this range'',
      Some (if cc \<noteq> '''' then ''Clear the country filter to see every session.'' else ''Connections recorded on Minecraft-aware tunnels appear here.'')) ss"

section \<open>The series of the charts\<close>

definition line_point_of :: "('p \<Rightarrow> int) \<Rightarrow> ('p \<Rightarrow> real) \<Rightarrow> 'p \<Rightarrow> line_point" where
  "line_point_of time val p = \<lparr>lp_t = time p, lp_v = Some (val p)\<rparr>"

definition or_none :: "'a list option \<Rightarrow> 'a list" where
  "or_none x = (case x of Some ys \<Rightarrow> ys | None \<Rightarrow> [])"

definition traffic_series :: "traffic_point list option \<Rightarrow> line_series list" where
  "traffic_series ps =
    [\<lparr>ls_points = map (line_point_of trf_t (\<lambda>p. of_int (trf_out p))) (or_none ps), ls_css_var = ''var(--dl)'', ls_label = arrow_down, ls_fill = True,
      ls_format = Some fmt_bytes\<rparr>,
     \<lparr>ls_points = map (line_point_of trf_t (\<lambda>p. of_int (trf_in p))) (or_none ps), ls_css_var = ''var(--ul)'', ls_label = arrow_up, ls_fill = False,
      ls_format = Some fmt_bytes\<rparr>]"

definition ping_series :: "latency_point list option \<Rightarrow> line_series list" where
  "ping_series ps = [\<lparr>ls_points = map (line_point_of lat_t lat_avg) (or_none ps), ls_css_var = ''var(--rtt)'', ls_label = ''RTT'', ls_fill = True,
      ls_format = Some fmt_rtt\<rparr>]"

lemma traffic_times: "line_times (traffic_series ps) = map trf_t (or_none ps) @ map trf_t (or_none ps)"
  by (simp add: line_times_def traffic_series_def line_point_of_def)

lemma ping_times: "line_times (ping_series ps) = map lat_t (or_none ps)"
  by (simp add: line_times_def ping_series_def line_point_of_def)

section \<open>What the dossier shows\<close>

definition loading_hint :: string where "loading_hint = ''loading'' @ ellipsis"

definition traffic_hint :: "traffic_point list option \<Rightarrow> string" where
  "traffic_hint ps = (if ps = None then loading_hint else ''No recorded traffic in this range.'')"

definition latency_hint :: "latency_point list option \<Rightarrow> string" where
  "latency_hint ps = (if ps = None then loading_hint
     else ''No latency recorded in this range '' @ em_dash @ '' needs a gateway build that reports per-connection RTT.'')"

definition dossier_traffic :: "string option \<Rightarrow> traffic_point list option \<Rightarrow> line_props \<times> string \<times> string" where
  "dossier_traffic name ps = (\<lparr>lc_series = traffic_series ps, lc_height = 200, lc_binary = True, lc_format_y = Some fmt_bytes, lc_stepped = False\<rparr>,
     case name of Some n \<Rightarrow> n @ [CHR 0x27] @ ''s traffic history'' | None \<Rightarrow> ''Player traffic history'', traffic_hint ps)"

definition dossier_latency :: "string option \<Rightarrow> latency_point list option \<Rightarrow> line_props \<times> string \<times> string" where
  "dossier_latency name ps = (\<lparr>lc_series = ping_series ps, lc_height = 160, lc_binary = False, lc_format_y = Some fmt_rtt, lc_stepped = False\<rparr>,
     case name of Some n \<Rightarrow> n @ [CHR 0x27] @ ''s latency history'' | None \<Rightarrow> ''Player latency history'', latency_hint ps)"

definition times_sign :: string where "times_sign = [CHR 0xC3, CHR 0x97]"

record identity_band =
  ib_name :: "string option"
  ib_badges :: "string list"
  ib_ping :: "(string \<times> string) option"
  ib_flag :: "nat list option"
  ib_notes :: "string list"
  ib_stats :: "string \<times> string \<times> string \<times> string option"

definition identity_band_of :: "int \<Rightarrow> bool \<Rightarrow> string \<Rightarrow> player_card option \<Rightarrow> identity_band" where
  "identity_band_of now live uuid crd = \<lparr>ib_name = map_option card_name crd,
     ib_badges = (if live then [''online''] else []) @ (case crd of Some c \<Rightarrow> if card_offline c then [''cracked / offline-mode''] else [] | None \<Rightarrow> []),
     ib_ping = (case crd of Some c \<Rightarrow> ping_badge (card_rtt_ms c) | None \<Rightarrow> None),
     ib_flag = (case crd of Some c \<Rightarrow> if card_last_cc c = '''' then None else flag_emoji (Some (card_last_cc c)) | None \<Rightarrow> None),
     ib_notes = (case crd of None \<Rightarrow> [] | Some c \<Rightarrow> (if card_offline c then [] else [short_uuid uuid])
        @ [''first seen '' @ fmt_last_seen now (card_first_seen c) False, ''last seen '' @ fmt_last_seen now (card_last_seen c) live]),
     ib_stats = dossier_stats crd\<rparr>"

definition name_rows :: "(int \<Rightarrow> string) \<Rightarrow> player_detail option \<Rightarrow> (string \<times> string) list option" where
  "name_rows day det = (case det of None \<Rightarrow> None
   | Some d \<Rightarrow> if det_names d = [] then None else Some (map (\<lambda>n. (nsp_name n, fmt_span day (nsp_first_seen n) (nsp_last_seen n))) (det_names d)))"

definition address_rows :: "int \<Rightarrow> player_detail option \<Rightarrow> (nat list option \<times> string \<times> string \<times> string) list option" where
  "address_rows now det = (case det of None \<Rightarrow> None
   | Some d \<Rightarrow> if det_ips d = [] then None
       else Some (map (\<lambda>p. (flag_emoji (Some (ips_cc p)), ips_ip p, show_int (ips_sessions p) @ times_sign, fmt_last_seen now (ips_last_seen p) False)) (det_ips d)))"

record dossier_page =
  dp_band :: identity_band
  dp_traffic :: "line_props \<times> string \<times> string"
  dp_latency :: "line_props \<times> string \<times> string"
  dp_count :: nat
  dp_sessions :: "session_cell table_view"
  dp_names :: "(string \<times> string) list option"
  dp_addresses :: "(nat list option \<times> string \<times> string \<times> string) list option"

datatype dossier_shown = PlayerNotFound | DossierPage dossier_page

section \<open>The machine\<close>

record dossier =
  ds_uuid :: string
  ds_range :: string
  ds_detail :: "player_detail polled"
  ds_history :: "traffic_point list polled"
  ds_latency :: "latency_point list polled"

definition history_use_key :: "string \<Rightarrow> string \<Rightarrow> string option" where
  "history_use_key uuid r = pu_key (use_player_history (Some uuid) (range_ms r) None)"

definition latency_use_key :: "string \<Rightarrow> string \<Rightarrow> string option" where
  "latency_use_key uuid r = pu_key (use_player_latency (Some uuid) (range_ms r) None)"

definition dossier_mount :: "(string \<times> player_detail) list \<Rightarrow> (string \<times> traffic_point list) list \<Rightarrow> (string \<times> latency_point list) list \<Rightarrow> string \<Rightarrow> dossier" where
  "dossier_mount dc hc lc uuid = \<lparr>ds_uuid = uuid, ds_range = ''7d'', ds_detail = poll_mount dc (pu_key (use_player_detail (Some uuid) None)),
     ds_history = poll_mount hc (history_use_key uuid ''7d''), ds_latency = poll_mount lc (latency_use_key uuid ''7d'')\<rparr>"

datatype dossier_event =
    DossierRange string
  | DetailReply "player_detail reply"
  | TrafficReply "traffic_point list reply"
  | LatencyReply "latency_point list reply"

fun dossier_step :: "dossier \<Rightarrow> dossier_event \<Rightarrow> dossier" where
  "dossier_step s (DossierRange r) = s\<lparr>ds_range := r, ds_history := poll_ask (history_use_key (ds_uuid s) r) (ds_history s),
     ds_latency := poll_ask (latency_use_key (ds_uuid s) r) (ds_latency s)\<rparr>"
| "dossier_step s (DetailReply r) = s\<lparr>ds_detail := poll_reply r (ds_detail s)\<rparr>"
| "dossier_step s (TrafficReply r) = s\<lparr>ds_history := poll_reply r (ds_history s)\<rparr>"
| "dossier_step s (LatencyReply r) = s\<lparr>ds_latency := poll_reply r (ds_latency s)\<rparr>"

definition dossier_shows :: "int \<Rightarrow> (int \<Rightarrow> string) \<Rightarrow> bool \<Rightarrow> dossier \<Rightarrow> dossier_shown" where
  "dossier_shows now day live s = (let det = po_data (ds_detail s); crd = map_option det_card det; name = map_option card_name crd in
     if dossier_missing det then PlayerNotFound
     else DossierPage \<lparr>dp_band = identity_band_of now live (ds_uuid s) crd, dp_traffic = dossier_traffic name (po_data (ds_history s)),
       dp_latency = dossier_latency name (po_data (ds_latency s)), dp_count = (case det of Some d \<Rightarrow> length (det_recent d) | None \<Rightarrow> 0),
       dp_sessions = session_table now (case det of Some d \<Rightarrow> det_recent d | None \<Rightarrow> []),
       dp_names = name_rows day det, dp_addresses = address_rows now det\<rparr>)"

definition dossier_inv :: "string \<Rightarrow> dossier \<Rightarrow> bool" where
  "dossier_inv uuid s \<longleftrightarrow> ds_uuid s = uuid \<and> polls_for (Some uuid) (ds_detail s)
    \<and> polls_for (history_use_key uuid (ds_range s)) (ds_history s) \<and> polls_for (latency_use_key uuid (ds_range s)) (ds_latency s)"

interpretation dossier: invariant_machine dossier_step "dossier_inv uuid" for uuid
proof
  show "dossier_inv uuid (dossier_step s e)" if "dossier_inv uuid s" for s e
    using that by (cases e) (auto simp: dossier_inv_def intro: polls_for_reply polls_for_ask)
qed

lemma dossier_inv_mount: "dossier_inv uuid (dossier_mount dc hc lc uuid)"
  by (simp add: dossier_inv_def dossier_mount_def polls_for_mount use_player_detail_def)

section \<open>Properties\<close>


text \<open>A session reads the same in the dossier and in the connection history: every column of the dossier is a column of the history, with the
  same heading and the same cell, and the history has the player besides.\<close>

theorem session_tables_agree:
  "map_of (cells_of (history_columns now) s) k = (if k = ''player'' then Some (''Player'', face_cell s) else map_of (cells_of (session_columns now) s) k)"
  by (simp add: cells_of_def history_columns_def session_columns_def)

text \<open>Pointing at a chart: the time that is marked is one of its samples.\<close>

lemma nearest_t_in: "nearest_t w v (rows_target ss) px = Some t \<Longrightarrow> t \<in> set (line_times ss)"
  using closest_spec [of "\<lambda>r. \<bar>line_x w v (fst r) - px\<bar>" "rows_target ss"] by (auto simp: nearest_t_def rows_target_spec)

end
