(* ===== verification/Analytics_Screen.thy ===== *)
theory Analytics_Screen
  imports Dossier World_Map
begin

text \<open>
  The Analytics screen as a whole (\<open>screens/Analytics.tsx\<close>): the range, the country filter that map, ranking and history share, the
  geography card, the connection history with its query, and the session replay with the playhead its two charts and its slider share.
  A change of the range mounts the cards under the range's key anew. The widths of the charts and the clock are parameters.
\<close>

section \<open>The replay\<close>

definition replay_traffic :: "session_timeline option \<Rightarrow> line_props" where
  "replay_traffic tln = \<lparr>lc_series = traffic_series (map_option stl_traffic tln), lc_height = 170, lc_binary = True, lc_format_y = Some fmt_bytes, lc_stepped = False\<rparr>"

definition replay_ping :: "session_timeline option \<Rightarrow> line_props" where
  "replay_ping tln = \<lparr>lc_series = ping_series (map_option stl_rtt tln), lc_height = 140, lc_binary = False, lc_format_y = Some fmt_rtt, lc_stepped = False\<rparr>"

definition replay_hint :: "string \<Rightarrow> session_timeline option \<Rightarrow> string" where
  "replay_hint what tln = (if tln = None then loading_hint else ''No '' @ what @ '' samples for this session.'')"

text \<open>A pointer over one of the charts: what the chart hands to \<open>onCursor\<close>. A chart without points takes no pointer.\<close>

definition replay_hover :: "bool \<Rightarrow> int \<Rightarrow> real \<Rightarrow> session_timeline option \<Rightarrow> int option" where
  "replay_hover over_traffic w px tln = (let c = (if over_traffic then replay_traffic tln else replay_ping tln) in
     case line_view_of c of None \<Rightarrow> None | Some v \<Rightarrow> nearest_t w v (rows_target (lc_series c)) px)"

text \<open>The slider: its ends, its step, its value.\<close>

definition replay_slider :: "int option \<Rightarrow> session_timeline option \<Rightarrow> (int \<times> int \<times> int \<times> int) option" where
  "replay_slider cursor tln = map_option (\<lambda>d. (rd_min d, rd_max d, rd_step d, case cursor of Some t \<Rightarrow> t | None \<Rightarrow> rd_max d)) (replay_domain_of tln)"

definition replay_stats :: "session_meta \<Rightarrow> (string \<times> string \<times> string option) list" where
  "replay_stats s = [(''Duration'', if sess_ended_ms s \<noteq> 0 then fmt_duration (sess_ended_ms s - sess_started_ms s) else ''live'', None),
     (''Traffic'', fmt_bytes (of_int (sess_bytes_in s + sess_bytes_out s)), Some (traffic_sub (sess_bytes_out s) (sess_bytes_in s))),
     (''Avg ping'', if has_rtt (sess_rtt_avg s) then fmt_rtt (sess_rtt_avg s) else em_dash, None)]"

definition replay_title :: "session_meta \<Rightarrow> string \<times> nat list option \<times> bool" where
  "replay_title s = (if sess_player_name s = '''' then ''Unidentified'' else sess_player_name s, flag_emoji (Some (sess_cc s)), sess_ended_ms s = 0)"

definition replay_notes :: "int \<Rightarrow> session_meta \<Rightarrow> string list" where
  "replay_notes now s = [sess_client_ip s, or_dash (sess_tunnel_name s), fmt_last_seen now (sess_started_ms s) False]"

section \<open>The screen\<close>

record analytics_page =
  ay_range :: string
  ay_geo :: geo_view                         \<comment> \<open>the filter of the screen, and the hover of the card\<close>
  ay_metric :: geo_metric
  ay_flash :: geo_flash
  ay_snap :: "country_agg list polled"
  ay_history :: history_list
  ay_sessions :: "sessions_page polled"
  ay_replay :: "session_meta option"
  ay_cursor :: "int option"
  ay_timeline :: "session_timeline polled"   \<comment> \<open>the hook of the dialog, unmounted while it is closed\<close>

definition snap_key :: "string \<Rightarrow> string option" where
  "snap_key r = pu_key (use_geo_snapshot (range_ms r) None)"

definition page_key :: "history_list \<Rightarrow> string option" where
  "page_key h = pu_key (use_sessions (history_query h) None)"

text \<open>A hook that is unmounted, and mounted anew on the same module cache.\<close>

definition poll_remount :: "string option \<Rightarrow> 'v polled \<Rightarrow> 'v polled" where
  "poll_remount k s = (poll_mount (po_cache s) k)\<lparr>po_served := po_served s\<rparr>"

text \<open>The geography card is mounted: a cached snapshot is the base line of the flash.\<close>

definition geography_mount :: "string \<Rightarrow> analytics_page \<Rightarrow> analytics_page" where
  "geography_mount r s = (let p = poll_remount (snap_key r) (ay_snap s) in
     s\<lparr>ay_geo := (ay_geo s)\<lparr>gv_hover := None\<rparr>, ay_metric := GeoActivity, ay_snap := p,
       ay_flash := (case po_data p of Some snap \<Rightarrow> flash_snapshot True 0 snap flash_mount | None \<Rightarrow> flash_mount)\<rparr>)"

definition history_card_mount :: "int \<Rightarrow> string \<Rightarrow> analytics_page \<Rightarrow> analytics_page" where
  "history_card_mount now r s = (let h = history_mount now (range_ms r) (gv_selected (ay_geo s)) in
     s\<lparr>ay_history := h, ay_sessions := poll_remount (page_key h) (ay_sessions s), ay_replay := None, ay_cursor := None,
       ay_timeline := poll_unmount (ay_timeline s)\<rparr>)"

definition analytics_mount :: "(string \<times> country_agg list) list \<Rightarrow> (string \<times> sessions_page) list \<Rightarrow> (string \<times> session_timeline) list \<Rightarrow> int \<Rightarrow> analytics_page" where
  "analytics_mount gc sc tc now = history_card_mount now ''7d'' (geography_mount ''7d''
     \<lparr>ay_range = ''7d'', ay_geo = \<lparr>gv_hover = None, gv_selected = ''''\<rparr>, ay_metric = GeoActivity, ay_flash = flash_mount,
      ay_snap = poll_mount gc None, ay_history = history_mount now (range_ms ''7d'') '''', ay_sessions = poll_mount sc None,
      ay_replay = None, ay_cursor = None, ay_timeline = poll_unmount (poll_mount tc None)\<rparr>)"

text \<open>The country or the tunnel changes: a render that asks with the old offset, then the effect that restarts paging.\<close>

definition history_refilter :: "history_list \<Rightarrow> analytics_page \<Rightarrow> analytics_page" where
  "history_refilter h s = (let p = poll_ask (page_key h) (ay_sessions s); h' = h\<lparr>hl_offset := 0\<rparr> in
     s\<lparr>ay_history := h', ay_sessions := poll_ask (page_key h') p\<rparr>)"

definition history_turn :: "history_list \<Rightarrow> analytics_page \<Rightarrow> analytics_page" where
  "history_turn h s = s\<lparr>ay_history := h, ay_sessions := poll_ask (page_key h) (ay_sessions s)\<rparr>"

definition pick_country :: "string \<Rightarrow> analytics_page \<Rightarrow> analytics_page" where
  "pick_country cc s = (if cc = hl_cc (ay_history s) then s else history_refilter ((ay_history s)\<lparr>hl_cc := cc\<rparr>) s)"

text \<open>The answer that a hook takes: the effect of the flash runs for each, also for an answer equal to the one before.\<close>

definition taken :: "'v reply \<Rightarrow> 'v polled \<Rightarrow> 'v option" where
  "taken r s = (case r of PollAnswer i v \<Rightarrow> (case map_of (po_flight s) i of Some q \<Rightarrow> if poll_alive s q then Some v else None | None \<Rightarrow> None) | _ \<Rightarrow> None)"

definition sessions_total :: "analytics_page \<Rightarrow> int" where
  "sessions_total s = (case po_data (ay_sessions s) of Some p \<Rightarrow> spage_total p | None \<Rightarrow> 0)"

definition sessions_shown :: "analytics_page \<Rightarrow> session_meta list" where
  "sessions_shown s = (case po_data (ay_sessions s) of Some p \<Rightarrow> spage_sessions p | None \<Rightarrow> [])"

datatype analytics_event =
    AyRange string int
  | AyGeo geo_event
  | AyMetric geo_metric
  | AySnap bool int "country_agg list reply"     \<comment> \<open>with the motion preference and the time\<close>
  | AyFlashTimer int
  | AyMinute int
  | AyChip string
  | AyClearCc
  | AyPrev
  | AyNext
  | AySessions "sessions_page reply"
  | AyOpen session_meta
  | AyClose
  | AyScrub int
  | AyHover bool int real
  | AyLeave
  | AyTimeline "session_timeline reply"

fun analytics_step :: "analytics_page \<Rightarrow> analytics_event \<Rightarrow> analytics_page" where
  "analytics_step s (AyRange r now) = (if r = ay_range s then s else history_card_mount now r (geography_mount r (s\<lparr>ay_range := r\<rparr>)))"
| "analytics_step s (AyGeo e) = (let g = geo_step (ay_geo s) e in pick_country (gv_selected g) (s\<lparr>ay_geo := g\<rparr>))"
| "analytics_step s (AyMetric m) = s\<lparr>ay_metric := m\<rparr>"
| "analytics_step s (AySnap reduced now r) = (let p = poll_reply r (ay_snap s) in s\<lparr>ay_snap := p,
     ay_flash := (case taken r (ay_snap s) of Some snap \<Rightarrow> flash_snapshot reduced now snap (ay_flash s) | None \<Rightarrow> ay_flash s)\<rparr>)"
| "analytics_step s (AyFlashTimer now) = s\<lparr>ay_flash := flash_clock now (ay_flash s)\<rparr>"
| "analytics_step s (AyMinute now) = history_turn (history_step (ay_history s) (HistoryMinute now)) s"
| "analytics_step s (AyChip c) = (if c = hl_chip (ay_history s) then s else history_refilter ((ay_history s)\<lparr>hl_chip := c\<rparr>) s)"
| "analytics_step s AyClearCc = pick_country '''' (s\<lparr>ay_geo := (ay_geo s)\<lparr>gv_selected := ''''\<rparr>\<rparr>)"
| "analytics_step s AyPrev = (if pager_shown sessions_page_size (sessions_total s) then history_turn (history_step (ay_history s) HistoryPrev) s else s)"
| "analytics_step s AyNext = (if pager_shown sessions_page_size (sessions_total s) then history_turn (history_step (ay_history s) (HistoryNext (sessions_total s))) s else s)"
| "analytics_step s (AySessions r) = s\<lparr>ay_sessions := poll_reply r (ay_sessions s)\<rparr>"
| "analytics_step s (AyOpen m) = (if ay_replay s \<noteq> None \<or> m \<notin> set (sessions_shown s) then s
     else s\<lparr>ay_replay := Some m, ay_cursor := None, ay_timeline := poll_remount (timeline_key (Some (sess_id m))) (ay_timeline s)\<rparr>)"
| "analytics_step s AyClose = s\<lparr>ay_replay := None, ay_cursor := None, ay_timeline := poll_unmount (ay_timeline s)\<rparr>"
| "analytics_step s (AyScrub t) = (if ay_replay s = None then s else case replay_domain_of (po_data (ay_timeline s)) of None \<Rightarrow> s
     | Some d \<Rightarrow> if rd_min d \<le> t \<and> t \<le> rd_max d then s\<lparr>ay_cursor := Some t\<rparr> else s)"
| "analytics_step s (AyHover over_traffic w px) = (if ay_replay s = None then s
     else case replay_hover over_traffic w px (po_data (ay_timeline s)) of None \<Rightarrow> s | Some t \<Rightarrow> s\<lparr>ay_cursor := Some t\<rparr>)"
| "analytics_step s AyLeave = (if ay_replay s = None then s else s\<lparr>ay_cursor := None\<rparr>)"
| "analytics_step s (AyTimeline r) = (if ay_replay s = None then s else s\<lparr>ay_timeline := poll_reply r (ay_timeline s)\<rparr>)"

section \<open>The invariant\<close>

definition analytics_inv :: "analytics_page \<Rightarrow> bool" where
  "analytics_inv s \<longleftrightarrow> polls_for (snap_key (ay_range s)) (ay_snap s) \<and> polls_for (page_key (ay_history s)) (ay_sessions s)
    \<and> hl_cc (ay_history s) = gv_selected (ay_geo s) \<and> hl_range_ms (ay_history s) = range_ms (ay_range s)
    \<and> 0 \<le> hl_offset (ay_history s) \<and> hl_offset (ay_history s) mod 50 = 0 \<and> poll_inv (ay_timeline s)
    \<and> (case ay_replay s of Some m \<Rightarrow> polls_for (timeline_key (Some (sess_id m))) (ay_timeline s) | None \<Rightarrow> ay_cursor s = None)"

lemma polls_for_remount:
  assumes "poll_inv s"
  shows "polls_for k (poll_remount k s)"
proof -
  have "map_of (po_cache s) c = Some v \<Longrightarrow> (c, v) \<in> set (po_served s)" for c v using assms by (simp add: poll_inv_def)
  then have "poll_inv ((poll_mount (po_cache s) k)\<lparr>po_served := po_served s\<rparr>)"
    using poll_inv_mount [of "po_cache s" k]
    by (auto simp: poll_inv_def poll_mount_def poll_lookup_def split: option.splits)
  then show ?thesis by (simp add: polls_for_def poll_remount_def poll_mount_def)
qed

lemma polls_forD: "polls_for k s \<Longrightarrow> poll_inv s"
  by (simp add: polls_for_def)

lemma poll_inv_unmount: "poll_inv s \<Longrightarrow> poll_inv (poll_unmount s)"
  using poll_inv_step [of s Unmount] by simp

lemma refilter_fields:
  "ay_range (history_refilter h s) = ay_range s" "ay_geo (history_refilter h s) = ay_geo s" "ay_snap (history_refilter h s) = ay_snap s"
  "ay_replay (history_refilter h s) = ay_replay s" "ay_timeline (history_refilter h s) = ay_timeline s" "ay_cursor (history_refilter h s) = ay_cursor s"
  "ay_history (history_refilter h s) = h\<lparr>hl_offset := 0\<rparr>"
  by (simp_all add: history_refilter_def Let_def)

lemma refilter_polls: "polls_for k (ay_sessions s) \<Longrightarrow> polls_for (page_key (h\<lparr>hl_offset := 0\<rparr>)) (ay_sessions (history_refilter h s))"
  by (auto simp: history_refilter_def Let_def intro: polls_for_ask)

lemma analytics_inv_country:
  assumes "analytics_inv s"
  shows "analytics_inv (pick_country cc (s\<lparr>ay_geo := g\<lparr>gv_selected := cc\<rparr>\<rparr>))"
  using assms refilter_polls [of "page_key (ay_history s)" "s\<lparr>ay_geo := g\<lparr>gv_selected := cc\<rparr>\<rparr>" "(ay_history s)\<lparr>hl_cc := cc\<rparr>"]
  by (auto simp: analytics_inv_def pick_country_def refilter_fields split: option.splits)

lemma history_offset_step:
  "0 \<le> hl_offset h \<Longrightarrow> hl_offset h mod 50 = 0 \<Longrightarrow> 0 \<le> hl_offset (history_step h e) \<and> hl_offset (history_step h e) mod 50 = 0"
  by (cases e) (auto simp: sessions_page_size_def prev_disabled_def next_disabled_def pager_prev_def pager_next_def)

lemma history_step_props:
  "\<forall>cc. e \<noteq> HistoryCountry cc \<Longrightarrow> hl_cc (history_step h e) = hl_cc h" "hl_range_ms (history_step h e) = hl_range_ms h"
  by (cases e; simp)+

lemma analytics_inv_turn:
  assumes "analytics_inv s" and "\<forall>cc. e \<noteq> HistoryCountry cc"
  shows "analytics_inv (history_turn (history_step (ay_history s) e) s)"
  using assms history_offset_step [of "ay_history s" e] history_step_props(1) [OF assms(2), of "ay_history s"]
  by (auto simp: analytics_inv_def history_turn_def history_step_props(2) intro: polls_for_ask split: option.splits)

lemma analytics_inv_remount:
  assumes "poll_inv (ay_snap s)" and "poll_inv (ay_sessions s)" and "poll_inv (ay_timeline s)"
  shows "analytics_inv (history_card_mount now r (geography_mount r (s\<lparr>ay_range := r\<rparr>)))"
  using assms by (simp add: analytics_inv_def history_card_mount_def geography_mount_def Let_def polls_for_remount history_mount_def poll_inv_unmount)

lemma analytics_inv_step: "analytics_inv s \<Longrightarrow> analytics_inv (analytics_step s e)"
proof (cases e)
  case (AyRange r now)
  assume inv: "analytics_inv s"
  then have "poll_inv (ay_snap s)" "poll_inv (ay_sessions s)" "poll_inv (ay_timeline s)"
    by (auto simp: analytics_inv_def dest: polls_forD)
  from analytics_inv_remount [OF this] inv show ?thesis by (simp add: AyRange)
next
  case (AyGeo g)
  assume inv: "analytics_inv s"
  have "geo_step (ay_geo s) g = (geo_step (ay_geo s) g)\<lparr>gv_selected := gv_selected (geo_step (ay_geo s) g)\<rparr>" by simp
  with analytics_inv_country [OF inv, of "gv_selected (geo_step (ay_geo s) g)" "geo_step (ay_geo s) g"] show ?thesis
    by (simp add: AyGeo Let_def)
next
  case AyClearCc
  assume "analytics_inv s"
  from analytics_inv_country [OF this, of "''''" "ay_geo s"] show ?thesis by (simp add: AyClearCc)
next
  case (AyChip c)
  assume "analytics_inv s"
  then show ?thesis
    using refilter_polls [of "page_key (ay_history s)" s "(ay_history s)\<lparr>hl_chip := c\<rparr>"]
    by (auto simp: AyChip analytics_inv_def refilter_fields split: option.splits)
next
  case (AyMinute now)
  assume "analytics_inv s"
  from analytics_inv_turn [OF this, of "HistoryMinute now"] show ?thesis by (auto simp: AyMinute)
next
  case AyPrev
  assume inv: "analytics_inv s"
  from inv analytics_inv_turn [OF inv, of HistoryPrev] show ?thesis by (auto simp: AyPrev)
next
  case AyNext
  assume inv: "analytics_inv s"
  from inv analytics_inv_turn [OF inv, of "HistoryNext (sessions_total s)"] show ?thesis by (auto simp: AyNext)
next
  case (AyHover over w px)
  assume "analytics_inv s"
  with AyHover show ?thesis by (auto simp: analytics_inv_def split: option.splits)
next
  case (AyTimeline r)
  assume inv: "analytics_inv s"
  show ?thesis
  proof (cases "ay_replay s")
    case (Some m)
    then have "polls_for (timeline_key (Some (sess_id m))) (poll_reply r (ay_timeline s))"
      using inv by (auto simp: analytics_inv_def intro: polls_for_reply)
    with inv Some AyTimeline show ?thesis by (auto simp: analytics_inv_def dest: polls_forD)
  qed (use inv AyTimeline in simp)
next
  case (AyOpen m)
  assume "analytics_inv s"
  with AyOpen show ?thesis
    using polls_for_remount [of "ay_timeline s" "timeline_key (Some (sess_id m))"] by (auto simp: analytics_inv_def dest: polls_forD)
qed (auto simp: analytics_inv_def Let_def poll_inv_unmount intro: polls_for_reply split: option.splits)

interpretation dashboard: invariant_machine analytics_step analytics_inv
  by unfold_locales (rule analytics_inv_step)

lemma analytics_inv_mount: "analytics_inv (analytics_mount gc sc tc now)"
proof -
  note inv = analytics_inv_remount [of "\<lparr>ay_range = ''7d'', ay_geo = \<lparr>gv_hover = None, gv_selected = ''''\<rparr>, ay_metric = GeoActivity, ay_flash = flash_mount,
      ay_snap = poll_mount gc None, ay_history = history_mount now (range_ms ''7d'') '''', ay_sessions = poll_mount sc None,
      ay_replay = None, ay_cursor = None, ay_timeline = poll_unmount (poll_mount tc None)\<rparr>" now "''7d''"]
  then show ?thesis by (simp add: analytics_mount_def poll_inv_mount poll_inv_unmount)
qed

section \<open>Properties\<close>

text \<open>C19. However range, country, tunnel, page, minute and answers interleave: the rows of the history answer the query of the range, the
  country, the tunnel and the page that are on screen, the map draws a snapshot of that range, its filter is the filter of the history, and
  the replay shows samples of the session it was opened for.\<close>

theorem dashboard_consistent:
  "let s = foldl analytics_step (analytics_mount gc sc tc now) es; h = ay_history s; win = range_ms (ay_range s) in
    (case po_data (ay_sessions s) of None \<Rightarrow> True | Some p \<Rightarrow>
      (sessions_key \<lparr>sq_player_uuid = '''', sq_agent_id = '''', sq_tunnel_id = (if hl_chip h = ''all'' then '''' else hl_chip h), sq_cc = gv_selected (ay_geo s),
         sq_since_ms = (if win > 0 then hl_now_min h * 60000 - win else 0), sq_offset = hl_offset h, sq_limit = 50\<rparr>, p) \<in> set (po_served (ay_sessions s)))
    \<and> (case po_data (ay_snap s) of None \<Rightarrow> True | Some rows \<Rightarrow> (show_int win, rows) \<in> set (po_served (ay_snap s)))
    \<and> (case ay_replay s of None \<Rightarrow> True | Some m \<Rightarrow> (case po_data (ay_timeline s) of None \<Rightarrow> True
        | Some t \<Rightarrow> (show_int (sess_id m), t) \<in> set (po_served (ay_timeline s))))
    \<and> 0 \<le> hl_offset h \<and> 50 dvd hl_offset h"
proof -
  define s where "s = foldl analytics_step (analytics_mount gc sc tc now) es"
  have inv: "analytics_inv s" unfolding s_def by (rule dashboard.inv_run [OF analytics_inv_mount])
  then have "polls_for (page_key (ay_history s)) (ay_sessions s)" "polls_for (snap_key (ay_range s)) (ay_snap s)"
    "\<forall>m. ay_replay s = Some m \<longrightarrow> polls_for (timeline_key (Some (sess_id m))) (ay_timeline s)"
    by (auto simp: analytics_inv_def)
  note served = polls_for_served [OF this(1)] polls_for_served [OF this(2)] polls_for_served [OF this(3) [rule_format]]
  have query: "page_key (ay_history s) = Some (sessions_key \<lparr>sq_player_uuid = '''', sq_agent_id = '''',
      sq_tunnel_id = (if hl_chip (ay_history s) = ''all'' then '''' else hl_chip (ay_history s)), sq_cc = gv_selected (ay_geo s),
      sq_since_ms = (if range_ms (ay_range s) > 0 then hl_now_min (ay_history s) * 60000 - range_ms (ay_range s) else 0),
      sq_offset = hl_offset (ay_history s), sq_limit = 50\<rparr>)"
    using inv by (simp add: analytics_inv_def page_key_def use_sessions_def history_query_def sessions_page_size_def)
  have snap: "snap_key (ay_range s) = Some (show_int (range_ms (ay_range s)))" by (simp add: snap_key_def use_geo_snapshot_def range_cache_key_def)
  have offset: "0 \<le> hl_offset (ay_history s) \<and> 50 dvd hl_offset (ay_history s)" using inv by (auto simp: analytics_inv_def)
  show ?thesis
    unfolding s_def [symmetric] Let_def
    using served offset unfolding query snap by (auto simp: timeline_key_def split: option.split)
qed

text \<open>A range is a new dashboard: metric, hover, flash, tunnel, page and replay start over, and only the country stays.\<close>

lemma range_starts_over:
  assumes "r \<noteq> ay_range s"
  shows "let s' = analytics_step s (AyRange r now) in ay_metric s' = GeoActivity \<and> ay_geo s' = \<lparr>gv_hover = None, gv_selected = gv_selected (ay_geo s)\<rparr>
    \<and> gf_flash (ay_flash s') = [] \<and> hl_chip (ay_history s') = ''all'' \<and> hl_offset (ay_history s') = 0 \<and> ay_replay s' = None"
  using assms by (simp add: history_card_mount_def geography_mount_def history_mount_def flash_mount_def flash_snapshot_def Let_def split: option.split)

text \<open>The samples of a replay lie in the range of its slider.\<close>

lemma sample_in_domain:
  assumes "replay_domain_of tln = Some d" and "t \<in> set (line_times (lc_series (replay_traffic tln))) \<union> set (line_times (lc_series (replay_ping tln)))"
  shows "rd_min d \<le> t \<and> t \<le> rd_max d"
proof -
  obtain x where x: "tln = Some x" using assms(1) by (cases tln) (simp_all add: replay_domain_of_def)
  let ?ts = "sort (remdups (replay_times x))"
  have "t \<in> set (replay_times x)"
    using assms(2) by (auto simp: x replay_traffic_def replay_ping_def traffic_times ping_times or_none_def replay_times_def)
  then have t: "t \<in> set ?ts" by simp
  have d: "rd_min d = hd ?ts" "rd_max d = last ?ts"
    using assms(1) by (auto simp: x replay_domain_of_def Let_def split: if_splits)
  have "sorted ?ts" by simp
  moreover from this t have "hd ?ts \<le> t" by (cases ?ts) auto
  moreover have "t \<le> last ts" if "sorted ts" "t \<in> set ts" for ts
    using that by (induction ts rule: rev_induct) (auto simp: sorted_append)
  from this [OF \<open>sorted ?ts\<close> t] have "t \<le> last ?ts" .
  ultimately show ?thesis using d by simp
qed

lemma hover_in_domain:
  assumes "replay_hover over_traffic w px tln = Some t" and "replay_domain_of tln = Some d"
  shows "rd_min d \<le> t \<and> t \<le> rd_max d"
  using assms(1) sample_in_domain [OF assms(2), of t]
  by (auto simp: replay_hover_def Let_def split: option.splits if_splits dest: nearest_t_in)


text \<open>The edge of the window is part of the cache key: with every minute the history loses its rows and is a skeleton until the engine answers,
  though the query is said to be stable between polls.\<close>

theorem history_reloads_each_minute:
  assumes "analytics_inv s" and "0 < range_ms (ay_range s)" and "now div 60000 \<noteq> hl_now_min (ay_history s)"
    and "map_of (po_cache (ay_sessions s)) (sessions_key (history_query ((ay_history s)\<lparr>hl_now_min := now div 60000\<rparr>))) = None"
  shows "let s' = analytics_step s (AyMinute now) in history_shows (po_data (ay_sessions s')) (ay_history s') = HistoryLoading"
proof -
  let ?h = "(ay_history s)\<lparr>hl_now_min := now div 60000\<rparr>"
  have "history_query ?h \<noteq> history_query (ay_history s)" using assms(1-3) by (simp add: history_query_def analytics_inv_def)
  moreover have "sq_agent_id (history_query h) = ''''" for h by (simp add: history_query_def)
  ultimately have "sessions_key (history_query ?h) \<noteq> sessions_key (history_query (ay_history s))"
    using sessions_key_inj by blast
  moreover have "polls_for (page_key (ay_history s)) (ay_sessions s)" using assms(1) by (simp add: analytics_inv_def)
  ultimately have "po_data (poll_ask (page_key ?h) (ay_sessions s)) = None"
    using assms(4) by (auto simp: polls_for_def poll_ask_def poll_effect_def poll_render_def page_key_def use_sessions_def poll_lookup_def)
  then show ?thesis by (simp add: history_turn_def history_shows_def)
qed

section \<open>Witnesses\<close>

definition replay_run :: analytics_page where
  "replay_run = foldl analytics_step (analytics_mount [] [] [] 600000)
     [AySessions (PollAnswer 0 \<lparr>spage_total = 1, spage_sessions = [sample_session]\<rparr>), AyOpen sample_session, AyTimeline (PollAnswer 0 sample_timeline)]"

lemmas analytics_run_defs = analytics_mount_def history_card_mount_def geography_mount_def history_mount_def poll_remount_def poll_mount_def
  poll_fetch_once_def poll_lookup_def poll_unmount_def poll_reply_def poll_resolve_def poll_alive_def snap_key_def page_key_def use_geo_snapshot_def
  use_sessions_def sessions_shown_def timeline_key_def update_conv' Let_def

lemma replay_run_shows: "po_data (ay_timeline replay_run) = Some sample_timeline" "ay_cursor replay_run = None" "ay_replay replay_run = Some sample_session"
  by (simp_all add: replay_run_def analytics_run_defs)


theorem history_reloads_each_minute_witness:
  "history_shows (po_data (ay_sessions (analytics_step replay_run (AyMinute 660000)))) (ay_history (analytics_step replay_run (AyMinute 660000))) = HistoryLoading"
proof -
  have inv: "analytics_inv replay_run" unfolding replay_run_def by (rule dashboard.inv_run [OF analytics_inv_mount])
  have "0 < range_ms (ay_range replay_run)" "hl_now_min (ay_history replay_run) = 10"
    by (simp_all add: replay_run_def analytics_run_defs range_ms_def)
  moreover have "map_of (po_cache (ay_sessions replay_run)) (sessions_key (history_query ((ay_history replay_run)\<lparr>hl_now_min := 660000 div 60000\<rparr>))) = None"
  proof -
    have "sessions_key (history_query \<lparr>hl_chip = ''all'', hl_offset = 0, hl_now_min = 10, hl_cc = '''', hl_range_ms = 604800000\<rparr>)
        \<noteq> sessions_key (history_query \<lparr>hl_chip = ''all'', hl_offset = 0, hl_now_min = 11, hl_cc = '''', hl_range_ms = 604800000\<rparr>)"
      using sessions_key_inj by (fastforce simp: history_query_def)
    then show ?thesis by (simp add: replay_run_def analytics_run_defs range_ms_def)
  qed
  ultimately show ?thesis using history_reloads_each_minute [OF inv, of 660000] by (simp add: Let_def)
qed

end
