(* ===== verification/Analytics_Cards.thy ===== *)
theory Analytics_Cards
  imports Analytics_Screen
begin

text \<open>
  What the cards of the Analytics screen draw from the answers they poll (\<open>PeakHours\<close>, \<open>UptimeBands\<close>, \<open>LossChart\<close> and
  \<open>ConnectionHistory\<close> in \<open>screens/Analytics.tsx\<close>), and the screen made of them. Skeletons, empty states and content are constructors;
  reading a field of a missing array item, which throws, is \<open>None\<close>.
\<close>

section \<open>Peak hours\<close>

definition peak_cell_at :: "peak_matrix \<Rightarrow> nat \<Rightarrow> nat \<Rightarrow> peak_cell option" where
  "peak_cell_at m dow h = (if dow < length (pmx_cells m) \<and> h < length (pmx_cells m ! dow) then Some (pmx_cells m ! dow ! h) else None)"

definition peak_row :: "peak_matrix \<Rightarrow> nat \<Rightarrow> (string \<times> int option) list option" where
  "peak_row m ri = those (map (\<lambda>h. map_option (\<lambda>c. (cell_title ri h c, cell_percent m c)) (peak_cell_at m (day_order ! ri) h)) [0..<24])"

definition peak_grid :: "peak_matrix \<Rightarrow> (string \<times> (string \<times> int option) list) list option" where
  "peak_grid m = those (map (\<lambda>ri. map_option (Pair (day_labels ! ri)) (peak_row m ri)) [0..<length day_order])"

datatype peak_card = PeakSkeleton | PeakEmpty | PeakGrid "(string \<times> (string \<times> int option) list) list" "string list"

definition peak_card_of :: "peak_matrix option \<Rightarrow> peak_card option" where
  "peak_card_of mx = (case mx of None \<Rightarrow> Some PeakSkeleton
   | Some m \<Rightarrow> if \<not> peak_has_data m then Some PeakEmpty
       else map_option (\<lambda>rows. PeakGrid rows (map hour_label [0..<24])) (peak_grid m))"

lemma those_map_total: "(\<And>x. x \<in> set xs \<Longrightarrow> f x = Some (g x)) \<Longrightarrow> those (map f xs) = Some (map g xs)"
  by (induction xs) simp_all

lemma those_map_absent: "x \<in> set xs \<Longrightarrow> f x = None \<Longrightarrow> those (map f xs) = None"
  by (induction xs) (auto split: option.split)

lemma peak_grid_full:
  assumes "length (pmx_cells m) = 7" and "\<forall>row \<in> set (pmx_cells m). length row = 24"
  shows "peak_grid m = Some (map (\<lambda>ri. (day_labels ! ri, map (\<lambda>h. let c = pmx_cells m ! (day_order ! ri) ! h in (cell_title ri h c, cell_percent m c)) [0..<24])) [0..<7])"
proof -
  define f where "f ri = map (\<lambda>h. let c = pmx_cells m ! (day_order ! ri) ! h in (cell_title ri h c, cell_percent m c)) [0..<24]" for ri
  have days: "\<forall>ri \<in> set [0..<7]. day_order ! ri < 7" by code_simp
  have "peak_row m ri = Some (f ri)" if "ri \<in> set [0..<7]" for ri
  proof -
    have "day_order ! ri < length (pmx_cells m)" using days that assms(1) by metis
    moreover from this have "length (pmx_cells m ! (day_order ! ri)) = 24" using assms(2) by simp
    ultimately show ?thesis unfolding peak_row_def f_def by (intro those_map_total) (simp add: peak_cell_at_def Let_def)
  qed
  then have rows: "map_option (Pair (day_labels ! ri)) (peak_row m ri) = Some (day_labels ! ri, f ri)" if "ri \<in> set [0..<7]" for ri
    using that by simp
  have "those (map (\<lambda>ri. map_option (Pair (day_labels ! ri)) (peak_row m ri)) [0..<7]) = Some (map (\<lambda>ri. (day_labels ! ri, f ri)) [0..<7])"
    by (rule those_map_total) (rule rows)
  moreover have "length day_order = 7" by code_simp
  ultimately have "peak_grid m = Some (map (\<lambda>ri. (day_labels ! ri, f ri)) [0..<7])" by (simp only: peak_grid_def)
  then show ?thesis by (simp only: f_def)
qed

section \<open>Uptime\<close>

definition uptime_name :: "tunnel_uptime \<Rightarrow> string" where
  "uptime_name r = (if tup_name r \<noteq> '''' then tup_name r else if tup_tunnel_id r \<noteq> '''' then tup_tunnel_id r else ''Tunnel'')"

datatype uptime_card = UptimeSkeleton | UptimeEmpty | UptimeRows "(string \<times> (string \<times> string) \<times> band_seg list) list"

definition uptime_card_of :: "int \<Rightarrow> int \<Rightarrow> uptime_report option \<Rightarrow> uptime_card" where
  "uptime_card_of now window rep = (case rep of None \<Rightarrow> UptimeSkeleton
   | Some r \<Rightarrow> if \<not> uptime_has_any r then UptimeEmpty
       else let t0 = uptime_domain now window (uptime_rows r) in
         UptimeRows (map (\<lambda>x. (uptime_name x, uptime_badge (tup_uptime_pct x), band_segs t0 now (tup_events x))) (uptime_rows r)))"

lemma band_from_known: "\<forall>(l, w, u) \<in> set (band_from t0 now es). u \<noteq> None"
proof (induction es)
  case (Cons e es)
  then show ?case by (cases "(case es of [] \<Rightarrow> now | f # _ \<Rightarrow> usp_t f) \<le> max (usp_t e) t0") (simp_all add: Let_def)
qed simp

lemma foldl_min_in: "foldl min t ts \<in> set (t # ts)" for t :: int
proof (induction ts arbitrary: t)
  case (Cons x ts)
  from Cons.IH [of "min t x"] show ?case by (cases "t \<le> x") auto
qed simp

section \<open>Packet loss\<close>

definition loss_series :: "bucket list option \<Rightarrow> line_series list" where
  "loss_series bs = [\<lparr>ls_points = map (\<lambda>(t, v). \<lparr>lp_t = t, lp_v = v\<rparr>) (loss_points (or_none bs)), ls_css_var = ''var(--bad)'', ls_label = ''peak'', ls_fill = True,
     ls_format = Some (\<lambda>v. to_fixed 2 v @ ''%'')\<rparr>]"

datatype loss_card = LossSkeleton | LossEmpty | LossChart line_props

definition loss_card_of :: "bucket list option \<Rightarrow> loss_card" where
  "loss_card_of bs = (if bs = None then LossSkeleton else if \<not> loss_has_data bs then LossEmpty
     else LossChart \<lparr>lc_series = loss_series bs, lc_height = 180, lc_binary = False, lc_format_y = Some (\<lambda>v. to_fixed 1 v @ ''%''), lc_stepped = False\<rparr>)"

section \<open>Connection history\<close>

definition country_pill :: "string \<Rightarrow> (nat list option \<times> string) option" where
  "country_pill cc = (if cc = '''' then None else Some (flag_emoji (Some cc), cc))"

text \<open>The chips: what a click picks, the label, whether it is on.\<close>

definition history_chips :: "tunnel_ui list \<Rightarrow> string \<Rightarrow> (string \<times> string \<times> bool) list" where
  "history_chips ts chip = (if length ts > 1 then (''all'', ''All'', chip = ''all'') # map (\<lambda>t. (tun_id t, tun_name t, chip = tun_id t)) ts else [])"

datatype history_body = HistorySkeleton nat | HistoryTable "session_cell table_view" "(string \<times> bool \<times> bool) option"

definition history_body_of :: "int \<Rightarrow> sessions_page option \<Rightarrow> history_list \<Rightarrow> history_body" where
  "history_body_of now pg h = (case pg of None \<Rightarrow> HistorySkeleton 6
   | Some p \<Rightarrow> HistoryTable (history_table now (hl_cc h) (spage_sessions p)) (history_pager (spage_total p) h))"

section \<open>The screen\<close>

record analytics_polls =                      \<comment> \<open>the answers the cards hold besides the machine's\<close>
  ap_summary :: "summary option"
  ap_geo_status :: "geo_status option"
  ap_peak :: "peak_matrix option"
  ap_uptime :: "uptime_report option"
  ap_loss :: "history_result option"

record analytics_cards =
  ac_tiles :: "stat_tile list option"         \<comment> \<open>\<open>None\<close> is six skeletons\<close>
  ac_records :: "(string \<times> string \<times> int) list"
  ac_geo :: geo_body
  ac_peak :: "peak_card option"
  ac_uptime :: uptime_card
  ac_loss :: loss_card
  ac_pill :: "(nat list option \<times> string) option"
  ac_chips :: "(string \<times> string \<times> bool) list"
  ac_history :: history_body

datatype analytics_shown = AnalyticsOff | AnalyticsCards analytics_cards

definition analytics_shows :: "(int \<Rightarrow> string) \<Rightarrow> int \<Rightarrow> ui_status \<Rightarrow> analytics_polls \<Rightarrow> analytics_page \<Rightarrow> analytics_shown" where
  "analytics_shows day now st a s = (if st_analytics_unsupported st = Some True then AnalyticsOff
     else AnalyticsCards \<lparr>ac_tiles = map_option (summary_tiles day) (ap_summary a),
       ac_records = (case ap_summary a of Some y \<Rightarrow> record_items y | None \<Rightarrow> []),
       ac_geo = geo_body_of (ay_metric s) (po_data (ay_snap s)) (ap_geo_status a),
       ac_peak = peak_card_of (ap_peak a),
       ac_uptime = uptime_card_of (now_bucket now) (range_ms (ay_range s)) (ap_uptime a),
       ac_loss = loss_card_of (bandwidth_loss (ap_loss a)),
       ac_pill = country_pill (hl_cc (ay_history s)), ac_chips = history_chips (or_none (st_tunnels st)) (hl_chip (ay_history s)),
       ac_history = history_body_of now (po_data (ay_sessions s)) (ay_history s)\<rparr>)"

section \<open>What the cards show\<close>

text \<open>The table of the history and its body in \<open>Dashboard\<close> have the same rows, the same empty title and the same pager.\<close>

lemma history_bodies_agree:
  "history_body_of now pg h = (case history_shows pg h of HistoryLoading \<Rightarrow> HistorySkeleton 6
     | HistoryEmpty title pager \<Rightarrow> HistoryTable (history_table now (hl_cc h) []) pager
     | HistoryRows ss pager \<Rightarrow> HistoryTable (history_table now (hl_cc h) ss) pager)"
  by (simp add: history_body_of_def history_shows_def split: option.split)

text \<open>A loss chart is drawn only with something to draw.\<close>

lemma loss_chart_drawn: "loss_card_of bs = LossChart c \<Longrightarrow> line_view_of c \<noteq> None"
  by (auto simp: loss_card_of_def loss_has_data_def line_view_of_def line_times_def loss_series_def loss_points_def or_none_def Let_def
      split: if_splits option.splits)

text \<open>Over all time, the band of the row with the earliest event has no unknown part.\<close>

lemma all_time_band_known:
  assumes "window \<le> 0" and "uptime_card_of now window (Some r) = UptimeRows bands" and "\<forall>x \<in> set (uptime_rows r). \<forall>e \<in> set (tup_events x). usp_t e < now"
  shows "\<exists>(n, b, segs) \<in> set bands. \<forall>(l, w, u) \<in> set segs. u \<noteq> None"
proof -
  define firsts where "firsts = concat (map (\<lambda>x. case tup_events x of [] \<Rightarrow> [] | e # _ \<Rightarrow> [usp_t e]) (uptime_rows r))"
  define t0 where "t0 = uptime_domain now window (uptime_rows r)"
  have any: "uptime_has_any r" and bands: "bands = map (\<lambda>x. (uptime_name x, uptime_badge (tup_uptime_pct x), band_segs t0 now (tup_events x))) (uptime_rows r)"
    using assms(2) by (auto simp: uptime_card_of_def t0_def Let_def split: if_splits)
  from any obtain y where y: "y \<in> set (uptime_rows r)" "tup_events y \<noteq> []" by (auto simp: uptime_has_any_def)
  then have "usp_t (hd (tup_events y)) \<in> set firsts" unfolding firsts_def
    by (cases "tup_events y") (auto intro!: bexI [of _ y])
  then obtain t ts where ts: "firsts = t # ts" by (cases firsts) auto
  then have "t0 \<in> set firsts" using assms(1) foldl_min_in [of t ts] by (simp add: t0_def uptime_domain_def firsts_def [symmetric])
  then obtain x e es where x: "x \<in> set (uptime_rows r)" "tup_events x = e # es" "usp_t e = t0"
    unfolding firsts_def by (auto split: list.splits) metis
  then have "band_segs t0 now (tup_events x) = band_from t0 now (filter (\<lambda>e. usp_t e < now) (tup_events x))"
    using assms(3) by (fastforce simp: band_segs_def Let_def)
  with band_from_known have "\<forall>(l, w, u) \<in> set (band_segs t0 now (tup_events x)). u \<noteq> None" by metis
  with x(1) show ?thesis unfolding bands by force
qed

text \<open>An engine without analytics is said to be so, whatever the cards hold; otherwise skeletons stand for the answers that are missing.\<close>

lemma analytics_shows_off: "analytics_shows day now st a s = AnalyticsOff \<longleftrightarrow> st_analytics_unsupported st = Some True"
  by (simp add: analytics_shows_def)

text \<open>The peak-hours card of the mock's matrix never reads a missing cell: its seven rows are the weekdays from Monday, each with its 24 hours,
  the row \<open>ri\<close> drawn from the matrix's day \<open>ri + 1\<close> modulo 7, where day 0 is Sunday.\<close>

theorem peak_week_laid_out:
  "let m = peak_matrix_of w dow hod now weeks in
    peak_card_of (Some m) = Some (if peak_has_data m
      then PeakGrid (map (\<lambda>ri. (day_labels ! ri, map (\<lambda>h. let c = pmx_cells m ! ((ri + 1) mod 7) ! h in (cell_title ri h c, cell_percent m c)) [0..<24])) [0..<7])
        (map hour_label [0..<24])
      else PeakEmpty)"
proof -
  define m where "m = peak_matrix_of w dow hod now weeks"
  have "length (pmx_cells m) = 7" "\<forall>row \<in> set (pmx_cells m). length row = 24"
    using peak_matrix_shape [of w dow hod now weeks] by (simp_all add: m_def)
  note grid = peak_grid_full [OF this]
  have "\<forall>ri \<in> set [0..<7]. day_order ! ri = (ri + 1) mod 7" by code_simp
  then have "map (\<lambda>ri. (day_labels ! ri, map (\<lambda>h. let c = pmx_cells m ! (day_order ! ri) ! h in (cell_title ri h c, cell_percent m c)) [0..<24])) [0..<7]
    = map (\<lambda>ri. (day_labels ! ri, map (\<lambda>h. let c = pmx_cells m ! ((ri + 1) mod 7) ! h in (cell_title ri h c, cell_percent m c)) [0..<24])) [0..<7]"
    by (intro map_cong refl) (simp only:)
  with grid show ?thesis unfolding m_def [symmetric] Let_def by (simp add: peak_card_of_def)
qed

end
