(* ===== verification/Bindings.thy ===== *)
theory Bindings
  imports Series_Pref
begin

text \<open>
  The constructors of the generated models (\<open>wailsjs/go/models.ts\<close>): every class copies its fields from a source object, and passes
  those that hold instances of another class through \<open>convertValues\<close>. A class is the list of its fields with the class each is converted
  to, if any; \<open>convertValues\<close>, of which every class has the same copy, is \<open>convert\<close>, and its parameter \<open>asMap\<close>, which no class sets, is
  left out. An exception is \<open>None\<close>. A number is its text. Names that strings and arrays inherit are not properties here.
\<close>

section \<open>Values\<close>

datatype js = Undef | Nul | Boolean bool | Numeral string | Text string | Arr "js list" | Obj "(string \<times> js) list"

text \<open>A property: the last member of that name.\<close>

definition js_get :: "(string \<times> js) list \<Rightarrow> string \<Rightarrow> js" where
  "js_get fs k = (case map_of (rev fs) k of Some v \<Rightarrow> v | None \<Rightarrow> Undef)"

text \<open>A number is false when its text has no digit but zeros before the exponent.\<close>

definition js_truthy :: "js \<Rightarrow> bool" where
  "js_truthy v = (case v of Undef \<Rightarrow> False | Nul \<Rightarrow> False | Boolean b \<Rightarrow> b
     | Numeral n \<Rightarrow> list_ex (\<lambda>c. c \<in> set ''123456789'') (takeWhile (\<lambda>c. c \<noteq> CHR ''e'' \<and> c \<noteq> CHR ''E'') n)
     | Text t \<Rightarrow> t \<noteq> '''' | Arr _ \<Rightarrow> True | Obj _ \<Rightarrow> True)"

fun js_of_json :: "json \<Rightarrow> js" where
  "js_of_json JNull = Nul"
| "js_of_json (JBool b) = Boolean b"
| "js_of_json (JNumber n) = Numeral n"
| "js_of_json (JString t) = Text t"
| "js_of_json (JArray vs) = Arr (map js_of_json vs)"
| "js_of_json (JObject ms) = Obj (map (\<lambda>m. (fst m, js_of_json (snd m))) ms)"

text \<open>\<open>JSON.parse(JSON.stringify(v))\<close> of a value that is not undefined: undefined members are left out, undefined items become null.\<close>

fun json_copy :: "js \<Rightarrow> js" where
  "json_copy (Arr vs) = Arr (map (\<lambda>v. if v = Undef then Nul else json_copy v) vs)"
| "json_copy (Obj fs) = Obj (map (\<lambda>m. (fst m, json_copy (snd m))) (filter (\<lambda>m. snd m \<noteq> Undef) fs))"
| "json_copy v = v"

text \<open>\<open>{...a, ...b}\<close>.\<close>

definition spread :: "(string \<times> js) list \<Rightarrow> (string \<times> js) list \<Rightarrow> (string \<times> js) list" where
  "spread a b = a @ b"

section \<open>The classes\<close>

type_synonym class_spec = "(string \<times> string option) list"

definition country_agg_class :: class_spec where
  "country_agg_class =
    [(''cc'', None), (''country'', None), (''players'', None), (''sessions'', None), (''bytesIn'', None), (''bytesOut'', None), (''rttAvg'', None)]"

definition ip_span_class :: class_spec where
  "ip_span_class =
    [(''ip'', None), (''firstSeen'', None), (''lastSeen'', None), (''sessions'', None), (''cc'', None)]"

definition latency_point_class :: class_spec where
  "latency_point_class =
    [(''t'', None), (''avg'', None), (''min'', None), (''max'', None)]"

definition name_span_class :: class_spec where
  "name_span_class =
    [(''name'', None), (''firstSeen'', None), (''lastSeen'', None)]"

definition peak_cell_class :: class_spec where
  "peak_cell_class =
    [(''avg'', None), (''max'', None)]"

definition peak_matrix_class :: class_spec where
  "peak_matrix_class =
    [(''cells'', Some ''PeakCell'')]"

definition player_card_class :: class_spec where
  "player_card_class =
    [(''uuid'', None), (''name'', None), (''offline'', None), (''online'', None), (''firstSeen'', None), (''lastSeen'', None), (''sessions'', None),
     (''playMs'', None), (''bytesIn'', None), (''bytesOut'', None), (''lastCc'', None), (''rttMs'', None)]"

definition session_meta_class :: class_spec where
  "session_meta_class =
    [(''id'', None), (''tunnelName'', None), (''clientIp'', None), (''playerName'', None), (''playerUuid'', None), (''startedMs'', None), (''endedMs'',
     None), (''bytesIn'', None), (''bytesOut'', None), (''cc'', None), (''rttAvg'', None)]"

definition player_detail_class :: class_spec where
  "player_detail_class =
    [(''card'', Some ''PlayerCard''), (''names'', Some ''NameSpan''), (''ips'', Some ''IPSpan''), (''recent'', Some ''SessionMeta'')]"

definition players_page_class :: class_spec where
  "players_page_class =
    [(''total'', None), (''players'', Some ''PlayerCard'')]"

definition players_query_class :: class_spec where
  "players_query_class =
    [(''search'', None), (''sort'', None), (''agentId'', None), (''tunnelId'', None), (''cc'', None), (''offset'', None), (''limit'', None)]"

definition traffic_point_class :: class_spec where
  "traffic_point_class =
    [(''t'', None), (''in'', None), (''out'', None)]"

definition session_timeline_class :: class_spec where
  "session_timeline_class =
    [(''traffic'', Some ''TrafficPoint''), (''rtt'', Some ''LatencyPoint'')]"

definition sessions_page_class :: class_spec where
  "sessions_page_class =
    [(''total'', None), (''sessions'', Some ''SessionMeta'')]"

definition sessions_query_class :: class_spec where
  "sessions_query_class =
    [(''playerUuid'', None), (''agentId'', None), (''tunnelId'', None), (''cc'', None), (''sinceMs'', None), (''offset'', None), (''limit'', None)]"

definition summary_class :: class_spec where
  "summary_class =
    [(''rangeMs'', None), (''bytesIn'', None), (''bytesOut'', None), (''sessions'', None), (''uniquePlayers'', None), (''peakPlayers'', None),
     (''peakPlayersAt'', None), (''peakInBps'', None), (''peakInAt'', None), (''peakOutBps'', None), (''peakOutAt'', None), (''avgRttMs'', None),
     (''avgLossPct'', None), (''linkUptimePct'', None), (''recInBps'', None), (''recInAt'', None), (''recOutBps'', None), (''recOutAt'', None),
     (''recPlayers'', None), (''recPlayersAt'', None), (''recConns'', None), (''recConnsAt'', None), (''lifetimeBytesIn'', None), (''lifetimeBytesOut'',
     None), (''lifetimeUptimeMs'', None), (''linkSessions'', None)]"

definition uptime_span_class :: class_spec where
  "uptime_span_class =
    [(''t'', None), (''up'', None)]"

definition tunnel_uptime_class :: class_spec where
  "tunnel_uptime_class =
    [(''tunnelId'', None), (''name'', None), (''uptimePct'', None), (''events'', Some ''UptimeSpan'')]"

definition uptime_report_class :: class_spec where
  "uptime_report_class =
    [(''link'', Some ''TunnelUptime''), (''tunnels'', Some ''TunnelUptime'')]"

definition agent_ui_class :: class_spec where
  "agent_ui_class =
    [(''agentId'', None), (''hostname'', None), (''lanIps'', None), (''remoteIp'', None), (''linkUpSinceMs'', None), (''rttMillis'', None),
     (''jitterMillis'', None), (''packetLossPct'', None), (''healthScore'', None), (''linkBytesIn'', None), (''linkBytesOut'', None), (''tunnels'', None),
     (''players'', None)]"

definition conn_ui_class :: class_spec where
  "conn_ui_class =
    [(''id'', None), (''agentId'', None), (''tunnelName'', None), (''clientAddr'', None), (''startedAt'', None), (''bytesIn'', None), (''bytesOut'', None),
     (''playerName'', None), (''playerUuid'', None), (''rttMs'', None)]"

definition latency_result_class :: class_spec where
  "latency_result_class =
    [(''samples'', None), (''rttAvgMs'', None), (''rttMinMs'', None), (''rttMaxMs'', None), (''jitterMs'', None), (''oneWayEstimateMs'', None),
     (''oneWayUpMs'', None), (''oneWayDownMs'', None), (''haveOneWay'', None), (''clockSyncCaveat'', None)]"

definition setup_file_info_class :: class_spec where
  "setup_file_info_class =
    [(''path'', None), (''role'', None), (''appVersion'', None), (''exportedAtMs'', None), (''encrypted'', None)]"

definition tunnel_ui_class :: class_spec where
  "tunnel_ui_class =
    [(''agentId'', None), (''id'', None), (''name'', None), (''publicPort'', None), (''localUp'', None), (''localKnown'', None), (''bandwidthLimitMbps'',
     None), (''bandwidthLimitScope'', None)]"

definition ui_status_class :: class_spec where
  "ui_status_class =
    [(''mode'', None), (''role'', None), (''version'', None), (''hostname'', None), (''pid'', None), (''configPath'', None), (''linkUp'', None),
     (''rttMillis'', None), (''agentConnected'', None), (''transport'', None), (''jitterMillis'', None), (''packetLossPct'', None), (''healthScore'',
     None), (''peerHostname'', None), (''publicIp'', None), (''peerPublicIp'', None), (''localLanIps'', None), (''peerLanIps'', None), (''agents'', Some
     ''AgentUI''), (''tunnels'', Some ''TunnelUI''), (''connections'', Some ''ConnUI''), (''totalBytesIn'', None), (''totalBytesOut'', None),
     (''linkUpSinceMs'', None), (''processStartMs'', None), (''peerAddr'', None), (''linkBytesIn'', None), (''linkBytesOut'', None), (''allTimeBytesIn'',
     None), (''allTimeBytesOut'', None), (''cumulativeUptimeMs'', None), (''linkSessions'', None), (''historyUnsupported'', None),
     (''analyticsUnsupported'', None), (''connectionsTruncated'', None), (''connectionsTotal'', None), (''engineFatal'', None)]"

definition tunnel_options_class :: class_spec where
  "tunnel_options_class =
    [(''MinecraftAware'', None), (''ProxyProtocolV2'', None), (''OfflineMOTD'', None), (''BandwidthLimitMbps'', None), (''BandwidthLimitScope'', None)]"

definition tunnel_class :: class_spec where
  "tunnel_class =
    [(''ID'', None), (''Name'', None), (''Type'', None), (''LocalAddr'', None), (''PublicPort'', None), (''Enabled'', None), (''Options'', Some
     ''TunnelOptions'')]"

definition agent_config_class :: class_spec where
  "agent_config_class =
    [(''AgentID'', None), (''GatewayHost'', None), (''GatewayPort'', None), (''Token'', None), (''CertFingerprint'', None), (''Transport'', None),
     (''Tunnels'', Some ''Tunnel''), (''EnrollTicket'', None)]"

definition analytics_config_class :: class_spec where
  "analytics_config_class =
    [(''RetentionDays'', None), (''MojangLookups'', None), (''GeoIPCityPath'', None), (''GeoIPASNPath'', None)]"

definition ui_config_class :: class_spec where
  "ui_config_class =
    [(''Theme'', None), (''MinimizeToTray'', None), (''Autostart'', None)]"

definition logging_config_class :: class_spec where
  "logging_config_class =
    [(''Level'', None), (''FileEnabled'', None)]"

definition metrics_config_class :: class_spec where
  "metrics_config_class =
    [(''PrometheusEnabled'', None), (''PrometheusAddr'', None)]"

definition gateway_config_class :: class_spec where
  "gateway_config_class =
    [(''BindAddr'', None), (''ControlPort'', None), (''Token'', None), (''PublicHost'', None), (''PortAllowlist'', None), (''MaxConnsGlobal'', None),
     (''MaxConnsPerIP'', None), (''AuthAttemptsPerMin'', None), (''QUICEnabled'', None), (''AcceptSharedToken'', None)]"

definition config_class :: class_spec where
  "config_class =
    [(''Role'', None), (''Agent'', Some ''AgentConfig''), (''Gateway'', Some ''GatewayConfig''), (''Metrics'', Some ''MetricsConfig''), (''Logging'', Some
     ''LoggingConfig''), (''UI'', Some ''UIConfig''), (''Analytics'', Some ''AnalyticsConfig'')]"

definition agent_view_class :: class_spec where
  "agent_view_class =
    [(''agentId'', None), (''nickname'', None), (''enrolled'', None), (''revoked'', None), (''scopePorts'', None), (''scopeTunnels'', None),
     (''issuedAtMs'', None), (''connected'', None), (''hostname'', None), (''remoteIp'', None), (''linkUpSinceMs'', None), (''tunnels'', None)]"

definition gateway_event_class :: class_spec where
  "gateway_event_class =
    [(''seq'', None), (''timeMs'', None), (''kind'', None), (''agentId'', None), (''tunnelId'', None), (''message'', None), (''requestedPort'', None),
     (''actualPort'', None)]"

definition status_class :: class_spec where
  "status_class =
    [(''cityLoaded'', None), (''asnLoaded'', None), (''cityError'', None), (''asnError'', None)]"

definition entry_class :: class_spec where
  "entry_class =
    [(''seq'', None), (''timeMs'', None), (''level'', None), (''msg'', None), (''attrs'', None)]"

definition bucket_class :: class_spec where
  "bucket_class =
    [(''t'', None), (''in'', None), (''out'', None), (''io'', None), (''ih'', None), (''il'', None), (''ic'', None), (''oo'', None), (''oh'', None),
     (''ol'', None), (''oc'', None), (''co'', None), (''ch'', None), (''cl'', None), (''cc'', None), (''ro'', None), (''rh'', None), (''rl'', None),
     (''rc'', None), (''po'', None), (''ph'', None), (''pl'', None), (''pc'', None), (''lo'', None), (''lh'', None), (''ll'', None), (''lc'', None)]"

definition history_result_class :: class_spec where
  "history_result_class =
    [(''windowMs'', None), (''bucketMs'', None), (''buckets'', Some ''Bucket'')]"

definition peer_stat_class :: class_spec where
  "peer_stat_class =
    [(''ip'', None), (''firstSeen'', None), (''lastSeen'', None), (''totalBytesIn'', None), (''totalBytesOut'', None), (''totalConns'', None)]"

definition classes :: "(string \<times> class_spec) list" where
  "classes =
    [(''CountryAgg'', country_agg_class), (''IPSpan'', ip_span_class), (''LatencyPoint'', latency_point_class), (''NameSpan'', name_span_class),
     (''PeakCell'', peak_cell_class), (''PeakMatrix'', peak_matrix_class), (''PlayerCard'', player_card_class), (''SessionMeta'', session_meta_class),
     (''PlayerDetail'', player_detail_class), (''PlayersPage'', players_page_class), (''PlayersQuery'', players_query_class), (''TrafficPoint'',
     traffic_point_class), (''SessionTimeline'', session_timeline_class), (''SessionsPage'', sessions_page_class), (''SessionsQuery'',
     sessions_query_class), (''Summary'', summary_class), (''UptimeSpan'', uptime_span_class), (''TunnelUptime'', tunnel_uptime_class), (''UptimeReport'',
     uptime_report_class), (''AgentUI'', agent_ui_class), (''ConnUI'', conn_ui_class), (''LatencyResult'', latency_result_class), (''SetupFileInfo'',
     setup_file_info_class), (''TunnelUI'', tunnel_ui_class), (''UIStatus'', ui_status_class), (''TunnelOptions'', tunnel_options_class), (''Tunnel'',
     tunnel_class), (''AgentConfig'', agent_config_class), (''AnalyticsConfig'', analytics_config_class), (''UIConfig'', ui_config_class),
     (''LoggingConfig'', logging_config_class), (''MetricsConfig'', metrics_config_class), (''GatewayConfig'', gateway_config_class), (''Config'',
     config_class), (''AgentView'', agent_view_class), (''GatewayEvent'', gateway_event_class), (''Status'', status_class), (''Entry'', entry_class),
     (''Bucket'', bucket_class), (''HistoryResult'', history_result_class), (''PeerStat'', peer_stat_class)]"

definition class_table :: "string \<Rightarrow> class_spec" where
  "class_table c = (case map_of classes c of Some fs \<Rightarrow> fs | None \<Rightarrow> [])"

section \<open>The constructors\<close>

lemma js_get_in: "js_get fs k \<noteq> Undef \<Longrightarrow> (k, js_get fs k) \<in> set fs"
  by (auto simp: js_get_def dest: map_of_SomeD split: option.splits)

lemma js_get_size: "size (js_get fs k) \<le> size_list (size_prod (\<lambda>_. 0) size) fs"
proof (cases "js_get fs k = Undef")
  case False
  have "size v \<le> size_list (size_prod (\<lambda>_. 0) size) ms" if "(k, v) \<in> set ms" for v and ms :: "(string \<times> js) list"
    using that by (induction ms) auto
  with js_get_in [OF False] show ?thesis by blast
qed simp

function convert :: "(string \<Rightarrow> class_spec) \<Rightarrow> string \<Rightarrow> js \<Rightarrow> js option" where
  "convert tab c v = (case v of
     Arr vs \<Rightarrow> map_option Arr (those (map (convert tab c) vs))
   | Obj fs \<Rightarrow> if js_truthy (js_get fs ''slice'') \<and> js_truthy (js_get fs ''map'') then None
       else map_option Obj (those (map (\<lambda>e. map_option (Pair (fst e)) (case snd e of None \<Rightarrow> Some (js_get fs (fst e)) | Some d \<Rightarrow> convert tab d (js_get fs (fst e)))) (tab c)))
   | _ \<Rightarrow> Some v)"
  by pat_completeness auto

termination
  by (relation "measure (\<lambda>(_, _, v). size v)") (auto simp: js_get_size size_list_estimation' less_Suc_eq_le)

declare convert.simps [simp del]

definition field_value :: "(string \<Rightarrow> class_spec) \<Rightarrow> (string \<times> js) list \<Rightarrow> string \<times> string option \<Rightarrow> (string \<times> js) option" where
  "field_value tab fs e = map_option (Pair (fst e)) (case snd e of None \<Rightarrow> Some (js_get fs (fst e)) | Some d \<Rightarrow> convert tab d (js_get fs (fst e)))"

definition construct :: "(string \<Rightarrow> class_spec) \<Rightarrow> string \<Rightarrow> (string \<times> js) list \<Rightarrow> js option" where
  "construct tab c fs = map_option Obj (those (map (field_value tab fs) (tab c)))"

lemma convert_simps:
  "convert tab c (Arr vs) = map_option Arr (those (map (convert tab c) vs))"
  "convert tab c (Obj fs) = (if js_truthy (js_get fs ''slice'') \<and> js_truthy (js_get fs ''map'') then None else construct tab c fs)"
  "convert tab c Undef = Some Undef" "convert tab c Nul = Some Nul" "convert tab c (Boolean b) = Some (Boolean b)"
  "convert tab c (Numeral n) = Some (Numeral n)" "convert tab c (Text t) = Some (Text t)"
  by (simp_all add: convert.simps [of tab c] construct_def field_value_def [abs_def])

text \<open>\<open>X.createFrom(source)\<close>: a missing source is an empty object, a text is parsed, and null has no properties to read.\<close>

definition create_from :: "string \<Rightarrow> js \<Rightarrow> js option" where
  "create_from c v = (case (case v of Text t \<Rightarrow> map_option js_of_json (json_parse t) | _ \<Rightarrow> Some v) of
     None \<Rightarrow> None
   | Some Nul \<Rightarrow> None
   | Some (Obj fs) \<Rightarrow> construct class_table c fs
   | Some _ \<Rightarrow> construct class_table c [])"

section \<open>Instances\<close>

text \<open>What a value of a class is: a scalar where the engine sent one, an array of instances, or an object with exactly the fields of the
  class, each undefined, or an instance of its class, or plain data.\<close>

fun plain :: "js \<Rightarrow> bool" where
  "plain Undef = False"
| "plain (Arr vs) = list_all plain vs"
| "plain (Obj fs) = (list_all (\<lambda>m. plain (snd m)) fs \<and> (\<nexists>v w. (''slice'', v) \<in> set fs \<and> (''map'', w) \<in> set fs))"
| "plain v = True"

inductive is_instance :: "(string \<Rightarrow> class_spec) \<Rightarrow> string \<Rightarrow> js \<Rightarrow> bool" for tab where
  scalar: "v \<noteq> Undef \<Longrightarrow> (\<forall>vs. v \<noteq> Arr vs) \<Longrightarrow> (\<forall>fs. v \<noteq> Obj fs) \<Longrightarrow> is_instance tab c v"
| array: "(\<And>v. v \<in> set vs \<Longrightarrow> is_instance tab c v) \<Longrightarrow> is_instance tab c (Arr vs)"
| object: "map fst fs = map fst (tab c) \<Longrightarrow> (\<And>f v. (f, None) \<in> set (tab c) \<Longrightarrow> (f, v) \<in> set fs \<Longrightarrow> v = Undef \<or> plain v)
    \<Longrightarrow> (\<And>f d v. (f, Some d) \<in> set (tab c) \<Longrightarrow> (f, v) \<in> set fs \<Longrightarrow> v = Undef \<or> is_instance tab d v) \<Longrightarrow> is_instance tab c (Obj fs)"

text \<open>The tables whose classes name a field once and have no method of an array.\<close>

definition table_ok :: "(string \<Rightarrow> class_spec) \<Rightarrow> bool" where
  "table_ok tab \<longleftrightarrow> (\<forall>c. distinct (map fst (tab c)) \<and> ''slice'' \<notin> fst ` set (tab c))"

lemma class_table_ok: "table_ok class_table"
proof -
  have "list_all (\<lambda>e. distinct (map fst (snd e)) \<and> ''slice'' \<notin> set (map fst (snd e))) classes" by code_simp
  then have "\<forall>e \<in> set classes. distinct (map fst (snd e)) \<and> ''slice'' \<notin> fst ` set (snd e)" by (simp add: list_all_iff)
  then have "distinct (map fst fs) \<and> ''slice'' \<notin> fst ` set fs" if "map_of classes c = Some fs" for c fs
    using map_of_SomeD [OF that] by (metis snd_conv)
  then show ?thesis unfolding table_ok_def class_table_def by (simp split: option.split)
qed

lemma js_get_distinct: "distinct (map fst fs) \<Longrightarrow> (k, v) \<in> set fs \<Longrightarrow> js_get fs k = v"
  by (simp add: js_get_def map_of_is_SomeI [of "rev fs"] rev_map [symmetric])

lemma js_get_none: "k \<notin> fst ` set fs \<Longrightarrow> js_get fs k = Undef"
  by (metis js_get_in image_eqI fst_conv)

lemma those_map_Some: "(\<And>x. x \<in> set xs \<Longrightarrow> f x = Some (g x)) \<Longrightarrow> those (map f xs) = Some (map g xs)"
  by (induction xs) simp_all

lemma those_map_ident: "(\<And>x. x \<in> set xs \<Longrightarrow> f x = Some x) \<Longrightarrow> those (map f xs) = Some xs"
  using those_map_Some [of xs f "\<lambda>x. x"] by simp

text \<open>What the constructor of a class makes of an object whose fields convert.\<close>

lemma construct_fields:
  assumes "\<And>f k. (f, k) \<in> set (tab c) \<Longrightarrow> (case k of None \<Rightarrow> Some (js_get fs f) | Some d \<Rightarrow> convert tab d (js_get fs f)) = Some (g f)"
  shows "construct tab c fs = Some (Obj (map (\<lambda>e. (fst e, g (fst e))) (tab c)))"
proof -
  have "field_value tab fs e = Some (fst e, g (fst e))" if "e \<in> set (tab c)" for e
    using assms [of "fst e" "snd e"] that by (simp add: field_value_def)
  from those_map_Some [of "tab c" _ "\<lambda>e. (fst e, g (fst e))", OF this] show ?thesis by (simp add: construct_def)
qed

lemma fields_again: "map fst fs = map fst es \<Longrightarrow> distinct (map fst fs) \<Longrightarrow> map (\<lambda>e. (fst e, js_get fs (fst e))) es = fs"
proof -
  assume keys: "map fst fs = map fst es" and "distinct (map fst fs)"
  then have "map (\<lambda>e. (fst e, js_get fs (fst e))) fs = fs" by (intro map_idI) (auto simp: js_get_distinct)
  moreover have "map (\<lambda>e. (fst e, js_get fs (fst e))) es = map (\<lambda>k. (k, js_get fs k)) (map fst es)" by simp
  ultimately show ?thesis by (simp flip: keys add: comp_def)
qed

text \<open>An instance is left as it is, and so is its copy through JSON: the members that were dropped come back undefined.\<close>

lemma not_array_like: "table_ok tab \<Longrightarrow> map fst fs = map fst (tab c) \<Longrightarrow> js_get fs ''slice'' = Undef"
  by (rule js_get_none) (metis table_ok_def list.set_map)

lemma plain_copy: "plain v \<Longrightarrow> json_copy v = v"
proof (induction v)
  case (Arr vs)
  then have "v \<noteq> Undef \<and> json_copy v = v" if "v \<in> set vs" for v using that by (auto simp: list_all_iff dest: bspec)
  then show ?case by (simp add: map_idI)
next
  case (Obj fs)
  then have "\<forall>m \<in> set fs. snd m \<noteq> Undef \<and> json_copy (snd m) = snd m" by (fastforce simp: list_all_iff)
  then show ?case by (simp add: filter_True map_idI)
qed simp_all

inductive_cases instance_objE: "is_instance tab c (Obj fs)"

lemma instance_field: "is_instance tab c (Obj fs) \<Longrightarrow> (f, Some d) \<in> set (tab c) \<Longrightarrow> (f, v) \<in> set fs \<Longrightarrow> v = Undef \<or> is_instance tab d v"
  by (erule instance_objE) simp_all

lemma instance_defined: "is_instance tab c v \<Longrightarrow> v \<noteq> Undef"
  by (cases rule: is_instance.cases) auto

lemma field_of:
  assumes "table_ok tab" and "map fst fs = map fst (tab c)" and "(f, k) \<in> set (tab c)"
  shows "(f, js_get fs f) \<in> set fs"
proof -
  have "f \<in> fst ` set fs" using assms(2,3) by (metis fst_conv image_eqI list.set_map)
  then obtain v where v: "(f, v) \<in> set fs" by auto
  have "distinct (map fst fs)" using assms(1,2) by (simp add: table_ok_def)
  with v show ?thesis by (simp add: js_get_distinct)
qed

lemma construct_instance:
  assumes "table_ok tab" and "map fst fs = map fst (tab c)" and "\<And>f. (f, None) \<in> set (tab c) \<Longrightarrow> js_get gs f = js_get fs f"
    and "\<And>f d. (f, Some d) \<in> set (tab c) \<Longrightarrow> convert tab d (js_get gs f) = Some (js_get fs f)"
  shows "construct tab c gs = Some (Obj fs)"
proof -
  have "(case k of None \<Rightarrow> Some (js_get gs f) | Some d \<Rightarrow> convert tab d (js_get gs f)) = Some (js_get fs f)" if "(f, k) \<in> set (tab c)" for f k
    using assms(3,4) that by (cases k) auto
  from construct_fields [of tab c gs "js_get fs", OF this] have "construct tab c gs = Some (Obj (map (\<lambda>e. (fst e, js_get fs (fst e))) (tab c)))" .
  moreover have "distinct (map fst fs)" using assms(1,2) by (simp add: table_ok_def)
  ultimately show ?thesis using fields_again [OF assms(2)] by simp
qed

lemma instance_convert:
  assumes "table_ok tab" and "is_instance tab c v"
  shows "convert tab c v = Some v"
  using assms(2)
proof (induction rule: is_instance.induct)
  case (scalar v c)
  then show ?case by (cases v) (simp_all add: convert_simps)
next
  case (array vs c)
  then show ?case by (simp add: convert_simps those_map_ident)
next
  case (object fs c)
  have "construct tab c fs = Some (Obj fs)"
  proof (rule construct_instance [OF assms(1) object.hyps(1)])
    show "convert tab d (js_get fs f) = Some (js_get fs f)" if "(f, Some d) \<in> set (tab c)" for f d
      using object.IH [OF that field_of [OF assms(1) object.hyps(1) that]] by (auto simp: convert_simps)
  qed simp
  with not_array_like [OF assms(1) object.hyps(1)] show ?case by (simp add: convert_simps js_truthy_def)
qed

lemma js_get_copy:
  assumes "distinct (map fst fs)"
  shows "js_get (map (\<lambda>m. (fst m, json_copy (snd m))) (filter (\<lambda>m. snd m \<noteq> Undef) fs)) f = (if js_get fs f = Undef then Undef else json_copy (js_get fs f))"
proof (cases "js_get fs f = Undef")
  case True
  let ?gs = "map (\<lambda>m. (fst m, json_copy (snd m))) (filter (\<lambda>m. snd m \<noteq> Undef) fs)"
  have "f \<notin> fst ` set ?gs" using True js_get_distinct [OF assms] by auto
  from js_get_none [OF this] True show ?thesis by simp
next
  case False
  let ?gs = "map (\<lambda>m. (fst m, json_copy (snd m))) (filter (\<lambda>m. snd m \<noteq> Undef) fs)"
  from js_get_in [OF False] have "(f, json_copy (js_get fs f)) \<in> set ?gs" using False by (force simp: image_iff)
  moreover have "distinct (map fst ?gs)" using assms by (simp add: comp_def distinct_map_filter)
  ultimately show ?thesis using False by (simp add: js_get_distinct)
qed

lemma instance_copy:
  assumes "table_ok tab" and "is_instance tab c v"
  shows "convert tab c (json_copy v) = Some v"
  using assms(2)
proof (induction rule: is_instance.induct)
  case (scalar v c)
  then show ?case by (cases v) (simp_all add: convert_simps)
next
  case (array vs c)
  have "those (map (\<lambda>v. convert tab c (if v = Undef then Nul else json_copy v)) vs) = Some vs"
    by (rule those_map_ident) (use array instance_defined in fastforce)
  then show ?case by (simp add: convert_simps comp_def)
next
  case (object fs c)
  let ?gs = "map (\<lambda>m. (fst m, json_copy (snd m))) (filter (\<lambda>m. snd m \<noteq> Undef) fs)"
  have dist: "distinct (map fst fs)" using assms(1) object.hyps(1) by (simp add: table_ok_def)
  note get = js_get_copy [OF dist]
  have "construct tab c ?gs = Some (Obj fs)"
  proof (rule construct_instance [OF assms(1) object.hyps(1)])
    show "js_get ?gs f = js_get fs f" if "(f, None) \<in> set (tab c)" for f
      using object.hyps(2) [OF that field_of [OF assms(1) object.hyps(1) that]] by (auto simp: get plain_copy)
    show "convert tab d (js_get ?gs f) = Some (js_get fs f)" if "(f, Some d) \<in> set (tab c)" for f d
      using object.IH [OF that field_of [OF assms(1) object.hyps(1) that]] by (auto simp: get convert_simps)
  qed
  moreover have "js_get ?gs ''slice'' = Undef" using not_array_like [OF assms(1) object.hyps(1)] by (simp add: get)
  ultimately show ?case by (simp add: convert_simps js_truthy_def)
qed

text \<open>Everything the engine can send is made an instance.\<close>

lemma those_total: "(\<And>x. x \<in> set xs \<Longrightarrow> f x \<noteq> None) \<Longrightarrow> those (map f xs) = Some (map (\<lambda>x. the (f x)) xs)"
  by (rule those_map_Some) auto

lemma plain_member: "plain (Obj fs) \<Longrightarrow> js_get fs f = Undef \<or> plain (js_get fs f)"
  using js_get_in [of fs f] by (force simp: list_all_iff)

lemma js_truthy_Undef: "js_truthy v \<Longrightarrow> v \<noteq> Undef"
  by (auto simp: js_truthy_def)

lemma plain_not_array_like: "plain (Obj fs) \<Longrightarrow> \<not> (js_truthy (js_get fs ''slice'') \<and> js_truthy (js_get fs ''map''))"
  using js_get_in [of fs "''slice''"] js_get_in [of fs "''map''"] js_truthy_Undef by (metis plain.simps(3))

lemma construct_plain:
  assumes "table_ok tab" and "plain (Obj fs)" and "\<And>f d. (f, Some d) \<in> set (tab c) \<Longrightarrow> js_get fs f \<noteq> Undef \<Longrightarrow> \<exists>w. convert tab d (js_get fs f) = Some w \<and> is_instance tab d w"
  shows "\<exists>w. construct tab c fs = Some w \<and> is_instance tab c w"
proof -
  define g where "g e = (case snd e of None \<Rightarrow> js_get fs (fst e) | Some d \<Rightarrow> the (convert tab d (js_get fs (fst e))))" for e
  have conv: "field_value tab fs e = Some (fst e, g e)" if "e \<in> set (tab c)" for e
  proof (cases "snd e")
    case (Some d)
    then have "(fst e, Some d) \<in> set (tab c)" using that by (metis prod.collapse)
    from assms(3) [OF this] have "convert tab d (js_get fs (fst e)) \<noteq> None"
      by (cases "js_get fs (fst e) = Undef") (auto simp: convert_simps)
    then show ?thesis by (simp add: field_value_def g_def Some)
  qed (simp add: field_value_def g_def)
  have res: "construct tab c fs = Some (Obj (map (\<lambda>e. (fst e, g e)) (tab c)))"
    using those_map_Some [of "tab c" "field_value tab fs", OF conv] by (simp add: construct_def)
  have dist: "distinct (map fst (tab c))" using assms(1) by (simp add: table_ok_def)
  have own: "v = g (f, k)" if "(f, k) \<in> set (tab c)" "(f, v) \<in> set (map (\<lambda>e. (fst e, g e)) (tab c))" for f k v
  proof -
    from that(2) obtain e where e: "e \<in> set (tab c)" "f = fst e" "v = g e" by auto
    then have "(fst e, snd e) \<in> set (tab c)" "(fst e, k) \<in> set (tab c)" using that(1) by simp_all
    then have "snd e = k" by (rule eq_key_imp_eq_value [OF dist])
    with e show ?thesis by (metis prod.collapse)
  qed
  have "is_instance tab c (Obj (map (\<lambda>e. (fst e, g e)) (tab c)))"
  proof (rule is_instance.object)
    show "v = Undef \<or> plain v" if "(f, None) \<in> set (tab c)" "(f, v) \<in> set (map (\<lambda>e. (fst e, g e)) (tab c))" for f v
      using own [OF that] plain_member [OF assms(2), of f] by (simp add: g_def)
    show "v = Undef \<or> is_instance tab d v" if "(f, Some d) \<in> set (tab c)" "(f, v) \<in> set (map (\<lambda>e. (fst e, g e)) (tab c))" for f d v
      using own [OF that] assms(3) [OF that(1)] by (cases "js_get fs f = Undef") (auto simp: g_def convert_simps)
  qed simp
  with res show ?thesis by blast
qed

lemma plain_convert:
  assumes "table_ok tab"
  shows "plain v \<Longrightarrow> \<exists>w. convert tab c v = Some w \<and> is_instance tab c w"
proof (induction "size v" arbitrary: v c rule: less_induct)
  case less
  show ?case
  proof (cases v)
    case (Arr vs)
    have items: "\<exists>w. convert tab c x = Some w \<and> is_instance tab c w" if "x \<in> set vs" for x
      using less.hyps [of x c] less.prems that Arr by (simp add: list_all_iff less_Suc_eq_le size_list_estimation')
    then have "convert tab c (Arr vs) = Some (Arr (map (\<lambda>x. the (convert tab c x)) vs))"
      using those_total [of vs "convert tab c"] by (fastforce simp: convert_simps)
    moreover have "is_instance tab c (Arr (map (\<lambda>x. the (convert tab c x)) vs))"
      by (rule is_instance.array) (use items in force)
    ultimately show ?thesis using Arr by blast
  next
    case (Obj fs)
    have "\<exists>w. convert tab d (js_get fs f) = Some w \<and> is_instance tab d w" if "js_get fs f \<noteq> Undef" for f d
      using less.hyps [of "js_get fs f" d] plain_member [of fs f] less.prems that js_get_size [of fs f] Obj by (simp add: less_Suc_eq_le)
    with construct_plain [OF assms, of fs c] less.prems Obj plain_not_array_like [of fs] show ?thesis by (simp add: convert_simps)
  qed (use less.prems in \<open>auto simp: convert_simps intro: is_instance.scalar\<close>)
qed

section \<open>Properties\<close>


text \<open>\<open>createFrom({...t, ...patch})\<close>, as the tunnel editor edits: the fields of the patch are replaced, the others are kept.\<close>

theorem create_from_patch:
  assumes "is_instance class_table c (Obj fs)" and "distinct (map fst ps)" and "fst ` set ps \<subseteq> fst ` set (class_table c)"
    and "\<forall>(f, v) \<in> set ps. v \<noteq> Undef \<and> (case map_of (class_table c) f of Some (Some d) \<Rightarrow> is_instance class_table d v | _ \<Rightarrow> plain v)"
  shows "create_from c (Obj (spread fs ps)) = Some (Obj (map (\<lambda>(f, v). (f, case map_of ps f of Some x \<Rightarrow> x | None \<Rightarrow> v)) fs))"
proof -
  let ?gs = "map (\<lambda>(f, v). (f, case map_of ps f of Some x \<Rightarrow> x | None \<Rightarrow> v)) fs"
  note ok = class_table_ok
  have keys: "map fst fs = map fst (class_table c)" using assms(1) by (auto elim: is_instance.cases)
  then have dist: "distinct (map fst fs)" "distinct (map fst (class_table c))" using ok by (simp_all add: table_ok_def)
  have keys': "map fst ?gs = map fst (class_table c)" using keys by (simp add: comp_def split_def)
  have "map_of (rev ps) = map_of ps" using assms(2) by (simp add: map_of_inject_set rev_map [symmetric])
  then have rev: "map_of (rev ps) f = map_of ps f" for f by simp
  have patched: "js_get (spread fs ps) f = (case map_of ps f of Some x \<Rightarrow> x | None \<Rightarrow> js_get fs f)" for f
    by (simp add: js_get_def spread_def map_add_def rev split: option.split)
  have get: "js_get (spread fs ps) f = js_get ?gs f" if "(f, k) \<in> set (class_table c)" for f k
  proof -
    have own: "(f, js_get fs f) \<in> set fs" by (rule field_of [OF ok keys that])
    then have "(f, case map_of ps f of Some x \<Rightarrow> x | None \<Rightarrow> js_get fs f) \<in> set ?gs" by force
    then have "js_get ?gs f = (case map_of ps f of Some x \<Rightarrow> x | None \<Rightarrow> js_get fs f)"
      using keys' dist(2) by (intro js_get_distinct) simp_all
    then show ?thesis using patched by simp
  qed
  have "convert class_table d (js_get (spread fs ps) f) = Some (js_get ?gs f)" if "(f, Some d) \<in> set (class_table c)" for f d
  proof -
    have "map_of (class_table c) f = Some (Some d)" using that dist(2) by simp
    then have "is_instance class_table d x" if "map_of ps f = Some x" for x
      using bspec [OF assms(4) map_of_SomeD [OF that]] by simp
    then have "js_get (spread fs ps) f = Undef \<or> is_instance class_table d (js_get (spread fs ps) f)"
      using instance_field [OF assms(1) that field_of [OF ok keys that]] by (simp add: patched split: option.split)
    then show ?thesis using instance_convert [OF ok] get [OF that] by (auto simp: convert_simps)
  qed
  with get have "construct class_table c (spread fs ps) = Some (Obj ?gs)"
    by (intro construct_instance [OF ok keys']) simp_all
  then show ?thesis by (simp add: create_from_def)
qed


section \<open>Witnesses\<close>


theorem create_from_patch_witness:
  "create_from ''NameSpan'' (Obj (spread [(''name'', Text ''Al''), (''firstSeen'', Numeral ''3''), (''lastSeen'', Undef)] [(''lastSeen'', Numeral ''5'')]))
   = Some (Obj [(''name'', Text ''Al''), (''firstSeen'', Numeral ''3''), (''lastSeen'', Numeral ''5'')])"
proof -
  let ?fs = "[(''name'', Text ''Al''), (''firstSeen'', Numeral ''3''), (''lastSeen'', Undef)]"
  have cls: "class_table ''NameSpan'' = [(''name'', None), (''firstSeen'', None), (''lastSeen'', None)]"
    by (simp add: class_table_def classes_def name_span_class_def)
  have "is_instance class_table ''NameSpan'' (Obj ?fs)"
    by (rule is_instance.object) (auto simp: cls)
  from create_from_patch [OF this, of "[(''lastSeen'', Numeral ''5'')]"] show ?thesis by (simp add: cls)
qed

end
