(* ===== verification/Overview_Screen.thy ===== *)
theory Overview_Screen
  imports Overview Widgets
begin

text \<open>
  The Overview screen as a whole (\<open>screens/Overview.tsx\<close>): the component with its second tick, its ignite moment, the latency probe and,
  on a gateway, the pairing strip, over the status it is rendered with; and the page it shows, put together from the parts in \<open>Overview\<close>.
  The bandwidth teaser is the panel of \<open>Series_Pref\<close>. \<open>Date.now()\<close> and the motion preference come with the events.
\<close>

section \<open>The component\<close>

record overview_page =
  op_status :: ui_status
  op_now :: int
  op_ignite :: ignite
  op_probe :: probe
  op_strip :: "strip option"          \<comment> \<open>mounted on a gateway only\<close>
  op_went :: "string list"            \<comment> \<open>calls of \<open>onNavigate\<close>\<close>
  op_restarts :: nat                  \<comment> \<open>calls of \<open>RestartEngine\<close>\<close>

definition overview_mount :: "bool \<Rightarrow> int \<Rightarrow> ui_status \<Rightarrow> overview_page" where
  "overview_mount reduced now st = \<lparr>op_status = st, op_now = now, op_ignite = ignite_effect reduced now (link_flowing st) ignite_init,
     op_probe = probe_mount, op_strip = (if is_agent st then None else Some strip_mount), op_went = [], op_restarts = 0\<rparr>"

text \<open>A new snapshot: a change of the role mounts or unmounts the strip.\<close>

definition overview_render :: "bool \<Rightarrow> int \<Rightarrow> ui_status \<Rightarrow> overview_page \<Rightarrow> overview_page" where
  "overview_render reduced now st s = s\<lparr>op_status := st, op_now := now, op_ignite := ignite_effect reduced now (link_flowing st) (op_ignite s),
     op_strip := (if is_agent st then None else case op_strip s of None \<Rightarrow> Some strip_mount | Some p \<Rightarrow> Some p)\<rparr>"

definition restart_offered :: "ui_status \<Rightarrow> bool" where
  "restart_offered st \<longleftrightarrow> truthy (st_engine_fatal st) \<noteq> None \<and> st_mode st \<noteq> ''attached''"

datatype overview_event =
    OvStatus bool int ui_status
  | OvSecond int
  | OvProbeToggle
  | OvMeasure
  | OvMeasured "string + latency_result"
  | OvProbeDismiss
  | OvCode string
  | OvCodeFails string
  | OvCodeTimer
  | OvReveal
  | OvTestPath
  | OvExpand
  | OvRestart

fun overview_step :: "overview_page \<Rightarrow> overview_event \<Rightarrow> overview_page" where
  "overview_step s (OvStatus reduced now st) = overview_render reduced now st s"
| "overview_step s (OvSecond now) = s\<lparr>op_now := now, op_ignite := ignite_clock now (op_ignite s)\<rparr>"
| "overview_step s OvProbeToggle = s\<lparr>op_probe := probe_step (op_probe s) ProbeToggle\<rparr>"
| "overview_step s OvMeasure = s\<lparr>op_probe := probe_step (op_probe s) (ProbeRun (link_linked (op_status s)))\<rparr>"
| "overview_step s (OvMeasured r) = s\<lparr>op_probe := probe_step (op_probe s) (ProbeAnswer r)\<rparr>"
| "overview_step s OvProbeDismiss = s\<lparr>op_probe := probe_step (op_probe s) ProbeDismiss\<rparr>"
| "overview_step s (OvCode c) = s\<lparr>op_strip := map_option (\<lambda>p. strip_step p (StripAnswer c)) (op_strip s)\<rparr>"
| "overview_step s (OvCodeFails e) = s\<lparr>op_strip := map_option (\<lambda>p. strip_step p (StripReject e)) (op_strip s)\<rparr>"
| "overview_step s OvCodeTimer = s\<lparr>op_strip := map_option (\<lambda>p. strip_step p StripTimer) (op_strip s)\<rparr>"
| "overview_step s OvReveal = s\<lparr>op_strip := map_option (\<lambda>p. strip_step p Reveal) (op_strip s)\<rparr>"
| "overview_step s OvTestPath = (if is_agent (op_status s) then s\<lparr>op_went := op_went s @ [''tunnels'']\<rparr> else s)"
| "overview_step s OvExpand = s\<lparr>op_went := op_went s @ [''traffic'']\<rparr>"
| "overview_step s OvRestart = (if restart_offered (op_status s) then s\<lparr>op_restarts := Suc (op_restarts s)\<rparr> else s)"

section \<open>The page\<close>

text \<open>A station with its light and the line under it; the middle one pulses.\<close>

definition pipe_node :: "station \<Rightarrow> bool \<Rightarrow> string option \<Rightarrow> station \<times> bool \<times> string option" where
  "pipe_node p pulse extra = (p, pulse \<and> pn_state p = ''good'', extra)"

definition conduit :: "bool \<Rightarrow> string option \<Rightarrow> bool \<times> string option" where
  "conduit on lbl = (on, truthy lbl)"

record end_card =
  ec_role :: string
  ec_self :: bool
  ec_side :: string
  ec_texts :: "string \<times> string \<times> string option"      \<comment> \<open>host, public address, LAN\<close>
  ec_online :: bool

definition role_word :: "bool \<Rightarrow> string" where
  "role_word agent = (if agent then ''Agent'' else ''Gateway'')"

definition role_id :: "bool \<Rightarrow> string" where
  "role_id agent = (if agent then ''agent'' else ''gateway'')"

definition self_card :: "ui_status \<Rightarrow> end_card" where
  "self_card st = \<lparr>ec_role = role_id (is_agent st), ec_self = True, ec_side = ''This machine'' @ mid_dot @ role_word (is_agent st),
     ec_texts = identity_card (st_hostname st) (st_public_ip st) (st_local_lan_ips st), ec_online = True\<rparr>"

definition peer_card :: "ui_status \<Rightarrow> end_card" where
  "peer_card st = \<lparr>ec_role = role_id (\<not> is_agent st), ec_self = False, ec_side = ''Peer'' @ mid_dot @ role_word (\<not> is_agent st),
     ec_texts = identity_card (st_peer_hostname st) (st_peer_public_ip st) (st_peer_lan_ips st),
     ec_online = (if is_agent st then st_link_up st else st_agent_connected st)\<rparr>"

record probe_view =
  pv_caption :: string
  pv_button :: "string \<times> bool"                        \<comment> \<open>label, and whether it is disabled\<close>
  pv_reason :: "string option"
  pv_result :: "(string \<times> string \<times> (string \<times> string) option \<times> bool) option"   \<comment> \<open>estimate, detail, directions, caveat\<close>
  pv_err :: "string option"

definition probe_shows :: "bool \<Rightarrow> bool \<Rightarrow> probe \<Rightarrow> probe_view" where
  "probe_shows agent linked s = \<lparr>pv_caption = (if pr_open s then ''Hide'' else ''Burst-test the live link to the '' @ role_id (\<not> agent)),
     pv_button = (if pr_busy s then ''Measuring'' @ ellipsis else ''Measure now'', pr_busy s \<or> \<not> linked),
     pv_reason = (if linked then None else Some (if agent then ''Link is down'' else ''No agent connected'')),
     pv_result = map_option (\<lambda>r. (fst (probe_one_way r), probe_detail r, snd (probe_one_way r), lres_have_one_way r \<and> lres_clock_sync_caveat r)) (pr_res s),
     pv_err = truthy (Some (pr_err s))\<rparr>"

datatype bottom_strip = AddressStrip "string option" | CodeStrip strip_view

definition overview_banners :: "ui_status \<Rightarrow> (banner \<times> bool) list" where
  "overview_banners st = (case truthy (st_engine_fatal st) of
       Some e \<Rightarrow> [(banner_of BannerBad (''Engine stopped: '' @ e) False, restart_offered st)] | None \<Rightarrow> [])
     @ (if st_mode st = ''attached'' then [(banner_of BannerInfo (''Running as a Windows service '' @ em_dash @ '' this window is a viewer.'') False, False)] else [])"

definition overview_tiles :: "int \<Rightarrow> ui_status \<Rightarrow> (string \<times> string \<times> string option \<times> bool) list" where
  "overview_tiles now st =
    [(''Link uptime'', link_uptime now st, truthy (Some (uptime_sub now st)), False),
     (''Round trip'', round_trip st, None, False),
     (''Live sessions'', show_nat (length (status_conns st)), None, status_conns st \<noteq> []),
     (''Data moved'', fmt_bytes (of_int (app_bytes st)), data_moved_sub st, False)]"

record overview_view =
  ov_subtitle :: string
  ov_banners :: "(banner \<times> bool) list"
  ov_bleed :: "string option"
  ov_ignite :: bool
  ov_left :: "station \<times> bool \<times> string option"
  ov_left_conduit :: "bool \<times> string option"
  ov_link :: "station \<times> bool \<times> string option"
  ov_right_conduit :: "bool \<times> string option"
  ov_port :: "station \<times> bool \<times> string option"
  ov_health :: health_panel
  ov_probe :: probe_view
  ov_tiles :: "(string \<times> string \<times> string option \<times> bool) list"
  ov_self :: end_card
  ov_peer :: end_card
  ov_strip :: bottom_strip

definition overview_shows :: "overview_page \<Rightarrow> overview_view" where
  "overview_shows s = (let st = op_status s in
     \<lparr>ov_subtitle = (if is_agent st then ''The path from your server to your players.'' else ''The public front door for your agent.''),
      ov_banners = overview_banners st, ov_bleed = bleed_color st, ov_ignite = ig_on (op_ignite s),
      ov_left = pipe_node (left_station st) False None, ov_left_conduit = conduit (left_conduit_on st) (hop_label (left_hop st)),
      ov_link = pipe_node (link_station st) True (truthy (Some (st_peer_addr st))),
      ov_right_conduit = conduit (right_conduit_on st) (hop_label (right_hop st)),
      ov_port = pipe_node (port_station st) False (Some (sessions_line st)),
      ov_health = health_panel_of st, ov_probe = probe_shows (is_agent st) (link_linked st) (op_probe s), ov_tiles = overview_tiles (op_now s) st,
      ov_self = self_card st, ov_peer = peer_card st,
      ov_strip = (case op_strip s of None \<Rightarrow> AddressStrip (truthy (Some (player_address st))) | Some p \<Rightarrow> CodeStrip (strip_shows p))\<rparr>)"


section \<open>What holds on every run\<close>

definition overview_inv :: "bool \<Rightarrow> overview_page \<Rightarrow> bool" where
  "overview_inv masked s \<longleftrightarrow> probe_inv (op_probe s)
     \<and> (case op_strip s of None \<Rightarrow> is_agent (op_status s) | Some p \<Rightarrow> \<not> is_agent (op_status s) \<and> strip_inv p \<and> (masked \<longrightarrow> \<not> gs_shown p))"

lemma strip_masked: "e \<noteq> Reveal \<Longrightarrow> gs_shown (strip_step p e) = gs_shown p"
  by (cases e) (auto simp: strip_answer_def strip_reject_def strip_timer_def Let_def split: option.splits)

lemma overview_inv_strip:
  assumes "overview_inv masked s" and "masked \<longrightarrow> x \<noteq> Reveal"
  shows "overview_inv masked (s\<lparr>op_strip := map_option (\<lambda>p. strip_step p x) (op_strip s)\<rparr>)"
proof (cases "op_strip s")
  case (Some p)
  with assms strip.inv_step [of p x] strip_masked [of x p] show ?thesis by (auto simp: overview_inv_def)
qed (use assms in \<open>simp add: overview_inv_def\<close>)

lemma overview_inv_step:
  assumes "overview_inv masked s" and "masked \<longrightarrow> e \<noteq> OvReveal"
  shows "overview_inv masked (overview_step s e)"
proof (cases e)
  case (OvStatus reduced now st)
  have "strip_inv strip_mount" "\<not> gs_shown strip_mount" by (rule strip_inv_mount) (simp add: strip_mount_def)
  with assms OvStatus show ?thesis by (auto simp: overview_inv_def overview_render_def split: option.splits)
next
  case OvReveal
  with overview_inv_strip [OF assms(1), of Reveal] assms(2) show ?thesis by simp
next
  case (OvCode c)
  with overview_inv_strip [OF assms(1), of "StripAnswer c"] show ?thesis by simp
next
  case (OvCodeFails x)
  with overview_inv_strip [OF assms(1), of "StripReject x"] show ?thesis by simp
next
  case OvCodeTimer
  with overview_inv_strip [OF assms(1), of StripTimer] show ?thesis by simp
next
  case OvMeasure
  with assms probe.inv_step [of "op_probe s" "ProbeRun (link_linked (op_status s))"] show ?thesis by (auto simp: overview_inv_def split: option.splits)
next
  case (OvMeasured r)
  with assms probe.inv_step [of "op_probe s" "ProbeAnswer r"] show ?thesis by (auto simp: overview_inv_def split: option.splits)
next
  case OvProbeToggle
  with assms probe.inv_step [of "op_probe s" ProbeToggle] show ?thesis by (auto simp: overview_inv_def split: option.splits)
next
  case OvProbeDismiss
  with assms probe.inv_step [of "op_probe s" ProbeDismiss] show ?thesis by (auto simp: overview_inv_def split: option.splits)
qed (use assms in \<open>auto simp: overview_inv_def split: option.splits\<close>)

lemma overview_inv_mount: "overview_inv masked (overview_mount reduced now st)"
  by (simp add: overview_inv_def overview_mount_def probe_inv_def probe_mount_def strip_mount_def strip_inv_def)

interpretation overview: invariant_machine overview_step "overview_inv False"
  by unfold_locales (rule overview_inv_step; simp)

lemma overview_masked_run: "overview_inv True s \<Longrightarrow> OvReveal \<notin> set es \<Longrightarrow> overview_inv True (foldl overview_step s es)"
proof (induction es arbitrary: s)
  case (Cons e es)
  then have "overview_inv True (overview_step s e)" by (intro overview_inv_step) auto
  with Cons show ?case by simp
qed simp

lemma page_lights:
  "ec_online (ov_peer (overview_shows s)) = link_linked (op_status s)" "ec_role (ov_self (overview_shows s)) = role_id (is_agent (op_status s))"
  "pn_state (fst (ov_link (overview_shows s))) = link_state (op_status s)" "pn_state (fst (ov_port (overview_shows s))) = port_state (op_status s)"
  "pn_state (fst (ov_left (overview_shows s))) = (if is_agent (op_status s) then local_state (op_status s) else link_state (op_status s))"
  "fst (ov_left_conduit (overview_shows s)) = left_conduit_on (op_status s)" "fst (ov_right_conduit (overview_shows s)) = right_conduit_on (op_status s)"
  by (simp_all add: overview_shows_def Let_def peer_card_def self_card_def link_linked_def pipe_node_def conduit_def link_station_def port_station_def left_station_def)

lemma link_lights: "link_linked st \<longleftrightarrow> link_state st = ''good''"
  by (simp add: link_linked_def link_state_def)

lemma conduit_lights:
  "left_conduit_on st \<Longrightarrow> link_state st = ''good'' \<and> (if is_agent st then local_state st else link_state st) \<noteq> ''bad''"
  "right_conduit_on st \<Longrightarrow> link_state st = ''good'' \<and> port_state st = ''good''"
  by (simp_all add: left_conduit_on_def right_conduit_on_def link_flowing_def)

lemma address_light: "player_address st \<noteq> '''' \<Longrightarrow> is_agent st \<Longrightarrow> port_state st = ''good''"
  by (auto simp: player_address_def port_state_def port_bound_def split: option.splits if_splits)

lemma masked_strip: "\<not> gs_shown p \<Longrightarrow> strip_shows p \<in> {StripCode bullets False, StripGenerating} \<union> range StripError"
  by (simp add: strip_shows_def)

section \<open>Properties\<close>

text \<open>The page is of one mind. The peer is shown online exactly when the link station is good and the latency can be measured; a conduit flows
  only with the peer online and no bad light at its ends; an address is offered by an agent only, with its port station good; a gateway shows
  its pairing code only after somebody asked to reveal it; and the probe never shows a result beside an error.\<close>

theorem overview_agrees:
  "let s = foldl overview_step (overview_mount reduced now st) es; v = overview_shows s; online = ec_online (ov_peer v) in
    (online \<longleftrightarrow> pn_state (fst (ov_link v)) = ''good'') \<and> (online \<longleftrightarrow> pv_reason (ov_probe v) = None)
    \<and> (fst (ov_left_conduit v) \<longrightarrow> online \<and> pn_state (fst (ov_left v)) \<noteq> ''bad'')
    \<and> (fst (ov_right_conduit v) \<longrightarrow> online \<and> pn_state (fst (ov_port v)) = ''good'')
    \<and> (case ov_strip v of AddressStrip a \<Rightarrow> ec_role (ov_self v) = ''agent'' \<and> (a \<noteq> None \<longrightarrow> pn_state (fst (ov_port v)) = ''good'')
       | CodeStrip c \<Rightarrow> ec_role (ov_self v) = ''gateway'' \<and> (OvReveal \<notin> set es \<longrightarrow> c \<in> {StripCode bullets False, StripGenerating} \<union> range StripError))
    \<and> (pv_result (ov_probe v) \<noteq> None \<longrightarrow> pv_err (ov_probe v) = None)"
proof -
  define s where "s = foldl overview_step (overview_mount reduced now st) es"
  have inv: "overview_inv False s" unfolding s_def by (rule overview.inv_run [OF overview_inv_mount])
  have masked: "overview_inv True s" if "OvReveal \<notin> set es"
    unfolding s_def using overview_masked_run [OF overview_inv_mount that] .
  let ?v = "overview_shows s" and ?st = "op_status s"
  have "case ov_strip ?v of AddressStrip a \<Rightarrow> role_id (is_agent ?st) = ''agent'' \<and> (a \<noteq> None \<longrightarrow> port_state ?st = ''good'')
       | CodeStrip c \<Rightarrow> role_id (is_agent ?st) = ''gateway'' \<and> (OvReveal \<notin> set es \<longrightarrow> c \<in> {StripCode bullets False, StripGenerating} \<union> range StripError)"
  proof (cases "op_strip s")
    case None
    with inv have "is_agent ?st" by (simp add: overview_inv_def)
    with None address_light [of ?st] show ?thesis by (simp add: overview_shows_def Let_def role_id_def truthy_def)
  next
    case (Some p)
    with inv have "\<not> is_agent ?st" by (simp add: overview_inv_def)
    moreover have "\<not> gs_shown p" if "OvReveal \<notin> set es" using masked [OF that] Some by (simp add: overview_inv_def)
    ultimately show ?thesis using Some masked_strip [of p] by (simp add: overview_shows_def Let_def role_id_def)
  qed
  moreover have "pv_reason (ov_probe ?v) = None \<longleftrightarrow> link_linked ?st" by (simp add: overview_shows_def Let_def probe_shows_def)
  moreover have "pv_result (ov_probe ?v) \<noteq> None \<longrightarrow> pv_err (ov_probe ?v) = None"
    using inv by (auto simp: overview_shows_def Let_def probe_shows_def overview_inv_def probe_inv_def truthy_def)
  ultimately show ?thesis
    unfolding s_def [symmetric] Let_def page_lights using link_lights [of ?st] conduit_lights [of ?st] by simp
qed


section \<open>Witnesses\<close>

theorem overview_agrees_witness:
  "let s = foldl overview_step (overview_mount False 0 (bound_status ''play.example.net:8474'')) [OvMeasure, OvMeasured (Inl ''timeout'')] in
    ov_strip (overview_shows s) = AddressStrip (Some ''play.example.net'') \<and> pn_state (fst (ov_port (overview_shows s))) = ''good''
    \<and> ec_role (ov_self (overview_shows s)) = ''agent'' \<and> pv_err (ov_probe (overview_shows s)) = Some ''timeout'' \<and> pv_result (ov_probe (overview_shows s)) = None"
proof -
  define s where "s = foldl overview_step (overview_mount False 0 (bound_status ''play.example.net:8474'')) [OvMeasure, OvMeasured (Inl ''timeout'')]"
  have strip: "ov_strip (overview_shows s) = AddressStrip (Some ''play.example.net'')"
    by (simp add: s_def overview_mount_def overview_shows_def Let_def is_agent_def player_address_def player_host_def first_tunnel_def status_tunnels_def
        bound_status_def truthy_def)
  have probe: "pv_err (ov_probe (overview_shows s)) = Some ''timeout''"
    by (simp add: s_def overview_mount_def overview_shows_def Let_def probe_mount_def probe_run_def probe_answer_def probe_shows_def link_linked_def is_agent_def
        bound_status_def truthy_def)
  show ?thesis
    using overview_agrees [of False 0 "bound_status ''play.example.net:8474''" "[OvMeasure, OvMeasured (Inl ''timeout'')]"] strip probe
    unfolding s_def [symmetric] Let_def by (cases "pv_result (ov_probe (overview_shows s))") simp_all
qed

end
