(* ===== verification/Tunnels_Screen.thy ===== *)
theory Tunnels_Screen
  imports Tunnels Widgets
begin

text \<open>
  The Tunnels screen as a whole (\<open>screens/Tunnels.tsx\<close>): the list with a card per tunnel, each with its own delete button and path test,
  which live as long as the card does; and what list, cards, editor and the gateway's table show. The pieces come from \<open>Tunnels\<close>.
\<close>

section \<open>The component\<close>

record tunnel_card =
  tc_delete :: delete_button
  tc_test :: path_test

record tunnels_screen =
  tx_page :: tunnels_page
  tx_cards :: "(string \<times> tunnel_card) list"      \<comment> \<open>the mounted cards, by their React key\<close>
  tx_now :: int
  tx_live :: "tunnel_ui list option"

definition card_mount :: "int \<Rightarrow> tunnel_card" where
  "card_mount now = \<lparr>tc_delete = delete_mount now, tc_test = path_test_mount\<rparr>"

text \<open>A render of the list: a card whose tunnel is still there keeps its state.\<close>

definition cards_render :: "tunnels_screen \<Rightarrow> tunnels_screen" where
  "cards_render s = s\<lparr>tx_cards := map (\<lambda>i. (i, case map_of (tx_cards s) i of Some c \<Rightarrow> c | None \<Rightarrow> card_mount (tx_now s))) (tunnel_ids (tp_tunnels (tx_page s)))\<rparr>"

definition tunnels_screen_mount :: "int \<Rightarrow> tunnel_ui list option \<Rightarrow> tunnel list \<Rightarrow> tunnels_screen" where
  "tunnels_screen_mount now live stored = \<lparr>tx_page = tunnels_mount stored, tx_cards = [], tx_now = now, tx_live = live\<rparr>"

definition card_update :: "string \<Rightarrow> (tunnel_card \<Rightarrow> tunnel_card) \<Rightarrow> tunnels_screen \<Rightarrow> tunnels_screen" where
  "card_update i f s = s\<lparr>tx_cards := map (\<lambda>(j, c). (j, if j = i then f c else c)) (tx_cards s)\<rparr>"

definition card_armed :: "string \<Rightarrow> tunnels_screen \<Rightarrow> bool" where
  "card_armed i s \<longleftrightarrow> (case map_of (tx_cards s) i of Some c \<Rightarrow> db_armed (tc_delete c) \<noteq> None | None \<Rightarrow> False)"

definition page_event :: "tunnels_event \<Rightarrow> tunnels_screen \<Rightarrow> tunnels_screen" where
  "page_event e s = cards_render (s\<lparr>tx_page := tunnels_step (tx_page s) e\<rparr>)"

datatype tunnels_screen_event =
    TxStatus "tunnel_ui list option"
  | TxRead | TxArrives | TxReadFails string
  | TxAdd "nat list" | TxEdit string | TxForm form_edit | TxCancel | TxSave
  | TxToggle string bool
  | TxSaved nat "string option"
  | TxDismiss
  | TxTrash string                        \<comment> \<open>the delete button of a card\<close>
  | TxTime nat
  | TxTest string
  | TxTested string "string + string"

fun tunnels_screen_step :: "tunnels_screen \<Rightarrow> tunnels_screen_event \<Rightarrow> tunnels_screen" where
  "tunnels_screen_step s (TxStatus live) = s\<lparr>tx_live := live\<rparr>"
| "tunnels_screen_step s TxRead = page_event ReadConfig s"
| "tunnels_screen_step s TxArrives = page_event ConfigArrives s"
| "tunnels_screen_step s (TxReadFails e) = page_event (ConfigFails e) s"
| "tunnels_screen_step s (TxAdd bytes) = page_event (AddTunnel bytes) s"
| "tunnels_screen_step s (TxEdit i) = page_event (EditTunnel i) s"
| "tunnels_screen_step s (TxForm e) = page_event (EditForm e) s"
| "tunnels_screen_step s TxCancel = page_event CancelForm s"
| "tunnels_screen_step s TxSave = page_event SaveForm s"
| "tunnels_screen_step s (TxToggle i b) = page_event (ClickToggle i b) s"
| "tunnels_screen_step s (TxSaved n err) = page_event (Answer n err) s"
| "tunnels_screen_step s TxDismiss = page_event DismissError s"
| "tunnels_screen_step s (TxTrash i) = (let s' = card_update i (tc_delete_update delete_click) s in
     if card_armed i s then page_event (ClickDelete i) s' else s')"
| "tunnels_screen_step s (TxTime d) = s\<lparr>tx_now := tx_now s + int d, tx_cards := map (\<lambda>(j, c). (j, tc_delete_update (delete_clock d) c)) (tx_cards s)\<rparr>"
| "tunnels_screen_step s (TxTest i) = card_update i (tc_test_update (run_test (tunnel_bound (live_tunnel (tx_live s) i)))) s"
| "tunnels_screen_step s (TxTested i r) = card_update i (tc_test_update (test_answer r)) s"

section \<open>What it shows\<close>

definition chip_port :: "int \<Rightarrow> string" where
  "chip_port p = (if 0 < p then show_int p else em_dash)"

datatype tunnel_cell = NameCell string | ChipCell string | StateCell string string

definition gateway_columns :: "(tunnel_ui, tunnel_cell) column list" where
  "gateway_columns =
    [\<lparr>co_key = ''name'', co_header = ''Tunnel'', co_right = False, co_pin = True, co_render = (\<lambda>t. NameCell (tun_name t))\<rparr>,
     \<lparr>co_key = ''port'', co_header = ''Public port'', co_right = False, co_pin = False, co_render = (\<lambda>t. ChipCell (chip_port (tun_public_port t)))\<rparr>,
     \<lparr>co_key = ''state'', co_header = ''Server'', co_right = True, co_pin = False,
       co_render = (\<lambda>t. case gateway_tunnel_row t of (_, _, tone, lbl) \<Rightarrow> StateCell tone lbl)\<rparr>]"

text \<open>The gateway's card: the count in its corner, and the table.\<close>

definition gateway_card :: "tunnel_ui list option \<Rightarrow> string option \<times> tunnel_cell table_view" where
  "gateway_card live = (let ts = (case live of Some ts \<Rightarrow> ts | None \<Rightarrow> []) in
     (if ts \<noteq> [] then Some (show_nat (length ts)) else None,
      data_table gateway_columns tun_id (''No tunnels registered'', Some ''Tunnels appear here once an agent connects and registers its ports.'') ts))"

record test_view =
  tv_label :: string
  tv_disabled :: bool
  tv_title :: string
  tv_msg :: "(string \<times> bool) option"          \<comment> \<open>the message, and whether it is a good one\<close>

definition test_shows :: "tunnel_ui option \<Rightarrow> path_test \<Rightarrow> test_view" where
  "test_shows l s = \<lparr>tv_label = (if pt_state s = TestBusy then ''Testing'' @ ellipsis else ''Test player path''),
     tv_disabled = (\<not> tunnel_bound l \<or> pt_state s = TestBusy),
     tv_title = (case l of Some t \<Rightarrow> if tunnel_bound l then ''Dial the gateway on port '' @ show_int (tun_public_port t) @ '' '' @ em_dash @ '' the exact path a player takes''
         else ''Tunnel not bound yet'' | None \<Rightarrow> ''Tunnel not bound yet''),
     tv_msg = (if pt_msg s = '''' then None else Some (pt_msg s, pt_state s = TestOk))\<rparr>"

definition delete_shows :: "delete_button \<Rightarrow> string" where
  "delete_shows s = (if db_armed s = None then ''Delete'' else ''Click again to delete this tunnel'')"

definition route_arrow :: string where "route_arrow = [CHR 0xE2, CHR 0x86, CHR 0x92]"

record card_view =
  cv_key :: string
  cv_name :: string
  cv_route :: string
  cv_badges :: "string list"
  cv_advanced :: "(string \<times> (string \<times> string) list) option"
  cv_enabled :: bool
  cv_test :: test_view
  cv_delete :: string

definition card_shows :: "tunnel_ui list option \<Rightarrow> tunnel \<Rightarrow> tunnel_card \<Rightarrow> card_view" where
  "card_shows live t c = (let l = live_tunnel live (tnl_id t); rows = advanced_rows (tnl_options t) in
     \<lparr>cv_key = tnl_id t, cv_name = tnl_name t, cv_route = tnl_local_addr t @ '' '' @ route_arrow @ '' :'' @ show_int (tnl_public_port t),
      cv_badges = card_badges t l, cv_advanced = (if rows = [] then None else Some (advanced_hint (tnl_options t), rows)),
      cv_enabled = tnl_enabled t, cv_test = test_shows l (tc_test c), cv_delete = delete_shows (tc_delete c)\<rparr>)"

record editor_view =
  ev_title :: string
  ev_name :: string
  ev_addr :: string
  ev_port :: string
  ev_cap :: string
  ev_scope :: "string \<times> bool"                   \<comment> \<open>the scope, and whether the choice is disabled\<close>
  ev_scope_hint :: string
  ev_save :: "string \<times> bool"

definition editor_shows :: "tunnels_page \<Rightarrow> editor_view option" where
  "editor_shows s = map_option (\<lambda>f. let t = te_tunnel f; o' = tnl_options t; capped = 0 < topt_bandwidth_limit_mbps o' in
     \<lparr>ev_title = editor_title s, ev_name = tnl_name t, ev_addr = tnl_local_addr t, ev_port = show_int (tnl_public_port t),
      ev_cap = show_int (topt_bandwidth_limit_mbps o'),
      ev_scope = (if topt_bandwidth_limit_scope o' = '''' then ''combined'' else topt_bandwidth_limit_scope o', \<not> capped),
      ev_scope_hint = (if capped then ''What the cap applies to: both directions together, each direction, or each connection.'' else ''Set a cap first.''),
      ev_save = (if te_saving f then ''Saving'' @ ellipsis else ''Save'', \<not> form_savable f)\<rparr>) (tp_form s)"

definition cards_shown :: "tunnels_screen \<Rightarrow> card_view list" where
  "cards_shown s = map (\<lambda>t. card_shows (tx_live s) t (case map_of (tx_cards s) (tnl_id t) of Some c \<Rightarrow> c | None \<Rightarrow> card_mount (tx_now s))) (tp_tunnels (tx_page s))"

record tunnels_shown =
  th_error :: "string option"
  th_skeleton :: bool
  th_none_yet :: bool
  th_cards :: "card_view list"
  th_editor :: "editor_view option"

datatype tunnels_view = GatewayTunnels "string option" "tunnel_cell table_view" | AgentTunnels tunnels_shown

definition tunnels_shows :: "bool \<Rightarrow> tunnels_screen \<Rightarrow> tunnels_view" where
  "tunnels_shows is_agent s = (if \<not> is_agent then (case gateway_card (tx_live s) of (n, t) \<Rightarrow> GatewayTunnels n t)
     else AgentTunnels \<lparr>th_error = truthy (Some (tp_err (tx_page s))), th_skeleton = (\<not> tp_loaded (tx_page s)),
       th_none_yet = (tp_loaded (tx_page s) \<and> tp_tunnels (tx_page s) = []), th_cards = cards_shown s, th_editor = editor_shows (tx_page s)\<rparr>)"

section \<open>The cards of a run\<close>

definition card_ok :: "int \<Rightarrow> tunnel_card \<Rightarrow> bool" where
  "card_ok now c \<longleftrightarrow> db_now (tc_delete c) = now \<and> delete_inv (tc_delete c) \<and> test_inv (tc_test c)"

definition tunnels_screen_inv :: "tunnels_screen \<Rightarrow> bool" where
  "tunnels_screen_inv s \<longleftrightarrow> map fst (tx_cards s) = tunnel_ids (tp_tunnels (tx_page s)) \<and> (\<forall>(i, c) \<in> set (tx_cards s). card_ok (tx_now s) c)"

lemma card_ok_mount: "card_ok now (card_mount now)"
  by (simp add: card_ok_def card_mount_def delete_mount_def delete_inv_def path_test_mount_def test_inv_def)

lemma card_ok_click: "card_ok now c \<Longrightarrow> card_ok now (tc_delete_update delete_click c)"
  using delete_button.inv_step [of "tc_delete c" None] by (auto simp: card_ok_def delete_click_def split: option.split)

lemma card_ok_time: "card_ok now c \<Longrightarrow> card_ok (now + int d) (tc_delete_update (delete_clock d) c)"
  using delete_button.inv_step [of "tc_delete c" "Some d"] by (simp add: card_ok_def delete_clock_def Let_def)

lemma card_ok_test: "card_ok now c \<Longrightarrow> card_ok now (tc_test_update (run_test b) c)" "card_ok now c \<Longrightarrow> card_ok now (tc_test_update (test_answer r) c)"
  using path_test.inv_step [of "tc_test c" "RunTest b"] path_test.inv_step [of "tc_test c" "TestAnswer r"] by (simp_all add: card_ok_def)

lemma inv_card_update:
  assumes "tunnels_screen_inv s" and "\<And>c. card_ok (tx_now s) c \<Longrightarrow> card_ok (tx_now s) (f c)"
  shows "tunnels_screen_inv (card_update i f s)"
  using assms by (auto simp: tunnels_screen_inv_def card_update_def comp_def split_def)

lemma inv_page_event:
  assumes "tunnels_screen_inv s"
  shows "tunnels_screen_inv (page_event e s)"
proof -
  have "card_ok (tx_now s) c" if "map_of (tx_cards s) i = Some c" for i c
    using assms map_of_SomeD [OF that] by (auto simp: tunnels_screen_inv_def)
  then show ?thesis
    by (auto simp: tunnels_screen_inv_def page_event_def cards_render_def comp_def card_ok_mount split: option.split)
qed

lemma tunnels_screen_inv_step: "tunnels_screen_inv s \<Longrightarrow> tunnels_screen_inv (tunnels_screen_step s e)"
proof (cases e)
  case (TxTime d)
  assume "tunnels_screen_inv s"
  with TxTime show ?thesis by (auto simp: tunnels_screen_inv_def comp_def split_def card_ok_time)
next
  case (TxTrash i)
  assume "tunnels_screen_inv s"
  then have "tunnels_screen_inv (card_update i (tc_delete_update delete_click) s)" by (rule inv_card_update) (rule card_ok_click)
  with TxTrash show ?thesis by (simp add: Let_def inv_page_event)
next
  case (TxTest i)
  assume "tunnels_screen_inv s"
  with TxTest show ?thesis by (simp add: inv_card_update card_ok_test)
next
  case (TxTested i r)
  assume "tunnels_screen_inv s"
  with TxTested show ?thesis by (simp add: inv_card_update card_ok_test)
qed (simp_all add: inv_page_event, simp add: tunnels_screen_inv_def)

interpretation tunnel_cards: invariant_machine tunnels_screen_step tunnels_screen_inv
  by unfold_locales (rule tunnels_screen_inv_step)

lemma tunnels_screen_inv_mount: "tunnels_screen_inv (tunnels_screen_mount now live stored)"
  by (simp add: tunnels_screen_inv_def tunnels_screen_mount_def tunnels_mount_def tunnel_ids_def)


section \<open>What is sent\<close>

lemma edited_list_keeps: "i \<in> set (tunnel_ids ts) \<Longrightarrow> ed \<noteq> DeleteTunnel i \<Longrightarrow> i \<in> set (tunnel_ids (edited_list ts ed))"
  by (cases ed) (simp_all add: saved_list_ids toggled_list_ids, auto simp: tunnel_ids_def deleted_list_def)

lemma sent_list:
  assumes "c \<in> set (tp_flight (tunnels_step p e))" and "c \<notin> set (tp_flight p)"
  shows "\<exists>ed. fst (snd c) = edited_list (tp_tunnels p) ed \<and> (\<forall>i. ed = DeleteTunnel i \<longrightarrow> e = ClickDelete i)"
proof (cases e)
  case SaveForm
  then obtain f where "tp_form p = Some f" "form_savable f" using assms by (auto simp: save_form_def split: option.splits if_splits)
  with assms SaveForm have "fst (snd c) = edited_list (tp_tunnels p) (SaveTunnel (te_tunnel f))" by (auto simp: save_form_def on_edit_def)
  then show ?thesis by blast
next
  case (ClickDelete i)
  with assms have "fst (snd c) = edited_list (tp_tunnels p) (DeleteTunnel i)" by (auto simp: on_edit_def split: if_splits)
  with ClickDelete show ?thesis by blast
next
  case (ClickToggle i b)
  with assms have "fst (snd c) = edited_list (tp_tunnels p) (EnableTunnel i b)" by (auto simp: on_edit_def split: if_splits)
  then show ?thesis by blast
next
  case (Answer n err)
  with assms show ?thesis by (auto simp: persist_answer_def Let_def split: option.splits)
next
  case ReadConfig
  with assms show ?thesis by (auto simp: read_config_def split: if_splits)
next
  case ConfigArrives
  with assms show ?thesis by (auto simp: config_arrives_def split: config_read.splits)
next
  case (ConfigFails x)
  with assms show ?thesis by (auto simp: config_fails_def split: if_splits)
next
  case (EditTunnel i)
  with assms show ?thesis by (auto split: option.splits)
qed (use assms in auto)

lemma page_of_event: "tx_page (page_event e s) = tunnels_step (tx_page s) e"
  by (simp add: page_event_def cards_render_def)

lemma page_of_update: "tx_page (card_update i f s) = tx_page s"
  by (simp add: card_update_def)

text \<open>The page takes a step of its own machine or none, and deletes only by an armed button.\<close>

fun page_event_of :: "tunnels_screen \<Rightarrow> tunnels_screen_event \<Rightarrow> tunnels_event option" where
  "page_event_of s TxRead = Some ReadConfig"
| "page_event_of s TxArrives = Some ConfigArrives"
| "page_event_of s (TxReadFails e) = Some (ConfigFails e)"
| "page_event_of s (TxAdd bytes) = Some (AddTunnel bytes)"
| "page_event_of s (TxEdit i) = Some (EditTunnel i)"
| "page_event_of s (TxForm e) = Some (EditForm e)"
| "page_event_of s TxCancel = Some CancelForm"
| "page_event_of s TxSave = Some SaveForm"
| "page_event_of s (TxToggle i b) = Some (ClickToggle i b)"
| "page_event_of s (TxSaved n err) = Some (Answer n err)"
| "page_event_of s TxDismiss = Some DismissError"
| "page_event_of s (TxTrash i) = (if card_armed i s then Some (ClickDelete i) else None)"
| "page_event_of s _ = None"

lemma screen_page_step:
  "tx_page (tunnels_screen_step s e) = (case page_event_of s e of None \<Rightarrow> tx_page s | Some x \<Rightarrow> tunnels_step (tx_page s) x)"
  by (cases e) (simp_all add: page_of_event page_of_update Let_def del: tunnels_step.simps)

lemma page_deletes: "page_event_of s e = Some (ClickDelete i) \<Longrightarrow> e = TxTrash i \<and> card_armed i s"
  by (cases e) (auto split: if_splits)

text \<open>A list that could not be read leaves its skeletons on the screen for good, also above tunnels that are saved afterwards.\<close>

lemma never_loaded:
  assumes "tp_read p = ReadOver" and "\<not> tp_loaded p"
  shows "tp_read (tunnels_step p e) = ReadOver \<and> \<not> tp_loaded (tunnels_step p e)"
  using assms
  by (cases e) (auto simp: read_config_def config_arrives_def config_fails_def set_editing_def save_form_def on_edit_def persist_def persist_answer_def save_returns_def Let_def
      split: option.splits)

section \<open>Properties\<close>

text \<open>C32. No tunnel is lost by accident: whatever has happened before, a list that is sent without a tunnel that is on the screen is sent by the
  second click on that tunnel's own delete button, less than two and a half seconds after the first.\<close>

theorem deletes_what_was_confirmed:
  assumes "s = foldl tunnels_screen_step (tunnels_screen_mount now live stored) es"
    and "(n, ts, inst) \<in> set (tp_flight (tx_page (tunnels_screen_step s e)))" and "(n, ts, inst) \<notin> set (tp_flight (tx_page s))"
    and "j \<in> set (tunnel_ids (tp_tunnels (tx_page s)))" and "j \<notin> set (tunnel_ids ts)"
  shows "e = TxTrash j \<and> (\<exists>c due. map_of (tx_cards s) j = Some c \<and> db_armed (tc_delete c) = Some due \<and> due - 2500 \<le> tx_now s \<and> tx_now s < due)"
proof -
  from screen_page_step [of s e] assms(2,3) obtain x where x: "tx_page (tunnels_screen_step s e) = tunnels_step (tx_page s) x"
    and click: "page_event_of s e = Some x" by (cases "page_event_of s e") auto
  from sent_list [OF assms(2) [unfolded x] assms(3)] obtain ed where ed: "ts = edited_list (tp_tunnels (tx_page s)) ed" "\<And>i. ed = DeleteTunnel i \<Longrightarrow> x = ClickDelete i"
    by auto
  with edited_list_keeps [OF assms(4), of ed] assms(5) have "ed = DeleteTunnel j" by blast
  with ed(2) click page_deletes have e: "e = TxTrash j" and "card_armed j s" by blast+
  then obtain c due where c: "map_of (tx_cards s) j = Some c" "db_armed (tc_delete c) = Some due"
    by (auto simp: card_armed_def split: option.splits)
  have "tunnels_screen_inv s" unfolding assms(1) by (rule tunnel_cards.inv_run [OF tunnels_screen_inv_mount])
  with map_of_SomeD [OF c(1)] have "card_ok (tx_now s) c" by (auto simp: tunnels_screen_inv_def)
  with c(2) have "due - 2500 \<le> tx_now s \<and> tx_now s < due" by (auto simp: card_ok_def delete_inv_def)
  with e c show ?thesis by blast
qed


section \<open>Witnesses\<close>

definition armed_screen :: tunnels_screen where
  "armed_screen = foldl tunnels_screen_step (tunnels_screen_mount 0 None [sample_tunnel]) [TxRead, TxArrives, TxTrash ''01ff'', TxTime 1000]"

lemma armed_screen_parts:
  "tp_tunnels (tx_page armed_screen) = [sample_tunnel]" "tp_flight (tx_page armed_screen) = []" "tp_next (tx_page armed_screen) = 0" "tx_now armed_screen = 1000"
  "map_of (tx_cards armed_screen) ''01ff'' = Some \<lparr>tc_delete = \<lparr>db_now = 1000, db_armed = Some 2500, db_deletes = []\<rparr>, tc_test = path_test_mount\<rparr>"
  by (simp_all add: armed_screen_def tunnels_screen_mount_def tunnels_mount_def page_event_def cards_render_def read_config_def config_arrives_def tunnel_ids_def sample_id
      card_mount_def delete_mount_def card_update_def card_armed_def delete_click_def delete_clock_def Let_def)

theorem deletes_what_was_confirmed_witness:
  "\<exists>c due. map_of (tx_cards armed_screen) ''01ff'' = Some c \<and> db_armed (tc_delete c) = Some due \<and> due - 2500 \<le> tx_now armed_screen \<and> tx_now armed_screen < due"
proof -
  have ids: "tunnel_ids (tp_tunnels (tx_page armed_screen)) = [''01ff'']" by (simp add: armed_screen_parts tunnel_ids_def sample_id)
  have "card_armed ''01ff'' armed_screen" by (simp add: card_armed_def armed_screen_parts)
  then have "tp_flight (tx_page (tunnels_screen_step armed_screen (TxTrash ''01ff''))) = [(0, [], None)]"
    by (simp add: Let_def page_of_event page_of_update tunnel_ids_def on_edit_def armed_screen_parts deleted_list_def sample_id)
  with ids show ?thesis
    using deletes_what_was_confirmed [OF armed_screen_def, of 0 "[]" None "TxTrash ''01ff''" "''01ff''"]
    by (simp add: armed_screen_parts tunnel_ids_def)
qed

end
