(* ===== verification/Spec2Isabelle.thy ===== *)
theory Spec2Isabelle
  imports Band_Machine Setup Settings_Form Line_Chart World_Map Series_Pref Subscriptions Frame Fleet_Screen Activity_Screen Widgets Analytics_Cards Bindings Overview_Screen Tunnels_Screen
begin

text \<open>
  \<^bold>\<open>The desktop frontend of proxyforward.\<close> The program forwards the ports of a game server through a
  gateway; its engine is written in Go, its desktop window in TypeScript (\<open>src/frontend/src\<close>). This
  development models the TypeScript: the shell that decides which screen is up, the hooks that poll
  the engine, the screens' data handling, the chart, the controls, and the overscroll engine. The
  engine is the environment: what it answers arrives as an event of the model, with arbitrary
  content and in arbitrary order, and a call of it is recorded in the state when it is made.

  \<^bold>\<open>How code becomes HOL.\<close>
  \<^item> A pure function is a \<open>definition\<close> or \<open>fun\<close> under its own name in snake case (\<open>fmtBytes\<close> is
    \<open>fmt_bytes\<close>, \<open>coverageRuns\<close> is \<open>coverage_runs\<close>).
  \<^item> A component or hook with state is a record of its \<open>useState\<close> and \<open>useRef\<close> cells, one function per
    handler, effect or asynchronous continuation, and a \<open>_step\<close> function over a datatype of events; a
    run is \<open>foldl step mount es\<close>, so that every interleaving of user, timers, answers and unmounts
    is some list \<open>es\<close>. Theorems about such a component quantify over all \<open>es\<close>.
  \<^item> A closure that an effect leaves behind (an answer in flight, a timer) carries what it captured:
    the generation of its effect, its key, its token.
  \<^item> Errors are values: \<open>option\<close> where the code returns null or undefined, a sum where a promise rejects.
  \<^item> Loops are structural recursion, folds over arrays, or the list \<^const>\<open>loop_values\<close> of a counting loop;
    every definition is total, and no theorem rests on fuel.

  \<^bold>\<open>The theories, and the code each one follows.\<close>
  \<^item> \<open>Prelude\<close>: JavaScript numbers, strings, arrays, maps, \<open>sort\<close>, \<open>Math.max\<close>.
  \<^item> \<open>Contracts\<close>: the interfaces, as locales. \<open>invariant_machine\<close> (a step function and a property every
    step keeps; runs and traces keep it), \<open>settling_machine\<close> (an event that drains a measure),
    \<open>refining_machine\<close> (a machine that implements an abstract one through an abstraction function),
    \<open>pref\<close> (a stored preference: load after save, frame, locality), \<open>axis_scale\<close> (an axis top that
    covers the data), \<open>comparator\<close> and \<open>key_comparator\<close> (callbacks of \<open>sort\<close>: sorted and stable results).
    \<open>Feeds\<close> adds \<open>cursor_feed\<close> (a tail that asks for what is newer than its cursor), \<open>Subscriptions\<close> adds \<open>notifying_store\<close> (a store
    whose changes reach its subscribers). Each is interpreted on the definitions of the theories below.
  \<^item> \<open>Model\<close>: the records of \<open>wailsjs/go/models.ts\<close>.
  \<^item> \<open>Format\<close>: \<open>state.ts\<close>, and the formatting and parsing helpers of \<open>players.ts\<close>, \<open>analytics.ts\<close>,
    \<open>Traffic.tsx\<close>, \<open>Wizard.tsx\<close>.
  \<^item> \<open>Prefs\<close>, \<open>Theme\<close>: \<open>fx.ts\<close>, \<open>motion.ts\<close>, the preferences of \<open>history.ts\<close> and \<open>Agents.tsx\<close>; \<open>theme.ts\<close>.
  \<^item> \<open>Hooks\<close>, \<open>Feeds\<close>: \<open>hooks.ts\<close>, the polling hooks of \<open>state.ts\<close>, \<open>history.ts\<close>, \<open>players.ts\<close>, \<open>pagecontext.ts\<close>; the
    cursor tails of \<open>Agents.tsx\<close> and \<open>Activity.tsx\<close> against the server rings of \<open>devmock.ts\<close>.
  \<^item> \<open>Data_Layer\<close>: the typed hooks of \<open>players.ts\<close>, \<open>analytics.ts\<close> and \<open>Agents.tsx\<close> over the one polling hook: cache, key, call, cadence.
    \<open>Subscriptions\<close>: \<open>useMotion\<close>, \<open>useTheme\<close> and \<open>useTitleContext\<close> over the module stores.
  \<^item> \<open>Bindings\<close>: the constructors of the classes in \<open>wailsjs/go/models.ts\<close>, \<open>convertValues\<close> and \<open>createFrom\<close>, over untyped values.
  \<^item> \<open>Roster\<close>, \<open>Management\<close>: \<open>Agents.tsx\<close>; \<open>Fleet_Screen\<close> is its root component around them. \<open>Traffic\<close>: \<open>Traffic.tsx\<close> and the filter
    of \<open>Activity.tsx\<close>; \<open>Activity_Screen\<close> is that screen around filter and tail.
  \<^item> \<open>Scales\<close>, \<open>Chart\<close>, \<open>Chart_Marks\<close>: \<open>charts/util.ts\<close> and \<open>BandwidthChart.tsx\<close>; \<open>Chart_Marks\<close> has what is drawn on the
    geometry of \<open>Chart\<close>: legend, teaser, bars, candles, uptime strip, labels, crosshair. \<open>Line_Chart\<close>: \<open>charts/LineChart.tsx\<close>.
  \<^item> \<open>World_Geo\<close>, \<open>World_Map\<close>: \<open>charts/worldgeo.ts\<close> (codes, names and label anchors) and \<open>charts/WorldMap.tsx\<close>, with the hover and
    the filter it shares with \<open>GeoRank.tsx\<close>.
  \<^item> \<open>Series_Pref\<close>: the series preference of \<open>history.ts\<close>, the JSON it is read with, and the panel of \<open>BandwidthChart.tsx\<close> as a machine
    over its four preferences.
  \<^item> \<open>Band_Physics\<close>, \<open>Band_Machine\<close>: \<open>rubberband.ts\<close>.
  \<^item> \<open>Controls\<close>: \<open>ui.tsx\<close>, \<open>NumberTicker.tsx\<close>, \<open>AvatarImg.tsx\<close>, \<open>avatars.ts\<close>. \<open>Widgets\<close>: the other components of \<open>ui.tsx\<close>, and \<open>DataTable.tsx\<close>.
  \<^item> \<open>Frame\<close>: the lamp of \<open>Shell.tsx\<close>, \<open>WindowControls.tsx\<close>, the menu and dialog of \<open>RoleSwitcher.tsx\<close>, the texts of \<open>Sidebar.tsx\<close>.
  \<^item> \<open>Console\<close>: \<open>App.tsx\<close>, \<open>nav.ts\<close>, \<open>commands.tsx\<close>, \<open>CommandPalette.tsx\<close>, \<open>ConnectionPill.tsx\<close>, \<open>TitleBar.tsx\<close>, \<open>Sidebar.tsx\<close>.
  \<^item> \<open>Setup\<close>: \<open>Wizard.tsx\<close>, \<open>RoleSwitcher.tsx\<close>, \<open>SetupBackup.tsx\<close>.
  \<^item> \<open>Tunnels\<close>, \<open>Settings\<close>: \<open>Tunnels.tsx\<close>; \<open>Settings.tsx\<close>. \<open>Tunnels_Screen\<close> composes list, cards, delete buttons and path tests;
    \<open>Settings_Form\<close> has every row of the settings as a control with its edit, and the page around them.
  \<^item> \<open>Json\<close>: what \<open>JSON.stringify\<close> makes of the flat query objects that are cache keys. \<open>Players\<close>: \<open>Players.tsx\<close>,
    \<open>players.ts\<close>, \<open>GeoRank.tsx\<close>; \<open>Dossier\<close>: the dossier of \<open>Players.tsx\<close> as a machine over its range and polls, and the two tables of
    sessions. \<open>Dashboard\<close>: the computations of \<open>Analytics.tsx\<close>, \<open>analytics.ts\<close>; \<open>Analytics_Screen\<close>: the screen as one machine over range,
    country, paging, replay and playhead; \<open>Analytics_Cards\<close>: what its cards draw. \<open>Overview\<close>: \<open>Overview.tsx\<close>; \<open>Overview_Screen\<close>: the
    component over its parts, and the page.
  \<^item> \<open>Mock_Signal\<close>, \<open>Mock_World\<close>, \<open>Mock_Analytics\<close>: \<open>devmock.ts\<close>, the stand-in for the engine that answers
    the bindings in development: the hash noise and the bandwidth history; the axes, the fleet, the
    status, the bindings that change state and the tick; players, sessions and the analytics queries.

  \<^bold>\<open>What the lemmas show.\<close>
  \<^item> Machines keep their invariants on every run: what a poll shows belongs to its key (\<open>Hooks\<close>), a freeze
    class never outlives its transition (\<open>Theme\<close>), an edit survives polls (\<open>Management\<close>), a code always
    has the reusability the toggle says and a failing issue gives up (\<open>Setup\<close>), the rail's screen is
    reachable and the ambient light holds (\<open>Console\<close>), a band has a loop and a style exactly while it
    lives (\<open>Band_Machine\<close>), the tunnel list is the stored one (\<open>Tunnels\<close>), no incomplete
    configuration is sent (\<open>Settings\<close>), the pairing strip stops asking (\<open>Overview\<close>), every lit surface is reached by the
    lamp (\<open>Frame\<close>), a subscriber shows its store (\<open>Subscriptions\<close>).
  \<^item> Screens are composed of these parts, and their machines show what the parts are wired to: an answer that is shown is an answer to
    the call its component makes (\<open>Data_Layer\<close>), the fleet list is the roster of the last answer and a mutation outdates answers
    on their way (\<open>Fleet_Screen\<close>), the console follows its newest line (\<open>Activity_Screen\<close>), a dossier is about one player (\<open>Dossier\<close>),
    range, country, tunnel and page of the dashboard agree with the rows, the map and the replay on screen (\<open>Analytics_Screen\<close>), a tunnel
    leaves the list only by two clicks on its own card (\<open>Tunnels_Screen\<close>), a row of the settings edits its field and no other
    (\<open>Settings_Form\<close>), and the lights, conduits and cards of the overview are of one mind (\<open>Overview_Screen\<close>).
  \<^item> Data handling is compared with a specification: the merged clients' totals, rates per address, the
    latest conflict of each key, the sorted roster, coalesced candles, coverage runs, the palette's
    rows, the fleet health. The cursor tails refine the server's rings (\<open>Feeds\<close>), edits of
    the tunnel list refine updates of a map (\<open>Tunnels\<close>). The pages of a wall are the list (\<open>Players\<close>); an uptime band shows the state at
    each moment (\<open>Dashboard\<close>); a session reads the same in both tables (\<open>Dossier\<close>); the peak-hours grid lays a whole week out
    (\<open>Analytics_Cards\<close>). Whatever object the engine sends, the constructors make an instance of it, and of an instance and its copy through
    JSON the same instance (\<open>Bindings\<close>).
  \<^item> Drawing stays in its plot, axis tops cover the data, ticks lie in the window, menus in the viewport. A line chart has one row
    per timestamp and breaks exactly at unknown values (\<open>Line_Chart\<close>); candles keep to their wicks, the legend says what is
    drawn (\<open>Chart_Marks\<close>); map and ranking are views of one hover and one filter (\<open>World_Map\<close>).
  \<^item> The spring is the exact solution of its differential equation: independent of how time is cut
    into frames, without gain of energy, and it comes to rest (\<open>Band_Physics\<close>).
  \<^item> The mock keeps the promises the screens rely on: its directory of agents implements a map of overrides,
    status and directory agree on the fleet, a revoked agent stays revoked, counters do not fall (\<open>Mock_World\<close>);
    the history has no holes (\<open>Mock_Signal\<close>); an uptime percentage is what the band of \<open>Dashboard\<close> shows in
    green, country rows are sums over the session history, a replay reads out the rate it was sampled from
    (\<open>Mock_Analytics\<close>).
  \<^item> Round trips: pairing codes, scope fields, preferences, JSON strings; the chart panel opened anew is the panel left (\<open>Series_Pref\<close>).
  \<^item> What the code does against its intention is proved as well and listed as a finding.

  \<^bold>\<open>Bounds.\<close> Times and counters are unbounded integers, measurements are reals: no counter of the
  frontend comes near \<open>2\<^sup>5\<^sup>3\<close>, and rounding in the last place of a double is not modelled.

  \<^bold>\<open>Not modelled.\<close> The Go engine; the generated declarations of its calls and of the runtime, which carry no code; markup, classes, colours
  of strokes and icons; the outlines of the countries, which are only drawn; the parameter \<open>asMap\<close> of \<open>convertValues\<close>, which nothing sets.
\<close>

end
